(* ===== verification/GoPrelude.thy ===== *)
theory GoPrelude
  imports Complex_Main
    "HOL-Library.AList"
    "HOL-Library.Multiset"
    "HOL-Library.Char_ord"
    "HOL-Library.List_Lexorder"
begin

text \<open>
  What the Go sources use of the language and of its standard library, shared by every
  component: strings (\<open>strings\<close>), decimal integers and booleans (\<open>strconv\<close>), 64-bit signed
  arithmetic, instants and durations (\<open>time\<close>), dynamically typed values (\<open>any\<close>) and the
  lemmas on lists and association lists the component proofs share.

  Strings are byte strings over ASCII: \<open>strings.ToLower\<close>, \<open>strings.TrimSpace\<close> and
  \<open>strings.EqualFold\<close> coincide with the definitions below on ASCII text; bytes above 127
  are left as they are (Go would also fold non-ASCII letters and trim Unicode spaces).
\<close>

named_theorems go_str \<open>evaluation of the string helpers\<close>
named_theorems go_time \<open>unfolding of the time helpers\<close>

section \<open>Strings\<close>

definition lower_char :: "char \<Rightarrow> char" where
  "lower_char c = (let n = (of_char c :: nat) in if 65 \<le> n \<and> n \<le> 90 then char_of (n + 32) else c)"

definition to_lower :: "string \<Rightarrow> string" where
  "to_lower s = map lower_char s"

definition is_space :: "char \<Rightarrow> bool" where
  "is_space c = (let n = (of_char c :: nat) in n = 32 \<or> (9 \<le> n \<and> n \<le> 13))"

definition trim_left :: "string \<Rightarrow> string" where
  "trim_left s = dropWhile is_space s"

definition trim_right :: "string \<Rightarrow> string" where
  "trim_right s = rev (dropWhile is_space (rev s))"

definition trim_space :: "string \<Rightarrow> string" where
  "trim_space s = trim_right (trim_left s)"

definition equal_fold :: "string \<Rightarrow> string \<Rightarrow> bool" where
  "equal_fold a b = (to_lower a = to_lower b)"

lemma equal_fold_sym: "equal_fold a b = equal_fold b a"
  by (auto simp: equal_fold_def)

definition has_prefix :: "string \<Rightarrow> string \<Rightarrow> bool" where
  "has_prefix s p = (take (length p) s = p)"

definition has_suffix :: "string \<Rightarrow> string \<Rightarrow> bool" where
  "has_suffix s p = (length p \<le> length s \<and> drop (length s - length p) s = p)"

fun str_contains :: "string \<Rightarrow> string \<Rightarrow> bool" where
  "str_contains [] sub = (sub = [])"
| "str_contains (c # cs) sub = (has_prefix (c # cs) sub \<or> str_contains cs sub)"

text \<open>\<open>strings.LastIndex(s, string(c))\<close>; \<open>None\<close> is -1.\<close>

fun last_index :: "string \<Rightarrow> char \<Rightarrow> nat option" where
  "last_index [] x = None"
| "last_index (c # cs) x =
     (case last_index cs x of
        Some i \<Rightarrow> Some (Suc i)
      | None \<Rightarrow> if c = x then Some 0 else None)"

lemma lower_char_idem [simp]: "lower_char (lower_char c) = lower_char c"
  by (simp add: lower_char_def Let_def)

lemma to_lower_idem [simp]: "to_lower (to_lower s) = to_lower s"
  by (simp add: to_lower_def)

lemma to_lower_Nil_iff [simp]: "to_lower s = [] \<longleftrightarrow> s = []"
  by (simp add: to_lower_def)

lemma to_lower_Nil [simp]: "to_lower [] = []"
  by (simp add: to_lower_def)

lemma length_to_lower [simp]: "length (to_lower s) = length s"
  by (simp add: to_lower_def)

lemma trim_left_hd: "trim_left s = c # cs \<Longrightarrow> \<not> is_space c"
  by (auto simp: trim_left_def dropWhile_eq_Cons_conv)

lemma trim_right_last: "trim_right s \<noteq> [] \<Longrightarrow> \<not> is_space (last (trim_right s))"
  by (auto simp: trim_right_def last_rev hd_dropWhile)

lemma trim_right_id: "s = [] \<or> \<not> is_space (last s) \<Longrightarrow> trim_right s = s"
  by (cases s rule: rev_cases) (auto simp: trim_right_def)

lemma trim_left_id: "s = [] \<or> \<not> is_space (hd s) \<Longrightarrow> trim_left s = s"
  by (cases s) (auto simp: trim_left_def)

lemma trim_right_prefix: "\<exists>t. s = trim_right s @ t"
proof -
  have "s = rev (dropWhile is_space (rev s)) @ rev (takeWhile is_space (rev s))"
    by (metis rev_append rev_rev_ident takeWhile_dropWhile_id)
  then show ?thesis by (auto simp: trim_right_def)
qed

lemma hd_trim_right: "trim_right s \<noteq> [] \<Longrightarrow> hd (trim_right s) = hd s"
  by (metis hd_append2 trim_right_prefix)

lemma trim_space_Nil [simp]: "trim_space [] = []"
  by (simp add: trim_space_def trim_left_def trim_right_def)

lemma trim_space_idem [simp]: "trim_space (trim_space s) = trim_space s"
proof (cases "trim_space s = []")
  case True
  then show ?thesis by (simp only: True trim_space_Nil)
next
  case False
  then have ne: "trim_right (trim_left s) \<noteq> []" by (simp add: trim_space_def)
  then have ne2: "trim_left s \<noteq> []" by (auto simp: trim_right_def)
  have "\<not> is_space (hd (trim_left s))"
    using ne2 trim_left_hd by (metis list.collapse)
  then have "\<not> is_space (hd (trim_right (trim_left s)))"
    using hd_trim_right [OF ne] by simp
  then show ?thesis
    using trim_right_last [OF ne] ne
    by (simp add: trim_space_def trim_left_id trim_right_id)
qed

lemma last_index_None_iff: "last_index s c = None \<longleftrightarrow> c \<notin> set s"
  by (induction s) (auto split: option.splits)

lemma last_index_Some:
  "last_index s c = Some i \<Longrightarrow> i < length s \<and> s ! i = c \<and> c \<notin> set (drop (Suc i) s)"
  by (induction s arbitrary: i) (auto split: option.splits if_splits simp: last_index_None_iff)

section \<open>Decimal integers and booleans (package strconv)\<close>

definition int64_max :: int where "int64_max = 2 ^ 63 - 1"

definition int64_min :: int where "int64_min = - (2 ^ 63)"

definition in_int64 :: "int \<Rightarrow> bool" where
  "in_int64 x = (int64_min \<le> x \<and> x \<le> int64_max)"

text \<open>Two's complement wrap-around of an \<open>int64\<close> (and of Go's \<open>int\<close> on 64-bit platforms).\<close>

definition wrap64 :: "int \<Rightarrow> int" where
  "wrap64 x = (x + 2 ^ 63) mod 2 ^ 64 - 2 ^ 63"

lemma wrap64_in_range: "in_int64 (wrap64 x)"
  by (simp add: in_int64_def wrap64_def int64_min_def int64_max_def)

lemma wrap64_id: "in_int64 x \<Longrightarrow> wrap64 x = x"
  by (simp add: in_int64_def wrap64_def int64_min_def int64_max_def)

text \<open>Go's integer division and remainder truncate towards zero.\<close>

definition go_quot :: "int \<Rightarrow> int \<Rightarrow> int" where
  "go_quot a b = sgn a * sgn b * (\<bar>a\<bar> div \<bar>b\<bar>)"

definition go_rem :: "int \<Rightarrow> int \<Rightarrow> int" where
  "go_rem a b = a - b * go_quot a b"

lemma go_quot_nonneg: "0 \<le> a \<Longrightarrow> 0 < b \<Longrightarrow> go_quot a b = a div b"
  by (cases "a = 0") (auto simp: go_quot_def)

lemma go_rem_nonneg: "0 \<le> a \<Longrightarrow> 0 < b \<Longrightarrow> go_rem a b = a mod b"
  by (simp add: go_rem_def go_quot_nonneg minus_mult_div_eq_mod)

lemma go_rem_cong: "0 < b \<Longrightarrow> (go_rem a b) mod b = a mod b"
  using mod_mult_self2 [of a b "- go_quot a b"] by (simp add: go_rem_def)

lemma go_rem_bounds: "0 < b \<Longrightarrow> - b < go_rem a b \<and> go_rem a b < b"
proof (cases "0 \<le> a")
  case True
  assume b: "0 < b"
  show ?thesis
    using b go_rem_nonneg [OF True b] pos_mod_sign [OF b, of a] pos_mod_bound [OF b, of a]
    by linarith
next
  case False
  assume b: "0 < b"
  have "go_rem a b = - ((- a) mod b)"
    using b False by (simp add: go_rem_def go_quot_def minus_mult_div_eq_mod [symmetric])
  then show ?thesis using b pos_mod_sign [of b "- a"] pos_mod_bound [of b "- a"] by linarith
qed

definition is_digit :: "char \<Rightarrow> bool" where
  "is_digit c = (let n = (of_char c :: nat) in 48 \<le> n \<and> n \<le> 57)"

definition digit_val :: "char \<Rightarrow> nat" where
  "digit_val c = of_char c - 48"

definition digit_char :: "nat \<Rightarrow> char" where
  "digit_char d = char_of (d + 48)"

fun digits_value :: "nat \<Rightarrow> string \<Rightarrow> nat option" where
  "digits_value acc [] = Some acc"
| "digits_value acc (c # cs) =
     (if is_digit c then digits_value (10 * acc + digit_val c) cs else None)"

text \<open>\<open>strconv.ParseInt(s, 10, 64)\<close> and \<open>strconv.Atoi\<close>: \<open>None\<close> is a syntax or range error.\<close>

definition parse_int64 :: "string \<Rightarrow> int option" where
  "parse_int64 s =
     (case s of
        [] \<Rightarrow> None
      | c # cs \<Rightarrow>
          let neg = (c = CHR ''-'');
              ds = (if c = CHR ''-'' \<or> c = CHR ''+'' then cs else s)
          in if ds = [] then None
             else (case digits_value 0 ds of
                     None \<Rightarrow> None
                   | Some n \<Rightarrow>
                       let v = (if neg then - int n else int n)
                       in if in_int64 v then Some v else None))"

fun nat_digits :: "nat \<Rightarrow> string" where
  "nat_digits n =
     (if n < 10 then [digit_char n] else nat_digits (n div 10) @ [digit_char (n mod 10)])"

declare nat_digits.simps [simp del]

text \<open>\<open>strconv.FormatInt(i, 10)\<close>.\<close>

definition format_int64 :: "int \<Rightarrow> string" where
  "format_int64 i = (if i < 0 then CHR ''-'' # nat_digits (nat (- i)) else nat_digits (nat i))"

lemma of_char_digit_char: "d < 10 \<Longrightarrow> (of_char (digit_char d) :: nat) = d + 48"
  by (simp add: digit_char_def)

lemma digit_char_props [simp]:
  "d < 10 \<Longrightarrow> is_digit (digit_char d)"
  "d < 10 \<Longrightarrow> digit_val (digit_char d) = d"
  by (simp_all add: is_digit_def digit_val_def of_char_digit_char)

lemma digits_value_append:
  "digits_value a (xs @ ys) =
     (case digits_value a xs of None \<Rightarrow> None | Some b \<Rightarrow> digits_value b ys)"
  by (induction xs arbitrary: a) auto

lemma nat_digits_nonempty [simp]: "nat_digits n \<noteq> []"
  by (subst nat_digits.simps) simp

lemma nat_digits_value: "digits_value 0 (nat_digits n) = Some n"
proof (induction n rule: nat_digits.induct)
  case (1 n)
  show ?case
  proof (cases "n < 10")
    case True
    then show ?thesis by (subst nat_digits.simps) simp
  next
    case False
    then show ?thesis
      using "1.IH" by (subst nat_digits.simps) (simp add: digits_value_append)
  qed
qed

lemma nat_digits_all_digits: "c \<in> set (nat_digits n) \<Longrightarrow> is_digit c"
proof (induction n rule: nat_digits.induct)
  case (1 n)
  then show ?case
    by (subst (asm) (2) nat_digits.simps) (auto split: if_splits)
qed

lemma digit_not_sign: "is_digit c \<Longrightarrow> c \<noteq> CHR ''-'' \<and> c \<noteq> CHR ''+'' \<and> \<not> is_space c"
  by (auto simp: is_digit_def is_space_def Let_def)

lemma hd_nat_digits: "is_digit (hd (nat_digits n))" "is_digit (last (nat_digits n))"
  by (simp_all add: nat_digits_all_digits [OF hd_in_set] nat_digits_all_digits [OF last_in_set])

text \<open>Printing a 64-bit integer and parsing it back is the identity.\<close>

lemma parse_format_int64: "in_int64 i \<Longrightarrow> parse_int64 (format_int64 i) = Some i"
proof (cases "i < 0")
  case True
  assume "in_int64 i"
  with True show ?thesis
    by (simp add: format_int64_def parse_int64_def nat_digits_value Let_def)
next
  case False
  assume r: "in_int64 i"
  obtain c cs where ds: "nat_digits (nat i) = c # cs"
    by (cases "nat_digits (nat i)") auto
  then have "is_digit c" using hd_nat_digits(1) [of "nat i"] by simp
  then have "c \<noteq> CHR ''-'' \<and> c \<noteq> CHR ''+''" using digit_not_sign by blast
  with False r ds show ?thesis
    using nat_digits_value [of "nat i"]
    by (simp add: format_int64_def parse_int64_def)
qed

lemma trim_space_format_int64 [simp]: "trim_space (format_int64 i) = format_int64 i"
proof -
  have "\<not> is_space (hd (format_int64 i)) \<and> \<not> is_space (last (format_int64 i))"
    using hd_nat_digits digit_not_sign
    by (auto simp: format_int64_def is_space_def)
  then show ?thesis by (simp add: trim_space_def trim_left_id trim_right_id)
qed

lemma format_int64_nonempty [simp]: "format_int64 i \<noteq> []"
  by (simp add: format_int64_def)

text \<open>\<open>strconv.ParseBool\<close>.\<close>

definition parse_bool :: "string \<Rightarrow> bool option" where
  "parse_bool s =
     (if s \<in> set [''1'', ''t'', ''T'', ''true'', ''TRUE'', ''True''] then Some True
      else if s \<in> set [''0'', ''f'', ''F'', ''false'', ''FALSE'', ''False''] then Some False
      else None)"

section \<open>Instants and durations (package time)\<close>

text \<open>
  An instant is a number of nanoseconds on one time line; 0 is Go's zero \<open>time.Time\<close>, which
  the code uses as "not set". A duration is a number of nanoseconds.
\<close>

type_synonym gotime = int
type_synonym duration = int

abbreviation (input) zero_time :: gotime where "zero_time \<equiv> 0"

definition second :: duration where "second = 1000000000"

definition minute :: duration where "minute = 60 * second"

definition hour :: duration where "hour = 60 * minute"

definition is_zero :: "gotime \<Rightarrow> bool" where
  [go_time]: "is_zero t = (t = 0)"

definition after :: "gotime \<Rightarrow> gotime \<Rightarrow> bool" where
  [go_time]: "after t u = (u < t)"

definition before :: "gotime \<Rightarrow> gotime \<Rightarrow> bool" where
  [go_time]: "before t u = (t < u)"

text \<open>\<open>t.Sub(u)\<close> saturates at the range of a duration.\<close>

definition time_sub :: "gotime \<Rightarrow> gotime \<Rightarrow> duration" where
  "time_sub t u = max int64_min (min int64_max (t - u))"

section \<open>Dynamically typed values\<close>

text \<open>
  The dynamic types the sources distinguish in a type switch on \<open>any\<close>. A finite floating
  point number is the rational it denotes.
\<close>

datatype gofloat = FNaN | FInf bool | FFin rat

datatype goany =
    AnyNil
  | AnyBool bool
  | AnyInt int | AnyInt8 int | AnyInt16 int | AnyInt32 int | AnyInt64 int
  | AnyUint int | AnyUint8 int | AnyUint16 int | AnyUint32 int | AnyUint64 int
  | AnyFloat32 gofloat | AnyFloat64 gofloat
  | AnyNumber string
  | AnyString string
  | AnyBytes string
  | AnyMap "(string \<times> goany) list"
  | AnyOther

section \<open>Association lists\<close>

text \<open>
  A Go map whose iteration matters is an association list with distinct keys; its order is
  one of the iteration orders the runtime may choose, so a lemma about every list speaks
  about every iteration order.
\<close>

abbreviation keys_distinct :: "('k \<times> 'v) list \<Rightarrow> bool" where
  "keys_distinct m \<equiv> distinct (map fst m)"

lemma keys_distinct_update [intro, simp]:
  "keys_distinct m \<Longrightarrow> keys_distinct (AList.update k v m)"
  by (rule distinct_update)

lemma keys_distinct_delete [intro, simp]:
  "keys_distinct m \<Longrightarrow> keys_distinct (AList.delete k m)"
  by (rule distinct_delete)

lemma map_of_AList_update [simp]: "map_of (AList.update k v m) = (map_of m)(k \<mapsto> v)"
  by (rule update_conv')

lemma map_of_AList_delete [simp]: "map_of (AList.delete k m) = (map_of m)(k := None)"
  by (rule delete_conv')

lemmas alist_simps =
  keys_distinct_update keys_distinct_delete map_of_AList_update map_of_AList_delete

end
