(* ===== verification/CredentialWeight.thy ===== *)
theory CredentialWeight
  imports GoPrelude
begin

text \<open>
  Package \<open>internal/credentialweight\<close>: validation and parsing of the weight a credential
  carries, from a scheduler attribute (a string) or from auth-file metadata (a dynamically
  typed value). An error is \<open>Inl\<close> of its kind.
\<close>

datatype weight_error = WeightTooLarge | WeightNotInteger

definition weight_default :: int where "weight_default = 1"

definition weight_max :: int where "weight_max = 1000000"

definition weight_normalize :: "int \<Rightarrow> weight_error + int" where
  "weight_normalize w =
     (if w \<le> 0 then Inr 0
      else if w > weight_max then Inl WeightTooLarge
      else Inr w)"

definition weight_parse_string :: "string \<Rightarrow> weight_error + int" where
  "weight_parse_string raw0 =
     (let raw = trim_space raw0 in
      if raw = [] then Inr weight_default
      else (case parse_int64 raw of
              None \<Rightarrow> Inl WeightNotInteger
            | Some w \<Rightarrow> weight_normalize w))"

text \<open>The \<open>float64\<close> case; a \<open>float32\<close> is first widened, which does not change its value.\<close>

definition weight_parse_float :: "gofloat \<Rightarrow> weight_error + int" where
  "weight_parse_float f =
     (case f of
        FNaN \<Rightarrow> Inl WeightNotInteger
      | FInf _ \<Rightarrow> Inl WeightNotInteger
      | FFin q \<Rightarrow>
          (if of_int \<lfloor>q\<rfloor> \<noteq> q then Inl WeightNotInteger
           else if q \<le> 0 then Inr 0
           else if q > of_int weight_max then Inl WeightTooLarge
           else Inr \<lfloor>q\<rfloor>))"

fun weight_parse_value :: "goany \<Rightarrow> weight_error + int" where
  "weight_parse_value (AnyInt v) = weight_normalize v"
| "weight_parse_value (AnyInt8 v) = weight_normalize v"
| "weight_parse_value (AnyInt16 v) = weight_normalize v"
| "weight_parse_value (AnyInt32 v) = weight_normalize v"
| "weight_parse_value (AnyInt64 v) = weight_normalize v"
| "weight_parse_value (AnyUint v) = (if v > weight_max then Inl WeightTooLarge else Inr v)"
| "weight_parse_value (AnyUint8 v) = Inr v"
| "weight_parse_value (AnyUint16 v) = Inr v"
| "weight_parse_value (AnyUint32 v) = (if v > weight_max then Inl WeightTooLarge else Inr v)"
| "weight_parse_value (AnyUint64 v) = (if v > weight_max then Inl WeightTooLarge else Inr v)"
| "weight_parse_value (AnyFloat64 f) = weight_parse_float f"
| "weight_parse_value (AnyFloat32 f) = weight_parse_float f"
| "weight_parse_value (AnyNumber n) =
     (case parse_int64 n of None \<Rightarrow> Inl WeightNotInteger | Some w \<Rightarrow> weight_normalize w)"
| "weight_parse_value (AnyString s) = weight_parse_string s"
| "weight_parse_value _ = Inl WeightNotInteger"

text \<open>
  A value of a sized Go integer type lies in the range of that type: the well-typedness of a
  dynamically typed value.
\<close>

fun any_wf :: "goany \<Rightarrow> bool" where
  "any_wf (AnyInt v) = in_int64 v"
| "any_wf (AnyInt8 v) = (-(2 ^ 7) \<le> v \<and> v < 2 ^ 7)"
| "any_wf (AnyInt16 v) = (-(2 ^ 15) \<le> v \<and> v < 2 ^ 15)"
| "any_wf (AnyInt32 v) = (-(2 ^ 31) \<le> v \<and> v < 2 ^ 31)"
| "any_wf (AnyInt64 v) = in_int64 v"
| "any_wf (AnyUint v) = (0 \<le> v \<and> v < 2 ^ 64)"
| "any_wf (AnyUint8 v) = (0 \<le> v \<and> v < 2 ^ 8)"
| "any_wf (AnyUint16 v) = (0 \<le> v \<and> v < 2 ^ 16)"
| "any_wf (AnyUint32 v) = (0 \<le> v \<and> v < 2 ^ 32)"
| "any_wf (AnyUint64 v) = (0 \<le> v \<and> v < 2 ^ 64)"
| "any_wf _ = True"

lemma weight_normalize_range:
  "weight_normalize v = Inr w \<Longrightarrow> 0 \<le> w \<and> w \<le> weight_max"
  by (auto simp: weight_normalize_def weight_max_def split: if_splits)

lemma weight_normalize_id: "0 \<le> w \<Longrightarrow> w \<le> weight_max \<Longrightarrow> weight_normalize w = Inr w"
  by (auto simp: weight_normalize_def)

lemma weight_parse_string_range:
  "weight_parse_string s = Inr w \<Longrightarrow> 0 \<le> w \<and> w \<le> weight_max"
  by (auto simp: weight_parse_string_def Let_def weight_default_def weight_max_def
      split: if_splits option.splits dest: weight_normalize_range)

lemma weight_parse_float_range:
  "weight_parse_float f = Inr w \<Longrightarrow> 0 \<le> w \<and> w \<le> weight_max"
proof (cases f)
  case (FFin q)
  assume "weight_parse_float f = Inr w"
  with FFin have "w = 0 \<or> (w = \<lfloor>q\<rfloor> \<and> 0 < q \<and> q \<le> of_int weight_max)"
    by (auto simp: weight_parse_float_def split: if_splits)
  then show ?thesis
    using floor_mono [of q "of_int weight_max"] by (auto simp: weight_max_def)
qed (auto simp: weight_parse_float_def)

lemma weight_parse_value_range:
  "any_wf v \<Longrightarrow> weight_parse_value v = Inr w \<Longrightarrow> 0 \<le> w \<and> w \<le> weight_max"
  by (cases v)
     (auto simp: weight_max_def split: if_splits option.splits
       dest: weight_normalize_range weight_parse_string_range weight_parse_float_range)

lemma weight_max_in_int64: "0 \<le> w \<Longrightarrow> w \<le> weight_max \<Longrightarrow> in_int64 w"
  by (simp add: weight_max_def in_int64_def int64_min_def int64_max_def)

text \<open>Formatting an accepted weight and parsing the text gives the weight back.\<close>

lemma weight_parse_format:
  assumes "0 \<le> w" and "w \<le> weight_max"
  shows "weight_parse_string (format_int64 w) = Inr w"
  using assms weight_max_in_int64 [OF assms]
  by (simp add: weight_parse_string_def parse_format_int64 weight_normalize_id)

end
