(* ===== verification/AuthTypes.thy ===== *)
theory AuthTypes
  imports CredentialWeight
begin

text \<open>
  The credential record of \<open>sdk/cliproxy/auth\<close> and the functions that read it:
  \<open>types.go\<close>, \<open>status.go\<close>, \<open>errors.go\<close>, \<open>classification.go\<close>, \<open>config_apikey.go\<close>,
  \<open>weight.go\<close> and the attribute readers of \<open>selector.go\<close>. A pointer that may be nil is an
  option. \<open>Attributes\<close> and \<open>Metadata\<close> are only looked up, so they are partial functions;
  \<open>ModelStates\<close> is iterated, so it is an association list in iteration order. Fields that no
  modelled function reads (storage, the derived index, creation time, runtime) are left out.
\<close>

section \<open>Status and errors\<close>

datatype auth_status =
    StatusUnknown | StatusActive | StatusPending | StatusRefreshing
  | StatusError | StatusDisabled | StatusRaw string

record auth_error =
  err_code :: string
  err_message :: string
  err_retryable :: bool
  err_http :: int

definition request_scoped_error_code :: string where
  "request_scoped_error_code = ''request_scoped''"

definition connection_lifecycle_error_code :: string where
  "connection_lifecycle_error_code = ''connection_lifecycle''"

definition error_text :: "auth_error option \<Rightarrow> string" where
  "error_text e =
     (case e of
        None \<Rightarrow> []
      | Some x \<Rightarrow> if err_code x = [] then err_message x else err_code x @ '': '' @ err_message x)"

definition error_status_code :: "auth_error option \<Rightarrow> int" where
  "error_status_code e = (case e of None \<Rightarrow> 0 | Some x \<Rightarrow> err_http x)"

definition is_request_scoped :: "auth_error option \<Rightarrow> bool" where
  "is_request_scoped e =
     (case e of None \<Rightarrow> False | Some x \<Rightarrow> err_code x = request_scoped_error_code)"

section \<open>The credential and its per-model states\<close>

record quota_state =
  q_exceeded :: bool
  q_reason :: string
  q_next_recover :: gotime
  q_backoff :: int

definition no_quota :: quota_state where
  "no_quota = \<lparr>q_exceeded = False, q_reason = [], q_next_recover = 0, q_backoff = 0\<rparr>"

record model_state =
  ms_status :: auth_status
  ms_message :: string
  ms_unavailable :: bool
  ms_next_retry :: gotime
  ms_last_error :: "auth_error option"
  ms_quota :: quota_state
  ms_updated :: gotime

record request_bucket =
  rb_id :: int
  rb_success :: int
  rb_failed :: int

record auth =
  a_id :: string
  a_provider :: string
  a_prefix :: string
  a_file_name :: string
  a_label :: string
  a_status :: auth_status
  a_status_message :: string
  a_disabled :: bool
  a_unavailable :: bool
  a_proxy_url :: string
  a_attributes :: "string \<rightharpoonup> string"
  a_metadata :: "string \<rightharpoonup> goany"
  a_quota :: quota_state
  a_last_error :: "auth_error option"
  a_updated :: gotime
  a_last_refreshed :: gotime
  a_next_refresh :: gotime
  a_next_retry :: gotime
  a_model_states :: "(string \<times> model_state option) list"
  a_success :: int
  a_failed :: int
  a_recent :: "request_bucket list"

text \<open>The zero value of the struct with a given ID and provider, as \<open>&Auth{...}\<close> builds it.\<close>

definition new_auth :: "string \<Rightarrow> string \<Rightarrow> auth" where
  "new_auth i p =
     \<lparr>a_id = i, a_provider = p, a_prefix = [], a_file_name = [], a_label = [], a_status = StatusRaw [], a_status_message = [],
      a_disabled = False, a_unavailable = False, a_proxy_url = [], a_attributes = Map.empty, a_metadata = Map.empty,
      a_quota = no_quota, a_last_error = None, a_updated = 0, a_last_refreshed = 0,
      a_next_refresh = 0, a_next_retry = 0,
      a_model_states = [], a_success = 0, a_failed = 0,
      a_recent = replicate 20 \<lparr>rb_id = 0, rb_success = 0, rb_failed = 0\<rparr>\<rparr>"

section \<open>Attribute and metadata readers\<close>

definition auth_attribute :: "auth \<Rightarrow> string \<Rightarrow> string" where
  "auth_attribute a key = (case a_attributes a key of None \<Rightarrow> [] | Some v \<Rightarrow> trim_space v)"

definition auth_metadata_string :: "auth \<Rightarrow> string \<Rightarrow> string" where
  "auth_metadata_string a key =
     (case a_metadata a key of Some (AnyString v) \<Rightarrow> trim_space v | _ \<Rightarrow> [])"

definition normalize_auth_kind :: "string \<Rightarrow> string" where
  "normalize_auth_kind kind =
     (let k = to_lower (trim_space kind) in
      if k \<in> set [''apikey'', ''api_key'', ''api-key''] then ''apikey''
      else if k \<in> set [''oauth'', ''oauth2''] then ''oauth''
      else [])"

definition normalize_auth_source_kind :: "string \<Rightarrow> string" where
  "normalize_auth_source_kind source =
     (let k = to_lower (trim_space source) in
      if k = ''config'' then ''config''
      else if k \<in> set [''file'', ''filesystem''] then ''file''
      else if k = ''git'' then ''git''
      else if k \<in> set [''memory'', ''runtime'', ''runtime_only''] then ''memory''
      else if k \<in> set [''objectstore'', ''object-store''] then ''objectstore''
      else if k \<in> set [''postgres'', ''postgresql'', ''database'', ''db''] then ''postgres''
      else [])"

definition auth_has_oauth_metadata :: "auth \<Rightarrow> bool" where
  "auth_has_oauth_metadata a =
     (list_ex (\<lambda>key. auth_metadata_string a key \<noteq> [])
        [''access_token'', ''refresh_token'', ''id_token'', ''email'', ''token_type'',
         ''expires_at'', ''expired''] \<or>
      (case a_metadata a ''token'' of Some (AnyMap m) \<Rightarrow> m \<noteq> [] | _ \<Rightarrow> False))"

definition auth_kind :: "auth option \<Rightarrow> string" where
  "auth_kind ao =
     (case ao of
        None \<Rightarrow> []
      | Some a \<Rightarrow>
          let k1 = normalize_auth_kind (auth_attribute a ''auth_kind'');
              k2 = normalize_auth_kind (auth_metadata_string a ''auth_kind'')
          in if k1 \<noteq> [] then k1
             else if k2 \<noteq> [] then k2
             else if auth_attribute a ''api_key'' \<noteq> [] then ''apikey''
             else if auth_has_oauth_metadata a then ''oauth''
             else [])"

definition auth_source_kind :: "auth option \<Rightarrow> string" where
  "auth_source_kind ao =
     (case ao of
        None \<Rightarrow> []
      | Some a \<Rightarrow>
          let backend = normalize_auth_source_kind (auth_attribute a ''source_backend'');
              source = auth_attribute a ''source'';
              normalized = normalize_auth_source_kind source
          in if equal_fold (auth_attribute a ''runtime_only'') ''true'' then ''memory''
             else if backend \<noteq> [] then backend
             else if source \<noteq> [] then
               (if has_prefix (to_lower source) ''config:'' then ''config''
                else if normalized \<noteq> [] then normalized
                else ''file'')
             else if auth_attribute a ''path'' \<noteq> [] then ''file''
             else if trim_space (a_file_name a) \<noteq> [] then ''file''
             else [])"

definition is_config_api_key_auth :: "auth option \<Rightarrow> bool" where
  "is_config_api_key_auth ao =
     (case ao of
        None \<Rightarrow> False
      | Some a \<Rightarrow>
          auth_kind ao = ''apikey'' \<and> auth_source_kind ao = ''config'' \<and>
          auth_attribute a ''api_key'' \<noteq> [])"

definition normalize_credential_policy :: "string \<Rightarrow> string" where
  "normalize_credential_policy policy =
     (if to_lower (trim_space policy) = ''codex_alpha_search_v1''
      then ''codex_alpha_search_v1'' else [])"

definition credential_policy_allows :: "string \<Rightarrow> auth option \<Rightarrow> bool" where
  "credential_policy_allows policy ao =
     (case ao of
        None \<Rightarrow> False
      | Some a \<Rightarrow>
          if policy = ''codex_alpha_search_v1'' then
            (if \<not> equal_fold (trim_space (a_provider a)) ''codex'' then False
             else if auth_kind ao = ''oauth'' then True
             else if auth_kind ao = ''apikey''
               then equal_fold (auth_attribute a ''codex_alpha_search'') ''true''
             else False)
          else False)"

text \<open>\<open>AccountInfo\<close>: the kind and the account the credential stands for.\<close>

definition account_info :: "auth option \<Rightarrow> string \<times> string" where
  "account_info ao =
     (case ao of
        None \<Rightarrow> ([], [])
      | Some a \<Rightarrow>
          if auth_kind ao = ''oauth'' then
            (case a_metadata a ''email'' of
               Some (AnyString v) \<Rightarrow>
                 (if trim_space v \<noteq> [] then (''oauth'', trim_space v) else (''oauth'', []))
             | _ \<Rightarrow> (''oauth'', []))
          else if auth_kind ao = ''apikey'' then
            (if auth_attribute a ''api_key'' \<noteq> [] then (''api_key'', auth_attribute a ''api_key'')
             else (''api_key'', []))
          else ([], []))"

section \<open>Priority, weight and transport attributes (selector.go)\<close>

definition auth_priority :: "auth option \<Rightarrow> int" where
  "auth_priority ao =
     (case ao of
        None \<Rightarrow> 0
      | Some a \<Rightarrow>
          (case a_attributes a ''priority'' of
             None \<Rightarrow> 0
           | Some raw0 \<Rightarrow>
               let raw = trim_space raw0 in
               if raw = [] then 0
               else (case parse_int64 raw of None \<Rightarrow> 0 | Some p \<Rightarrow> p)))"

definition auth_metadata_weight :: "auth \<Rightarrow> int" where
  "auth_metadata_weight a =
     (case a_metadata a ''weight'' of
        None \<Rightarrow> weight_default
      | Some v \<Rightarrow> (case weight_parse_value v of Inl _ \<Rightarrow> 0 | Inr w \<Rightarrow> w))"

definition auth_weight :: "auth option \<Rightarrow> int" where
  "auth_weight ao =
     (case ao of
        None \<Rightarrow> weight_default
      | Some a \<Rightarrow>
          (case a_attributes a ''weight'' of
             Some raw \<Rightarrow>
               (if trim_space raw \<noteq> []
                then (case weight_parse_string raw of Inl _ \<Rightarrow> 0 | Inr w \<Rightarrow> w)
                else auth_metadata_weight a)
           | None \<Rightarrow> auth_metadata_weight a))"

definition auth_websockets_enabled :: "auth option \<Rightarrow> bool" where
  "auth_websockets_enabled ao =
     (case ao of
        None \<Rightarrow> False
      | Some a \<Rightarrow>
          let raw = auth_attribute a ''websockets'' in
          if raw \<noteq> [] \<and> parse_bool raw \<noteq> None then the (parse_bool raw)
          else (case a_metadata a ''websockets'' of
                  Some (AnyBool v) \<Rightarrow> v
                | Some (AnyString v) \<Rightarrow>
                    (case parse_bool (trim_space v) of Some b \<Rightarrow> b | None \<Rightarrow> False)
                | _ \<Rightarrow> False))"

section \<open>Weight validation (weight.go)\<close>

datatype weight_site_error =
    InvalidAttributesWeight weight_error
  | InvalidMetadataWeight weight_error

definition validate_auth_weight :: "auth option \<Rightarrow> weight_site_error option" where
  "validate_auth_weight ao =
     (case ao of
        None \<Rightarrow> None
      | Some a \<Rightarrow>
          (case map_option weight_parse_string (a_attributes a ''weight'') of
             Some (Inl e) \<Rightarrow> Some (InvalidAttributesWeight e)
           | _ \<Rightarrow>
               (case map_option weight_parse_value (a_metadata a ''weight'') of
                  Some (Inl e) \<Rightarrow> Some (InvalidMetadataWeight e)
                | _ \<Rightarrow> None)))"

definition apply_auth_weight_metadata ::
  "auth option \<Rightarrow> (string \<rightharpoonup> goany) option \<Rightarrow> weight_site_error + auth option" where
  "apply_auth_weight_metadata ao md =
     (case validate_auth_weight ao of
        Some e \<Rightarrow> Inl e
      | None \<Rightarrow>
          (case (ao, md) of
             (Some a, Some m) \<Rightarrow>
               (case m ''weight'' of
                  None \<Rightarrow> Inr ao
                | Some raw \<Rightarrow>
                    (case weight_parse_value raw of
                       Inl e \<Rightarrow> Inl (InvalidMetadataWeight e)
                     | Inr w \<Rightarrow>
                         Inr (Some (a\<lparr>a_attributes :=
                           (a_attributes a)(''weight'' \<mapsto> format_int64 w)\<rparr>))))
           | _ \<Rightarrow> Inr ao))"

section \<open>Per-credential overrides (types.go)\<close>

definition parse_bool_any :: "goany \<Rightarrow> bool option" where
  "parse_bool_any v =
     (case v of
        AnyBool b \<Rightarrow> Some b
      | AnyString s \<Rightarrow> (if trim_space s = [] then None else parse_bool (trim_space s))
      | AnyFloat64 f \<Rightarrow> Some (f \<noteq> FFin 0)
      | AnyNumber n \<Rightarrow> map_option (\<lambda>i. i \<noteq> 0) (parse_int64 n)
      | _ \<Rightarrow> None)"

text \<open>
  The conversion of a floating point number that does not fit \<open>int\<close> is
  implementation-dependent in Go: its result is the parameter \<open>oob\<close>.
\<close>

definition float_to_int :: "(gofloat \<Rightarrow> int) \<Rightarrow> gofloat \<Rightarrow> int" where
  "float_to_int oob f =
     (case f of
        FFin q \<Rightarrow>
          (let i = (if 0 \<le> q then \<lfloor>q\<rfloor> else - \<lfloor>- q\<rfloor>) in if in_int64 i then i else oob f)
      | _ \<Rightarrow> oob f)"

definition parse_int_any :: "(gofloat \<Rightarrow> int) \<Rightarrow> goany \<Rightarrow> int option" where
  "parse_int_any oob v =
     (case v of
        AnyInt i \<Rightarrow> Some i
      | AnyInt32 i \<Rightarrow> Some i
      | AnyInt64 i \<Rightarrow> Some i
      | AnyFloat64 f \<Rightarrow> Some (float_to_int oob f)
      | AnyNumber n \<Rightarrow> parse_int64 n
      | AnyString s \<Rightarrow> (if trim_space s = [] then None else parse_int64 (trim_space s))
      | _ \<Rightarrow> None)"

text \<open>The override is true-only: a parsed false ends the search as "not set".\<close>

definition disable_cooling_override :: "auth option \<Rightarrow> bool option" where
  "disable_cooling_override ao =
     (case ao of
        None \<Rightarrow> None
      | Some a \<Rightarrow>
          (case Option.bind (a_metadata a ''disable_cooling'') parse_bool_any of
             Some b \<Rightarrow> (if b then Some True else None)
           | None \<Rightarrow>
               (case Option.bind (a_metadata a ''disable-cooling'') parse_bool_any of
                  Some b \<Rightarrow> (if b then Some True else None)
                | None \<Rightarrow> None)))"

definition tool_prefix_disabled :: "auth option \<Rightarrow> bool" where
  "tool_prefix_disabled ao =
     (case ao of
        None \<Rightarrow> False
      | Some a \<Rightarrow>
          (case Option.bind (a_metadata a ''tool_prefix_disabled'') parse_bool_any of
             Some b \<Rightarrow> b
           | None \<Rightarrow>
               (case Option.bind (a_metadata a ''tool-prefix-disabled'') parse_bool_any of
                  Some b \<Rightarrow> b
                | None \<Rightarrow> False)))"

definition request_retry_override :: "(gofloat \<Rightarrow> int) \<Rightarrow> auth option \<Rightarrow> int option" where
  "request_retry_override oob ao =
     (case ao of
        None \<Rightarrow> None
      | Some a \<Rightarrow>
          (case Option.bind (a_metadata a ''request_retry'') (parse_int_any oob) of
             Some n \<Rightarrow> Some (if n < 0 then 0 else n)
           | None \<Rightarrow>
               (case Option.bind (a_metadata a ''request-retry'') (parse_int_any oob) of
                  Some n \<Rightarrow> Some (if n < 0 then 0 else n)
                | None \<Rightarrow> None)))"

end
