(* ===== verification/ThinkingSuffix.thy ===== *)
theory ThinkingSuffix
  imports GoPrelude
begin

text \<open>
  \<open>internal/thinking/suffix.go\<close>: the suffix \<open>model(value)\<close> of a model name and the three
  readings of its content (a number, a special mode, a level), with the mode and level
  constants of \<open>types.go\<close> and the router's canonical model key (\<open>selector.go\<close>).
\<close>

datatype thinking_mode = ModeBudget | ModeLevel | ModeNone | ModeAuto

record suffix_result =
  sr_model_name :: string
  sr_has_suffix :: bool
  sr_raw_suffix :: string

definition parse_suffix :: "string \<Rightarrow> suffix_result" where
  "parse_suffix model =
     (case last_index model CHR ''('' of
        None \<Rightarrow> \<lparr>sr_model_name = model, sr_has_suffix = False, sr_raw_suffix = []\<rparr>
      | Some last_open \<Rightarrow>
          if \<not> has_suffix model '')'' then
            \<lparr>sr_model_name = model, sr_has_suffix = False, sr_raw_suffix = []\<rparr>
          else
            \<lparr>sr_model_name = take last_open model, sr_has_suffix = True,
             sr_raw_suffix = drop (last_open + 1) (take (length model - 1) model)\<rparr>)"

definition parse_numeric_suffix :: "string \<Rightarrow> int option" where
  "parse_numeric_suffix raw =
     (if raw = [] then None
      else (case parse_int64 raw of
              None \<Rightarrow> None
            | Some v \<Rightarrow> if v < 0 then None else Some v))"

definition parse_special_suffix :: "string \<Rightarrow> thinking_mode option" where
  "parse_special_suffix raw =
     (if raw = [] then None
      else if to_lower raw = ''none'' then Some ModeNone
      else if to_lower raw \<in> set [''auto'', ''-1''] then Some ModeAuto
      else None)"

definition parse_level_suffix :: "string \<Rightarrow> string option" where
  "parse_level_suffix raw =
     (if raw = [] then None
      else if to_lower raw \<in> set [''minimal'', ''low'', ''medium'', ''high'', ''xhigh'', ''max'']
      then Some (to_lower raw) else None)"

text \<open>\<open>canonicalModelKey\<close>: the key under which the router keeps per-model state.\<close>

definition canonical_model_key :: "string \<Rightarrow> string" where
  "canonical_model_key model0 =
     (let model = trim_space model0 in
      if model = [] then []
      else let name = trim_space (sr_model_name (parse_suffix model)) in
           if name = [] then model else name)"

section \<open>Facts\<close>

lemma has_suffix_snoc: "has_suffix s [c] \<longleftrightarrow> s \<noteq> [] \<and> last s = c"
  by (cases s rule: rev_cases) (auto simp: has_suffix_def)

lemma parse_suffix_plain:
  "CHR ''('' \<notin> set m \<or> m = [] \<or> last m \<noteq> CHR '')'' \<Longrightarrow>
   parse_suffix m = \<lparr>sr_model_name = m, sr_has_suffix = False, sr_raw_suffix = []\<rparr>"
  by (auto simp: parse_suffix_def has_suffix_snoc last_index_None_iff split: option.splits)

lemma last_index_append_notin:
  "c \<notin> set ys \<Longrightarrow> last_index (xs @ c # ys) c = Some (length xs)"
  by (induction xs) (auto simp: last_index_None_iff [THEN iffD2])

lemma parse_suffix_compose:
  "CHR ''('' \<notin> set raw \<Longrightarrow>
   parse_suffix (m @ ''('' @ raw @ '')'') =
     \<lparr>sr_model_name = m, sr_has_suffix = True, sr_raw_suffix = raw\<rparr>"
  using last_index_append_notin [of "CHR ''(''" "raw @ '')''" m]
  by (simp add: parse_suffix_def has_suffix_snoc)

text \<open>A recognised suffix and the model name give the input back.\<close>

lemma parse_suffix_recompose:
  assumes "sr_has_suffix (parse_suffix m)"
  shows "m = sr_model_name (parse_suffix m) @ ''('' @ sr_raw_suffix (parse_suffix m) @ '')''"
proof -
  obtain i where i: "last_index m CHR ''('' = Some i" and suf: "has_suffix m '')''"
    using assms by (auto simp: parse_suffix_def split: option.splits if_splits)
  have il: "i < length m" "m ! i = CHR ''(''"
    using last_index_Some [OF i] by auto
  have lm: "m \<noteq> []" "last m = CHR '')''"
    using suf by (auto simp: has_suffix_snoc)
  have "i \<noteq> length m - 1"
    using il lm by (auto simp: last_conv_nth)
  then have lt: "i < length (butlast m)" using il by simp
  have b: "butlast m = take i m @ CHR ''('' # drop (Suc i) (butlast m)"
    using id_take_nth_drop [OF lt] lt il by (simp add: nth_butlast take_butlast)
  have "m = butlast m @ [CHR '')'']"
    using lm by (metis append_butlast_last_id)
  also have "\<dots> = take i m @ ''('' @ drop (Suc i) (butlast m) @ '')''"
    using b by simp
  finally show ?thesis
    using i suf by (simp add: parse_suffix_def butlast_conv_take)
qed

lemma parse_level_special_disjoint:
  "parse_level_suffix raw \<noteq> None \<Longrightarrow> parse_special_suffix raw = None"
  by (auto simp: parse_level_suffix_def parse_special_suffix_def split: if_splits)

lemma digit_lower: "is_digit (lower_char c) = is_digit c"
  by (auto simp: lower_char_def is_digit_def Let_def)

lemma digits_value_chars: "digits_value a s \<noteq> None \<Longrightarrow> list_all is_digit s"
  by (induction s arbitrary: a) (auto split: if_splits)

lemma parse_numeric_no_letter:
  assumes "parse_numeric_suffix raw = Some v"
  shows "\<not> is_digit (hd raw) \<longrightarrow> hd raw = CHR ''+'' \<or> hd raw = CHR ''-''"
    and "raw \<noteq> []" and "is_digit (last raw)"
  using assms
proof -
  obtain c cs where raw: "raw = c # cs"
    using assms by (cases raw) (auto simp: parse_numeric_suffix_def)
  let ?ds = "if c = CHR ''-'' \<or> c = CHR ''+'' then cs else raw"
  have ds: "?ds \<noteq> []" "digits_value 0 ?ds \<noteq> None"
    using assms raw
    by (auto simp: parse_numeric_suffix_def parse_int64_def Let_def split: if_splits option.splits)
  then have "list_all is_digit ?ds" by (intro digits_value_chars)
  with ds raw show "\<not> is_digit (hd raw) \<longrightarrow> hd raw = CHR ''+'' \<or> hd raw = CHR ''-''"
    and "raw \<noteq> []" and "is_digit (last raw)"
    by (auto split: if_splits simp: list_all_iff)
qed

end
