(* ===== verification/Availability.thy ===== *)
theory Availability
  imports AuthTypes ThinkingSuffix
begin

text \<open>
  When a credential may serve a model and which candidates a selector sees
  (\<open>sdk/cliproxy/auth/selector.go\<close>): \<open>availabilityBlock\<close>, \<open>isAuthBlockedForModel\<close>, the
  priority buckets of \<open>collectAvailableByPriority\<close> and the errors of
  \<open>getAvailableAuthsWithPriorityMode\<close>. The current time is a parameter. The maps the code
  iterates are association lists in iteration order; the lemmas show on which results the
  order has no influence.
\<close>

section \<open>Definitions\<close>

datatype block_reason = BlockNone | BlockCooldown | BlockDisabled | BlockOther

type_synonym block_verdict = "bool \<times> block_reason \<times> gotime"

text \<open>Errors of the selectors: a coded error or the cooldown error with its reset time.\<close>

datatype select_error =
    CodedError string string
  | ModelCooldown string string duration

definition new_model_cooldown_error :: "string \<Rightarrow> string \<Rightarrow> duration \<Rightarrow> select_error" where
  "new_model_cooldown_error model provider reset_in =
     ModelCooldown model provider (if reset_in < 0 then 0 else reset_in)"

definition next_recovery :: "gotime \<Rightarrow> gotime list \<Rightarrow> gotime" where
  "next_recovery now candidates =
     fold (\<lambda>c nxt. if after c now \<and> (is_zero nxt \<or> after c nxt) then c else nxt) candidates 0"

definition availability_block ::
  "bool \<Rightarrow> bool \<Rightarrow> gotime \<Rightarrow> gotime \<Rightarrow> gotime \<Rightarrow> block_verdict" where
  "availability_block unavailable quota_exceeded next_retry_after next_recover_at now =
     (if \<not> unavailable \<and> \<not> quota_exceeded then (False, BlockNone, 0)
      else
        let has_recovery = (\<not> is_zero next_retry_after \<or> \<not> is_zero next_recover_at);
            nxt = next_recovery now [next_retry_after, next_recover_at]
        in if \<not> is_zero nxt then
             (if quota_exceeded then (True, BlockCooldown, nxt) else (True, BlockOther, nxt))
           else if has_recovery then (False, BlockNone, 0)
           else (True, BlockOther, 0))"

definition state_block :: "model_state \<Rightarrow> gotime \<Rightarrow> block_verdict" where
  "state_block st now =
     availability_block (ms_unavailable st) (q_exceeded (ms_quota st)) (ms_next_retry st)
       (q_next_recover (ms_quota st)) now"

text \<open>
  The loop over the model states: \<open>Inl\<close> is an early return, \<open>Inr\<close> carries the variables
  \<open>matched\<close>, \<open>blocked\<close>, \<open>blockedReason\<close> and \<open>nextRetry\<close>.
\<close>

fun scan_model_states ::
  "string \<Rightarrow> gotime \<Rightarrow> (string \<times> model_state option) list \<Rightarrow> bool \<Rightarrow> block_verdict \<Rightarrow>
   block_verdict + (bool \<times> block_verdict)" where
  "scan_model_states key now [] matched v = Inr (matched, v)"
| "scan_model_states key now ((m, None) # xs) matched v = scan_model_states key now xs matched v"
| "scan_model_states key now ((m, Some st) # xs) matched (blocked, reason, next_retry) =
     (if canonical_model_key m \<noteq> key
      then scan_model_states key now xs matched (blocked, reason, next_retry)
      else if ms_status st = StatusDisabled then Inl (True, BlockDisabled, 0)
      else (case state_block st now of (sb, r, n) \<Rightarrow>
        (if \<not> sb then scan_model_states key now xs True (blocked, reason, next_retry)
         else if is_zero n then Inl (True, r, 0)
         else if \<not> blocked \<or> after n next_retry \<or> (n = next_retry \<and> r = BlockCooldown)
           then scan_model_states key now xs True (True, r, n)
         else scan_model_states key now xs True (blocked, reason, next_retry))))"

definition auth_block :: "auth \<Rightarrow> gotime \<Rightarrow> block_verdict" where
  "auth_block a now =
     availability_block (a_unavailable a) (q_exceeded (a_quota a)) (a_next_retry a)
       (q_next_recover (a_quota a)) now"

definition is_auth_blocked_for_model :: "auth option \<Rightarrow> string \<Rightarrow> gotime \<Rightarrow> block_verdict" where
  "is_auth_blocked_for_model ao model now =
     (case ao of
        None \<Rightarrow> (True, BlockOther, 0)
      | Some a \<Rightarrow>
          if a_disabled a \<or> a_status a = StatusDisabled then (True, BlockDisabled, 0)
          else if model \<noteq> [] then
            (if a_model_states a \<noteq> [] then
               (case scan_model_states (canonical_model_key model) now (a_model_states a)
                       False (False, BlockNone, 0) of
                  Inl v \<Rightarrow> v
                | Inr (matched, v) \<Rightarrow> if matched then v else (False, BlockNone, 0))
             else auth_block a now)
          else auth_block a now)"

abbreviation blocked :: "auth option \<Rightarrow> string \<Rightarrow> gotime \<Rightarrow> bool" where
  "blocked ao model now \<equiv> fst (is_auth_blocked_for_model ao model now)"

type_synonym buckets = "(int \<times> auth list) list"

definition bucket_add :: "int \<Rightarrow> auth \<Rightarrow> buckets \<Rightarrow> buckets" where
  "bucket_add p a m =
     AList.update p ((case map_of m p of None \<Rightarrow> [] | Some b \<Rightarrow> b) @ [a]) m"

fun collect_available_loop ::
  "auth option list \<Rightarrow> string \<Rightarrow> gotime \<Rightarrow> buckets \<times> nat \<times> gotime \<Rightarrow> buckets \<times> nat \<times> gotime" where
  "collect_available_loop [] model now acc = acc"
| "collect_available_loop (c # cs) model now (available, cooldown_count, earliest) =
     (case is_auth_blocked_for_model c model now of (blk, reason, nxt) \<Rightarrow>
        (if \<not> blk then
           collect_available_loop cs model now
             (bucket_add (auth_priority c) (the c) available, cooldown_count, earliest)
         else if reason = BlockCooldown then
           collect_available_loop cs model now
             (available, cooldown_count + 1,
              if \<not> is_zero nxt \<and> (is_zero earliest \<or> before nxt earliest) then nxt else earliest)
         else collect_available_loop cs model now (available, cooldown_count, earliest)))"

definition collect_available_by_priority ::
  "auth option list \<Rightarrow> string \<Rightarrow> gotime \<Rightarrow> buckets \<times> nat \<times> gotime" where
  "collect_available_by_priority auths model now = collect_available_loop auths model now ([], 0, 0)"

text \<open>The loop that finds the best priority: the value so far and whether one was found.\<close>

fun best_priority_loop :: "buckets \<Rightarrow> int \<times> bool \<Rightarrow> int \<times> bool" where
  "best_priority_loop [] acc = acc"
| "best_priority_loop ((p, b) # m) (best, found) =
     best_priority_loop m (if \<not> found \<or> p > best then (p, True) else (best, found))"

definition best_priority_of :: "buckets \<Rightarrow> int" where
  "best_priority_of m = fst (best_priority_loop m (0, False))"

definition available_auths_from_priority_buckets :: "buckets \<Rightarrow> bool \<Rightarrow> auth list" where
  "available_auths_from_priority_buckets m all_priorities =
     (let candidates =
            (if all_priorities then concat (map snd m)
             else (case map_of m (best_priority_of m) of None \<Rightarrow> [] | Some b \<Rightarrow> b))
      in if length candidates > 1 then sort_key a_id candidates else candidates)"

definition get_available_auths_with_priority_mode ::
  "auth option list \<Rightarrow> string \<Rightarrow> string \<Rightarrow> gotime \<Rightarrow> bool \<Rightarrow> select_error + auth list" where
  "get_available_auths_with_priority_mode auths provider model now all_priorities =
     (if auths = [] then Inl (CodedError ''auth_not_found'' ''no auth candidates'')
      else (case collect_available_by_priority auths model now of
              (available, cooldown_count, earliest) \<Rightarrow>
                (if available = [] then
                   (if cooldown_count = length auths \<and> \<not> is_zero earliest then
                      let provider_for_error = (if provider = ''mixed'' then [] else provider);
                          reset_in = time_sub earliest now
                      in Inl (new_model_cooldown_error model provider_for_error
                                (if reset_in < 0 then 0 else reset_in))
                    else Inl (CodedError ''auth_unavailable'' ''no auth available''))
                 else Inr (available_auths_from_priority_buckets available all_priorities))))"

definition get_available_auths ::
  "auth option list \<Rightarrow> string \<Rightarrow> string \<Rightarrow> gotime \<Rightarrow> select_error + auth list" where
  "get_available_auths auths provider model now =
     get_available_auths_with_priority_mode auths provider model now False"

definition get_available_auths_across_priorities ::
  "auth option list \<Rightarrow> string \<Rightarrow> string \<Rightarrow> gotime \<Rightarrow> select_error + auth list" where
  "get_available_auths_across_priorities auths provider model now =
     get_available_auths_with_priority_mode auths provider model now True"

text \<open>\<open>highestPriorityAuths\<close>: the loop keeps the best priority and how many reach it.\<close>

fun highest_priority_scan :: "auth list \<Rightarrow> int \<times> nat \<Rightarrow> int \<times> nat" where
  "highest_priority_scan [] acc = acc"
| "highest_priority_scan (a # as) (best, cnt) =
     (let p = auth_priority (Some a) in
      if cnt = 0 \<or> p > best then highest_priority_scan as (p, 1)
      else if p = best then highest_priority_scan as (best, cnt + 1)
      else highest_priority_scan as (best, cnt))"

definition highest_priority_auths :: "auth list \<Rightarrow> auth list" where
  "highest_priority_auths auths =
     (if length auths \<le> 1 then auths
      else (case highest_priority_scan auths (0, 0) of
              (best, cnt) \<Rightarrow>
                (if cnt = length auths then auths
                 else filter (\<lambda>a. auth_priority (Some a) = best) auths)))"

text \<open>The websocket preference of the Codex provider; \<open>ws\<close> is the downstream transport flag.\<close>

definition prefer_codex_websocket_auths :: "bool \<Rightarrow> string \<Rightarrow> auth list \<Rightarrow> auth list" where
  "prefer_codex_websocket_auths ws provider available =
     (if available = [] then available
      else if \<not> ws then available
      else if \<not> equal_fold (trim_space provider) ''codex'' then available
      else let enabled = filter (\<lambda>a. auth_websockets_enabled (Some a)) available
           in if enabled \<noteq> [] then enabled else available)"

definition positive_weight_auths :: "auth option list \<Rightarrow> auth option list" where
  "positive_weight_auths auths = filter (\<lambda>a. auth_weight a > 0) auths"

section \<open>The verdict on one state\<close>

lemma next_recovery_pair:
  "0 \<le> now \<Longrightarrow>
   next_recovery now [t, u] =
     (if now < t \<and> now < u then max t u else if now < t then t else if now < u then u else 0)"
  by (auto simp: next_recovery_def go_time)

lemma availability_block_cases:
  assumes "0 \<le> now" "availability_block un qe t u now = (b, r, n)"
  shows "b \<longleftrightarrow> (un \<or> qe) \<and> (now < t \<or> now < u \<or> (t = 0 \<and> u = 0))"
    and "r = (if \<not> b then BlockNone else if qe \<and> n \<noteq> 0 then BlockCooldown else BlockOther)"
    and "n = (if b \<and> (now < t \<or> now < u) then max t u else 0)"
  using assms
  by (auto simp: availability_block_def next_recovery_pair go_time Let_def max_def
      split: if_splits)

lemma state_block_cases:
  assumes "0 \<le> now" "state_block st now = (b, r, n)"
  shows "\<not> b \<Longrightarrow> r = BlockNone \<and> n = 0"
    and "b \<Longrightarrow> r = BlockCooldown \<or> r = BlockOther"
    and "n \<noteq> 0 \<Longrightarrow> b \<and> now < n"
  using availability_block_cases [OF assms [unfolded state_block_def]] assms(1)
  by (auto split: if_splits)

section \<open>The verdict on a set of model states\<close>

text \<open>The states the loop does not skip, in iteration order.\<close>

fun matching_states :: "string \<Rightarrow> (string \<times> model_state option) list \<Rightarrow> model_state list" where
  "matching_states key [] = []"
| "matching_states key ((m, None) # xs) = matching_states key xs"
| "matching_states key ((m, Some st) # xs) =
     (if canonical_model_key m = key then st # matching_states key xs else matching_states key xs)"

lemma set_matching_states:
  "st \<in> set (matching_states key xs) \<longleftrightarrow>
     (\<exists>m. (m, Some st) \<in> set xs \<and> canonical_model_key m = key)"
  by (induction key xs rule: matching_states.induct) auto

lemma matching_states_alt:
  "matching_states key xs =
     map (\<lambda>x. the (snd x)) (filter (\<lambda>x. snd x \<noteq> None \<and> canonical_model_key (fst x) = key) xs)"
  by (induction key xs rule: matching_states.induct) auto

lemma matching_states_mset:
  "mset xs = mset ys \<Longrightarrow> mset (matching_states key xs) = mset (matching_states key ys)"
  by (simp add: matching_states_alt)

text \<open>A hard block ends the loop at once: a disabled state or a block without an end.\<close>

definition hard_block :: "gotime \<Rightarrow> model_state \<Rightarrow> bool" where
  "hard_block now st =
     (ms_status st = StatusDisabled \<or>
      (fst (state_block st now) \<and> is_zero (snd (snd (state_block st now)))))"

definition soft_step :: "gotime \<Rightarrow> model_state \<Rightarrow> block_verdict \<Rightarrow> block_verdict" where
  "soft_step now st v =
     (case v of (blk, reason, nr) \<Rightarrow> case state_block st now of (sb, r, n) \<Rightarrow>
        if \<not> sb then v
        else if \<not> blk \<or> after n nr \<or> (n = nr \<and> r = BlockCooldown) then (True, r, n)
        else v)"

lemma soft_step_apply:
  "state_block st now = (sb, r, n) \<Longrightarrow>
   soft_step now st v =
     (if sb \<and> (\<not> fst v \<or> after n (snd (snd v)) \<or> (n = snd (snd v) \<and> r = BlockCooldown))
      then (True, r, n) else v)"
  by (auto simp: soft_step_def split: prod.splits)

lemma scan_hard:
  "\<exists>st \<in> set (matching_states key xs). hard_block now st \<Longrightarrow>
   \<exists>r. scan_model_states key now xs m v = Inl (True, r, 0)"
proof (induction key xs arbitrary: m v rule: matching_states.induct)
  case (3 key mo st xs)
  obtain blk reason nr where v: "v = (blk, reason, nr)" by (cases v) auto
  obtain sb r n where s: "state_block st now = (sb, r, n)" by (cases "state_block st now") auto
  show ?case
  proof (cases "canonical_model_key mo = key \<and> hard_block now st")
    case True
    then show ?thesis by (auto simp: v s hard_block_def go_time)
  next
    case False
    then have "\<exists>st \<in> set (matching_states key xs). hard_block now st"
      using "3.prems" by (auto split: if_splits)
    then have IH: "\<And>m v. \<exists>r. scan_model_states key now xs m v = Inl (True, r, 0)"
      using "3.IH" by (cases "canonical_model_key mo = key") auto
    show ?thesis
      using False IH by (auto simp: v s hard_block_def)
  qed
qed auto

lemma scan_soft:
  "\<not> (\<exists>st \<in> set (matching_states key xs). hard_block now st) \<Longrightarrow>
   scan_model_states key now xs m v =
     Inr (m \<or> matching_states key xs \<noteq> [], fold (soft_step now) (matching_states key xs) v)"
proof (induction key xs arbitrary: m v rule: matching_states.induct)
  case (3 key mo st xs)
  obtain blk reason nr where v: "v = (blk, reason, nr)" by (cases v) auto
  obtain sb r n where s: "state_block st now = (sb, r, n)" by (cases "state_block st now") auto
  show ?case
  proof (cases "canonical_model_key mo = key")
    case True
    then have "\<not> hard_block now st"
      and IH: "\<And>m v. scan_model_states key now xs m v =
        Inr (m \<or> matching_states key xs \<noteq> [], fold (soft_step now) (matching_states key xs) v)"
      using 3 by auto
    then show ?thesis
      using True soft_step_apply [OF s] by (simp add: v s hard_block_def)
  next
    case False
    with 3 show ?thesis by (simp add: v)
  qed
qed auto

lemma soft_step_commute:
  assumes "0 \<le> now"
  shows "soft_step now s \<circ> soft_step now t = soft_step now t \<circ> soft_step now s"
proof (rule ext)
  fix v :: block_verdict
  obtain blk reason nr where v: "v = (blk, reason, nr)" by (cases v) auto
  obtain b1 r1 n1 where s: "state_block s now = (b1, r1, n1)" by (cases "state_block s now") auto
  obtain b2 r2 n2 where t: "state_block t now = (b2, r2, n2)" by (cases "state_block t now") auto
  note c = state_block_cases(2) [OF assms s] state_block_cases(2) [OF assms t]
  show "(soft_step now s \<circ> soft_step now t) v = (soft_step now t \<circ> soft_step now s) v"
    using c by (cases b1; cases b2) (auto simp: soft_step_def v s t go_time)
qed

lemma fold_soft_blocked:
  "fst (fold (soft_step now) sts v) \<longleftrightarrow>
     fst v \<or> (\<exists>st \<in> set sts. fst (state_block st now))"
  by (induction sts arbitrary: v) (auto simp: soft_step_def split: prod.splits)

lemma fold_soft_time:
  assumes "0 \<le> now"
  shows "(fst v \<longrightarrow> now < snd (snd v)) \<Longrightarrow> \<not> (\<exists>st \<in> set sts. hard_block now st) \<Longrightarrow>
    (fst (fold (soft_step now) sts v) \<longrightarrow>
       now < snd (snd (fold (soft_step now) sts v)) \<and>
       (\<forall>st \<in> set sts. snd (snd (state_block st now)) \<le> snd (snd (fold (soft_step now) sts v))) \<and>
       (fst v \<longrightarrow> snd (snd v) \<le> snd (snd (fold (soft_step now) sts v))))"
proof (induction sts arbitrary: v)
  case (Cons st sts)
  obtain blk reason nr where v: "v = (blk, reason, nr)" by (cases v) auto
  obtain b r n where s: "state_block st now = (b, r, n)" by (cases "state_block st now") auto
  have n: "b \<Longrightarrow> now < n" "\<not> b \<Longrightarrow> n = 0"
    using Cons.prems(2) state_block_cases [OF assms s] s by (auto simp: hard_block_def go_time)
  have IH: "fst (soft_step now st v) \<longrightarrow> now < snd (snd (soft_step now st v))"
    using Cons.prems(1) n by (auto simp: soft_step_def v s)
  show ?case
    using Cons.IH [OF IH] Cons.prems n assms
    by (auto simp: soft_step_def v s go_time split: if_splits)
qed simp

lemma blocked_for_model_eq:
  assumes "\<not> a_disabled a" "a_status a \<noteq> StatusDisabled" "model \<noteq> []" "a_model_states a \<noteq> []"
  defines "sts \<equiv> matching_states (canonical_model_key model) (a_model_states a)"
  shows "if \<exists>st \<in> set sts. hard_block now st
         then \<exists>r. is_auth_blocked_for_model (Some a) model now = (True, r, 0)
         else is_auth_blocked_for_model (Some a) model now =
                fold (soft_step now) sts (False, BlockNone, 0)"
proof (cases "\<exists>st \<in> set sts. hard_block now st")
  case True
  then show ?thesis
    using scan_hard [of "canonical_model_key model" "a_model_states a" now False
        "(False, BlockNone, 0)"] assms
    by (auto simp: is_auth_blocked_for_model_def)
next
  case False
  then show ?thesis
    using scan_soft [of "canonical_model_key model" "a_model_states a" now False
        "(False, BlockNone, 0)"] assms
    by (auto simp: is_auth_blocked_for_model_def)
qed

lemma blocked_for_model_iff:
  assumes "\<not> a_disabled a" "a_status a \<noteq> StatusDisabled" "model \<noteq> []" "a_model_states a \<noteq> []"
  shows "blocked (Some a) model now \<longleftrightarrow>
    (\<exists>st \<in> set (matching_states (canonical_model_key model) (a_model_states a)).
       ms_status st = StatusDisabled \<or> fst (state_block st now))"
proof (cases "\<exists>st \<in> set (matching_states (canonical_model_key model) (a_model_states a)).
    hard_block now st")
  case True
  then obtain r where "is_auth_blocked_for_model (Some a) model now = (True, r, 0)"
    using blocked_for_model_eq [OF assms, of now] by auto
  with True show ?thesis by (auto simp: hard_block_def)
next
  case False
  then have "is_auth_blocked_for_model (Some a) model now =
      fold (soft_step now) (matching_states (canonical_model_key model) (a_model_states a))
        (False, BlockNone, 0)"
    using blocked_for_model_eq [OF assms, of now] by auto
  with False show ?thesis by (auto simp: hard_block_def fold_soft_blocked)
qed

text \<open>A block that names a retry time names one in the future.\<close>

lemma blocked_time_future:
  assumes "0 \<le> now" "is_auth_blocked_for_model ao model now = (b, r, n)"
  shows "(n \<noteq> 0 \<longrightarrow> b \<and> now < n) \<and> (\<not> b \<longrightarrow> r = BlockNone \<and> n = 0)"
proof (cases ao)
  case None
  with assms show ?thesis by (simp add: is_auth_blocked_for_model_def)
next
  case (Some a)
  have whole: "auth_block a now = (b, r, n) \<Longrightarrow> ?thesis"
    using availability_block_cases [OF assms(1), of "a_unavailable a" "q_exceeded (a_quota a)"
      "a_next_retry a" "q_next_recover (a_quota a)" b r n]
    by (auto simp: auth_block_def split: if_splits)
  let ?sts = "matching_states (canonical_model_key model) (a_model_states a)"
  have soft: "fold (soft_step now) sts (False, BlockNone, 0) = (b, r, n) \<Longrightarrow>
      \<not> (\<exists>st \<in> set sts. hard_block now st) \<Longrightarrow> ?thesis" for sts
  proof -
    assume f: "fold (soft_step now) sts (False, BlockNone, 0) = (b, r, n)"
      and h: "\<not> (\<exists>st \<in> set sts. hard_block now st)"
    have unb: "\<not> fst (fold (soft_step now) xs v) \<Longrightarrow> fold (soft_step now) xs v = v" for xs v
      by (induction xs arbitrary: v) (auto simp: soft_step_def fold_soft_blocked split: prod.splits)
    show ?thesis
    proof (cases b)
      case True
      with fold_soft_time [OF assms(1), of "(False, BlockNone, 0)" sts] f h show ?thesis by auto
    next
      case False
      then show ?thesis using unb [of sts "(False, BlockNone, 0)"] f by auto
    qed
  qed
  show ?thesis
  proof (cases "\<not> a_disabled a \<and> a_status a \<noteq> StatusDisabled \<and> model \<noteq> [] \<and> a_model_states a \<noteq> []")
    case True
    then show ?thesis
      using blocked_for_model_eq [of a model now] soft [of ?sts] assms(2) Some
      by (auto split: if_splits)
  next
    case False
    then show ?thesis
      using whole assms(2) Some by (auto simp: is_auth_blocked_for_model_def split: if_splits)
  qed
qed

text \<open>The order in which the runtime iterates the model states.\<close>

lemma blocked_order_independent:
  fixes model :: string
  assumes now: "0 \<le> now" and perm: "mset ms = mset (a_model_states a)"
  defines "v \<equiv> is_auth_blocked_for_model (Some a) model now"
    and "v' \<equiv> is_auth_blocked_for_model (Some (a\<lparr>a_model_states := ms\<rparr>)) model now"
  shows "fst v' = fst v \<and> snd (snd v') = snd (snd v) \<and> (snd (snd v) \<noteq> 0 \<longrightarrow> v' = v)"
proof (cases "\<not> a_disabled a \<and> a_status a \<noteq> StatusDisabled \<and> model \<noteq> [] \<and> a_model_states a \<noteq> []")
  case False
  with perm show ?thesis
    by (auto simp: v_def v'_def is_auth_blocked_for_model_def auth_block_def)
next
  case True
  let ?k = "canonical_model_key model"
  have ne: "ms \<noteq> []" using True perm by auto
  have ms: "mset (matching_states ?k ms) = mset (matching_states ?k (a_model_states a))"
    by (rule matching_states_mset [OF perm])
  then have st: "set (matching_states ?k ms) = set (matching_states ?k (a_model_states a))"
    by (rule mset_eq_setD)
  have fld: "fold (soft_step now) (matching_states ?k ms) =
      fold (soft_step now) (matching_states ?k (a_model_states a))"
    by (rule fold_multiset_equiv [OF soft_step_commute [OF now] ms])
  show ?thesis
    using blocked_for_model_eq [of a model now] ne True st fld
      blocked_for_model_eq [of "a\<lparr>a_model_states := ms\<rparr>" model now]
    by (auto simp: v_def v'_def split: if_splits)
qed

section \<open>The candidates a selector sees\<close>

definition eligible_auths :: "auth option list \<Rightarrow> string \<Rightarrow> gotime \<Rightarrow> auth list" where
  "eligible_auths auths model now = map the (filter (\<lambda>c. \<not> blocked c model now) auths)"

definition prio :: "auth \<Rightarrow> int" where "prio a = auth_priority (Some a)"

definition top_tier :: "auth list \<Rightarrow> auth list" where
  "top_tier xs = filter (\<lambda>a. prio a = Max (prio ` set xs)) xs"

lemma not_blocked_Some: "\<not> blocked c model now \<Longrightarrow> c = Some (the c)"
  by (cases c) (simp_all add: is_auth_blocked_for_model_def)

lemma eligible_auths_iff:
  "a \<in> set (eligible_auths auths model now) \<longleftrightarrow>
     Some a \<in> set auths \<and> \<not> blocked (Some a) model now"
  using not_blocked_Some [of _ model now] by (force simp: eligible_auths_def)

text \<open>The buckets hold, per priority, the unblocked candidates in input order.\<close>

definition buckets_hold :: "buckets \<Rightarrow> auth list \<Rightarrow> bool" where
  "buckets_hold m xs =
     (keys_distinct m \<and>
      (\<forall>p. map_of m p = (let l = filter (\<lambda>a. prio a = p) xs in if l = [] then None else Some l)))"

lemma buckets_hold_add:
  "buckets_hold m xs \<Longrightarrow> prio a = p \<Longrightarrow> buckets_hold (bucket_add p a m) (xs @ [a])"
  by (auto simp: buckets_hold_def bucket_add_def Let_def filter_empty_conv)

lemma collect_loop_buckets:
  "buckets_hold m xs \<Longrightarrow>
   buckets_hold (fst (collect_available_loop auths model now (m, cc, e)))
     (xs @ eligible_auths auths model now)"
proof (induction auths arbitrary: m xs cc e)
  case (Cons c cs)
  obtain b r n where v: "is_auth_blocked_for_model c model now = (b, r, n)"
    by (cases "is_auth_blocked_for_model c model now") auto
  show ?case
  proof (cases b)
    case False
    then have c: "c = Some (the c)" using v not_blocked_Some [of c model now] by auto
    then have "buckets_hold (bucket_add (auth_priority c) (the c) m) (xs @ [the c])"
      using buckets_hold_add [OF Cons.prems, of "the c" "auth_priority c"] by (simp add: prio_def)
    from Cons.IH [OF this] show ?thesis using False v by (simp add: eligible_auths_def)
  next
    case True
    then show ?thesis using Cons v by (auto simp: eligible_auths_def)
  qed
qed (simp add: eligible_auths_def)

lemma buckets_empty_iff: "buckets_hold m xs \<Longrightarrow> m = [] \<longleftrightarrow> xs = []"
proof
  assume h: "buckets_hold m xs" and "m = []"
  then have "filter (\<lambda>a. prio a = prio (hd xs)) xs = []"
    by (auto simp: buckets_hold_def Let_def split: if_splits)
  then show "xs = []" by (cases xs) auto
next
  assume h: "buckets_hold m xs" and "xs = []"
  then have "\<forall>p. map_of m p = None" by (simp add: buckets_hold_def)
  then show "m = []" by (cases m) (auto split: if_splits)
qed

lemma buckets_keys: "buckets_hold m xs \<Longrightarrow> set (map fst m) = prio ` set xs"
proof -
  assume h: "buckets_hold m xs"
  have "p \<in> set (map fst m) \<longleftrightarrow> p \<in> prio ` set xs" for p
  proof -
    have "p \<in> set (map fst m) \<longleftrightarrow> map_of m p \<noteq> None" by (simp add: map_of_eq_None_iff)
    also have "\<dots> \<longleftrightarrow> filter (\<lambda>a. prio a = p) xs \<noteq> []"
      using h by (simp add: buckets_hold_def Let_def)
    finally show ?thesis by (auto simp: filter_empty_conv)
  qed
  then show ?thesis by blast
qed

lemma best_priority_loop_Max:
  "best_priority_loop m (b, True) = (Max (insert b (set (map fst m))), True)"
proof (induction m arbitrary: b)
  case (Cons x m)
  obtain p l where x: "x = (p, l)" by (cases x)
  have *: "Max (insert b (insert p (set (map fst m)))) =
      Max (insert (max b p) (set (map fst m)))"
    by (cases "m = []") (simp_all add: max.assoc)
  have "best_priority_loop (x # m) (b, True) = best_priority_loop m (max b p, True)"
    by (simp add: x max_def)
  then show ?case using Cons.IH [of "max b p"] * by (simp add: x)
qed simp

lemma best_priority_of_Max: "m \<noteq> [] \<Longrightarrow> best_priority_of m = Max (set (map fst m))"
  by (cases m) (auto simp: best_priority_of_def best_priority_loop_Max)

lemma top_tier_ne: "xs \<noteq> [] \<Longrightarrow> top_tier xs \<noteq> []"
proof -
  assume "xs \<noteq> []"
  then have "Max (prio ` set xs) \<in> prio ` set xs" by (intro Max_in) auto
  then show ?thesis by (auto simp: top_tier_def filter_empty_conv)
qed

lemma top_bucket:
  assumes "buckets_hold m xs" "xs \<noteq> []"
  shows "map_of m (best_priority_of m) = Some (top_tier xs)"
proof -
  have "m \<noteq> []" using buckets_empty_iff [OF assms(1)] assms(2) by simp
  then have "best_priority_of m = Max (prio ` set xs)"
    using best_priority_of_Max buckets_keys [OF assms(1)] by simp
  then show ?thesis
    using top_tier_ne [OF assms(2)] assms(1) by (simp add: buckets_hold_def top_tier_def Let_def)
qed

lemma sort_key_short: "length xs \<le> 1 \<Longrightarrow> sort_key f xs = xs"
  by (cases xs) auto

lemma get_available_auths_ok:
  assumes "eligible_auths auths model now \<noteq> []"
  shows "get_available_auths auths provider model now =
    Inr (sort_key a_id (top_tier (eligible_auths auths model now)))"
proof -
  have ne: "auths \<noteq> []" using assms by (auto simp: eligible_auths_def)
  obtain m cc e where c: "collect_available_by_priority auths model now = (m, cc, e)"
    by (cases "collect_available_by_priority auths model now") auto
  have h: "buckets_hold m (eligible_auths auths model now)"
    using collect_loop_buckets [of "[]" "[]" auths model now 0 0] c
    by (simp add: collect_available_by_priority_def buckets_hold_def)
  show ?thesis
    using ne c buckets_empty_iff [OF h] assms top_bucket [OF h assms]
      sort_key_short [of "top_tier (eligible_auths auths model now)" a_id]
    by (auto simp: get_available_auths_def get_available_auths_with_priority_mode_def
        available_auths_from_priority_buckets_def Let_def)
qed

lemma mset_concat_buckets:
  "keys_distinct m \<Longrightarrow> (\<forall>p. map_of m p =
     (let l = filter (\<lambda>a. prio a = p) xs in if l = [] then None else Some l)) \<Longrightarrow>
   mset (concat (map snd m)) = mset xs"
proof (induction m arbitrary: xs)
  case Nil
  then have "filter (\<lambda>a. prio a = prio (hd xs)) xs = []"
    by (auto simp: Let_def split: if_splits)
  then show ?case by (cases xs) auto
next
  case (Cons x m)
  obtain p l where x: "x = (p, l)" by (cases x)
  let ?ys = "filter (\<lambda>a. prio a \<noteq> p) xs"
  have l: "l = filter (\<lambda>a. prio a = p) xs"
    using Cons.prems(2) [rule_format, of p] x by (auto simp: Let_def split: if_splits)
  have np: "p \<notin> fst ` set m" using Cons.prems(1) x by auto
  have "map_of m q = (let l = filter (\<lambda>a. prio a = q) ?ys in if l = [] then None else Some l)" for q
  proof (cases "q = p")
    case True
    have "map_of m p = None" using np by (simp add: map_of_eq_None_iff)
    then show ?thesis using True by (simp add: Let_def filter_empty_conv)
  next
    case False
    then have "filter (\<lambda>a. prio a = q) ?ys = filter (\<lambda>a. prio a = q) xs"
      by (auto intro!: filter_cong simp: conj_commute)
    then show ?thesis using Cons.prems(2) [rule_format, of q] x False by simp
  qed
  then have "mset (concat (map snd m)) = mset ?ys"
    using Cons.IH [of ?ys] Cons.prems(1) by simp
  then show ?case
    using multiset_partition [of "mset xs" "\<lambda>a. prio a = p"] by (simp add: x l add.commute)
qed

lemma get_available_across_ok:
  assumes "eligible_auths auths model now \<noteq> []"
  shows "\<exists>xs. get_available_auths_across_priorities auths provider model now = Inr xs \<and>
    mset xs = mset (eligible_auths auths model now) \<and> sorted (map a_id xs)"
proof -
  have ne: "auths \<noteq> []" using assms by (auto simp: eligible_auths_def)
  obtain m cc e where c: "collect_available_by_priority auths model now = (m, cc, e)"
    by (cases "collect_available_by_priority auths model now") auto
  have h: "buckets_hold m (eligible_auths auths model now)"
    using collect_loop_buckets [of "[]" "[]" auths model now 0 0] c
    by (simp add: collect_available_by_priority_def buckets_hold_def)
  then have ms: "mset (concat (map snd m)) = mset (eligible_auths auths model now)"
    using mset_concat_buckets unfolding buckets_hold_def by blast
  have "get_available_auths_across_priorities auths provider model now =
      Inr (sort_key a_id (concat (map snd m)))"
    using ne c buckets_empty_iff [OF h] assms sort_key_short [of "concat (map snd m)" a_id]
    by (auto simp: get_available_auths_across_priorities_def Let_def
        get_available_auths_with_priority_mode_def available_auths_from_priority_buckets_def)
  with ms show ?thesis by simp
qed

text \<open>The verdicts of the candidates that are blocked, and the error the loop makes of them.\<close>

definition verdicts :: "auth option list \<Rightarrow> string \<Rightarrow> gotime \<Rightarrow> block_verdict list" where
  "verdicts auths model now = map (\<lambda>c. is_auth_blocked_for_model c model now) auths"

definition cool_times :: "block_verdict list \<Rightarrow> gotime set" where
  "cool_times vs = {n. \<exists>b. (b, BlockCooldown, n) \<in> set vs \<and> n \<noteq> 0}"

definition cool_count :: "block_verdict list \<Rightarrow> nat" where
  "cool_count vs = length (filter (\<lambda>(b, r, n). r = BlockCooldown) vs)"

text \<open>The earliest of a first time (0 when there is none) and a set of further ones.\<close>

definition earliest_of :: "gotime \<Rightarrow> gotime set \<Rightarrow> gotime" where
  "earliest_of e T = (if T = {} then e else if e = 0 then Min T else Min (insert e T))"

lemma earliest_of_insert:
  "finite T \<Longrightarrow> n \<noteq> 0 \<Longrightarrow>
   earliest_of e (insert n T) = earliest_of (if e = 0 \<or> n < e then n else e) T"
  by (cases "T = {}") (auto simp: earliest_of_def min_def)

lemma finite_cool_times [simp]: "finite (cool_times vs)"
  by (rule finite_subset [of _ "(snd \<circ> snd) ` set vs"]) (force simp: cool_times_def, simp)

lemma cool_times_Cons:
  "cool_times ((b, r, n) # vs) =
     (if r = BlockCooldown \<and> n \<noteq> 0 then insert n (cool_times vs) else cool_times vs)"
  by (auto simp: cool_times_def)

lemma collect_loop_counts:
  "\<forall>c \<in> set auths. blocked c model now \<Longrightarrow>
    collect_available_loop auths model now (m, cc, e) =
      (m, cc + cool_count (verdicts auths model now),
       earliest_of e (cool_times (verdicts auths model now)))"
proof (induction auths arbitrary: cc e)
  case Nil
  then show ?case by (simp add: verdicts_def cool_count_def cool_times_def earliest_of_def)
next
  case (Cons c cs)
  obtain b r n where v: "is_auth_blocked_for_model c model now = (b, r, n)"
    by (cases "is_auth_blocked_for_model c model now") auto
  have b: b using Cons.prems v by auto
  have vs: "verdicts (c # cs) model now = (b, r, n) # verdicts cs model now"
    by (simp add: verdicts_def v)
  show ?case
    using Cons.IH Cons.prems b
    by (simp add: v vs cool_times_Cons cool_count_def earliest_of_insert go_time)
qed

text \<open>The error when nothing is available: a cooldown error iff every candidate cools down.\<close>

lemma cool_count_all:
  "cool_count vs = length vs \<longleftrightarrow> (\<forall>v \<in> set vs. fst (snd v) = BlockCooldown)"
proof (induction vs)
  case (Cons v vs)
  have "length (filter (\<lambda>(b, r, n). r = BlockCooldown) vs) < Suc (length vs)"
    by (simp add: less_Suc_eq_le)
  moreover obtain b r n where "v = (b, r, n)" by (cases v)
  ultimately show ?case
    using Cons by (cases "r = BlockCooldown") (simp_all add: cool_count_def)
qed (simp add: cool_count_def)

lemma cool_times_future:
  assumes "0 \<le> now" "t \<in> cool_times (verdicts auths model now)"
  shows "now < t"
proof -
  obtain c b where "is_auth_blocked_for_model c model now = (b, BlockCooldown, t)" "t \<noteq> 0"
    using assms(2) by (auto simp: cool_times_def verdicts_def) metis
  then show ?thesis using blocked_time_future [OF assms(1)] by blast
qed

lemma get_available_auths_error:
  assumes now: "0 \<le> now" and ne: "auths \<noteq> []" and el: "eligible_auths auths model now = []"
  shows "get_available_auths auths provider model now =
    (if (\<forall>v \<in> set (verdicts auths model now). fst (snd v) = BlockCooldown) \<and>
        cool_times (verdicts auths model now) \<noteq> {}
     then Inl (ModelCooldown model (if provider = ''mixed'' then [] else provider)
                (time_sub (Min (cool_times (verdicts auths model now))) now))
     else Inl (CodedError ''auth_unavailable'' ''no auth available''))"
proof -
  let ?vs = "verdicts auths model now"
  have bl: "\<forall>c \<in> set auths. blocked c model now"
    using el by (auto simp: eligible_auths_def filter_empty_conv)
  have c: "collect_available_by_priority auths model now =
      ([], cool_count ?vs, earliest_of 0 (cool_times ?vs))"
    using collect_loop_counts [OF bl, of "[]" 0 0] by (simp add: collect_available_by_priority_def)
  have len: "length auths = length ?vs" by (simp add: verdicts_def)
  show ?thesis
  proof (cases "cool_times ?vs = {}")
    case True
    then show ?thesis
      using c ne by (simp add: get_available_auths_def get_available_auths_with_priority_mode_def
          earliest_of_def go_time)
  next
    case False
    have "Min (cool_times ?vs) \<in> cool_times ?vs" using False by simp
    then have "now < Min (cool_times ?vs)" by (rule cool_times_future [OF now])
    then have "0 \<le> time_sub (Min (cool_times ?vs)) now" "Min (cool_times ?vs) \<noteq> 0"
      using now by (auto simp: time_sub_def int64_max_def)
    then show ?thesis
      using False c ne len cool_count_all [of ?vs]
      by (simp add: get_available_auths_def get_available_auths_with_priority_mode_def
          new_model_cooldown_error_def earliest_of_def Let_def go_time)
  qed
qed

section \<open>Narrowing to the highest tier\<close>

lemma highest_scan_spec:
  "0 < n \<Longrightarrow> highest_priority_scan as (best, n) =
     (let M = Max (insert best (prio ` set as))
      in (M, (if best = M then n else 0) + length (filter (\<lambda>a. prio a = M) as)))"
proof (induction as arbitrary: best n)
  case (Cons a as)
  let ?M = "Max (insert best (prio ` set (a # as)))"
  have M: "?M = Max (insert (max best (prio a)) (prio ` set as))"
    by (cases "as = []") (simp_all add: max.assoc)
  have le: "max best (prio a) \<le> ?M" unfolding M by (rule Max_ge) simp_all
  consider "prio a > best" | "prio a = best" | "prio a < best" by linarith
  then show ?case
  proof cases
    case 1
    then have M': "?M = Max (insert (prio a) (prio ` set as))" using M by (simp add: max_def)
    have "best \<noteq> ?M" using le 1 by linarith
    then show ?thesis
      using Cons.IH [of 1 "prio a"] 1 unfolding M' by (simp add: Let_def prio_def [symmetric])
  next
    case 2
    then show ?thesis
      using Cons.IH [of "n + 1" best] Cons.prems by (simp add: Let_def prio_def [symmetric])
  next
    case 3
    then have "?M = Max (insert best (prio ` set as))" using M by (simp add: max_def)
    then show ?thesis
      using Cons.IH [of n best] Cons.prems le 3 by (simp add: Let_def prio_def [symmetric])
  qed
qed (simp add: Let_def)

lemma highest_priority_auths_top: "highest_priority_auths xs = top_tier xs"
proof (cases "length xs \<le> 1")
  case True
  then show ?thesis by (cases xs) (auto simp: highest_priority_auths_def top_tier_def)
next
  case False
  then obtain a as where xs: "xs = a # as" by (cases xs) auto
  let ?M = "Max (prio ` set xs)"
  have scan: "highest_priority_scan xs (0, 0) =
      (?M, length (filter (\<lambda>a. prio a = ?M) xs))"
    using highest_scan_spec [of 1 as "prio a"] by (auto simp: xs Let_def prio_def [symmetric])
  have full: "filter P ys = ys" if "length (filter P ys) = length ys" for P :: "auth \<Rightarrow> bool" and ys
    using that by (metis filter_True length_filter_less less_irrefl)
  show ?thesis
    using False scan full [of "\<lambda>a. prio a = ?M" xs]
    by (auto simp: highest_priority_auths_def top_tier_def prio_def [symmetric])
qed

lemma prefer_codex_subset:
  "set (prefer_codex_websocket_auths ws provider xs) \<subseteq> set xs"
  by (auto simp: prefer_codex_websocket_auths_def Let_def)

lemma prefer_codex_ne:
  "xs \<noteq> [] \<Longrightarrow> prefer_codex_websocket_auths ws provider xs \<noteq> []"
  by (auto simp: prefer_codex_websocket_auths_def Let_def)

section \<open>Time alone never blocks a credential\<close>

lemma availability_block_mono:
  "0 \<le> now \<Longrightarrow> now \<le> now' \<Longrightarrow> fst (availability_block un qe t u now') \<Longrightarrow>
   fst (availability_block un qe t u now)"
  using availability_block_cases(1) [of now un qe t u]
    availability_block_cases(1) [of now' un qe t u]
  by (cases "availability_block un qe t u now"; cases "availability_block un qe t u now'") fastforce

lemma unblocked_mono:
  assumes "0 \<le> now" "now \<le> now'" "\<not> blocked ao model now"
  shows "\<not> blocked ao model now'"
proof (cases ao)
  case None
  then show ?thesis using assms by (simp add: is_auth_blocked_for_model_def)
next
  case (Some a)
  have st: "fst (state_block st now') \<Longrightarrow> fst (state_block st now)" for st
    unfolding state_block_def by (rule availability_block_mono [OF assms(1,2)])
  have wh: "fst (auth_block a now') \<Longrightarrow> fst (auth_block a now)"
    unfolding auth_block_def by (rule availability_block_mono [OF assms(1,2)])
  show ?thesis
  proof (cases "\<not> a_disabled a \<and> a_status a \<noteq> StatusDisabled \<and> model \<noteq> [] \<and> a_model_states a \<noteq> []")
    case True
    then show ?thesis
      using assms(3) st blocked_for_model_iff [of a model now] blocked_for_model_iff [of a model now']
      unfolding Some by blast
  next
    case False
    then show ?thesis
      using assms(3) wh Some by (auto simp: is_auth_blocked_for_model_def split: if_splits)
  qed
qed

section \<open>A block lasts until the time it names\<close>

lemma availability_block_lasts:
  assumes "0 \<le> t0" "t0 \<le> now" "availability_block un qe t u t0 = (True, r, n)" "n = 0 \<or> now < n"
  shows "fst (availability_block un qe t u now)"
proof -
  obtain b' r' n' where b: "availability_block un qe t u now = (b', r', n')"
    by (cases "availability_block un qe t u now")
  have "(un \<or> qe) \<and> (t0 < t \<or> t0 < u \<or> (t = 0 \<and> u = 0))"
    "n = (if t0 < t \<or> t0 < u then max t u else 0)"
    using availability_block_cases [OF assms(1,3)] by auto
  moreover have "b' \<longleftrightarrow> (un \<or> qe) \<and> (now < t \<or> now < u \<or> (t = 0 \<and> u = 0))"
    using availability_block_cases(1) [OF _ b] assms(1,2) by simp
  ultimately show ?thesis using assms b by (auto simp: max_def split: if_splits)
qed

lemma fold_soft_attained:
  "fst (fold (soft_step now) sts v) \<Longrightarrow>
   (fst v \<and> snd (snd (fold (soft_step now) sts v)) = snd (snd v)) \<or>
   (\<exists>st \<in> set sts. fst (state_block st now) \<and>
      snd (snd (state_block st now)) = snd (snd (fold (soft_step now) sts v)))"
proof (induction sts arbitrary: v)
  case (Cons st sts)
  obtain b r n where s: "state_block st now = (b, r, n)" by (cases "state_block st now")
  show ?case
    using Cons.IH [of "soft_step now st v"] Cons.prems soft_step_apply [OF s, of v] s
    by (auto split: if_splits)
qed simp

lemma still_blocked:
  assumes t: "0 \<le> t0" "t0 \<le> now" and v: "is_auth_blocked_for_model ao model t0 = (True, r, n)"
    and n: "n = 0 \<or> now < n"
  shows "blocked ao model now"
proof (cases ao)
  case None
  then show ?thesis by (simp add: is_auth_blocked_for_model_def)
next
  case (Some a)
  show ?thesis
  proof (cases "\<not> a_disabled a \<and> a_status a \<noteq> StatusDisabled \<and> model \<noteq> [] \<and> a_model_states a \<noteq> []")
    case False
    show ?thesis
    proof (cases "a_disabled a \<or> a_status a = StatusDisabled")
      case True
      then show ?thesis by (simp add: is_auth_blocked_for_model_def Some)
    next
      case en: False
      have "auth_block a t0 = (True, r, n)" "is_auth_blocked_for_model ao model now = auth_block a now"
        using v False en by (auto simp: is_auth_blocked_for_model_def Some split: if_splits)
      then show ?thesis using availability_block_lasts [OF t _ n] by (simp add: auth_block_def)
    qed
  next
    case True
    let ?sts = "matching_states (canonical_model_key model) (a_model_states a)"
    have "\<exists>st \<in> set ?sts. ms_status st = StatusDisabled \<or>
        (fst (state_block st t0) \<and> (snd (snd (state_block st t0)) = 0 \<or> now < snd (snd (state_block st t0))))"
    proof (cases "\<exists>st \<in> set ?sts. hard_block t0 st")
      case True
      then show ?thesis by (auto simp: hard_block_def go_time)
    next
      case False
      then have "fold (soft_step t0) ?sts (False, BlockNone, 0) = (True, r, n)"
        using blocked_for_model_eq [of a model t0] True v Some by auto
      then show ?thesis using fold_soft_attained [of t0 ?sts "(False, BlockNone, 0)"] n by auto
    qed
    then obtain st where st: "st \<in> set ?sts" and or: "ms_status st = StatusDisabled \<or>
        (fst (state_block st t0) \<and> (snd (snd (state_block st t0)) = 0 \<or> now < snd (snd (state_block st t0))))"
      by blast
    have "ms_status st = StatusDisabled \<or> fst (state_block st now)"
    proof (cases "ms_status st = StatusDisabled")
      case False
      obtain b r' n' where s: "state_block st t0 = (b, r', n')" by (cases "state_block st t0")
      then have "b" "n' = 0 \<or> now < n'" using or False by auto
      then show ?thesis
        using availability_block_lasts [OF t _ \<open>n' = 0 \<or> now < n'\<close>] s by (auto simp: state_block_def)
    qed simp
    then show ?thesis using blocked_for_model_iff [of a model now] True st unfolding Some by blast
  qed
qed

lemma fold_soft_reason:
  assumes "0 \<le> now"
  shows "fst (snd v) \<noteq> BlockDisabled \<Longrightarrow> fst (snd (fold (soft_step now) sts v)) \<noteq> BlockDisabled"
proof (induction sts arbitrary: v)
  case (Cons st sts)
  obtain b r n where s: "state_block st now = (b, r, n)" by (cases "state_block st now")
  have "fst (snd (soft_step now st v)) \<noteq> BlockDisabled"
    using state_block_cases(2) [OF assms s] Cons.prems soft_step_apply [OF s, of v] by auto
  then show ?case using Cons.IH by simp
qed simp

lemma disabled_block_hard:
  assumes now: "0 \<le> now" and v: "is_auth_blocked_for_model ao model now = (b, BlockDisabled, n)"
  shows "n = 0"
proof (cases ao)
  case None
  then show ?thesis using v by (simp add: is_auth_blocked_for_model_def)
next
  case (Some a)
  have whole: "auth_block a now \<noteq> (b, BlockDisabled, n)"
  proof
    assume w: "auth_block a now = (b, BlockDisabled, n)"
    show False
      using availability_block_cases(2) [OF now w [unfolded auth_block_def]]
      by (auto split: if_splits)
  qed
  show ?thesis
  proof (cases "\<not> a_disabled a \<and> a_status a \<noteq> StatusDisabled \<and> model \<noteq> [] \<and> a_model_states a \<noteq> []")
    case False
    then show ?thesis
      using v whole by (auto simp: is_auth_blocked_for_model_def Some split: if_splits)
  next
    case True
    let ?sts = "matching_states (canonical_model_key model) (a_model_states a)"
    show ?thesis
    proof (cases "\<exists>st \<in> set ?sts. hard_block now st")
      case True
      then show ?thesis
        using blocked_for_model_eq [of a model now] \<open>\<not> a_disabled a \<and> _\<close> v Some by auto
    next
      case False
      then have "fst (snd (fold (soft_step now) ?sts (False, BlockNone, 0))) = BlockDisabled"
        using blocked_for_model_eq [of a model now] True v Some by auto
      then show ?thesis using fold_soft_reason [OF now, of "(False, BlockNone, 0)" ?sts] by simp
    qed
  qed
qed

end
