(* ===== verification/WeightedRR.thy ===== *)
theory WeightedRR
  imports Availability
begin

text \<open>
  Smooth weighted round-robin (\<open>sdk/cliproxy/auth/selector.go\<close>): the saturating addition, the
  per-key state \<open>smoothWeightedState\<close>, the weight vector and \<open>pickSmoothWeightedAuth\<close>. The
  locale \<open>smooth_picker\<close> states what one pick promises; inside it the run of a picker is
  shown to be fair: in a period of as many picks as the total weight, every credential is
  picked exactly as often as its weight says. Here the locale is interpreted on the
  selector's picker, in the theory of the scheduler on the scheduler's.
\<close>

section \<open>Definitions\<close>

type_synonym weight_map = "(string \<times> int) list"

text \<open>Reading a Go map of integers: a missing key reads as 0.\<close>

definition read0 :: "weight_map \<Rightarrow> string \<Rightarrow> int" where
  "read0 m k = (case map_of m k of None \<Rightarrow> 0 | Some v \<Rightarrow> v)"

definition saturating_add_int64 :: "int \<Rightarrow> int \<Rightarrow> int" where
  "saturating_add_int64 value delta =
     (if delta > 0 \<and> value > int64_max - delta then int64_max
      else if delta < 0 \<and> value < int64_min - delta then int64_min
      else wrap64 (value + delta))"

text \<open>\<open>ss_current\<close> is \<open>None\<close> while the map is nil.\<close>

record smooth_state =
  ss_current :: "weight_map option"
  ss_weights :: weight_map

definition new_smooth_state :: smooth_state where
  "new_smooth_state = \<lparr>ss_current = None, ss_weights = []\<rparr>"

definition weight_vectors_equal :: "weight_map \<Rightarrow> weight_map \<Rightarrow> bool" where
  "weight_vectors_equal left right =
     (length left = length right \<and> list_all (\<lambda>(i, w). read0 right i = w) left)"

definition prepare_smooth_state :: "smooth_state \<Rightarrow> weight_map \<Rightarrow> smooth_state" where
  "prepare_smooth_state s weights =
     (let s1 = (if ss_current s = None \<or> \<not> weight_vectors_equal (ss_weights s) weights
                then s\<lparr>ss_current := Some []\<rparr> else s)
      in s1\<lparr>ss_weights := weights\<rparr>)"

fun auth_weight_vector_loop :: "auth option list \<Rightarrow> weight_map \<Rightarrow> weight_map" where
  "auth_weight_vector_loop [] weights = weights"
| "auth_weight_vector_loop (None # as) weights = auth_weight_vector_loop as weights"
| "auth_weight_vector_loop (Some a # as) weights =
     (let weight = auth_weight (Some a) in
      auth_weight_vector_loop as
        (if weight > 0 then AList.update (a_id a) weight weights else weights))"

definition auth_weight_vector :: "auth option list \<Rightarrow> weight_map" where
  "auth_weight_vector auths = auth_weight_vector_loop auths []"

text \<open>
  The loop of \<open>pickSmoothWeightedAuth\<close> over \<open>active\<close>, \<open>current\<close>, \<open>totalWeight\<close> and \<open>picked\<close>
  with \<open>pickedCurrent\<close>.
\<close>

fun pick_smooth_loop ::
  "auth option list \<Rightarrow> string list \<Rightarrow> weight_map \<Rightarrow> int \<Rightarrow> (auth \<times> int) option \<Rightarrow>
   string list \<times> weight_map \<times> int \<times> (auth \<times> int) option" where
  "pick_smooth_loop [] active current tot picked = (active, current, tot, picked)"
| "pick_smooth_loop (None # as) active current tot picked =
     pick_smooth_loop as active current tot picked"
| "pick_smooth_loop (Some a # as) active current tot picked =
     (let weight = auth_weight (Some a) in
      if weight \<le> 0 then pick_smooth_loop as active current tot picked
      else
        let c = saturating_add_int64 (read0 current (a_id a)) weight
        in pick_smooth_loop as (a_id a # active) (AList.update (a_id a) c current)
             (saturating_add_int64 tot weight)
             (case picked of
                None \<Rightarrow> Some (a, c)
              | Some (p, pc) \<Rightarrow> if c > pc then Some (a, c) else picked))"

definition pick_smooth_weighted_auth ::
  "auth option list \<Rightarrow> weight_map \<Rightarrow> auth option \<times> weight_map" where
  "pick_smooth_weighted_auth auths current =
     (case pick_smooth_loop auths [] current 0 None of
        (active, cur1, tot, picked) \<Rightarrow>
          let cur2 = filter (\<lambda>(i, _). i \<in> set active) cur1 in
          (case picked of
             None \<Rightarrow> (None, cur2)
           | Some (p, _) \<Rightarrow>
               (Some p, AList.update (a_id p)
                          (saturating_add_int64 (read0 cur2 (a_id p)) (- tot)) cur2)))"

section \<open>The helpers\<close>

lemma read0_update [simp]:
  "read0 (AList.update k v m) k' = (if k' = k then v else read0 m k')"
  by (simp add: read0_def)

lemma read0_Nil [simp]: "read0 [] k = 0"
  by (simp add: read0_def)

lemma read0_filter: "read0 (filter (\<lambda>(i, _). P i) m) k = (if P k then read0 m k else 0)"
proof -
  have "map_of (filter (\<lambda>(i, _). P i) m) k = (if P k then map_of m k else None)"
    by (induction m) auto
  then show ?thesis by (simp add: read0_def)
qed

text \<open>Saturating addition is the clamped mathematical sum.\<close>

lemma saturating_add_clamp:
  "in_int64 v \<Longrightarrow> in_int64 d \<Longrightarrow>
   saturating_add_int64 v d = max int64_min (min int64_max (v + d))"
proof -
  assume v: "in_int64 v" and d: "in_int64 d"
  consider "int64_max < v + d" | "v + d < int64_min" | "in_int64 (v + d)"
    unfolding in_int64_def by linarith
  then show ?thesis
  proof cases
    case 1
    then show ?thesis using v d
      by (auto simp: saturating_add_int64_def in_int64_def int64_max_def int64_min_def)
  next
    case 2
    then show ?thesis using v d
      by (auto simp: saturating_add_int64_def in_int64_def int64_max_def int64_min_def)
  next
    case 3
    then show ?thesis using wrap64_id [OF 3]
      by (auto simp: saturating_add_int64_def in_int64_def)
  qed
qed

lemma saturating_add_exact:
  "in_int64 (v + d) \<Longrightarrow> saturating_add_int64 v d = v + d"
  using wrap64_id [of "v + d"]
  by (auto simp: saturating_add_int64_def in_int64_def)

text \<open>A vector is equal to itself, so preparing twice with the same weights keeps the state.\<close>

lemma weight_vectors_equal_refl: "keys_distinct m \<Longrightarrow> weight_vectors_equal m m"
  by (auto simp: weight_vectors_equal_def list_all_iff read0_def)

text \<open>On positive vectors the comparison is equality of the maps.\<close>

lemma weight_vectors_equal_iff:
  assumes "keys_distinct l" "keys_distinct r" "\<forall>(i, w) \<in> set l. w \<noteq> 0"
  shows "weight_vectors_equal l r \<longleftrightarrow> map_of l = map_of r"
proof
  assume e: "weight_vectors_equal l r"
  have sub: "map_of r i = Some w" if "map_of l i = Some w" for i w
  proof -
    have iw: "(i, w) \<in> set l" using that by (rule map_of_SomeD)
    then have "read0 r i = w" "w \<noteq> 0"
      using e assms(3) by (auto simp: weight_vectors_equal_def list_all_iff)
    then show ?thesis by (auto simp: read0_def split: option.splits)
  qed
  then have "map_of l \<subseteq>\<^sub>m map_of r" by (auto simp: map_le_def)
  moreover have "dom (map_of l) = dom (map_of r)"
  proof (rule card_subset_eq)
    show "finite (dom (map_of r))" by (rule finite_dom_map_of)
    show "dom (map_of l) \<subseteq> dom (map_of r)" using sub by blast
    show "card (dom (map_of l)) = card (dom (map_of r))"
      using e assms distinct_card [of "map fst l"] distinct_card [of "map fst r"]
      by (simp add: dom_map_of_conv_image_fst weight_vectors_equal_def)
  qed
  ultimately show "map_of l = map_of r" by (metis map_le_antisym map_le_def)
next
  assume e: "map_of l = map_of r"
  have "length l = card (dom (map_of l))" "length r = card (dom (map_of r))"
    using assms distinct_card [of "map fst l"] distinct_card [of "map fst r"]
    by (simp_all add: dom_map_of_conv_image_fst)
  with e assms(1) show "weight_vectors_equal l r"
    by (auto simp: weight_vectors_equal_def list_all_iff read0_def simp flip: e)
qed

section \<open>The contract of one pick\<close>

definition weight_sum :: "('a \<Rightarrow> int) \<Rightarrow> 'a list \<Rightarrow> int" where
  "weight_sum wt xs = (\<Sum>x \<in> set xs. wt x)"

text \<open>
  One pick over candidates with distinct identifiers and positive weights, as long as no sum
  leaves the range of \<open>int64\<close>: it picks a candidate of maximal raised value, raises every
  value by its weight and takes the total from the picked one.
\<close>

locale smooth_picker =
  fixes pick :: "'a list \<Rightarrow> weight_map \<Rightarrow> 'a option \<times> weight_map"
    and ident :: "'a \<Rightarrow> string"
    and wt :: "'a \<Rightarrow> int"
  assumes pick_law:
    "xs \<noteq> [] \<Longrightarrow> distinct (map ident xs) \<Longrightarrow> \<forall>x \<in> set xs. 0 < wt x \<Longrightarrow>
     \<forall>x \<in> set xs. \<bar>read0 c (ident x)\<bar> + weight_sum wt xs \<le> int64_max \<Longrightarrow>
     \<exists>p c'. pick xs c = (Some p, c') \<and> p \<in> set xs \<and>
       (\<forall>x \<in> set xs. read0 c (ident x) + wt x \<le> read0 c (ident p) + wt p) \<and>
       (\<forall>x \<in> set xs. read0 c' (ident x) =
          read0 c (ident x) + wt x - (if x = p then weight_sum wt xs else 0))"

text \<open>A run of \<open>k\<close> picks on the same candidates.\<close>

fun smooth_run ::
  "('a list \<Rightarrow> weight_map \<Rightarrow> 'a option \<times> weight_map) \<Rightarrow> 'a list \<Rightarrow> nat \<Rightarrow> weight_map \<Rightarrow>
   'a option list \<times> weight_map" where
  "smooth_run pick xs 0 c = ([], c)"
| "smooth_run pick xs (Suc k) c =
     (case pick xs c of (p, c1) \<Rightarrow>
        (case smooth_run pick xs k c1 of (ps, c2) \<Rightarrow> (p # ps, c2)))"

definition times_picked :: "'a option list \<Rightarrow> 'a \<Rightarrow> int" where
  "times_picked ps x = int (length (filter (\<lambda>p. p = Some x) ps))"

text \<open>The values are balanced: they sum to 0 and none is as low as minus the total weight.\<close>

definition balanced :: "('a \<Rightarrow> string) \<Rightarrow> ('a \<Rightarrow> int) \<Rightarrow> 'a list \<Rightarrow> weight_map \<Rightarrow> bool" where
  "balanced ident wt xs c =
     ((\<Sum>x \<in> set xs. read0 c (ident x)) = 0 \<and>
      (\<forall>x \<in> set xs. - weight_sum wt xs < read0 c (ident x)))"

definition smooth_candidates :: "('a \<Rightarrow> string) \<Rightarrow> ('a \<Rightarrow> int) \<Rightarrow> 'a list \<Rightarrow> bool" where
  "smooth_candidates ident wt xs =
     (xs \<noteq> [] \<and> distinct (map ident xs) \<and> (\<forall>x \<in> set xs. 0 < wt x) \<and>
      int (length xs) * weight_sum wt xs \<le> int64_max)"

lemma weight_sum_pos:
  "smooth_candidates ident wt xs \<Longrightarrow> 0 < weight_sum wt xs"
  unfolding weight_sum_def smooth_candidates_def by (intro sum_pos) auto

lemma balanced_upper:
  assumes "smooth_candidates ident wt xs" "balanced ident wt xs c" "x \<in> set xs"
  shows "\<bar>read0 c (ident x)\<bar> + weight_sum wt xs \<le> int (length xs) * weight_sum wt xs"
proof -
  let ?W = "weight_sum wt xs" and ?c = "\<lambda>x. read0 c (ident x)"
  have card: "card (set xs) = length xs"
    using assms(1) by (auto simp: smooth_candidates_def distinct_map distinct_card)
  have W: "0 < ?W" by (rule weight_sum_pos [OF assms(1)])
  have split: "?c x + (\<Sum>y \<in> set xs - {x}. ?c y) = 0"
    using assms(2,3) sum.remove [of "set xs" x ?c] by (simp add: balanced_def)
  have "(\<Sum>y \<in> set xs - {x}. - ?W) \<le> (\<Sum>y \<in> set xs - {x}. ?c y)"
    using assms(2) by (intro sum_mono) (auto simp: balanced_def less_imp_le)
  moreover obtain n where "length xs = Suc n" using assms(3) by (cases xs) auto
  ultimately have up: "?c x + ?W \<le> int (length xs) * ?W"
    using split assms(3) card by (simp add: card_Diff_singleton algebra_simps)
  have lo: "- ?c x + ?W \<le> int (length xs) * ?W"
  proof (cases "length xs = 1")
    case True
    then obtain y where "xs = [y]" by (auto simp: length_Suc_conv)
    then show ?thesis using split assms(3) by simp
  next
    case False
    moreover have "length xs \<noteq> 0" using assms(3) by auto
    ultimately have "2 \<le> int (length xs)" by linarith
    then have "2 * ?W \<le> int (length xs) * ?W" using W by (intro mult_right_mono) auto
    moreover have "- ?c x < ?W" using assms(2,3) by (auto simp: balanced_def)
    ultimately show ?thesis by linarith
  qed
  show ?thesis using up lo by linarith
qed

lemma balanced_zero:
  "smooth_candidates ident wt xs \<Longrightarrow> \<forall>x \<in> set xs. read0 c (ident x) = 0 \<Longrightarrow>
   balanced ident wt xs c"
  using weight_sum_pos by (auto simp: balanced_def)

context smooth_picker begin

lemma pick_balanced:
  assumes cand: "smooth_candidates ident wt xs" and bal: "balanced ident wt xs c"
  shows "\<exists>p c'. pick xs c = (Some p, c') \<and> p \<in> set xs \<and> balanced ident wt xs c' \<and>
    (\<forall>x \<in> set xs. read0 c' (ident x) =
       read0 c (ident x) + wt x - (if x = p then weight_sum wt xs else 0))"
proof -
  let ?W = "weight_sum wt xs"
  have pre: "\<forall>x \<in> set xs. \<bar>read0 c (ident x)\<bar> + ?W \<le> int64_max"
    using balanced_upper [OF cand bal] cand by (force simp: smooth_candidates_def)
  obtain p c' where pc: "pick xs c = (Some p, c')" "p \<in> set xs"
    and mx: "\<forall>x \<in> set xs. read0 c (ident x) + wt x \<le> read0 c (ident p) + wt p"
    and st: "\<forall>x \<in> set xs. read0 c' (ident x) =
       read0 c (ident x) + wt x - (if x = p then ?W else 0)"
    using pick_law [OF _ _ _ pre] cand by (auto simp: smooth_candidates_def)
  have raised: "(\<Sum>x \<in> set xs. read0 c (ident x) + wt x) = ?W"
    using bal by (simp add: sum.distrib balanced_def weight_sum_def)
  have pos: "0 < read0 c (ident p) + wt p"
  proof (rule ccontr)
    assume "\<not> ?thesis"
    then have "(\<Sum>x \<in> set xs. read0 c (ident x) + wt x) \<le> 0"
      using mx by (intro sum_nonpos) force
    then show False using raised weight_sum_pos [OF cand] by linarith
  qed
  have "(\<Sum>x \<in> set xs. read0 c' (ident x)) =
      (\<Sum>x \<in> set xs. read0 c (ident x) + wt x - (if x = p then ?W else 0))"
    using st by (intro sum.cong) auto
  also have "\<dots> = 0" using raised pc(2) by (simp add: sum_subtractf)
  finally have "balanced ident wt xs c'"
    using st pos bal cand by (auto simp: balanced_def smooth_candidates_def) force
  then show ?thesis using pc st by blast
qed

lemma run_tracks:
  assumes cand: "smooth_candidates ident wt xs"
  shows "balanced ident wt xs c \<Longrightarrow> smooth_run pick xs k c = (ps, c') \<Longrightarrow>
    balanced ident wt xs c' \<and> length ps = k \<and> set ps \<subseteq> Some ` set xs \<and>
    (\<forall>x \<in> set xs. read0 c' (ident x) =
       read0 c (ident x) + int k * wt x - weight_sum wt xs * times_picked ps x)"
proof (induction k arbitrary: c ps)
  case 0
  then show ?case by (simp add: times_picked_def)
next
  case (Suc k)
  obtain p c1 where p: "pick xs c = (Some p, c1)" "p \<in> set xs" "balanced ident wt xs c1"
    and st: "\<forall>x \<in> set xs. read0 c1 (ident x) =
       read0 c (ident x) + wt x - (if x = p then weight_sum wt xs else 0)"
    using pick_balanced [OF cand Suc.prems(1)] by blast
  obtain qs where qs: "smooth_run pick xs k c1 = (qs, c')" "ps = Some p # qs"
    using Suc.prems(2) p(1) by (auto split: prod.splits)
  show ?case
    using Suc.IH [OF p(3) qs(1)] qs(2) p(2) st
    by (auto simp: times_picked_def algebra_simps)
qed

text \<open>Exact fairness over one period, from values that are all 0, and the period's end.\<close>

lemma run_fair:
  assumes cand: "smooth_candidates ident wt xs"
    and zero: "\<forall>x \<in> set xs. read0 c (ident x) = 0"
    and run: "smooth_run pick xs (nat (weight_sum wt xs)) c = (ps, c')"
  shows "\<forall>x \<in> set xs. times_picked ps x = wt x \<and> read0 c' (ident x) = 0"
proof -
  let ?W = "weight_sum wt xs"
  have W: "0 < ?W" by (rule weight_sum_pos [OF cand])
  have tr: "balanced ident wt xs c'"
      "\<forall>x \<in> set xs. read0 c' (ident x) = ?W * (wt x - times_picked ps x)"
    using run_tracks [OF cand balanced_zero [OF cand zero] run] zero W
    by (auto simp: algebra_simps)
  have nn: "0 \<le> wt x - times_picked ps x" if "x \<in> set xs" for x
  proof -
    have "- ?W < ?W * (wt x - times_picked ps x)"
      using tr that by (auto simp: balanced_def)
    then have "?W * (-1) < ?W * (wt x - times_picked ps x)" by simp
    then have "-1 < wt x - times_picked ps x" using mult_less_cancel_left_pos [OF W] by blast
    then show ?thesis by linarith
  qed
  have "(\<Sum>x \<in> set xs. ?W * (wt x - times_picked ps x)) = 0"
    using tr by (simp add: balanced_def)
  then have "\<forall>x \<in> set xs. ?W * (wt x - times_picked ps x) = 0"
    using nn W by (subst (asm) sum_nonneg_eq_0_iff) auto
  then show ?thesis using tr W by auto
qed

text \<open>At every moment no candidate is a whole pick ahead of its share.\<close>

lemma run_never_ahead:
  assumes cand: "smooth_candidates ident wt xs"
    and zero: "\<forall>x \<in> set xs. read0 c (ident x) = 0"
    and run: "smooth_run pick xs k c = (ps, c')" and x: "x \<in> set xs"
  shows "weight_sum wt xs * (times_picked ps x - 1) < int k * wt x"
  using run_tracks [OF cand balanced_zero [OF cand zero] run] zero x
  by (auto simp: balanced_def algebra_simps) fastforce

end

section \<open>The loop, independently of what is picked\<close>

fun smooth_loop ::
  "('a \<Rightarrow> string) \<Rightarrow> ('a \<Rightarrow> int) \<Rightarrow> 'a list \<Rightarrow> string list \<Rightarrow> weight_map \<Rightarrow> int \<Rightarrow>
   ('a \<times> int) option \<Rightarrow> string list \<times> weight_map \<times> int \<times> ('a \<times> int) option" where
  "smooth_loop ident wt [] active current tot picked = (active, current, tot, picked)"
| "smooth_loop ident wt (a # as) active current tot picked =
     (let c = saturating_add_int64 (read0 current (ident a)) (wt a)
      in smooth_loop ident wt as (ident a # active) (AList.update (ident a) c current)
           (saturating_add_int64 tot (wt a))
           (case picked of
              None \<Rightarrow> Some (a, c)
            | Some (p, pc) \<Rightarrow> if c > pc then Some (a, c) else picked))"

definition best_so_far :: "('a \<Rightarrow> string) \<Rightarrow> 'a list \<Rightarrow> weight_map \<Rightarrow> ('a \<times> int) option \<Rightarrow> bool" where
  "best_so_far ident ys c pk =
     (case pk of
        None \<Rightarrow> ys = []
      | Some (p, pc) \<Rightarrow> p \<in> set ys \<and> pc = read0 c (ident p) \<and> (\<forall>y \<in> set ys. read0 c (ident y) \<le> pc))"

lemma smooth_loop_spec:
  "distinct (map ident (ys @ xs)) \<Longrightarrow>
   \<forall>x \<in> set xs. 0 < wt x \<and> in_int64 (read0 c (ident x) + wt x) \<Longrightarrow>
   0 \<le> t \<Longrightarrow> t + (\<Sum>x \<leftarrow> xs. wt x) \<le> int64_max \<Longrightarrow> best_so_far ident ys c pk \<Longrightarrow>
   \<exists>c' pk'. smooth_loop ident wt xs act c t pk =
       (rev (map ident xs) @ act, c', t + (\<Sum>x \<leftarrow> xs. wt x), pk') \<and>
     (\<forall>i. read0 c' i = read0 c i + (\<Sum>x \<leftarrow> xs. if ident x = i then wt x else 0)) \<and>
     best_so_far ident (ys @ xs) c' pk'"
proof (induction xs arbitrary: ys act c t pk)
  case Nil
  then show ?case by simp
next
  case (Cons x xs)
  let ?v = "read0 c (ident x) + wt x"
  let ?c = "AList.update (ident x) ?v c"
  let ?pk = "case pk of None \<Rightarrow> Some (x, ?v)
    | Some (p, pc) \<Rightarrow> if ?v > pc then Some (x, ?v) else pk"
  have nn: "0 \<le> (\<Sum>x \<leftarrow> xs. wt x)"
    using Cons.prems(2) by (intro sum_list_nonneg) auto
  have v: "saturating_add_int64 (read0 c (ident x)) (wt x) = ?v"
    using Cons.prems(2) by (intro saturating_add_exact) simp
  have t: "saturating_add_int64 t (wt x) = t + wt x"
    using Cons.prems nn
    by (intro saturating_add_exact) (auto simp: in_int64_def int64_min_def)
  have fresh: "ident y \<noteq> ident x" if "y \<in> set ys \<union> set xs" for y
    using Cons.prems(1) that by (auto simp: image_iff)
  have b: "best_so_far ident (ys @ [x]) ?c ?pk"
  proof (cases pk)
    case None
    then show ?thesis using Cons.prems(5) by (simp add: best_so_far_def)
  next
    case (Some q)
    obtain p pc where q: "q = (p, pc)" by (cases q)
    have "p \<in> set ys" "pc = read0 c (ident p)" "\<forall>y \<in> set ys. read0 c (ident y) \<le> pc"
      using Cons.prems(5) by (auto simp: best_so_far_def Some q)
    then show ?thesis using fresh by (auto simp: best_so_far_def Some q)
  qed
  obtain c' pk' where IH: "smooth_loop ident wt xs (ident x # act) ?c (t + wt x) ?pk =
       (rev (map ident xs) @ (ident x # act), c', t + wt x + (\<Sum>x \<leftarrow> xs. wt x), pk')"
     "\<forall>i. read0 c' i = read0 ?c i + (\<Sum>x \<leftarrow> xs. if ident x = i then wt x else 0)"
     "best_so_far ident ((ys @ [x]) @ xs) c' pk'"
    using Cons.IH [of "ys @ [x]" ?c "t + wt x" ?pk "ident x # act"] Cons.prems b fresh
    by auto
  then show ?case by (auto simp: v t)
qed

lemma sum_list_ident:
  "distinct (map ident xs) \<Longrightarrow> x \<in> set xs \<Longrightarrow>
   (\<Sum>y \<leftarrow> xs. if ident y = ident x then wt y else 0) = wt x"
  for wt :: "'a \<Rightarrow> int"
proof (induction xs)
  case (Cons y xs)
  have z: "(\<Sum>z \<leftarrow> zs. if ident z = i then wt z else 0) = 0" if "i \<notin> ident ` set zs" for zs i
    using that by (induction zs) auto
  show ?case
  proof (cases "x = y")
    case True
    then show ?thesis using Cons.prems z [of "ident y" xs] by simp
  next
    case False
    then have "x \<in> set xs" using Cons.prems by simp
    moreover from this have "ident y \<noteq> ident x" using Cons.prems(1) by force
    ultimately show ?thesis using Cons by simp
  qed
qed simp

text \<open>The loop from the start, with the removal of the total from the picked value.\<close>

lemma smooth_loop_pick:
  assumes ne: "xs \<noteq> []" and dist: "distinct (map ident xs)" and pos: "\<forall>x \<in> set xs. 0 < wt x"
    and bound: "\<forall>x \<in> set xs. \<bar>read0 c (ident x)\<bar> + weight_sum wt xs \<le> int64_max"
  shows "\<exists>c1 p. smooth_loop ident wt xs [] c 0 None =
      (rev (map ident xs), c1, weight_sum wt xs, Some (p, read0 c1 (ident p))) \<and> p \<in> set xs \<and>
    (\<forall>x \<in> set xs. read0 c1 (ident x) = read0 c (ident x) + wt x) \<and>
    (\<forall>x \<in> set xs. read0 c (ident x) + wt x \<le> read0 c (ident p) + wt p) \<and>
    saturating_add_int64 (read0 c1 (ident p)) (- weight_sum wt xs) =
      read0 c1 (ident p) - weight_sum wt xs"
proof -
  have sl: "(\<Sum>x \<leftarrow> xs. wt x) = weight_sum wt xs"
    using dist by (simp add: weight_sum_def sum_list_distinct_conv_sum_set distinct_map)
  have le: "wt x \<le> weight_sum wt xs" if "x \<in> set xs" for x
    unfolding weight_sum_def using that pos by (intro member_le_sum) (auto simp: less_imp_le)
  have fit: "\<forall>x \<in> set xs. 0 < wt x \<and> in_int64 (read0 c (ident x) + wt x)"
    using pos bound le by (force simp: in_int64_def int64_min_def int64_max_def)
  have tot: "0 + (\<Sum>x \<leftarrow> xs. wt x) \<le> int64_max"
    using ne bound unfolding sl by (cases xs) force+
  obtain c1 pk where l: "smooth_loop ident wt xs [] c 0 None =
      (rev (map ident xs), c1, weight_sum wt xs, pk)"
    "\<forall>i. read0 c1 i = read0 c i + (\<Sum>x \<leftarrow> xs. if ident x = i then wt x else 0)"
    "best_so_far ident xs c1 pk"
    using smooth_loop_spec [of ident "[]" xs wt c 0 None "[]"] dist fit tot sl
    by (auto simp: best_so_far_def)
  have upd: "\<forall>x \<in> set xs. read0 c1 (ident x) = read0 c (ident x) + wt x"
    using l(2) sum_list_ident [OF dist] by auto
  obtain p where p: "pk = Some (p, read0 c1 (ident p))" "p \<in> set xs"
    "\<forall>x \<in> set xs. read0 c1 (ident x) \<le> read0 c1 (ident p)"
    using l(3) ne by (auto simp: best_so_far_def split: option.splits)
  have "in_int64 (read0 c1 (ident p) - weight_sum wt xs)"
    using upd p(2) bound pos le [OF p(2)]
    by (force simp: in_int64_def int64_min_def int64_max_def)
  then show ?thesis
    using l(1) p upd saturating_add_exact [of "read0 c1 (ident p)" "- weight_sum wt xs"] by auto
qed

section \<open>The selector's picker\<close>

definition weighted_part :: "auth option list \<Rightarrow> auth list" where
  "weighted_part auths = map the (filter (\<lambda>ao. ao \<noteq> None \<and> 0 < auth_weight ao) auths)"

lemma weighted_part_Some:
  "\<forall>x \<in> set xs. 0 < auth_weight (Some x) \<Longrightarrow> weighted_part (map Some xs) = xs"
  by (induction xs) (auto simp: weighted_part_def)

lemma pick_smooth_loop_eq:
  "pick_smooth_loop auths act c t pk =
     smooth_loop a_id (\<lambda>a. auth_weight (Some a)) (weighted_part auths) act c t pk"
  by (induction auths act c t pk rule: pick_smooth_loop.induct)
    (auto simp: Let_def weighted_part_def)

definition pick_smooth_positive :: "auth list \<Rightarrow> weight_map \<Rightarrow> auth option \<times> weight_map" where
  "pick_smooth_positive xs c = pick_smooth_weighted_auth (map Some xs) c"

interpretation selector_picker:
  smooth_picker pick_smooth_positive a_id "\<lambda>a. auth_weight (Some a)"
proof
  fix xs :: "auth list" and c
  let ?wt = "\<lambda>a. auth_weight (Some a)"
  assume h: "xs \<noteq> []" "distinct (map a_id xs)" "\<forall>x \<in> set xs. 0 < ?wt x"
    "\<forall>x \<in> set xs. \<bar>read0 c (a_id x)\<bar> + weight_sum ?wt xs \<le> int64_max"
  note all = weighted_part_Some [OF h(3)]
  obtain c1 p where l: "smooth_loop a_id ?wt xs [] c 0 None =
      (rev (map a_id xs), c1, weight_sum ?wt xs, Some (p, read0 c1 (a_id p)))" "p \<in> set xs"
    "\<forall>x \<in> set xs. read0 c1 (a_id x) = read0 c (a_id x) + ?wt x"
    "\<forall>x \<in> set xs. read0 c (a_id x) + ?wt x \<le> read0 c (a_id p) + ?wt p"
    "saturating_add_int64 (read0 c1 (a_id p)) (- weight_sum ?wt xs) =
      read0 c1 (a_id p) - weight_sum ?wt xs"
    using smooth_loop_pick [OF h] by blast
  have inj: "a_id x = a_id p \<longleftrightarrow> x = p" if "x \<in> set xs" for x
    using h(2) l(2) that by (auto simp: distinct_map inj_on_def)
  show "\<exists>p c'. pick_smooth_positive xs c = (Some p, c') \<and> p \<in> set xs \<and>
       (\<forall>x \<in> set xs. read0 c (a_id x) + ?wt x \<le> read0 c (a_id p) + ?wt p) \<and>
       (\<forall>x \<in> set xs. read0 c' (a_id x) =
          read0 c (a_id x) + ?wt x - (if x = p then weight_sum ?wt xs else 0))"
    using l inj
    by (auto simp: pick_smooth_positive_def pick_smooth_weighted_auth_def pick_smooth_loop_eq all
        Let_def read0_filter)
qed

end
