(* ===== verification/Selectors.thy ===== *)
theory Selectors
  imports WeightedRR
begin

text \<open>
  The three basic selectors of \<open>sdk/cliproxy/auth/selector.go\<close> as state transformers. The
  locale \<open>auth_selector\<close> is the contract a client of a selector relies on: a picked
  credential is one of the candidates, admitted, unblocked and of the best available
  priority; a pick fails only when nothing is available; the invariant of the state is kept.
  It is interpreted on all three.
\<close>

section \<open>Definitions\<close>

record rr_state =
  rr_cursors :: "(string \<times> int) list"
  rr_max_keys :: int

definition cursor_limit :: "int \<Rightarrow> int" where
  "cursor_limit max_keys = (if max_keys \<le> 0 then 4096 else max_keys)"

definition ensure_cursor_key :: "string \<Rightarrow> int \<Rightarrow> rr_state \<Rightarrow> rr_state" where
  "ensure_cursor_key key limit s =
     (if map_of (rr_cursors s) key = None \<and> int (length (rr_cursors s)) \<ge> limit
      then s\<lparr>rr_cursors := []\<rparr> else s)"

text \<open>\<open>ws\<close> is the downstream websocket flag of the request context.\<close>

definition round_robin_pick ::
  "bool \<Rightarrow> gotime \<Rightarrow> string \<Rightarrow> string \<Rightarrow> auth option list \<Rightarrow> rr_state \<Rightarrow>
   (select_error + auth) \<times> rr_state" where
  "round_robin_pick ws now provider model auths s =
     (case get_available_auths auths provider model now of
        Inl e \<Rightarrow> (Inl e, s)
      | Inr av0 \<Rightarrow>
          let available = prefer_codex_websocket_auths ws provider av0;
              key = provider @ '':'' @ canonical_model_key model;
              s1 = ensure_cursor_key key (cursor_limit (rr_max_keys s)) s;
              index0 = read0 (rr_cursors s1) key;
              index = (if index0 \<ge> 2147483640 then 0 else index0);
              s2 = s1\<lparr>rr_cursors := AList.update key (index + 1) (rr_cursors s1)\<rparr>
          in (Inr (available ! nat (go_rem index (int (length available)))), s2))"

definition fill_first_pick ::
  "bool \<Rightarrow> gotime \<Rightarrow> string \<Rightarrow> string \<Rightarrow> auth option list \<Rightarrow> select_error + auth" where
  "fill_first_pick ws now provider model auths =
     (case get_available_auths auths provider model now of
        Inl e \<Rightarrow> Inl e
      | Inr av0 \<Rightarrow> Inr (prefer_codex_websocket_auths ws provider av0 ! 0))"

record wrr_state =
  wrr_states :: "(string \<times> smooth_state) list"
  wrr_max_keys :: int

text \<open>\<open>route\<close> is the route model in the request context, when there is one.\<close>

definition weighted_selector_state_model :: "string option \<Rightarrow> string \<Rightarrow> string" where
  "weighted_selector_state_model route availability_model =
     (case route of
        Some m \<Rightarrow> if trim_space m \<noteq> [] then m else availability_model
      | None \<Rightarrow> availability_model)"

text \<open>
  \<open>pickSmoothWeightedAuth\<close> updates the map of the key's state in place, and \<open>prepare\<close> stores
  the new weights: the state is written back under its key.
\<close>

definition weighted_pick ::
  "bool \<Rightarrow> string option \<Rightarrow> gotime \<Rightarrow> string \<Rightarrow> string \<Rightarrow> auth option list \<Rightarrow> wrr_state \<Rightarrow>
   (select_error + auth) \<times> wrr_state" where
  "weighted_pick ws route now provider model auths s =
     (case get_available_auths (positive_weight_auths auths) provider model now of
        Inl e \<Rightarrow> (Inl e, s)
      | Inr av0 \<Rightarrow>
          let available = map Some (prefer_codex_websocket_auths ws provider av0);
              key = provider @ '':'' @ canonical_model_key (weighted_selector_state_model route model);
              limit = cursor_limit (wrr_max_keys s);
              states = (if map_of (wrr_states s) key = None \<and> int (length (wrr_states s)) \<ge> limit
                        then [] else wrr_states s);
              st0 = (case map_of states key of None \<Rightarrow> new_smooth_state | Some st \<Rightarrow> st);
              st1 = prepare_smooth_state st0 (auth_weight_vector available)
          in (case pick_smooth_weighted_auth available (the (ss_current st1)) of
                (picked, current) \<Rightarrow>
                  let s' = s\<lparr>wrr_states := AList.update key (st1\<lparr>ss_current := Some current\<rparr>) states\<rparr>
                  in (case picked of
                        None \<Rightarrow> (Inl (CodedError ''auth_unavailable''
                                   ''no auth available with positive weight''), s')
                      | Some a \<Rightarrow> (Inr a, s'))))"

section \<open>The contract of a selector\<close>

definition pickable :: "(auth option \<Rightarrow> bool) \<Rightarrow> auth option list \<Rightarrow> string \<Rightarrow> gotime \<Rightarrow> auth \<Rightarrow> bool" where
  "pickable admits auths model now a =
     (Some a \<in> set auths \<and> admits (Some a) \<and> \<not> blocked (Some a) model now)"

locale auth_selector =
  fixes pick :: "gotime \<Rightarrow> string \<Rightarrow> string \<Rightarrow> auth option list \<Rightarrow> 's \<Rightarrow> (select_error + auth) \<times> 's"
    and admits :: "auth option \<Rightarrow> bool"
    and inv :: "'s \<Rightarrow> bool"
  assumes pick_sound:
    "inv s \<Longrightarrow> pick now provider model auths s = (Inr a, s') \<Longrightarrow>
     pickable admits auths model now a \<and>
     (\<forall>b. pickable admits auths model now b \<longrightarrow> prio b \<le> prio a)"
    and pick_live:
    "inv s \<Longrightarrow> \<exists>b. pickable admits auths model now b \<Longrightarrow>
     \<exists>a s'. pick now provider model auths s = (Inr a, s')"
    and pick_inv: "inv s \<Longrightarrow> inv (snd (pick now provider model auths s))"

context auth_selector begin

lemma pick_fails_iff:
  assumes "inv s"
  shows "(\<exists>e. fst (pick now provider model auths s) = Inl e) \<longleftrightarrow>
    \<not> (\<exists>b. pickable admits auths model now b)"
proof -
  obtain r s' where p: "pick now provider model auths s = (r, s')"
    by (cases "pick now provider model auths s")
  show ?thesis
  proof (cases r)
    case (Inl e)
    then show ?thesis using pick_live [OF assms, of auths model now provider] p by fastforce
  next
    case (Inr a)
    then show ?thesis using pick_sound [OF assms, of now provider model auths a s'] p by auto
  qed
qed

text \<open>The contract in one statement, over the credentials themselves.\<close>

lemma pick_spec:
  assumes "inv s"
  shows "(\<forall>a s'. pick now provider model auths s = (Inr a, s') \<longrightarrow>
      Some a \<in> set auths \<and> admits (Some a) \<and> \<not> blocked (Some a) model now \<and>
      (\<forall>b. Some b \<in> set auths \<longrightarrow> admits (Some b) \<longrightarrow> \<not> blocked (Some b) model now \<longrightarrow> prio b \<le> prio a)) \<and>
    ((\<exists>e. fst (pick now provider model auths s) = Inl e) \<longleftrightarrow>
      (\<forall>b. Some b \<in> set auths \<longrightarrow> admits (Some b) \<longrightarrow> blocked (Some b) model now)) \<and>
    inv (snd (pick now provider model auths s))"
proof (intro conjI allI impI)
  fix a s'
  assume p: "pick now provider model auths s = (Inr a, s')"
  from pick_sound [OF assms p] show "Some a \<in> set auths" "admits (Some a)" "\<not> blocked (Some a) model now"
    by (simp_all add: pickable_def)
  fix b
  assume "Some b \<in> set auths" "admits (Some b)" "\<not> blocked (Some b) model now"
  then show "prio b \<le> prio a" using pick_sound [OF assms p] by (simp add: pickable_def)
next
  show "(\<exists>e. fst (pick now provider model auths s) = Inl e) \<longleftrightarrow>
      (\<forall>b. Some b \<in> set auths \<longrightarrow> admits (Some b) \<longrightarrow> blocked (Some b) model now)"
    unfolding pick_fails_iff [OF assms] by (auto simp: pickable_def)
  show "inv (snd (pick now provider model auths s))" by (rule pick_inv [OF assms])
qed

end

section \<open>What every selector starts from\<close>

lemma eligible_pickable:
  "a \<in> set (eligible_auths auths model now) \<longleftrightarrow> pickable (\<lambda>_. True) auths model now a"
  by (simp add: eligible_auths_iff pickable_def)

lemma eligible_positive:
  "a \<in> set (eligible_auths (positive_weight_auths auths) model now) \<longleftrightarrow>
   pickable (\<lambda>c. auth_weight c > 0) auths model now a"
  by (auto simp: eligible_auths_iff pickable_def positive_weight_auths_def)

lemma get_available_empty:
  "eligible_auths auths model now = [] \<Longrightarrow> \<exists>e. get_available_auths auths provider model now = Inl e"
proof -
  assume el: "eligible_auths auths model now = []"
  obtain m cc e where c: "collect_available_by_priority auths model now = (m, cc, e)"
    by (cases "collect_available_by_priority auths model now") auto
  have "buckets_hold m (eligible_auths auths model now)"
    using collect_loop_buckets [of "[]" "[]" auths model now 0 0] c
    by (simp add: collect_available_by_priority_def buckets_hold_def)
  then have "m = []" using buckets_empty_iff el by blast
  then show ?thesis
    using c by (simp add: get_available_auths_def get_available_auths_with_priority_mode_def Let_def)
qed

lemma get_available_Inr:
  assumes "get_available_auths auths provider model now = Inr av"
  shows "av \<noteq> []" "set av = set (top_tier (eligible_auths auths model now))"
    "eligible_auths auths model now \<noteq> []"
proof -
  show ne: "eligible_auths auths model now \<noteq> []"
    using get_available_empty [of auths model now provider] assms by auto
  have av: "av = sort_key a_id (top_tier (eligible_auths auths model now))"
    using get_available_auths_ok [OF ne, of provider] assms by simp
  show "set av = set (top_tier (eligible_auths auths model now))" by (simp add: av)
  show "av \<noteq> []" using top_tier_ne [OF ne] av by (metis set_empty set_sort)
qed

lemma get_available_live:
  "a \<in> set (eligible_auths auths model now) \<Longrightarrow>
   \<exists>av. get_available_auths auths provider model now = Inr av"
  using get_available_auths_ok [of auths model now provider] by fastforce

lemma top_tier_member:
  "a \<in> set (top_tier xs) \<longleftrightarrow> a \<in> set xs \<and> (\<forall>b \<in> set xs. prio b \<le> prio a)"
proof
  assume "a \<in> set (top_tier xs)"
  then show "a \<in> set xs \<and> (\<forall>b \<in> set xs. prio b \<le> prio a)" by (auto simp: top_tier_def)
next
  assume h: "a \<in> set xs \<and> (\<forall>b \<in> set xs. prio b \<le> prio a)"
  then have "prio a = Max (prio ` set xs)" by (intro sym [OF Max_eqI]) auto
  then show "a \<in> set (top_tier xs)" using h by (simp add: top_tier_def)
qed

text \<open>Any choice among the preferred available credentials satisfies the contract.\<close>

lemma available_choice:
  assumes "get_available_auths auths provider model now = Inr av"
    and "a \<in> set (prefer_codex_websocket_auths ws provider av)"
  shows "a \<in> set (eligible_auths auths model now) \<and>
    (\<forall>b \<in> set (eligible_auths auths model now). prio b \<le> prio a)"
  using prefer_codex_subset [of ws provider av] get_available_Inr(2) [OF assms(1)] assms(2)
    top_tier_member by blast

section \<open>Round-robin\<close>

definition rr_inv :: "rr_state \<Rightarrow> bool" where
  "rr_inv s = (\<forall>k. 0 \<le> read0 (rr_cursors s) k \<and> read0 (rr_cursors s) k \<le> 2147483640)"

lemma rr_nth_mem:
  "xs \<noteq> [] \<Longrightarrow> 0 \<le> i \<Longrightarrow> xs ! nat (go_rem i (int (length xs))) \<in> set xs"
  by (intro nth_mem) (simp add: go_rem_nonneg nat_less_iff)

lemma ensure_cursor_inv: "rr_inv s \<Longrightarrow> rr_inv (ensure_cursor_key k l s)"
  by (simp add: rr_inv_def ensure_cursor_key_def)

lemma round_robin_pick_cases:
  assumes "rr_inv s" "get_available_auths auths provider model now = Inr av"
  shows "\<exists>a. a \<in> set (prefer_codex_websocket_auths ws provider av) \<and>
    fst (round_robin_pick ws now provider model auths s) = Inr a"
    and "rr_inv (snd (round_robin_pick ws now provider model auths s))"
proof -
  let ?key = "provider @ '':'' @ canonical_model_key model"
  let ?s1 = "ensure_cursor_key ?key (cursor_limit (rr_max_keys s)) s"
  let ?av = "prefer_codex_websocket_auths ws provider av"
  have i1: "rr_inv ?s1" by (rule ensure_cursor_inv [OF assms(1)])
  then have nn: "0 \<le> read0 (rr_cursors ?s1) ?key" by (simp add: rr_inv_def)
  have ne: "?av \<noteq> []" using prefer_codex_ne [OF get_available_Inr(1) [OF assms(2)]] by simp
  show "\<exists>a. a \<in> set ?av \<and> fst (round_robin_pick ws now provider model auths s) = Inr a"
    using rr_nth_mem [OF ne] nn by (auto simp: round_robin_pick_def assms(2) Let_def)
  show "rr_inv (snd (round_robin_pick ws now provider model auths s))"
    using i1 by (auto simp: round_robin_pick_def assms(2) Let_def rr_inv_def)
qed

interpretation round_robin:
  auth_selector "round_robin_pick ws" "\<lambda>_. True" rr_inv for ws
proof (unfold_locales, goal_cases)
  case (1 s now provider model auths a s')
  obtain av where av: "get_available_auths auths provider model now = Inr av"
    using 1(2) by (cases "get_available_auths auths provider model now")
      (auto simp: round_robin_pick_def)
  then have "a \<in> set (prefer_codex_websocket_auths ws provider av)"
    using round_robin_pick_cases(1) [OF 1(1) av, of ws] 1(2) by auto
  from available_choice [OF av this] show ?case by (simp add: eligible_pickable)
next
  case (2 s auths model now provider)
  then obtain av where av: "get_available_auths auths provider model now = Inr av"
    using get_available_live by (metis eligible_pickable)
  show ?case using round_robin_pick_cases(1) [OF 2(1) av, of ws] by (metis prod.collapse)
next
  case (3 s now provider model auths)
  then show ?case
    using round_robin_pick_cases(2) [OF 3, of auths provider model now _ ws]
    by (cases "get_available_auths auths provider model now") (auto simp: round_robin_pick_def)
qed

text \<open>The rotation: successive picks with the same candidates take successive positions.\<close>

definition rr_index :: "string \<Rightarrow> string \<Rightarrow> rr_state \<Rightarrow> int" where
  "rr_index provider model s = read0 (rr_cursors s) (provider @ '':'' @ canonical_model_key model)"

definition rr_key_known :: "string \<Rightarrow> string \<Rightarrow> rr_state \<Rightarrow> bool" where
  "rr_key_known provider model s =
     (map_of (rr_cursors s) (provider @ '':'' @ canonical_model_key model) \<noteq> None)"

lemma round_robin_step:
  fixes ws :: bool
  assumes av: "get_available_auths auths provider model now = Inr av"
    and known: "rr_key_known provider model s"
    and idx: "0 \<le> rr_index provider model s" "rr_index provider model s < 2147483640"
  defines "xs \<equiv> prefer_codex_websocket_auths ws provider av"
  shows "\<exists>s'. round_robin_pick ws now provider model auths s =
      (Inr (xs ! nat (rr_index provider model s mod int (length xs))), s') \<and>
      rr_key_known provider model s' \<and>
      rr_index provider model s' = rr_index provider model s + 1"
proof -
  have "0 < int (length xs)"
    using prefer_codex_ne [OF get_available_Inr(1) [OF av]] by (simp add: xs_def)
  then have rem: "go_rem (rr_index provider model s) (int (length xs)) =
      rr_index provider model s mod int (length xs)"
    by (rule go_rem_nonneg [OF idx(1)])
  let ?key = "provider @ '':'' @ canonical_model_key model"
  have e: "ensure_cursor_key ?key (cursor_limit (rr_max_keys s)) s = s"
    using known by (auto simp: ensure_cursor_key_def rr_key_known_def)
  let ?s' = "s\<lparr>rr_cursors := AList.update ?key (rr_index provider model s + 1) (rr_cursors s)\<rparr>"
  have "round_robin_pick ws now provider model auths s =
      (Inr (xs ! nat (go_rem (rr_index provider model s) (int (length xs)))), ?s')"
    using idx(2) by (simp add: round_robin_pick_def av Let_def e [simplified] xs_def rr_index_def)
  then show ?thesis
    unfolding rem by (intro exI [of _ ?s']) (simp add: rr_key_known_def rr_index_def)
qed

text \<open>A run of picks at the given instants.\<close>

fun round_robin_run ::
  "bool \<Rightarrow> string \<Rightarrow> string \<Rightarrow> auth option list \<Rightarrow> gotime list \<Rightarrow> rr_state \<Rightarrow>
   (select_error + auth) list \<times> rr_state" where
  "round_robin_run ws provider model auths [] s = ([], s)"
| "round_robin_run ws provider model auths (t # ts) s =
     (case round_robin_pick ws t provider model auths s of (r, s1) \<Rightarrow>
        (case round_robin_run ws provider model auths ts s1 of (rs, s2) \<Rightarrow> (r # rs, s2)))"

lemma round_robin_run_positions:
  fixes ws :: bool
  assumes "\<forall>t \<in> set ts. get_available_auths auths provider model t = Inr av"
    and "rr_key_known provider model s" "0 \<le> rr_index provider model s"
    and "rr_index provider model s + int (length ts) \<le> 2147483640"
  defines "xs \<equiv> prefer_codex_websocket_auths ws provider av"
  shows "fst (round_robin_run ws provider model auths ts s) =
    map (\<lambda>j. Inr (xs ! nat ((rr_index provider model s + int j) mod int (length xs)))) [0..<length ts]"
  using assms(1-4)
proof (induction ts arbitrary: s)
  case (Cons t ts)
  obtain s' where s': "round_robin_pick ws t provider model auths s =
      (Inr (xs ! nat (rr_index provider model s mod int (length xs))), s')"
    "rr_key_known provider model s'" "rr_index provider model s' = rr_index provider model s + 1"
    using round_robin_step [of auths provider model t av s ws] Cons.prems
    by (auto simp: xs_def)
  have IH: "fst (round_robin_run ws provider model auths ts s') =
    map (\<lambda>j. Inr (xs ! nat ((rr_index provider model s + 1 + int j) mod int (length xs)))) [0..<length ts]"
    using Cons.IH [of s'] Cons.prems s' by simp
  have shift: "map f [0..<length (t # ts)] = f 0 # map (\<lambda>j. f (Suc j)) [0..<length ts]"
    for f :: "nat \<Rightarrow> select_error + auth"
    by (simp add: upt_conv_Cons map_Suc_upt [symmetric] del: upt_Suc)
  have "fst (round_robin_run ws provider model auths (t # ts) s) =
      Inr (xs ! nat (rr_index provider model s mod int (length xs))) #
      fst (round_robin_run ws provider model auths ts s')"
    by (simp add: s'(1) split: prod.split)
  then show ?case
    unfolding shift IH by (simp add: add.assoc add.left_commute del: upt_Suc)
qed simp

section \<open>Fill-first\<close>

interpretation fill_first:
  auth_selector "\<lambda>now provider model auths (s :: unit). (fill_first_pick ws now provider model auths, s)"
    "\<lambda>_. True" "\<lambda>_. True" for ws
proof (unfold_locales, goal_cases)
  case (1 s now provider model auths a s')
  then obtain av where av: "get_available_auths auths provider model now = Inr av"
    by (cases "get_available_auths auths provider model now") (auto simp: fill_first_pick_def)
  have "prefer_codex_websocket_auths ws provider av \<noteq> []"
    by (rule prefer_codex_ne [OF get_available_Inr(1) [OF av]])
  then have "a \<in> set (prefer_codex_websocket_auths ws provider av)"
    using 1(2) av by (auto simp: fill_first_pick_def)
  from available_choice [OF av this] show ?case by (simp add: eligible_pickable)
next
  case (2 s auths model now provider)
  then obtain av where "get_available_auths auths provider model now = Inr av"
    using get_available_live by (metis eligible_pickable)
  then show ?case by (simp add: fill_first_pick_def)
qed simp

section \<open>Smooth weighted round-robin\<close>

lemma smooth_loop_picks:
  "xs \<noteq> [] \<or> pk \<noteq> None \<Longrightarrow> (\<forall>p pc. pk = Some (p, pc) \<longrightarrow> p \<in> A) \<Longrightarrow> set xs \<subseteq> A \<Longrightarrow>
   \<exists>act c' t' p pc. smooth_loop ident wt xs act0 c t pk = (act, c', t', Some (p, pc)) \<and> p \<in> A"
proof (induction xs arbitrary: act0 c t pk)
  case Nil
  then show ?case by auto
next
  case (Cons x xs)
  show ?case
    unfolding smooth_loop.simps Let_def
    by (rule Cons.IH) (use Cons.prems in \<open>auto split: option.splits if_splits\<close>)
qed

lemma pick_smooth_weighted_some:
  assumes "xs \<noteq> []" "\<forall>x \<in> set xs. 0 < auth_weight (Some x)"
  shows "\<exists>p c'. pick_smooth_weighted_auth (map Some xs) c = (Some p, c') \<and> p \<in> set xs"
proof -
  obtain act c' t' p pc where
    "smooth_loop a_id (\<lambda>a. auth_weight (Some a)) xs [] c 0 None = (act, c', t', Some (p, pc))"
    "p \<in> set xs"
    using smooth_loop_picks [of xs None "set xs" a_id "\<lambda>a. auth_weight (Some a)" "[]" c 0] assms(1)
    by auto
  then show ?thesis
    by (simp add: pick_smooth_weighted_auth_def pick_smooth_loop_eq weighted_part_Some [OF assms(2)]
        Let_def)
qed

lemma weighted_available:
  fixes ws :: bool
  assumes "get_available_auths (positive_weight_auths auths) provider model now = Inr av"
  defines "xs \<equiv> prefer_codex_websocket_auths ws provider av"
  shows "xs \<noteq> []" "\<forall>x \<in> set xs. 0 < auth_weight (Some x)"
proof -
  show "xs \<noteq> []"
    unfolding xs_def by (rule prefer_codex_ne [OF get_available_Inr(1) [OF assms(1)]])
  show "\<forall>x \<in> set xs. 0 < auth_weight (Some x)"
    using available_choice [OF assms(1), of _ ws] unfolding xs_def
    by (auto simp: eligible_positive pickable_def)
qed

lemma weighted_pick_cases:
  assumes "get_available_auths (positive_weight_auths auths) provider model now = Inr av"
  shows "\<exists>a. a \<in> set (prefer_codex_websocket_auths ws provider av) \<and>
    fst (weighted_pick ws route now provider model auths s) = Inr a"
  using pick_smooth_weighted_some [OF weighted_available [OF assms, of ws]]
  by (auto simp: weighted_pick_def assms Let_def split: prod.split option.split)
    (metis option.distinct(1) option.inject prod.inject)+

interpretation weighted:
  auth_selector "weighted_pick ws route" "\<lambda>c. auth_weight c > 0" "\<lambda>_. True" for ws route
proof (unfold_locales, goal_cases)
  case (1 s now provider model auths a s')
  then obtain av where av: "get_available_auths (positive_weight_auths auths) provider model now = Inr av"
    by (cases "get_available_auths (positive_weight_auths auths) provider model now")
      (auto simp: weighted_pick_def)
  then have "a \<in> set (prefer_codex_websocket_auths ws provider av)"
    using weighted_pick_cases [OF av, of ws route s] 1(2) by auto
  from available_choice [OF av this] show ?case by (simp add: eligible_positive)
next
  case (2 s auths model now provider)
  then obtain av where av: "get_available_auths (positive_weight_auths auths) provider model now = Inr av"
    using get_available_live by (metis eligible_positive)
  show ?case using weighted_pick_cases [OF av, of ws route s] by (metis prod.collapse)
qed simp

end
