(* ===== verification/Scheduler.thy ===== *)
theory Scheduler
  imports Selectors
begin

text \<open>
  The incremental scheduler (\<open>sdk/cliproxy/auth/scheduler.go\<close>): provider states, the shards
  of a provider's models, their ready views and cooldown queue, and the picks. A shard's
  entries are an association list; views and the queue hold the identifiers of entries, as
  the code's slices hold pointers to them. Each clock reading is a parameter, the models the
  registry lists for a credential are the parameter \<open>models_for\<close>.
\<close>

section \<open>Request-side eligibility (conductor_selection.go, conductor_execution.go)\<close>

definition openai_compatible_provider_key :: "string \<Rightarrow> string" where
  "openai_compatible_provider_key name0 =
     (let name = to_lower (trim_space name0) in
      if name = [] \<or> name = ''openai-compatibility'' \<or> has_prefix name ''openai-compatible-''
      then (if name = [] then ''openai-compatibility'' else name)
      else ''openai-compatible-'' @ name)"

definition executor_key_from_auth :: "auth option \<Rightarrow> string" where
  "executor_key_from_auth ao =
     (case ao of
        None \<Rightarrow> []
      | Some a \<Rightarrow>
          let provider_key = auth_attribute a ''provider_key'';
              compat_name = auth_attribute a ''compat_name''
          in if compat_name \<noteq> []
             then openai_compatible_provider_key (if provider_key = [] then compat_name else provider_key)
             else if equal_fold (trim_space (a_provider a)) ''openai-compatibility''
             then (let label = trim_space (a_label a)
                   in openai_compatible_provider_key
                        (if label = [] then ''openai-compatibility'' else label))
             else to_lower (trim_space (a_provider a)))"

definition pinned_auth_id_from_metadata :: "(string \<rightharpoonup> goany) \<Rightarrow> string" where
  "pinned_auth_id_from_metadata meta =
     (case meta ''pinned_auth_id'' of
        Some (AnyString v) \<Rightarrow> trim_space v
      | Some (AnyBytes v) \<Rightarrow> trim_space v
      | _ \<Rightarrow> [])"

definition disallow_free_auth_from_metadata :: "(string \<rightharpoonup> goany) \<Rightarrow> bool" where
  "disallow_free_auth_from_metadata meta =
     (case meta ''disallow_free_auth'' of
        Some (AnyBool v) \<Rightarrow> v
      | Some (AnyString v) \<Rightarrow> parse_bool (trim_space v) = Some True
      | Some (AnyBytes v) \<Rightarrow> parse_bool (trim_space v) = Some True
      | _ \<Rightarrow> False)"

definition is_free_codex_auth :: "auth option \<Rightarrow> bool" where
  "is_free_codex_auth ao =
     (case ao of
        None \<Rightarrow> False
      | Some a \<Rightarrow>
          if \<not> equal_fold (trim_space (a_provider a)) ''codex'' then False
          else equal_fold (auth_attribute a ''plan_type'') ''free'')"

record eligibility =
  el_required_kind :: string
  el_policy :: string
  el_disallow_free :: bool

definition eligibility_allows :: "eligibility \<Rightarrow> auth option \<Rightarrow> bool" where
  "eligibility_allows e ao =
     (if ao = None then False
      else if el_required_kind e \<noteq> [] \<and> auth_kind ao \<noteq> el_required_kind e then False
      else if el_policy e \<noteq> [] \<and> \<not> credential_policy_allows (el_policy e) ao then False
      else \<not> el_disallow_free e \<or> \<not> is_free_codex_auth ao)"

section \<open>State\<close>

datatype strategy = StratCurrent | StratCustom | StratRoundRobin | StratFillFirst | StratWeighted

datatype scheduled_state = SReady | SCooldown | SBlocked | SDisabled

record auth_meta =
  am_auth :: auth
  am_provider :: string
  am_priority :: int
  am_weight :: int
  am_ws :: bool
  am_models :: "string list"

record sched_entry =
  sn_meta :: auth_meta
  sn_auth :: auth
  sn_state :: scheduled_state
  sn_next :: gotime

record ready_view =
  rv_flat :: "string list"
  rv_cursor :: int
  rv_weighted :: smooth_state

record ready_bucket =
  bk_all :: ready_view
  bk_ws :: ready_view

record model_sched =
  md_key :: string
  md_entries :: "(string \<times> sched_entry) list"
  md_order :: "int list"
  md_ready :: "(int \<times> ready_bucket) list"
  md_blocked :: "string list"

record provider_sched =
  ps_key :: string
  ps_auths :: "(string \<times> auth_meta) list"
  ps_shards :: "(string \<times> model_sched) list"

record auth_sched =
  as_strategy :: strategy
  as_providers :: "(string \<times> provider_sched) list"
  as_auth_providers :: "(string \<times> string) list"
  as_mixed_cursors :: "(string \<times> int) list"
  as_mixed_weighted :: "(string \<times> smooth_state) list"

section \<open>Metadata of a credential\<close>

definition supported_model_set_for_auth :: "(string \<Rightarrow> string list) \<Rightarrow> string \<Rightarrow> string list" where
  "supported_model_set_for_auth models_for auth_id0 =
     (let auth_id = trim_space auth_id0 in
      if auth_id = [] then []
      else remdups (filter (\<lambda>k. k \<noteq> []) (map canonical_model_key (models_for auth_id))))"

definition build_scheduled_auth_meta :: "(string \<Rightarrow> string list) \<Rightarrow> auth \<Rightarrow> auth_meta" where
  "build_scheduled_auth_meta models_for a =
     \<lparr>am_auth = a, am_provider = executor_key_from_auth (Some a),
      am_priority = auth_priority (Some a), am_weight = auth_weight (Some a),
      am_ws = auth_websockets_enabled (Some a),
      am_models = supported_model_set_for_auth models_for (a_id a)\<rparr>"

definition supports_model :: "auth_meta \<Rightarrow> string \<Rightarrow> bool" where
  "supports_model meta model0 =
     (let k = canonical_model_key model0 in
      if k = [] then True else if am_models meta = [] then False else k \<in> set (am_models meta))"

section \<open>Views\<close>

definition normalize_cursor :: "int \<Rightarrow> int \<Rightarrow> int" where
  "normalize_cursor cursor n =
     (if n \<le> 0 \<or> cursor \<le> 0 then 0
      else (let c = go_rem cursor n in if c < 0 then c + n else c))"

definition entry_list :: "(string \<times> sched_entry) list \<Rightarrow> string list \<Rightarrow> sched_entry list" where
  "entry_list es ids = List.map_filter (map_of es) ids"

fun scheduled_weight_vector_matching ::
  "(sched_entry \<Rightarrow> bool) \<Rightarrow> sched_entry list \<Rightarrow> weight_map \<Rightarrow> weight_map" where
  "scheduled_weight_vector_matching pred [] weights = weights"
| "scheduled_weight_vector_matching pred (e # es) weights =
     (if am_weight (sn_meta e) \<le> 0 then scheduled_weight_vector_matching pred es weights
      else if \<not> pred e then scheduled_weight_vector_matching pred es weights
      else scheduled_weight_vector_matching pred es
             (AList.update (a_id (sn_auth e)) (am_weight (sn_meta e)) weights))"

definition scheduled_weight_vector :: "sched_entry list \<Rightarrow> weight_map" where
  "scheduled_weight_vector es = scheduled_weight_vector_matching (\<lambda>_. True) es []"

text \<open>The cursors of a view carried over a rebuild; an empty map is copied as nil.\<close>

definition snapshot_view_cursors :: "ready_view \<Rightarrow> int \<times> smooth_state" where
  "snapshot_view_cursors v =
     (rv_cursor v,
      \<lparr>ss_current = (case ss_current (rv_weighted v) of
                        Some c \<Rightarrow> if c \<noteq> [] then Some c else None
                      | None \<Rightarrow> None),
       ss_weights = ss_weights (rv_weighted v)\<rparr>)"

definition restore_view_cursors ::
  "(string \<times> sched_entry) list \<Rightarrow> int \<times> smooth_state \<Rightarrow> ready_view \<Rightarrow> ready_view" where
  "restore_view_cursors es st v =
     (let v1 = (if rv_flat v \<noteq> []
                then v\<lparr>rv_cursor := normalize_cursor (fst st) (int (length (rv_flat v)))\<rparr> else v);
          weights = scheduled_weight_vector (entry_list es (rv_flat v))
      in if ss_current (snd st) = None \<or> ss_current (snd st) = Some [] \<or>
            \<not> weight_vectors_equal (ss_weights (snd st)) weights
         then v1
         else v1\<lparr>rv_weighted := \<lparr>ss_current = ss_current (snd st), ss_weights = weights\<rparr>\<rparr>)"

definition build_ready_view :: "string list \<Rightarrow> ready_view" where
  "build_ready_view ids = \<lparr>rv_flat = ids, rv_cursor = 0, rv_weighted = new_smooth_state\<rparr>"

definition entry_ws :: "(string \<times> sched_entry) list \<Rightarrow> string \<Rightarrow> bool" where
  "entry_ws es i = (case map_of es i of None \<Rightarrow> False | Some e \<Rightarrow> am_ws (sn_meta e))"

definition build_ready_bucket :: "(string \<times> sched_entry) list \<Rightarrow> string list \<Rightarrow> ready_bucket" where
  "build_ready_bucket es ids =
     \<lparr>bk_all = build_ready_view ids, bk_ws = build_ready_view (filter (entry_ws es) ids)\<rparr>"

text \<open>An entry satisfies the request's predicate.\<close>

definition entry_ok :: "(string \<times> sched_entry) list \<Rightarrow> (sched_entry \<Rightarrow> bool) \<Rightarrow> string \<Rightarrow> bool" where
  "entry_ok es pred i = (case map_of es i of None \<Rightarrow> False | Some e \<Rightarrow> pred e)"

definition view_pick_first ::
  "(string \<times> sched_entry) list \<Rightarrow> (sched_entry \<Rightarrow> bool) \<Rightarrow> ready_view \<Rightarrow> string option" where
  "view_pick_first es pred v = find (entry_ok es pred) (rv_flat v)"

text \<open>The traversal of \<open>pickRoundRobin\<close>: \<open>left\<close> offsets remain, \<open>index\<close> is the next position.\<close>

fun rr_traverse ::
  "(string \<Rightarrow> bool) \<Rightarrow> string list \<Rightarrow> nat \<Rightarrow> nat \<Rightarrow> (nat \<times> string) option" where
  "rr_traverse ok flat index 0 = None"
| "rr_traverse ok flat index (Suc left) =
     (let i = index mod length flat; x = flat ! i in
      if ok x then Some (i, x) else rr_traverse ok flat (index + 1) left)"

definition view_pick_round_robin ::
  "(string \<times> sched_entry) list \<Rightarrow> (sched_entry \<Rightarrow> bool) \<Rightarrow> ready_view \<Rightarrow> string option \<times> ready_view" where
  "view_pick_round_robin es pred v =
     (if rv_flat v = [] then (None, v)
      else
        let n = length (rv_flat v); start = nat (go_rem (rv_cursor v) (int n)) in
        (case rr_traverse (entry_ok es pred) (rv_flat v) start n of
           None \<Rightarrow> (None, v)
         | Some (i, x) \<Rightarrow> (Some x, v\<lparr>rv_cursor := int i + 1\<rparr>)))"

fun scheduled_active :: "(sched_entry \<Rightarrow> bool) \<Rightarrow> sched_entry list \<Rightarrow> string list" where
  "scheduled_active pred [] = []"
| "scheduled_active pred (e # es) =
     (if am_weight (sn_meta e) \<le> 0 then scheduled_active pred es
      else if \<not> pred e then scheduled_active pred es
      else a_id (sn_auth e) # scheduled_active pred es)"

fun pick_scheduled_loop ::
  "(sched_entry \<Rightarrow> bool) \<Rightarrow> sched_entry list \<Rightarrow> weight_map \<Rightarrow> int \<Rightarrow> (sched_entry \<times> int) option \<Rightarrow>
   weight_map \<times> int \<times> (sched_entry \<times> int) option" where
  "pick_scheduled_loop pred [] current tot picked = (current, tot, picked)"
| "pick_scheduled_loop pred (e # es) current tot picked =
     (if am_weight (sn_meta e) \<le> 0 then pick_scheduled_loop pred es current tot picked
      else if \<not> pred e then pick_scheduled_loop pred es current tot picked
      else
        let c = saturating_add_int64 (read0 current (a_id (sn_auth e))) (am_weight (sn_meta e))
        in pick_scheduled_loop pred es (AList.update (a_id (sn_auth e)) c current)
             (saturating_add_int64 tot (am_weight (sn_meta e)))
             (case picked of
                None \<Rightarrow> Some (e, c)
              | Some (p, pc) \<Rightarrow> if c > pc then Some (e, c) else picked))"

definition pick_smooth_weighted_scheduled ::
  "(sched_entry \<Rightarrow> bool) \<Rightarrow> sched_entry list \<Rightarrow> weight_map \<Rightarrow> sched_entry option \<times> weight_map" where
  "pick_smooth_weighted_scheduled pred es current =
     (let cur1 = filter (\<lambda>(i, _). i \<in> set (scheduled_active pred es)) current in
      (case pick_scheduled_loop pred es cur1 0 None of
         (cur2, tot, picked) \<Rightarrow>
           (case picked of
              None \<Rightarrow> (None, cur2)
            | Some (p, _) \<Rightarrow>
                (Some p, AList.update (a_id (sn_auth p))
                   (saturating_add_int64 (read0 cur2 (a_id (sn_auth p))) (- tot)) cur2))))"

definition view_pick_weighted ::
  "(string \<times> sched_entry) list \<Rightarrow> (sched_entry \<Rightarrow> bool) \<Rightarrow> ready_view \<Rightarrow> string option \<times> ready_view" where
  "view_pick_weighted es pred v =
     (if rv_flat v = [] then (None, v)
      else
        let xs = entry_list es (rv_flat v);
            st = prepare_smooth_state (rv_weighted v) (scheduled_weight_vector_matching pred xs [])
        in (case pick_smooth_weighted_scheduled pred xs (the (ss_current st)) of
              (picked, current) \<Rightarrow>
                (map_option (\<lambda>e. a_id (sn_auth e)) picked,
                 v\<lparr>rv_weighted := st\<lparr>ss_current := Some current\<rparr>\<rparr>)))"

section \<open>A shard\<close>

fun priority_buckets ::
  "(string \<times> sched_entry) list \<Rightarrow> (int \<times> string list) list \<Rightarrow> (int \<times> string list) list" where
  "priority_buckets [] bs = bs"
| "priority_buckets ((i, e) # es) bs =
     (if sn_state e = SReady then
        let p = am_priority (sn_meta e) in
        priority_buckets es
          (AList.update p ((case map_of bs p of None \<Rightarrow> [] | Some b \<Rightarrow> b) @ [i]) bs)
      else priority_buckets es bs)"

definition entry_next :: "(string \<times> sched_entry) list \<Rightarrow> string \<Rightarrow> gotime" where
  "entry_next es i = (case map_of es i of None \<Rightarrow> 0 | Some e \<Rightarrow> sn_next e)"

definition blocked_queue :: "(string \<times> sched_entry) list \<Rightarrow> string list" where
  "blocked_queue es =
     sort_key (\<lambda>i. entry_next es i = 0) (sort_key (entry_next es) (sort_key id
       (map fst (filter (\<lambda>(i, e). sn_state e = SCooldown \<or> sn_state e = SBlocked) es))))"

definition rebuild_indexes :: "model_sched \<Rightarrow> model_sched" where
  "rebuild_indexes m =
     (let es = md_entries m;
          cursors = map (\<lambda>(p, b). (p, snapshot_view_cursors (bk_all b), snapshot_view_cursors (bk_ws b)))
                      (md_ready m);
          buckets = priority_buckets es [];
          ready = map (\<lambda>(p, ids).
                     let b = build_ready_bucket es (sort_key id ids) in
                     (p, case map_of cursors p of
                           None \<Rightarrow> b
                         | Some (ca, cw) \<Rightarrow>
                             \<lparr>bk_all = restore_view_cursors es ca (bk_all b),
                              bk_ws = restore_view_cursors es cw (bk_ws b)\<rparr>)) buckets
      in m\<lparr>md_ready := ready, md_order := rev (sort (map fst ready)),
           md_blocked := blocked_queue es\<rparr>)"

text \<open>The scheduled state and retry time a verdict stands for, on insertion and promotion.\<close>

definition classify_upsert :: "block_verdict \<Rightarrow> scheduled_state \<times> gotime" where
  "classify_upsert v =
     (case v of (blk, reason, nxt) \<Rightarrow>
        if \<not> blk then (SReady, 0)
        else if reason = BlockCooldown then (SCooldown, nxt)
        else if reason = BlockDisabled then (SDisabled, 0)
        else (SBlocked, nxt))"

definition upsert_entry :: "gotime \<Rightarrow> auth_meta \<Rightarrow> model_sched \<Rightarrow> model_sched" where
  "upsert_entry now meta m =
     (let i = a_id (am_auth meta);
          old = map_of (md_entries m) i;
          previous_state = (case old of Some e \<Rightarrow> sn_state e | None \<Rightarrow> SReady);
          previous_next = (case old of Some e \<Rightarrow> sn_next e | None \<Rightarrow> 0);
          previous_priority = (case old of Some e \<Rightarrow> am_priority (sn_meta e) | None \<Rightarrow> 0);
          previous_ws = (case old of Some e \<Rightarrow> am_ws (sn_meta e) | None \<Rightarrow> False);
          cls = classify_upsert (is_auth_blocked_for_model (Some (am_auth meta)) (md_key m) now);
          e = \<lparr>sn_meta = meta, sn_auth = am_auth meta, sn_state = fst cls, sn_next = snd cls\<rparr>;
          m1 = m\<lparr>md_entries := AList.update i e (md_entries m)\<rparr>
      in if old \<noteq> None \<and> previous_state = sn_state e \<and> previous_next = sn_next e \<and>
            previous_priority = am_priority meta \<and> previous_ws = am_ws meta
         then m1 else rebuild_indexes m1)"

definition remove_entry :: "string \<Rightarrow> model_sched \<Rightarrow> model_sched" where
  "remove_entry i m =
     (if i = [] then m
      else if map_of (md_entries m) i = None then m
      else rebuild_indexes (m\<lparr>md_entries := AList.delete i (md_entries m)\<rparr>))"

fun promote_loop ::
  "gotime \<Rightarrow> string \<Rightarrow> string list \<Rightarrow> (string \<times> sched_entry) list \<Rightarrow> bool \<Rightarrow>
   (string \<times> sched_entry) list \<times> bool" where
  "promote_loop now key [] es changed = (es, changed)"
| "promote_loop now key (i # is) es changed =
     (case map_of es i of
        None \<Rightarrow> promote_loop now key is es changed
      | Some e \<Rightarrow>
          if is_zero (sn_next e) \<or> after (sn_next e) now then promote_loop now key is es changed
          else
            let cls = classify_upsert (is_auth_blocked_for_model (Some (sn_auth e)) key now)
            in promote_loop now key is
                 (AList.update i (e\<lparr>sn_state := fst cls, sn_next := snd cls\<rparr>) es) True)"

definition promote_expired :: "gotime \<Rightarrow> model_sched \<Rightarrow> model_sched" where
  "promote_expired now m =
     (if md_blocked m = [] then m
      else (case promote_loop now (md_key m) (md_blocked m) (md_entries m) False of
              (es, changed) \<Rightarrow>
                if changed then rebuild_indexes (m\<lparr>md_entries := es\<rparr>) else m))"

text \<open>The first priority in order whose bucket has an entry satisfying the predicate.\<close>

definition first_priority ::
  "(ready_bucket \<Rightarrow> ready_view) \<Rightarrow> (sched_entry \<Rightarrow> bool) \<Rightarrow> model_sched \<Rightarrow> int option" where
  "first_priority view pred m =
     find (\<lambda>p. case map_of (md_ready m) p of
                  None \<Rightarrow> False
                | Some b \<Rightarrow> view_pick_first (md_entries m) pred (view b) \<noteq> None) (md_order m)"

definition highest_ready_priority ::
  "bool \<Rightarrow> (sched_entry \<Rightarrow> bool) \<Rightarrow> model_sched \<Rightarrow> int option" where
  "highest_ready_priority prefer_ws pred m =
     (case (if prefer_ws then first_priority bk_ws pred m else None) of
        Some p \<Rightarrow> Some p
      | None \<Rightarrow> first_priority bk_all pred m)"

definition pick_in_view ::
  "strategy \<Rightarrow> (string \<times> sched_entry) list \<Rightarrow> (sched_entry \<Rightarrow> bool) \<Rightarrow> ready_view \<Rightarrow>
   string option \<times> ready_view" where
  "pick_in_view strat es pred v =
     (case strat of
        StratFillFirst \<Rightarrow> (view_pick_first es pred v, v)
      | StratWeighted \<Rightarrow> view_pick_weighted es pred v
      | _ \<Rightarrow> view_pick_round_robin es pred v)"

definition uses_ws_view :: "bool \<Rightarrow> (sched_entry \<Rightarrow> bool) \<Rightarrow> model_sched \<Rightarrow> ready_bucket \<Rightarrow> bool" where
  "uses_ws_view prefer_ws pred m b =
     (prefer_ws \<and> view_pick_first (md_entries m) pred (bk_ws b) \<noteq> None)"

definition pick_ready_at_priority ::
  "bool \<Rightarrow> int \<Rightarrow> strategy \<Rightarrow> (sched_entry \<Rightarrow> bool) \<Rightarrow> model_sched \<Rightarrow> auth option \<times> model_sched" where
  "pick_ready_at_priority prefer_ws p strat pred m =
     (case map_of (md_ready m) p of
        None \<Rightarrow> (None, m)
      | Some b \<Rightarrow>
          let ws = uses_ws_view prefer_ws pred m b in
          (case pick_in_view strat (md_entries m) pred (if ws then bk_ws b else bk_all b) of
             (picked, v) \<Rightarrow>
               let b' = (if ws then b\<lparr>bk_ws := v\<rparr> else b\<lparr>bk_all := v\<rparr>) in
               (Option.bind picked (\<lambda>i. map_option sn_auth (map_of (md_entries m) i)),
                m\<lparr>md_ready := AList.update p b' (md_ready m)\<rparr>)))"

definition pick_ready ::
  "gotime \<Rightarrow> bool \<Rightarrow> strategy \<Rightarrow> (sched_entry \<Rightarrow> bool) \<Rightarrow> model_sched \<Rightarrow> auth option \<times> model_sched" where
  "pick_ready now prefer_ws strat pred m0 =
     (let m = promote_expired now m0 in
      (case highest_ready_priority prefer_ws pred m of
         None \<Rightarrow> (None, m)
       | Some p \<Rightarrow> pick_ready_at_priority prefer_ws p strat pred m))"

definition ready_count_at_priority ::
  "bool \<Rightarrow> int \<Rightarrow> (sched_entry \<Rightarrow> bool) \<Rightarrow> model_sched \<Rightarrow> nat" where
  "ready_count_at_priority prefer_ws p pred m =
     (case map_of (md_ready m) p of
        None \<Rightarrow> 0
      | Some b \<Rightarrow>
          let v = (if uses_ws_view prefer_ws pred m b then bk_ws b else bk_all b)
          in length (filter (entry_ok (md_entries m) pred) (rv_flat v)))"

fun summary_loop ::
  "(sched_entry \<Rightarrow> bool) \<Rightarrow> (string \<times> sched_entry) list \<Rightarrow> nat \<times> nat \<times> gotime \<Rightarrow> nat \<times> nat \<times> gotime" where
  "summary_loop pred [] acc = acc"
| "summary_loop pred ((i, e) # es) (tot, cooling, earliest) =
     (if \<not> pred e then summary_loop pred es (tot, cooling, earliest)
      else if sn_state e \<noteq> SCooldown then summary_loop pred es (tot + 1, cooling, earliest)
      else summary_loop pred es
             (tot + 1, cooling + 1,
              if \<not> is_zero (sn_next e) \<and> (is_zero earliest \<or> before (sn_next e) earliest)
              then sn_next e else earliest))"

definition availability_summary ::
  "(sched_entry \<Rightarrow> bool) \<Rightarrow> model_sched \<Rightarrow> nat \<times> nat \<times> gotime" where
  "availability_summary pred m = summary_loop pred (md_entries m) (0, 0, 0)"

definition summary_error ::
  "gotime \<Rightarrow> string \<Rightarrow> string \<Rightarrow> nat \<times> nat \<times> gotime \<Rightarrow> select_error" where
  "summary_error now provider model s =
     (case s of (tot, cooling, earliest) \<Rightarrow>
        if tot = 0 then CodedError ''auth_not_found'' ''no auth available''
        else if cooling = tot \<and> \<not> is_zero earliest then
          (let provider_for_error = (if provider = ''mixed'' then [] else provider);
               reset_in = time_sub earliest now
           in new_model_cooldown_error model provider_for_error (if reset_in < 0 then 0 else reset_in))
        else CodedError ''auth_unavailable'' ''no auth available'')"

definition unavailable_error ::
  "gotime \<Rightarrow> string \<Rightarrow> string \<Rightarrow> (sched_entry \<Rightarrow> bool) \<Rightarrow> model_sched \<Rightarrow> select_error" where
  "unavailable_error now provider model pred m =
     summary_error now provider model (availability_summary pred m)"

definition new_shard :: "string \<Rightarrow> model_sched" where
  "new_shard key =
     \<lparr>md_key = key, md_entries = [], md_order = [], md_ready = [], md_blocked = []\<rparr>"

section \<open>A provider\<close>

definition provider_upsert_auth :: "gotime \<Rightarrow> auth_meta \<Rightarrow> provider_sched \<Rightarrow> provider_sched" where
  "provider_upsert_auth now meta p =
     p\<lparr>ps_auths := AList.update (a_id (am_auth meta)) meta (ps_auths p),
       ps_shards :=
         map (\<lambda>(k, m). (k, if \<not> supports_model meta k then remove_entry (a_id (am_auth meta)) m
                            else upsert_entry now meta m)) (ps_shards p)\<rparr>"

definition provider_remove_auth :: "string \<Rightarrow> provider_sched \<Rightarrow> provider_sched" where
  "provider_remove_auth i p =
     (if i = [] then p
      else p\<lparr>ps_auths := AList.delete i (ps_auths p),
             ps_shards := map (\<lambda>(k, m). (k, remove_entry i m)) (ps_shards p)\<rparr>)"

definition build_shard :: "gotime \<Rightarrow> string \<Rightarrow> (string \<times> auth_meta) list \<Rightarrow> model_sched" where
  "build_shard now key auths =
     fold (\<lambda>(i, meta) m. if \<not> supports_model meta key then m else upsert_entry now meta m)
       auths (new_shard key)"

definition ensure_model :: "gotime \<Rightarrow> string \<Rightarrow> provider_sched \<Rightarrow> provider_sched \<times> model_sched" where
  "ensure_model now model0 p =
     (let key = canonical_model_key model0;
          m = (case map_of (ps_shards p) key of
                 Some m \<Rightarrow> promote_expired now m
               | None \<Rightarrow> build_shard now key (ps_auths p))
      in (p\<lparr>ps_shards := AList.update key m (ps_shards p)\<rparr>, m))"

section \<open>The scheduler\<close>

definition new_auth_scheduler :: "strategy \<Rightarrow> auth_sched" where
  "new_auth_scheduler strat =
     \<lparr>as_strategy = strat, as_providers = [], as_auth_providers = [], as_mixed_cursors = [],
      as_mixed_weighted = []\<rparr>"

definition set_selector :: "strategy \<Rightarrow> auth_sched \<Rightarrow> auth_sched" where
  "set_selector strat s = s\<lparr>as_strategy := strat, as_mixed_cursors := [], as_mixed_weighted := []\<rparr>"

definition new_provider :: "string \<Rightarrow> provider_sched" where
  "new_provider key = \<lparr>ps_key = key, ps_auths = [], ps_shards = []\<rparr>"

text \<open>Reading the map of identifiers to providers: a missing key reads as the empty string.\<close>

definition read_provider :: "auth_sched \<Rightarrow> string \<Rightarrow> string" where
  "read_provider s i = (case map_of (as_auth_providers s) i of None \<Rightarrow> [] | Some k \<Rightarrow> k)"

definition update_provider :: "string \<Rightarrow> (provider_sched \<Rightarrow> provider_sched) \<Rightarrow> auth_sched \<Rightarrow> auth_sched" where
  "update_provider key f s =
     (case map_of (as_providers s) key of
        None \<Rightarrow> s
      | Some p \<Rightarrow> s\<lparr>as_providers := AList.update key (f p) (as_providers s)\<rparr>)"

definition sched_remove_auth_locked :: "string \<Rightarrow> auth_sched \<Rightarrow> auth_sched" where
  "sched_remove_auth_locked i s =
     (if i = [] then s
      else
        let key = read_provider s i in
        if key \<noteq> [] then
          (update_provider key (provider_remove_auth i) s)
            \<lparr>as_auth_providers := AList.delete i (as_auth_providers s)\<rparr>
        else s)"

definition sched_remove_auth :: "string \<Rightarrow> auth_sched \<Rightarrow> auth_sched" where
  "sched_remove_auth i0 s = (let i = trim_space i0 in if i = [] then s else sched_remove_auth_locked i s)"

definition sched_upsert_auth ::
  "(string \<Rightarrow> string list) \<Rightarrow> gotime \<Rightarrow> auth option \<Rightarrow> auth_sched \<Rightarrow> auth_sched" where
  "sched_upsert_auth models_for now ao s =
     (case ao of
        None \<Rightarrow> s
      | Some a \<Rightarrow>
          let i = trim_space (a_id a); key = executor_key_from_auth ao in
          if i = [] \<or> key = [] \<or> a_disabled a then sched_remove_auth_locked i s
          else
            let previous = read_provider s i;
                s1 = (if previous \<noteq> [] \<and> previous \<noteq> key
                      then update_provider previous (provider_remove_auth i) s else s);
                meta = build_scheduled_auth_meta models_for a;
                s2 = s1\<lparr>as_auth_providers := AList.update i key (as_auth_providers s1)\<rparr>;
                p = (case map_of (as_providers s2) key of None \<Rightarrow> new_provider key | Some p \<Rightarrow> p)
            in s2\<lparr>as_providers := AList.update key (provider_upsert_auth now meta p) (as_providers s2)\<rparr>)"

definition sched_rebuild ::
  "(string \<Rightarrow> string list) \<Rightarrow> gotime \<Rightarrow> auth option list \<Rightarrow> auth_sched \<Rightarrow> auth_sched" where
  "sched_rebuild models_for now auths s =
     fold (sched_upsert_auth models_for now) auths (new_auth_scheduler (as_strategy s))"

definition scheduled_auth_predicate ::
  "eligibility \<Rightarrow> string list \<Rightarrow> string \<Rightarrow> bool \<Rightarrow> sched_entry \<Rightarrow> bool" where
  "scheduled_auth_predicate elig tried pinned require_positive e =
     (if \<not> eligibility_allows elig (Some (sn_auth e)) then False
      else if require_positive \<and> am_weight (sn_meta e) \<le> 0 then False
      else if pinned \<noteq> [] \<and> a_id (sn_auth e) \<noteq> pinned then False
      else if tried \<noteq> [] \<and> a_id (sn_auth e) \<in> set tried then False
      else True)"

definition provider_prefers_websocket_transport :: "string \<Rightarrow> bool" where
  "provider_prefers_websocket_transport provider =
     (to_lower (trim_space provider) \<in> set [''codex'', ''xai''])"

text \<open>The request: downstream transport, eligibility, metadata and what was already tried.\<close>

record pick_request =
  pr_ws :: bool
  pr_eligibility :: eligibility
  pr_metadata :: "string \<rightharpoonup> goany"
  pr_tried :: "string list"

definition effective_strategy :: "strategy \<Rightarrow> auth_sched \<Rightarrow> strategy" where
  "effective_strategy strat s = (if strat = StratCurrent then as_strategy s else strat)"

text \<open>The shard after a pick is written back into its provider.\<close>

definition put_shard :: "string \<Rightarrow> string \<Rightarrow> model_sched \<Rightarrow> auth_sched \<Rightarrow> auth_sched" where
  "put_shard provider key m s =
     update_provider provider (\<lambda>p. p\<lparr>ps_shards := AList.update key m (ps_shards p)\<rparr>) s"

definition pick_single ::
  "gotime \<Rightarrow> gotime \<Rightarrow> gotime \<Rightarrow> strategy \<Rightarrow> pick_request \<Rightarrow> string \<Rightarrow> string \<Rightarrow> auth_sched \<Rightarrow>
   (select_error + auth) \<times> auth_sched" where
  "pick_single t_ensure t_pick t_err strat0 req provider model s =
     (let provider_key = to_lower (trim_space provider);
          model_key = canonical_model_key model;
          pinned = pinned_auth_id_from_metadata (pr_metadata req);
          prefer_ws = (pr_ws req \<and> provider_prefers_websocket_transport provider_key \<and> pinned = []);
          strat = effective_strategy strat0 s
      in (case map_of (as_providers s) provider_key of
            None \<Rightarrow> (Inl (CodedError ''auth_not_found'' ''no auth available''), s)
          | Some p \<Rightarrow>
              (case ensure_model t_ensure model_key p of
                 (p1, m) \<Rightarrow>
                   let pred = scheduled_auth_predicate (pr_eligibility req) (pr_tried req) pinned
                                (strat = StratWeighted);
                       s1 = s\<lparr>as_providers := AList.update provider_key p1 (as_providers s)\<rparr>
                   in (case pick_ready t_pick prefer_ws strat pred m of
                         (Some a, m') \<Rightarrow>
                           (Inr a, put_shard provider_key (canonical_model_key model_key) m' s1)
                       | (None, m') \<Rightarrow>
                           (Inl (unavailable_error t_err provider model pred m'),
                            put_shard provider_key (canonical_model_key model_key) m' s1)))))"

fun normalize_provider_keys_loop :: "string list \<Rightarrow> string list \<Rightarrow> string list" where
  "normalize_provider_keys_loop [] out = out"
| "normalize_provider_keys_loop (p # ps) out =
     (let k = to_lower (trim_space p) in
      if k = [] then normalize_provider_keys_loop ps out
      else if k \<in> set out then normalize_provider_keys_loop ps out
      else normalize_provider_keys_loop ps (out @ [k]))"

definition normalize_provider_keys :: "string list \<Rightarrow> string list" where
  "normalize_provider_keys providers = normalize_provider_keys_loop providers []"

text \<open>The shard of the model in every listed provider that exists, in order.\<close>

fun candidate_shards ::
  "gotime \<Rightarrow> string \<Rightarrow> string list \<Rightarrow> auth_sched \<Rightarrow> (string \<times> model_sched) list \<times> auth_sched" where
  "candidate_shards now key [] s = ([], s)"
| "candidate_shards now key (k # ks) s =
     (case map_of (as_providers s) k of
        None \<Rightarrow> candidate_shards now key ks s
      | Some p \<Rightarrow>
          (case ensure_model now key p of
             (p1, m) \<Rightarrow>
               (case candidate_shards now key ks
                       (s\<lparr>as_providers := AList.update k p1 (as_providers s)\<rparr>) of
                  (ms, s') \<Rightarrow> ((k, m) # ms, s'))))"

definition best_ready_priority ::
  "(sched_entry \<Rightarrow> bool) \<Rightarrow> (string \<times> model_sched) list \<Rightarrow> int option" where
  "best_ready_priority pred ms =
     fold (\<lambda>(k, m) best.
        case highest_ready_priority False pred m of
          None \<Rightarrow> best
        | Some p \<Rightarrow> (case best of None \<Rightarrow> Some p | Some b \<Rightarrow> if p > b then Some p else Some b))
       ms None"

fun mixed_summary ::
  "(sched_entry \<Rightarrow> bool) \<Rightarrow> (string \<times> model_sched) list \<Rightarrow> nat \<times> nat \<times> gotime \<Rightarrow> nat \<times> nat \<times> gotime" where
  "mixed_summary pred [] acc = acc"
| "mixed_summary pred ((k, m) # ms) (tot, cooling, earliest) =
     (case availability_summary pred m of
        (lt, lc, le) \<Rightarrow>
          mixed_summary pred ms
            (tot + lt, cooling + lc,
             if \<not> is_zero le \<and> (is_zero earliest \<or> before le earliest) then le else earliest))"

definition mixed_unavailable_error ::
  "gotime \<Rightarrow> string list \<Rightarrow> string \<Rightarrow> (sched_entry \<Rightarrow> bool) \<Rightarrow> auth_sched \<Rightarrow> select_error \<times> auth_sched" where
  "mixed_unavailable_error now providers model pred s =
     (case candidate_shards now (canonical_model_key model) providers s of
        (ms, s') \<Rightarrow> (summary_error now [] model (mixed_summary pred ms (0, 0, 0)), s'))"

fun mixed_fill_first ::
  "int \<Rightarrow> (sched_entry \<Rightarrow> bool) \<Rightarrow> (string \<times> model_sched) list \<Rightarrow> (auth \<times> string) option" where
  "mixed_fill_first best pred [] = None"
| "mixed_fill_first best pred ((k, m) # ms) =
     (case fst (pick_ready_at_priority False best StratFillFirst pred m) of
        Some a \<Rightarrow> Some (a, k)
      | None \<Rightarrow> mixed_fill_first best pred ms)"

text \<open>
  The rotation over providers: every provider's segment is as long as its ready count; the
  slot of the cursor selects the provider to start from. An element is a provider, its shard,
  the start of its segment and its length.
\<close>

type_synonym segment = "string \<times> model_sched \<times> nat \<times> nat"

fun segments :: "int \<Rightarrow> (sched_entry \<Rightarrow> bool) \<Rightarrow> nat \<Rightarrow> (string \<times> model_sched) list \<Rightarrow> segment list" where
  "segments best pred from [] = []"
| "segments best pred from ((k, m) # ms) =
     (let w = ready_count_at_priority False best pred m
      in (k, m, from, w) # segments best pred (from + w) ms)"

text \<open>The segments from the one the slot falls in, the others after it in cyclic order.\<close>

definition rotate_segments :: "nat \<Rightarrow> segment list \<Rightarrow> segment list" where
  "rotate_segments slot segs =
     (let ahead = (\<lambda>(k, m, from, w). w = 0 \<or> \<not> slot < from + w)
      in (case dropWhile ahead segs of
            [] \<Rightarrow> []
          | (k, m, from, w) # rest \<Rightarrow> (k, m, slot, w) # rest @ takeWhile ahead segs))"

text \<open>The first segment that yields a pick, with its slot: the provider, shard and slot.\<close>

fun mixed_rotate ::
  "int \<Rightarrow> (sched_entry \<Rightarrow> bool) \<Rightarrow> segment list \<Rightarrow> (auth \<times> string \<times> model_sched \<times> nat) option" where
  "mixed_rotate best pred [] = None"
| "mixed_rotate best pred ((k, m, slot, w) # segs) =
     (if w = 0 then mixed_rotate best pred segs
      else (case pick_ready_at_priority False best StratRoundRobin pred m of
              (Some a, m') \<Rightarrow> Some (a, k, m', slot)
            | (None, _) \<Rightarrow> mixed_rotate best pred segs))"

definition contains_provider :: "string list \<Rightarrow> string \<Rightarrow> bool" where
  "contains_provider providers p = list_ex (\<lambda>c. c = p) providers"

text \<open>\<open>strings.Join\<close> with a comma.\<close>

fun join_comma :: "string list \<Rightarrow> string" where
  "join_comma [] = []"
| "join_comma [x] = x"
| "join_comma (x # y # ys) = x @ '','' @ join_comma (y # ys)"

definition flat_at_priority :: "int \<Rightarrow> model_sched \<Rightarrow> sched_entry list" where
  "flat_at_priority p m =
     (case map_of (md_ready m) p of
        None \<Rightarrow> []
      | Some b \<Rightarrow> entry_list (md_entries m) (rv_flat (bk_all b)))"

definition pick_mixed_weighted ::
  "gotime \<Rightarrow> string list \<Rightarrow> string \<Rightarrow> string \<Rightarrow> int \<Rightarrow> (sched_entry \<Rightarrow> bool) \<Rightarrow>
   (string \<times> model_sched) list \<Rightarrow> auth_sched \<Rightarrow> (select_error + auth \<times> string) \<times> auth_sched" where
  "pick_mixed_weighted t_err normalized model cursor_key best pred ms s =
     (let entries = sort_key (\<lambda>e. a_id (sn_auth e)) (concat (map (\<lambda>(k, m). flat_at_priority best m) ms));
          st0 = (case map_of (as_mixed_weighted s) cursor_key of
                   None \<Rightarrow> new_smooth_state | Some st \<Rightarrow> st);
          st1 = prepare_smooth_state st0 (scheduled_weight_vector_matching pred entries [])
      in (case pick_smooth_weighted_scheduled pred entries (the (ss_current st1)) of
            (picked, current) \<Rightarrow>
              let s1 = s\<lparr>as_mixed_weighted :=
                         AList.update cursor_key (st1\<lparr>ss_current := Some current\<rparr>) (as_mixed_weighted s)\<rparr>
              in (case picked of
                    Some e \<Rightarrow> (Inr (sn_auth e, am_provider (sn_meta e)), s1)
                  | None \<Rightarrow>
                      (case mixed_unavailable_error t_err normalized model pred s1 of
                         (err, s2) \<Rightarrow> (Inl err, s2)))))"

definition pick_mixed_rotating ::
  "gotime \<Rightarrow> string list \<Rightarrow> string \<Rightarrow> string \<Rightarrow> string \<Rightarrow> int \<Rightarrow> (sched_entry \<Rightarrow> bool) \<Rightarrow>
   (string \<times> model_sched) list \<Rightarrow> auth_sched \<Rightarrow> (select_error + auth \<times> string) \<times> auth_sched" where
  "pick_mixed_rotating t_err normalized model model_key cursor_key best pred ms s =
     (let segs = segments best pred 0 ms;
          tot = sum_list (map (\<lambda>(k, m, from, w). w) segs);
          failed = (case mixed_unavailable_error t_err normalized model pred s of
                      (err, s2) \<Rightarrow> (Inl err, s2))
      in if tot = 0 then failed
         else
           let slot = nat (go_rem (read0 (as_mixed_cursors s) cursor_key) (int tot))
           in (case mixed_rotate best pred (rotate_segments slot segs) of
                 None \<Rightarrow> failed
               | Some (a, k, m', used) \<Rightarrow>
                   (Inr (a, k),
                    (put_shard k model_key m' s)
                      \<lparr>as_mixed_cursors := AList.update cursor_key (int used + 1) (as_mixed_cursors s)\<rparr>)))"

definition pick_mixed ::
  "gotime \<Rightarrow> gotime \<Rightarrow> gotime \<Rightarrow> strategy \<Rightarrow> pick_request \<Rightarrow> string list \<Rightarrow> string \<Rightarrow> auth_sched \<Rightarrow>
   (select_error + auth \<times> string) \<times> auth_sched" where
  "pick_mixed t_ensure t_pick t_err strat0 req providers model s =
     (let normalized = normalize_provider_keys providers;
          not_found = CodedError ''auth_not_found'' ''no auth available'' in
      if normalized = [] then
        (Inl (CodedError ''provider_not_found'' ''no provider supplied''), s)
      else if length normalized = 1 then
        (case pick_single t_ensure t_pick t_err strat0 req (hd normalized) model s of
           (Inl e, s') \<Rightarrow> (Inl e, s')
         | (Inr a, s') \<Rightarrow> (Inr (a, hd normalized), s'))
      else
        let pinned = pinned_auth_id_from_metadata (pr_metadata req);
            model_key = canonical_model_key model;
            shard_key = canonical_model_key model_key;
            strat = effective_strategy strat0 s
        in if pinned \<noteq> [] then
             (let key = read_provider s pinned in
              if key = [] \<or> \<not> contains_provider normalized key then (Inl not_found, s)
              else (case map_of (as_providers s) key of
                      None \<Rightarrow> (Inl not_found, s)
                    | Some p \<Rightarrow>
                        (case ensure_model t_ensure model_key p of
                           (p1, m) \<Rightarrow>
                             let pred = scheduled_auth_predicate (pr_eligibility req) (pr_tried req)
                                          pinned (strat = StratWeighted);
                                 s1 = s\<lparr>as_providers := AList.update key p1 (as_providers s)\<rparr>
                             in (case pick_ready t_pick False strat pred m of
                                   (Some a, m') \<Rightarrow> (Inr (a, key), put_shard key shard_key m' s1)
                                 | (None, m') \<Rightarrow>
                                     (Inl (unavailable_error t_err ''mixed'' model pred m'),
                                      put_shard key shard_key m' s1)))))
           else
             let pred = scheduled_auth_predicate (pr_eligibility req) (pr_tried req) []
                          (strat = StratWeighted)
             in (case candidate_shards t_ensure model_key normalized s of
                   (ms, s1) \<Rightarrow>
                     (case best_ready_priority pred ms of
                        None \<Rightarrow>
                          (case mixed_unavailable_error t_err normalized model pred s1 of
                             (err, s2) \<Rightarrow> (Inl err, s2))
                      | Some best \<Rightarrow>
                          let cursor_key = join_comma normalized @ '':'' @ model_key in
                          if strat = StratFillFirst then
                            (case mixed_fill_first best pred ms of
                               Some r \<Rightarrow> (Inr r, s1)
                             | None \<Rightarrow>
                                 (case mixed_unavailable_error t_err normalized model pred s1 of
                                    (err, s2) \<Rightarrow> (Inl err, s2)))
                          else if strat = StratWeighted then
                            pick_mixed_weighted t_err normalized model cursor_key best pred ms s1
                          else
                            pick_mixed_rotating t_err normalized model shard_key cursor_key best pred ms s1)))"

end
