(* ===== verification/SchedulerProps.thy ===== *)
theory SchedulerProps
  imports Scheduler
begin

text \<open>
  The scheduler against the stateless selectors. The indexes of a shard always are what a
  rebuild of its entries gives; the state kept with every entry is a verdict of the past
  that promotion brings up to date, so the incremental bookkeeping never hides an available
  credential and never offers a blocked one; a fill-first pick of a shard is the pick of the
  fill-first selector. The weighted picker of the scheduler keeps the contract of smooth
  weighted round-robin.
\<close>

section \<open>The weighted picker\<close>

lemma pick_scheduled_loop_eq:
  "pick_scheduled_loop pred es c t pk =
     snd (smooth_loop (\<lambda>e. a_id (sn_auth e)) (\<lambda>e. am_weight (sn_meta e))
            (filter (\<lambda>e. 0 < am_weight (sn_meta e) \<and> pred e) es) act c t pk)"
  by (induction pred es c t pk arbitrary: act rule: pick_scheduled_loop.induct)
    (auto simp: Let_def not_less)

lemma scheduled_active_eq:
  "scheduled_active pred es =
     map (\<lambda>e. a_id (sn_auth e)) (filter (\<lambda>e. 0 < am_weight (sn_meta e) \<and> pred e) es)"
  by (induction pred es rule: scheduled_active.induct) auto

lemma pick_scheduled_filter:
  "pick_smooth_weighted_scheduled pred es c =
   pick_smooth_weighted_scheduled (\<lambda>_. True)
     (filter (\<lambda>e. 0 < am_weight (sn_meta e) \<and> pred e) es) c"
proof -
  have "filter (\<lambda>e. 0 < am_weight (sn_meta e) \<and> True)
      (filter (\<lambda>e. 0 < am_weight (sn_meta e) \<and> pred e) es) =
      filter (\<lambda>e. 0 < am_weight (sn_meta e) \<and> pred e) es"
    by (induction es) auto
  then show ?thesis
    unfolding pick_smooth_weighted_scheduled_def scheduled_active_eq
      pick_scheduled_loop_eq [where act = "[]"] by (simp only:)
qed

interpretation scheduled_picker:
  smooth_picker "pick_smooth_weighted_scheduled (\<lambda>_. True)" "\<lambda>e. a_id (sn_auth e)"
    "\<lambda>e. am_weight (sn_meta e)"
proof
  fix xs :: "sched_entry list" and c
  let ?id = "\<lambda>e. a_id (sn_auth e)" and ?wt = "\<lambda>e. am_weight (sn_meta e)"
  assume h: "xs \<noteq> []" "distinct (map ?id xs)" "\<forall>x \<in> set xs. 0 < ?wt x"
    "\<forall>x \<in> set xs. \<bar>read0 c (?id x)\<bar> + weight_sum ?wt xs \<le> int64_max"
  have all: "filter (\<lambda>e. 0 < ?wt e \<and> True) xs = xs" using h(3) by simp
  let ?c = "filter (\<lambda>(i, _). i \<in> set (map ?id xs)) c"
  have rd: "read0 ?c (?id x) = read0 c (?id x)" if "x \<in> set xs" for x
    using that by (simp add: read0_filter)
  then have h4: "\<forall>x \<in> set xs. \<bar>read0 ?c (?id x)\<bar> + weight_sum ?wt xs \<le> int64_max" using h(4) by simp
  obtain c1 p where l: "smooth_loop ?id ?wt xs [] ?c 0 None =
      (rev (map ?id xs), c1, weight_sum ?wt xs, Some (p, read0 c1 (?id p)))" "p \<in> set xs"
    "\<forall>x \<in> set xs. read0 c1 (?id x) = read0 ?c (?id x) + ?wt x"
    "\<forall>x \<in> set xs. read0 ?c (?id x) + ?wt x \<le> read0 ?c (?id p) + ?wt p"
    "saturating_add_int64 (read0 c1 (?id p)) (- weight_sum ?wt xs) = read0 c1 (?id p) - weight_sum ?wt xs"
    using smooth_loop_pick [OF h(1-3) h4] by blast
  have inj: "?id x = ?id p \<longleftrightarrow> x = p" if "x \<in> set xs" for x
    using h(2) l(2) that by (auto simp: distinct_map inj_on_def)
  have pick: "pick_smooth_weighted_scheduled (\<lambda>_. True) xs c =
      (Some p, AList.update (?id p) (read0 c1 (?id p) - weight_sum ?wt xs) c1)"
    unfolding pick_smooth_weighted_scheduled_def scheduled_active_eq all
      pick_scheduled_loop_eq [where act = "[]"]
    using l(1,5) by (simp add: Let_def)
  show "\<exists>p c'. pick_smooth_weighted_scheduled (\<lambda>_. True) xs c = (Some p, c') \<and> p \<in> set xs \<and>
       (\<forall>x \<in> set xs. read0 c (?id x) + ?wt x \<le> read0 c (?id p) + ?wt p) \<and>
       (\<forall>x \<in> set xs. read0 c' (?id x) =
          read0 c (?id x) + ?wt x - (if x = p then weight_sum ?wt xs else 0))"
    using pick l(2,3,4) rd inj by auto
qed

section \<open>The indexes of a shard\<close>

type_synonym entry_map = "(string \<times> sched_entry) list"

definition ready_at :: "entry_map \<Rightarrow> int \<Rightarrow> string list" where
  "ready_at es p =
     sort_key id (map fst (filter (\<lambda>(i, e). sn_state e = SReady \<and> am_priority (sn_meta e) = p) es))"

definition waiting :: "entry_map \<Rightarrow> string set" where
  "waiting es = {i. \<exists>e. map_of es i = Some e \<and> (sn_state e = SCooldown \<or> sn_state e = SBlocked)}"

definition indexed :: "model_sched \<Rightarrow> bool" where
  "indexed m =
     (keys_distinct (md_ready m) \<and> md_order m = rev (sort (map fst (md_ready m))) \<and>
      (\<forall>p. case map_of (md_ready m) p of
             None \<Rightarrow> ready_at (md_entries m) p = []
           | Some b \<Rightarrow>
               ready_at (md_entries m) p \<noteq> [] \<and>
               rv_flat (bk_all b) = ready_at (md_entries m) p \<and>
               rv_flat (bk_ws b) = filter (entry_ws (md_entries m)) (ready_at (md_entries m) p)) \<and>
      set (md_blocked m) = waiting (md_entries m))"

definition entries_ok :: "entry_map \<Rightarrow> bool" where
  "entries_ok es =
     (keys_distinct es \<and>
      (\<forall>(i, e) \<in> set es. i \<noteq> [] \<and> a_id (sn_auth e) = i \<and> am_auth (sn_meta e) = sn_auth e \<and>
         am_priority (sn_meta e) = auth_priority (Some (sn_auth e))))"

lemma entries_okD:
  assumes "entries_ok es" "map_of es i = Some e"
  shows "i \<noteq> []" "a_id (sn_auth e) = i" "am_auth (sn_meta e) = sn_auth e"
    "am_priority (sn_meta e) = prio (sn_auth e)"
  using assms by (auto simp: entries_ok_def prio_def dest!: map_of_SomeD)

lemma restore_view_flat [simp]: "rv_flat (restore_view_cursors es st v) = rv_flat v"
  by (simp add: restore_view_cursors_def Let_def)

lemma priority_buckets_distinct:
  "keys_distinct bs \<Longrightarrow> keys_distinct (priority_buckets es bs)"
  by (induction es bs rule: priority_buckets.induct) (auto simp: Let_def)

lemma priority_buckets_map:
  "\<forall>p. map_of bs p \<noteq> Some [] \<Longrightarrow>
   map_of (priority_buckets es bs) p =
     (let l = (case map_of bs p of None \<Rightarrow> [] | Some b \<Rightarrow> b) @
              map fst (filter (\<lambda>(i, e). sn_state e = SReady \<and> am_priority (sn_meta e) = p) es)
      in if l = [] then None else Some l)"
proof (induction es bs rule: priority_buckets.induct)
  case (1 bs)
  then show ?case by (auto split: option.split)
next
  case (2 i e es bs)
  show ?case
  proof (cases "sn_state e = SReady")
    case True
    have "\<forall>p. map_of (AList.update (am_priority (sn_meta e))
        ((case map_of bs (am_priority (sn_meta e)) of None \<Rightarrow> [] | Some b \<Rightarrow> b) @ [i]) bs) p \<noteq> Some []"
      using "2.prems" by simp
    from "2.IH"(1) [OF True refl this] True show ?thesis by (simp add: Let_def)
  next
    case False
    then show ?thesis using "2.IH"(2) "2.prems" by simp
  qed
qed

lemma sort_key_id_empty [simp]: "sort_key f xs = [] \<longleftrightarrow> xs = []"
  by (metis length_0_conv length_sort)

lemma map_of_map_keyed: "map_of (map (\<lambda>(p, x). (p, f p x)) bs) q = map_option (f q) (map_of bs q)"
  by (induction bs) auto

lemma blocked_queue_set:
  "keys_distinct es \<Longrightarrow> set (blocked_queue es) = waiting es"
  by (force simp: blocked_queue_def waiting_def map_of_eq_Some_iff)

lemma rebuild_ready:
  "md_ready (rebuild_indexes m) =
     map (\<lambda>(p, ids). (p, let b = build_ready_bucket (md_entries m) (sort_key id ids) in
        case map_of (map (\<lambda>(p, b). (p, snapshot_view_cursors (bk_all b), snapshot_view_cursors (bk_ws b)))
               (md_ready m)) p of
           None \<Rightarrow> b
         | Some (ca, cw) \<Rightarrow>
             \<lparr>bk_all = restore_view_cursors (md_entries m) ca (bk_all b),
              bk_ws = restore_view_cursors (md_entries m) cw (bk_ws b)\<rparr>))
       (priority_buckets (md_entries m) [])"
  by (simp add: rebuild_indexes_def Let_def)

lemma rebuild_entries [simp]:
  "md_entries (rebuild_indexes m) = md_entries m" "md_key (rebuild_indexes m) = md_key m"
  by (simp_all add: rebuild_indexes_def Let_def)

lemma rebuild_indexed:
  assumes "keys_distinct (md_entries m)"
  shows "indexed (rebuild_indexes m)"
proof -
  let ?es = "md_entries m"
  have keys: "map fst (md_ready (rebuild_indexes m)) = map fst (priority_buckets ?es [])"
    unfolding rebuild_ready by (simp add: comp_def case_prod_unfold)
  have kd: "keys_distinct (md_ready (rebuild_indexes m))"
    unfolding keys by (rule priority_buckets_distinct) simp
  have ord: "md_order (rebuild_indexes m) = rev (sort (map fst (md_ready (rebuild_indexes m))))"
    by (simp add: rebuild_indexes_def Let_def)
  have blk: "set (md_blocked (rebuild_indexes m)) = waiting ?es"
    using blocked_queue_set [OF assms] by (simp add: rebuild_indexes_def Let_def)
  have pb: "map_of (priority_buckets ?es []) p =
      (let l = map fst (filter (\<lambda>(i, e). sn_state e = SReady \<and> am_priority (sn_meta e) = p) ?es)
       in if l = [] then None else Some l)" for p
    using priority_buckets_map [of "[]" ?es p] by simp
  have "case map_of (md_ready (rebuild_indexes m)) p of
      None \<Rightarrow> ready_at ?es p = []
    | Some b \<Rightarrow> ready_at ?es p \<noteq> [] \<and> rv_flat (bk_all b) = ready_at ?es p \<and>
        rv_flat (bk_ws b) = filter (entry_ws ?es) (ready_at ?es p)" for p
    unfolding rebuild_ready map_of_map_keyed pb
    by (auto simp: ready_at_def Let_def build_ready_bucket_def build_ready_view_def
        split: option.split)
  then show ?thesis using kd ord blk unfolding indexed_def by (simp cong: option.case_cong)
qed

section \<open>Operations keep the indexes\<close>

text \<open>An update that changes neither state, retry time, priority nor transport keeps them.\<close>

lemma ready_at_same:
  "keys_distinct es \<Longrightarrow> map_of es i = Some e0 \<Longrightarrow> sn_state e = sn_state e0 \<Longrightarrow>
   am_priority (sn_meta e) = am_priority (sn_meta e0) \<Longrightarrow>
   ready_at (AList.update i e es) p = ready_at es p"
proof -
  assume h: "keys_distinct es" "map_of es i = Some e0" "sn_state e = sn_state e0"
    "am_priority (sn_meta e) = am_priority (sn_meta e0)"
  have "map fst (filter (\<lambda>(i, e). sn_state e = SReady \<and> am_priority (sn_meta e) = p) (AList.update i e es)) =
      map fst (filter (\<lambda>(i, e). sn_state e = SReady \<and> am_priority (sn_meta e) = p) es)"
    using h by (induction es) (auto split: if_splits)
  then show ?thesis by (simp add: ready_at_def)
qed

lemma upsert_entry_indexed:
  assumes kd: "keys_distinct (md_entries m)" and ix: "indexed m"
  shows "indexed (upsert_entry now meta m)"
proof -
  let ?i = "a_id (am_auth meta)"
  let ?cls = "classify_upsert (is_auth_blocked_for_model (Some (am_auth meta)) (md_key m) now)"
  define e where "e = \<lparr>sn_meta = meta, sn_auth = am_auth meta, sn_state = fst ?cls, sn_next = snd ?cls\<rparr>"
  let ?m1 = "m\<lparr>md_entries := AList.update ?i e (md_entries m)\<rparr>"
  have re: "indexed (rebuild_indexes ?m1)" by (rule rebuild_indexed) (simp add: kd)
  show ?thesis
  proof (cases "\<exists>e0. map_of (md_entries m) ?i = Some e0 \<and> sn_state e0 = sn_state e \<and>
      sn_next e0 = sn_next e \<and> am_priority (sn_meta e0) = am_priority meta \<and> am_ws (sn_meta e0) = am_ws meta")
    case False
    then have "upsert_entry now meta m = rebuild_indexes ?m1"
      unfolding upsert_entry_def Let_def e_def by (auto split: option.splits)
    then show ?thesis using re by simp
  next
    case True
    then obtain e0 where e0: "map_of (md_entries m) ?i = Some e0" "sn_state e0 = sn_state e"
      "sn_next e0 = sn_next e" "am_priority (sn_meta e0) = am_priority meta" "am_ws (sn_meta e0) = am_ws meta"
      by blast
    then have m1: "upsert_entry now meta m = ?m1"
      unfolding upsert_entry_def Let_def e_def by simp
    have ra: "ready_at (AList.update ?i e (md_entries m)) p = ready_at (md_entries m) p" for p
      using e0 by (intro ready_at_same [OF kd e0(1)]) (simp_all add: e_def)
    have ws: "entry_ws (AList.update ?i e (md_entries m)) = entry_ws (md_entries m)"
      using e0 by (auto simp: entry_ws_def e_def fun_eq_iff)
    have wt: "waiting (AList.update ?i e (md_entries m)) = waiting (md_entries m)"
      using e0 by (auto simp: waiting_def)
    show ?thesis
      unfolding m1 using ix unfolding indexed_def by (simp add: ra ws wt cong: option.case_cong)
  qed
qed

lemma upsert_entry_entries:
  "md_entries (upsert_entry now meta m) =
     AList.update (a_id (am_auth meta))
       \<lparr>sn_meta = meta, sn_auth = am_auth meta,
        sn_state = fst (classify_upsert (is_auth_blocked_for_model (Some (am_auth meta)) (md_key m) now)),
        sn_next = snd (classify_upsert (is_auth_blocked_for_model (Some (am_auth meta)) (md_key m) now))\<rparr>
       (md_entries m)"
  "md_key (upsert_entry now meta m) = md_key m"
  by (simp_all add: upsert_entry_def Let_def)

lemma remove_entry_indexed:
  "keys_distinct (md_entries m) \<Longrightarrow> indexed m \<Longrightarrow> indexed (remove_entry i m)"
  by (simp add: remove_entry_def rebuild_indexed)

lemma remove_entry_entries:
  "i \<noteq> [] \<Longrightarrow> md_entries (remove_entry i m) = AList.delete i (md_entries m)"
  "md_key (remove_entry i m) = md_key m"
  by (auto simp: remove_entry_def delete_idem map_of_eq_None_iff)

lemma promote_loop_distinct:
  "keys_distinct es \<Longrightarrow> keys_distinct (fst (promote_loop now key is es ch))"
  by (induction now key "is" es ch rule: promote_loop.induct) (auto simp: Let_def split: option.split)

text \<open>What the promotion does to one entry.\<close>

definition promoted :: "gotime \<Rightarrow> string \<Rightarrow> sched_entry \<Rightarrow> sched_entry" where
  "promoted now key e =
     (if sn_next e = 0 \<or> now < sn_next e then e
      else (let cls = classify_upsert (is_auth_blocked_for_model (Some (sn_auth e)) key now)
            in e\<lparr>sn_state := fst cls, sn_next := snd cls\<rparr>))"

lemma classify_next_future:
  assumes "0 \<le> now"
  shows "snd (classify_upsert (is_auth_blocked_for_model ao key now)) = 0 \<or>
    now < snd (classify_upsert (is_auth_blocked_for_model ao key now))"
proof -
  obtain b r n where v: "is_auth_blocked_for_model ao key now = (b, r, n)"
    by (cases "is_auth_blocked_for_model ao key now")
  show ?thesis using blocked_time_future [OF assms v] v by (auto simp: classify_upsert_def)
qed

lemma promoted_idem: "0 \<le> now \<Longrightarrow> promoted now key (promoted now key e) = promoted now key e"
  using classify_next_future [of now "Some (sn_auth e)" key]
  by (auto simp: promoted_def Let_def)

lemma promote_loop_map:
  "0 \<le> now \<Longrightarrow> map_of (fst (promote_loop now key is es ch)) i =
    (if i \<in> set is then map_option (promoted now key) (map_of es i) else map_of es i)"
proof (induction now key "is" es ch rule: promote_loop.induct)
  case (2 now key j js es ch)
  show ?case
  proof (cases "map_of es j")
    case None
    then show ?thesis using 2 by auto
  next
    case (Some e)
    show ?thesis
    proof (cases "is_zero (sn_next e) \<or> after (sn_next e) now")
      case True
      then have "promoted now key e = e" by (simp add: promoted_def go_time)
      then show ?thesis using 2 Some True by auto
    next
      case False
      then have p: "e\<lparr>sn_state := fst (classify_upsert (is_auth_blocked_for_model (Some (sn_auth e)) key now)),
          sn_next := snd (classify_upsert (is_auth_blocked_for_model (Some (sn_auth e)) key now))\<rparr> =
          promoted now key e"
        by (simp add: promoted_def go_time Let_def)
      show ?thesis
        using "2.IH"(3) [OF Some False refl "2.prems"] Some False promoted_idem [OF "2.prems", of key e]
        by (simp add: Let_def p)
    qed
  qed
qed simp

lemma promote_loop_unchanged:
  "\<not> snd (promote_loop now key is es ch) \<Longrightarrow> \<not> ch \<and> fst (promote_loop now key is es ch) = es"
proof (induction now key "is" es ch rule: promote_loop.induct)
  case (2 now key j js es ch)
  show ?case
  proof (cases "map_of es j")
    case None
    then show ?thesis using 2 by auto
  next
    case (Some e)
    show ?thesis
    proof (cases "is_zero (sn_next e) \<or> after (sn_next e) now")
      case True
      then show ?thesis using 2 Some True by auto
    next
      case False
      then show ?thesis using "2.IH"(3) [OF Some False refl] "2.prems" Some by (simp add: Let_def)
    qed
  qed
qed simp

lemma promote_expired_map:
  assumes now: "0 \<le> now" and ix: "indexed m"
  shows "map_of (md_entries (promote_expired now m)) i =
      (if i \<in> waiting (md_entries m) then map_option (promoted now (md_key m)) (map_of (md_entries m) i)
       else map_of (md_entries m) i)"
    and "md_key (promote_expired now m) = md_key m"
proof -
  have w: "set (md_blocked m) = waiting (md_entries m)" using ix by (simp add: indexed_def)
  obtain es ch where l: "promote_loop now (md_key m) (md_blocked m) (md_entries m) False = (es, ch)"
    by (cases "promote_loop now (md_key m) (md_blocked m) (md_entries m) False")
  have "md_entries (promote_expired now m) = es"
    using promote_loop_unchanged [of now "md_key m" "md_blocked m" "md_entries m" False] l
    by (cases "md_blocked m = []") (auto simp: promote_expired_def)
  then show "map_of (md_entries (promote_expired now m)) i =
      (if i \<in> waiting (md_entries m) then map_option (promoted now (md_key m)) (map_of (md_entries m) i)
       else map_of (md_entries m) i)"
    using promote_loop_map [OF now, of "md_key m" "md_blocked m" "md_entries m" False i] l w by simp
  show "md_key (promote_expired now m) = md_key m"
    by (simp add: promote_expired_def split: prod.split)
qed

lemma promote_expired_distinct:
  "keys_distinct (md_entries m) \<Longrightarrow> keys_distinct (md_entries (promote_expired now m))"
  using promote_loop_distinct [of "md_entries m" now "md_key m" "md_blocked m" False]
  by (auto simp: promote_expired_def split: prod.split)

lemma promote_expired_indexed:
  assumes "keys_distinct (md_entries m)" "indexed m"
  shows "indexed (promote_expired now m)"
  using assms promote_loop_distinct [of "md_entries m" now "md_key m" "md_blocked m" False]
  by (auto simp: promote_expired_def rebuild_indexed split: prod.split)

section \<open>Entries record past verdicts\<close>

definition entry_sync :: "string \<Rightarrow> gotime \<Rightarrow> sched_entry \<Rightarrow> bool" where
  "entry_sync key t e =
     (\<exists>t0. 0 \<le> t0 \<and> t0 \<le> t \<and>
        (sn_state e, sn_next e) = classify_upsert (is_auth_blocked_for_model (Some (sn_auth e)) key t0))"

definition shard_ok :: "gotime \<Rightarrow> model_sched \<Rightarrow> bool" where
  "shard_ok t m =
     (entries_ok (md_entries m) \<and> indexed m \<and>
      (\<forall>i e. map_of (md_entries m) i = Some e \<longrightarrow> entry_sync (md_key m) t e))"

lemma entry_sync_mono: "entry_sync key t e \<Longrightarrow> t \<le> t' \<Longrightarrow> entry_sync key t' e"
  unfolding entry_sync_def by (meson order_trans)

lemma classify_ready_iff: "fst (classify_upsert v) = SReady \<longleftrightarrow> \<not> fst v"
  by (auto simp: classify_upsert_def split: prod.split)

lemma classify_eqD:
  "(s, n) = classify_upsert (b, r, k) \<Longrightarrow>
   (\<not> b \<and> s = SReady \<and> n = 0) \<or> (b \<and> r = BlockDisabled \<and> s = SDisabled \<and> n = 0) \<or>
   (b \<and> r \<noteq> BlockDisabled \<and> (s = SCooldown \<or> s = SBlocked) \<and> n = k)"
  by (cases b; cases "r = BlockCooldown"; cases "r = BlockDisabled") (simp_all add: classify_upsert_def)

lemma not_ready_still_blocked:
  assumes sync: "entry_sync key t e" and now: "t \<le> now" and nr: "sn_state e \<noteq> SReady"
    and nx: "sn_next e = 0 \<or> now < sn_next e"
  shows "blocked (Some (sn_auth e)) key now"
proof -
  obtain t0 where t0: "0 \<le> t0" "t0 \<le> t"
    "(sn_state e, sn_next e) = classify_upsert (is_auth_blocked_for_model (Some (sn_auth e)) key t0)"
    using sync by (auto simp: entry_sync_def)
  obtain b r n where v: "is_auth_blocked_for_model (Some (sn_auth e)) key t0 = (b, r, n)"
    by (cases "is_auth_blocked_for_model (Some (sn_auth e)) key t0")
  note c = classify_eqD [OF t0(3) [unfolded v]]
  have b: b using c nr by blast
  have "n = 0 \<or> now < n"
    using c nr nx v b disabled_block_hard [OF t0(1), of "Some (sn_auth e)" key b n] by auto
  then show ?thesis using still_blocked [OF t0(1) _ _ _, of now "Some (sn_auth e)" key r n] t0(2) now v b
    by simp
qed

lemma ready_still_unblocked:
  assumes sync: "entry_sync key t e" and now: "t \<le> now" and r: "sn_state e = SReady"
  shows "\<not> blocked (Some (sn_auth e)) key now"
proof -
  obtain t0 where t0: "0 \<le> t0" "t0 \<le> t"
    "(sn_state e, sn_next e) = classify_upsert (is_auth_blocked_for_model (Some (sn_auth e)) key t0)"
    using sync by (auto simp: entry_sync_def)
  have "\<not> blocked (Some (sn_auth e)) key t0"
    using t0(3) r classify_ready_iff [of "is_auth_blocked_for_model (Some (sn_auth e)) key t0"]
    by (metis fst_conv)
  then show ?thesis using unblocked_mono [OF t0(1)] t0(2) now by (meson order_trans)
qed

text \<open>After a promotion an entry is ready exactly when its credential is not blocked.\<close>

lemma promoted_ready_iff:
  assumes sync: "entry_sync key t e" and now: "0 \<le> now" "t \<le> now"
    and w: "sn_state e = SCooldown \<or> sn_state e = SBlocked"
  shows "sn_state (promoted now key e) = SReady \<longleftrightarrow> \<not> blocked (Some (sn_auth e)) key now"
proof (cases "sn_next e = 0 \<or> now < sn_next e")
  case True
  then have "promoted now key e = e" by (simp add: promoted_def)
  then show ?thesis using not_ready_still_blocked [OF sync now(2) _ True] w by auto
next
  case False
  then show ?thesis by (simp add: promoted_def classify_ready_iff Let_def)
qed

lemma promoted_fields [simp]:
  "sn_auth (promoted now key e) = sn_auth e" "sn_meta (promoted now key e) = sn_meta e"
  by (simp_all add: promoted_def Let_def)

lemma promoted_sync:
  assumes "0 \<le> now" "t \<le> now" "entry_sync key t e"
  shows "entry_sync key now (promoted now key e)"
proof (cases "sn_next e = 0 \<or> now < sn_next e")
  case True
  then show ?thesis using entry_sync_mono [OF assms(3,2)] by (simp add: promoted_def)
next
  case False
  then show ?thesis
    unfolding entry_sync_def using assms(1) by (intro exI [of _ now]) (simp add: promoted_def Let_def)
qed

lemma entries_ok_map:
  "entries_ok es \<longleftrightarrow> keys_distinct es \<and>
     (\<forall>i e. map_of es i = Some e \<longrightarrow> i \<noteq> [] \<and> a_id (sn_auth e) = i \<and>
        am_auth (sn_meta e) = sn_auth e \<and> am_priority (sn_meta e) = auth_priority (Some (sn_auth e)))"
proof -
  have "keys_distinct es \<Longrightarrow> (\<forall>x \<in> set es. Q x) = (\<forall>i e. map_of es i = Some e \<longrightarrow> Q (i, e))" for Q
    by (auto simp: map_of_eq_Some_iff)
  from this [of "\<lambda>(i, e). i \<noteq> [] \<and> a_id (sn_auth e) = i \<and> am_auth (sn_meta e) = sn_auth e \<and>
      am_priority (sn_meta e) = auth_priority (Some (sn_auth e))"]
  show ?thesis unfolding entries_ok_def by (simp only: case_prod_conv) blast
qed

lemma promote_expired_ok:
  assumes ok: "shard_ok t m" and now: "0 \<le> now" "t \<le> now"
  shows "shard_ok now (promote_expired now m)"
    and "map_of (md_entries (promote_expired now m)) i = Some e \<Longrightarrow>
      sn_state e = SReady \<longleftrightarrow> \<not> blocked (Some (sn_auth e)) (md_key m) now"
proof -
  have eo: "entries_ok (md_entries m)" and ix: "indexed m"
    and sy: "\<And>i e. map_of (md_entries m) i = Some e \<Longrightarrow> entry_sync (md_key m) t e"
    using ok by (auto simp: shard_ok_def)
  have kd: "keys_distinct (md_entries m)" using eo by (simp add: entries_ok_def)
  note pm = promote_expired_map [OF now(1) ix]
  have cases: "\<exists>e0. map_of (md_entries m) i = Some e0 \<and>
      (e = e0 \<and> i \<notin> waiting (md_entries m) \<or> e = promoted now (md_key m) e0 \<and> i \<in> waiting (md_entries m))"
    if "map_of (md_entries (promote_expired now m)) i = Some e" for i e
    using that pm(1) [of i] by (auto split: if_splits)
  have "entries_ok (md_entries (promote_expired now m))"
    unfolding entries_ok_map
  proof (intro conjI allI impI)
    show "keys_distinct (md_entries (promote_expired now m))" by (rule promote_expired_distinct [OF kd])
  next
    fix i e
    assume "map_of (md_entries (promote_expired now m)) i = Some e"
    then obtain e0 where e0: "map_of (md_entries m) i = Some e0" "sn_auth e = sn_auth e0" "sn_meta e = sn_meta e0"
      using cases by fastforce
    show "i \<noteq> []" "a_id (sn_auth e) = i" "am_auth (sn_meta e) = sn_auth e"
      "am_priority (sn_meta e) = auth_priority (Some (sn_auth e))"
      using entries_okD [OF eo e0(1)] e0 by (simp_all add: prio_def)
  qed
  moreover have "entry_sync (md_key m) now e"
    if "map_of (md_entries (promote_expired now m)) i = Some e" for i e
    using cases [OF that] sy promoted_sync [OF now] entry_sync_mono [OF _ now(2)] by blast
  ultimately show "shard_ok now (promote_expired now m)"
    using promote_expired_indexed [OF kd ix] pm(2) by (simp add: shard_ok_def)
  show "sn_state e = SReady \<longleftrightarrow> \<not> blocked (Some (sn_auth e)) (md_key m) now"
    if h: "map_of (md_entries (promote_expired now m)) i = Some e"
  proof -
    obtain e0 where e0: "map_of (md_entries m) i = Some e0" and
      or: "e = e0 \<and> i \<notin> waiting (md_entries m) \<or> e = promoted now (md_key m) e0 \<and> i \<in> waiting (md_entries m)"
      using cases [OF h] by blast
    show ?thesis
    proof (cases "i \<in> waiting (md_entries m)")
      case True
      then have "sn_state e0 = SCooldown \<or> sn_state e0 = SBlocked" using e0 by (auto simp: waiting_def)
      then show ?thesis using promoted_ready_iff [OF sy [OF e0] now] or True by auto
    next
      case False
      then have s: "sn_state e0 = SReady \<or> sn_state e0 = SDisabled"
        using e0 by (cases "sn_state e0") (auto simp: waiting_def)
      have d: "sn_next e0 = 0" if "sn_state e0 = SDisabled"
      proof -
        obtain v where "(sn_state e0, sn_next e0) = classify_upsert v"
          using sy [OF e0] unfolding entry_sync_def by blast
        then show ?thesis
          using that classify_eqD [of "sn_state e0" "sn_next e0" "fst v" "fst (snd v)" "snd (snd v)"] by auto
      qed
      show ?thesis
        using s d or False ready_still_unblocked [OF sy [OF e0] now(2)]
          not_ready_still_blocked [OF sy [OF e0] now(2)] by auto
    qed
  qed
qed

end
