(* ===== verification/SchedulerPicks.thy ===== *)
theory SchedulerPicks
  imports SchedulerProps
begin

text \<open>
  What the scheduler offers: the picks of a view, of a shard and of a provider. A shard's
  entries are exactly the credentials of its provider that list the shard's model, whatever
  the order of insertions, removals and picks, and a pick returns an available credential of
  the highest priority, failing only when there is none.
\<close>

section \<open>Views\<close>

lemma view_pick_first_SomeD:
  "view_pick_first es pred v = Some i \<Longrightarrow> i \<in> set (rv_flat v) \<and> entry_ok es pred i"
  by (auto simp: view_pick_first_def find_Some_iff)

lemma view_pick_first_None:
  "view_pick_first es pred v = None \<longleftrightarrow> (\<forall>i \<in> set (rv_flat v). \<not> entry_ok es pred i)"
  by (auto simp: view_pick_first_def find_None_iff)

lemma rr_traverse_Some:
  "rr_traverse ok flat index left = Some (i, x) \<Longrightarrow> flat \<noteq> [] \<Longrightarrow>
   i < length flat \<and> x = flat ! i \<and> ok x"
  by (induction ok flat index left rule: rr_traverse.induct) (auto simp: Let_def split: if_splits)

lemma rr_traverse_None:
  "rr_traverse ok flat index left = None \<Longrightarrow> d < left \<Longrightarrow> \<not> ok (flat ! ((index + d) mod length flat))"
proof (induction ok flat index left arbitrary: d rule: rr_traverse.induct)
  case (2 ok flat index left)
  show ?case
  proof (cases d)
    case 0
    then show ?thesis using "2.prems" by (auto simp: Let_def split: if_splits)
  next
    case (Suc d')
    then show ?thesis
      using "2.prems" "2.IH" [OF refl refl, of d'] by (auto simp: Let_def split: if_splits)
  qed
qed simp

text \<open>A full turn from any start visits every position.\<close>

lemma turn_visits:
  fixes j n s :: nat
  assumes "j < n"
  obtains d where "d < n" "(s + d) mod n = j"
proof -
  let ?r = "s mod n"
  have r: "?r < n" using assms by simp
  show thesis
  proof (cases "?r \<le> j")
    case True
    have "(s + (j - ?r)) mod n = (?r + (j - ?r)) mod n" by (simp add: mod_add_left_eq)
    then show ?thesis using that [of "j - ?r"] True assms by simp
  next
    case False
    have "(s + (n - ?r + j)) mod n = (?r + (n - ?r + j)) mod n" by (simp only: mod_add_left_eq)
    also have "?r + (n - ?r + j) = n + j" using r by linarith
    also have "(n + j) mod n = j" using assms by simp
    finally show ?thesis using that [of "n - ?r + j"] False r by simp
  qed
qed

lemma rr_traverse_live:
  "rr_traverse ok flat index (length flat) = None \<Longrightarrow> x \<in> set flat \<Longrightarrow> \<not> ok x"
  using rr_traverse_None by (metis in_set_conv_nth turn_visits)

lemma entry_list_set:
  "e \<in> set (entry_list es ids) \<longleftrightarrow> (\<exists>i \<in> set ids. map_of es i = Some e)"
  unfolding entry_list_def by (induction ids) (auto simp: List.map_filter_def)


lemma scheduled_loop_Cons:
  "pick_scheduled_loop pred (e # es) c t pk =
     (if 0 < am_weight (sn_meta e) \<and> pred e
      then (let k = saturating_add_int64 (read0 c (a_id (sn_auth e))) (am_weight (sn_meta e))
            in pick_scheduled_loop pred es (AList.update (a_id (sn_auth e)) k c)
                 (saturating_add_int64 t (am_weight (sn_meta e)))
                 (case pk of None \<Rightarrow> Some (e, k) | Some (p, pc) \<Rightarrow> if k > pc then Some (e, k) else pk))
      else pick_scheduled_loop pred es c t pk)"
  by auto

lemma scheduled_loop_some:
  "snd (snd (pick_scheduled_loop pred es c t pk)) = Some (p, k) \<Longrightarrow>
   (\<exists>k'. pk = Some (p, k')) \<or> (p \<in> set es \<and> 0 < am_weight (sn_meta p) \<and> pred p)"
proof (induction es arbitrary: c t pk)
  case (Cons e es)
  show ?case
  proof (cases "0 < am_weight (sn_meta e) \<and> pred e")
    case False
    then show ?thesis using Cons by (auto simp only: scheduled_loop_Cons if_False list.set)
  next
    case True
    obtain c' t' k' where
      "snd (snd (pick_scheduled_loop pred es c' t'
         (case pk of None \<Rightarrow> Some (e, k') | Some (q, pc) \<Rightarrow> if k' > pc then Some (e, k') else pk))) = Some (p, k)"
      using Cons.prems True unfolding scheduled_loop_Cons Let_def by auto
    from Cons.IH [OF this] True show ?thesis by (cases pk) (auto split: if_splits)
  qed
qed simp

lemma scheduled_loop_none:
  "snd (snd (pick_scheduled_loop pred es c t pk)) = None \<Longrightarrow>
   pk = None \<and> (\<forall>e \<in> set es. \<not> (0 < am_weight (sn_meta e) \<and> pred e))"
proof (induction es arbitrary: c t pk)
  case (Cons e es)
  show ?case
  proof (cases "0 < am_weight (sn_meta e) \<and> pred e")
    case False
    then show ?thesis using Cons by (auto simp only: scheduled_loop_Cons if_False list.set)
  next
    case True
    obtain c' t' k' where
      "snd (snd (pick_scheduled_loop pred es c' t'
         (case pk of None \<Rightarrow> Some (e, k') | Some (q, pc) \<Rightarrow> if k' > pc then Some (e, k') else pk))) = None"
      using Cons.prems True unfolding scheduled_loop_Cons Let_def by auto
    from Cons.IH [OF this] show ?thesis by (cases pk) (auto split: if_splits)
  qed
qed simp

lemma pick_scheduled_sound:
  "fst (pick_smooth_weighted_scheduled pred es c) = Some p \<Longrightarrow>
   p \<in> set es \<and> 0 < am_weight (sn_meta p) \<and> pred p"
  using scheduled_loop_some
    [of pred es "filter (\<lambda>(i, _). i \<in> set (scheduled_active pred es)) c" 0 None p]
  by (auto simp: pick_smooth_weighted_scheduled_def Let_def split: prod.splits option.splits)

lemma pick_scheduled_none:
  "fst (pick_smooth_weighted_scheduled pred es c) = None \<Longrightarrow> e \<in> set es \<Longrightarrow>
   \<not> (0 < am_weight (sn_meta e) \<and> pred e)"
  using scheduled_loop_none
    [of pred es "filter (\<lambda>(i, _). i \<in> set (scheduled_active pred es)) c" 0 None]
  by (auto simp: pick_smooth_weighted_scheduled_def Let_def split: prod.splits option.splits)

lemma pick_in_view_flat: "rv_flat (snd (pick_in_view strat es pred v)) = rv_flat v"
  by (auto simp: pick_in_view_def view_pick_weighted_def view_pick_round_robin_def Let_def
      split: strategy.split prod.split option.split)

lemma round_robin_sound:
  "fst (view_pick_round_robin es pred v) = Some i \<Longrightarrow> i \<in> set (rv_flat v) \<and> entry_ok es pred i"
  by (auto simp: view_pick_round_robin_def Let_def split: if_splits option.splits
      dest!: rr_traverse_Some)

lemma round_robin_live:
  "fst (view_pick_round_robin es pred v) = None \<Longrightarrow> i \<in> set (rv_flat v) \<Longrightarrow> \<not> entry_ok es pred i"
  by (auto simp: view_pick_round_robin_def Let_def split: if_splits option.splits
      dest: rr_traverse_live)

lemma weighted_sound:
  assumes "entries_ok es" "fst (view_pick_weighted es pred v) = Some i"
  shows "i \<in> set (rv_flat v) \<and> entry_ok es pred i"
proof -
  let ?xs = "entry_list es (rv_flat v)"
  let ?st = "prepare_smooth_state (rv_weighted v) (scheduled_weight_vector_matching pred ?xs [])"
  obtain e where e: "fst (pick_smooth_weighted_scheduled pred ?xs (the (ss_current ?st))) = Some e"
    "i = a_id (sn_auth e)"
    using assms(2) by (auto simp: view_pick_weighted_def Let_def split: if_splits prod.splits)
  then have "e \<in> set ?xs" "pred e" using pick_scheduled_sound by blast+
  then show ?thesis
    using entries_okD(2) [OF assms(1)] e(2) by (fastforce simp: entry_list_set entry_ok_def)
qed

lemma weighted_live:
  assumes "fst (view_pick_weighted es pred v) = None" "\<And>e. pred e \<Longrightarrow> 0 < am_weight (sn_meta e)"
    "i \<in> set (rv_flat v)"
  shows "\<not> entry_ok es pred i"
proof
  let ?xs = "entry_list es (rv_flat v)"
  let ?st = "prepare_smooth_state (rv_weighted v) (scheduled_weight_vector_matching pred ?xs [])"
  assume "entry_ok es pred i"
  then obtain e where e: "map_of es i = Some e" "pred e" by (auto simp: entry_ok_def split: option.splits)
  then have "e \<in> set ?xs" using assms(3) by (auto simp: entry_list_set)
  moreover have "fst (pick_smooth_weighted_scheduled pred ?xs (the (ss_current ?st))) = None"
    using assms(1,3) by (auto simp: view_pick_weighted_def Let_def split: if_splits prod.splits)
  ultimately show False using pick_scheduled_none [of pred ?xs _ e] e(2) assms(2) by blast
qed

text \<open>Every strategy picks an entry of the view that satisfies the predicate, if there is one.\<close>

lemma pick_in_view_sound:
  "entries_ok es \<Longrightarrow> fst (pick_in_view strat es pred v) = Some i \<Longrightarrow>
   i \<in> set (rv_flat v) \<and> entry_ok es pred i"
  using round_robin_sound weighted_sound view_pick_first_SomeD
  by (cases strat) (auto simp: pick_in_view_def)

definition positive_when_weighted :: "strategy \<Rightarrow> (sched_entry \<Rightarrow> bool) \<Rightarrow> bool" where
  "positive_when_weighted strat pred =
     (strat = StratWeighted \<longrightarrow> (\<forall>e. pred e \<longrightarrow> 0 < am_weight (sn_meta e)))"

lemma pick_in_view_live:
  "fst (pick_in_view strat es pred v) = None \<Longrightarrow> positive_when_weighted strat pred \<Longrightarrow>
   i \<in> set (rv_flat v) \<Longrightarrow> \<not> entry_ok es pred i"
  using round_robin_live weighted_live view_pick_first_None
  by (cases strat) (auto simp: pick_in_view_def positive_when_weighted_def)

section \<open>A shard\<close>

text \<open>The entries a pick may return: ready, satisfying the predicate, of the wanted transport.\<close>

definition offered :: "model_sched \<Rightarrow> (sched_entry \<Rightarrow> bool) \<Rightarrow> bool \<Rightarrow> sched_entry \<Rightarrow> bool" where
  "offered m pred ws e \<longleftrightarrow>
     (\<exists>i. map_of (md_entries m) i = Some e) \<and> sn_state e = SReady \<and> pred e \<and>
     (ws \<longrightarrow> am_ws (sn_meta e))"

abbreviation view_of :: "bool \<Rightarrow> ready_bucket \<Rightarrow> ready_view" where
  "view_of ws \<equiv> if ws then bk_ws else bk_all"

lemma ready_at_set:
  assumes "keys_distinct es"
  shows "i \<in> set (ready_at es p) \<longleftrightarrow>
    (\<exists>e. map_of es i = Some e \<and> sn_state e = SReady \<and> am_priority (sn_meta e) = p)"
  using assms by (force simp: ready_at_def map_of_eq_Some_iff)

lemma indexed_view:
  assumes "indexed m" "keys_distinct (md_entries m)" "map_of (md_ready m) p = Some b"
  shows "i \<in> set (rv_flat (view_of ws b)) \<longleftrightarrow>
    (\<exists>e. map_of (md_entries m) i = Some e \<and> sn_state e = SReady \<and> am_priority (sn_meta e) = p \<and>
       (ws \<longrightarrow> am_ws (sn_meta e)))"
proof -
  have "rv_flat (bk_all b) = ready_at (md_entries m) p"
    "rv_flat (bk_ws b) = filter (entry_ws (md_entries m)) (ready_at (md_entries m) p)"
    using assms(1,3) unfolding indexed_def by (auto dest: spec [of _ p])
  then show ?thesis using ready_at_set [OF assms(2)] by (auto simp: entry_ws_def)
qed

lemma view_first_offered:
  assumes "indexed m" "keys_distinct (md_entries m)" "map_of (md_ready m) p = Some b"
  shows "view_pick_first (md_entries m) pred (view_of ws b) \<noteq> None \<longleftrightarrow>
    (\<exists>e. offered m pred ws e \<and> am_priority (sn_meta e) = p)"
  using indexed_view [OF assms, of _ ws]
  unfolding view_pick_first_None offered_def entry_ok_def by (fastforce split: option.splits)

lemma offered_bucket:
  assumes "indexed m" "keys_distinct (md_entries m)" "offered m pred ws e"
  obtains b where "map_of (md_ready m) (am_priority (sn_meta e)) = Some b"
    "am_priority (sn_meta e) \<in> set (md_order m)"
proof -
  let ?p = "am_priority (sn_meta e)"
  have "ready_at (md_entries m) ?p \<noteq> []"
    using assms(3) ready_at_set [OF assms(2), of _ ?p] unfolding offered_def by force
  moreover have "case map_of (md_ready m) ?p of None \<Rightarrow> ready_at (md_entries m) ?p = [] | Some b \<Rightarrow> True"
    using spec [of _ ?p] assms(1) unfolding indexed_def by (auto split: option.splits dest: spec [of _ ?p])
  ultimately obtain b where b: "map_of (md_ready m) ?p = Some b" by (auto split: option.splits)
  then have "?p \<in> set (map fst (md_ready m))" by (metis map_of_SomeD image_eqI fst_conv set_map)
  then show thesis using that b assms(1) by (simp add: indexed_def)
qed

lemma find_sorted_desc:
  "find P (rev (sort (xs :: int list))) = Some p \<Longrightarrow> P p \<and> p \<in> set xs \<and> (\<forall>q \<in> set xs. P q \<longrightarrow> q \<le> p)"
proof -
  assume "find P (rev (sort xs)) = Some p"
  then obtain i where i: "i < length (rev (sort xs))" "P (rev (sort xs) ! i)" "p = rev (sort xs) ! i"
    "\<forall>j < i. \<not> P (rev (sort xs) ! j)"
    by (auto simp: find_Some_iff)
  have srt: "sorted_wrt (\<ge>) (rev (sort xs))" by (simp add: sorted_wrt_rev)
  have "q \<le> p" if "q \<in> set xs" "P q" for q
  proof -
    have "q \<in> set (rev (sort xs))" using that(1) by simp
    then obtain j where j: "j < length (rev (sort xs))" "q = rev (sort xs) ! j"
      unfolding in_set_conv_nth by blast
    then have "\<not> j < i" using i(4) that(2) by blast
    then show ?thesis using sorted_wrt_nth_less [OF srt, of i j] i(3) j by (cases "i = j") auto
  qed
  moreover have "p \<in> set xs" using nth_mem [OF i(1)] i(3) by simp
  ultimately show ?thesis using i(2,3) by blast
qed

lemma first_priority_Some:
  assumes ix: "indexed m" and kd: "keys_distinct (md_entries m)"
    and f: "first_priority (view_of ws) pred m = Some p"
  shows "\<exists>e. offered m pred ws e \<and> am_priority (sn_meta e) = p"
    and "\<And>e. offered m pred ws e \<Longrightarrow> am_priority (sn_meta e) \<le> p"
proof -
  let ?P = "\<lambda>p. case map_of (md_ready m) p of None \<Rightarrow> False
      | Some b \<Rightarrow> view_pick_first (md_entries m) pred (view_of ws b) \<noteq> None"
  have ord: "md_order m = rev (sort (map fst (md_ready m)))" using ix by (simp add: indexed_def)
  from find_sorted_desc [of ?P "map fst (md_ready m)" p]
  have d: "?P p" "\<forall>q \<in> set (map fst (md_ready m)). ?P q \<longrightarrow> q \<le> p"
    using f unfolding first_priority_def ord by blast+
  show "\<exists>e. offered m pred ws e \<and> am_priority (sn_meta e) = p"
    using d(1) view_first_offered [OF ix kd, of p] by (auto split: option.splits)
  show "am_priority (sn_meta e) \<le> p" if o: "offered m pred ws e" for e
  proof -
    obtain b where b: "map_of (md_ready m) (am_priority (sn_meta e)) = Some b"
      "am_priority (sn_meta e) \<in> set (md_order m)"
      using offered_bucket [OF ix kd o] .
    have "?P (am_priority (sn_meta e))"
      using view_first_offered [OF ix kd b(1), of pred ws] o b(1) by auto
    then show ?thesis using d(2) b(2) unfolding ord set_rev set_sort by blast
  qed
qed

lemma first_priority_None:
  assumes ix: "indexed m" and kd: "keys_distinct (md_entries m)"
    and f: "first_priority (view_of ws) pred m = None"
  shows "\<not> offered m pred ws e"
proof
  assume o: "offered m pred ws e"
  obtain b where b: "map_of (md_ready m) (am_priority (sn_meta e)) = Some b"
    "am_priority (sn_meta e) \<in> set (md_order m)"
    using offered_bucket [OF ix kd o] .
  have "view_pick_first (md_entries m) pred (view_of ws b) \<noteq> None"
    using view_first_offered [OF ix kd b(1), of pred ws] o by auto
  then show False using f b by (auto simp: first_priority_def find_None_iff)
qed

text \<open>The transport a pick settles on: websocket only where preferred and offered.\<close>

definition settles_ws :: "model_sched \<Rightarrow> (sched_entry \<Rightarrow> bool) \<Rightarrow> bool \<Rightarrow> bool" where
  "settles_ws m pred prefer_ws \<longleftrightarrow> prefer_ws \<and> first_priority bk_ws pred m \<noteq> None"

lemma settles_ws_iff:
  assumes "indexed m" "keys_distinct (md_entries m)"
  shows "settles_ws m pred prefer_ws \<longleftrightarrow> prefer_ws \<and> (\<exists>e. offered m pred True e)"
  using first_priority_Some(1) [OF assms, of True pred] first_priority_None [OF assms, of True pred]
  by (auto simp: settles_ws_def)

lemma highest_ready_priority_eq:
  "highest_ready_priority prefer_ws pred m = first_priority (view_of (settles_ws m pred prefer_ws)) pred m"
  by (auto simp: highest_ready_priority_def settles_ws_def split: option.split)

lemma pick_at_priority_spec:
  assumes ix: "indexed m" and ok: "entries_ok (md_entries m)"
    and pos: "positive_when_weighted strat pred"
    and ex: "\<exists>e. offered m pred (settles_ws m pred prefer_ws) e \<and> am_priority (sn_meta e) = p"
    and ws: "prefer_ws \<Longrightarrow> \<exists>e. offered m pred True e \<and> am_priority (sn_meta e) = p \<Longrightarrow> settles_ws m pred prefer_ws"
  shows "\<exists>e. fst (pick_ready_at_priority prefer_ws p strat pred m) = Some (sn_auth e) \<and>
      offered m pred (settles_ws m pred prefer_ws) e \<and> am_priority (sn_meta e) = p"
proof -
  have kd: "keys_distinct (md_entries m)" using ok by (simp add: entries_ok_def)
  obtain e0 where e0: "offered m pred (settles_ws m pred prefer_ws) e0" "am_priority (sn_meta e0) = p"
    using ex by blast
  obtain b where b: "map_of (md_ready m) p = Some b"
    using offered_bucket [OF ix kd e0(1)] e0(2) by metis
  have uw: "uses_ws_view prefer_ws pred m b = settles_ws m pred prefer_ws"
    using view_first_offered [OF ix kd b, of pred True] ws e0 by (auto simp: uses_ws_view_def settles_ws_def)
  let ?v = "view_of (settles_ws m pred prefer_ws) b"
  have ne: "fst (pick_in_view strat (md_entries m) pred ?v) \<noteq> None"
  proof
    assume n: "fst (pick_in_view strat (md_entries m) pred ?v) = None"
    obtain i where i: "map_of (md_entries m) i = Some e0" using e0(1) by (auto simp: offered_def)
    have "i \<in> set (rv_flat ?v)"
      using indexed_view [OF ix kd b, of i "settles_ws m pred prefer_ws"] i e0 by (auto simp: offered_def)
    then have "\<not> entry_ok (md_entries m) pred i" using pick_in_view_live [OF n pos] by blast
    then show False using i e0(1) by (auto simp: entry_ok_def offered_def)
  qed
  then obtain i v' where pk: "pick_in_view strat (md_entries m) pred ?v = (Some i, v')"
    by (cases "pick_in_view strat (md_entries m) pred ?v") auto
  have "i \<in> set (rv_flat ?v) \<and> entry_ok (md_entries m) pred i"
    using pick_in_view_sound [OF ok, of strat pred ?v i] pk by simp
  then obtain e where e: "map_of (md_entries m) i = Some e" "sn_state e = SReady"
    "am_priority (sn_meta e) = p" "settles_ws m pred prefer_ws \<longrightarrow> am_ws (sn_meta e)" "pred e"
    using indexed_view [OF ix kd b, of i "settles_ws m pred prefer_ws"] by (auto simp: entry_ok_def)
  have "fst (pick_ready_at_priority prefer_ws p strat pred m) = Some (sn_auth e)"
    using pk e(1) by (simp add: pick_ready_at_priority_def b uw Let_def if_distrib [of "\<lambda>f. f b"] split: if_splits)
  then show ?thesis using e by (auto simp: offered_def)
qed

text \<open>A pick moves cursors only.\<close>

lemma indexed_same_views:
  assumes "indexed m" "map_of (md_ready m) p = Some b"
    "rv_flat (bk_all b') = rv_flat (bk_all b)" "rv_flat (bk_ws b') = rv_flat (bk_ws b)"
  shows "indexed (m\<lparr>md_ready := AList.update p b' (md_ready m)\<rparr>)"
proof -
  have keys: "map fst (AList.update p b' (md_ready m)) = map fst (md_ready m)"
    using assms(2) by (force simp: update_keys dest: map_of_SomeD)
  have "case map_of (AList.update p b' (md_ready m)) q of
      None \<Rightarrow> ready_at (md_entries m) q = []
    | Some b \<Rightarrow> ready_at (md_entries m) q \<noteq> [] \<and> rv_flat (bk_all b) = ready_at (md_entries m) q \<and>
        rv_flat (bk_ws b) = filter (entry_ws (md_entries m)) (ready_at (md_entries m) q)" for q
  proof -
    have "case map_of (md_ready m) q of None \<Rightarrow> ready_at (md_entries m) q = []
      | Some b \<Rightarrow> ready_at (md_entries m) q \<noteq> [] \<and> rv_flat (bk_all b) = ready_at (md_entries m) q \<and>
          rv_flat (bk_ws b) = filter (entry_ws (md_entries m)) (ready_at (md_entries m) q)"
      using assms(1) unfolding indexed_def by blast
    then show ?thesis using assms(2-4) by (cases "q = p") (simp_all add: update_conv)
  qed
  then show ?thesis using assms(1) keys by (simp add: indexed_def cong: option.case_cong)
qed

lemma pick_at_priority_keeps:
  assumes "indexed m"
  shows "indexed (snd (pick_ready_at_priority prefer_ws p strat pred m))"
    and "md_entries (snd (pick_ready_at_priority prefer_ws p strat pred m)) = md_entries m"
    and "md_key (snd (pick_ready_at_priority prefer_ws p strat pred m)) = md_key m"
proof -
  have "indexed (snd (pick_ready_at_priority prefer_ws p strat pred m)) \<and>
    md_entries (snd (pick_ready_at_priority prefer_ws p strat pred m)) = md_entries m \<and>
    md_key (snd (pick_ready_at_priority prefer_ws p strat pred m)) = md_key m"
  proof (cases "map_of (md_ready m) p")
    case None
    then show ?thesis using assms by (simp add: pick_ready_at_priority_def)
  next
    case (Some b)
    let ?ws = "uses_ws_view prefer_ws pred m b"
    obtain picked v where pk: "pick_in_view strat (md_entries m) pred (if ?ws then bk_ws b else bk_all b) = (picked, v)"
      by (cases "pick_in_view strat (md_entries m) pred (if ?ws then bk_ws b else bk_all b)")
    have v: "rv_flat v = rv_flat (if ?ws then bk_ws b else bk_all b)"
      using pick_in_view_flat [of strat "md_entries m" pred "if ?ws then bk_ws b else bk_all b"]
      by (simp only: pk snd_conv)
    define b' where "b' = (if ?ws then b\<lparr>bk_ws := v\<rparr> else b\<lparr>bk_all := v\<rparr>)"
    have "snd (pick_ready_at_priority prefer_ws p strat pred m) = m\<lparr>md_ready := AList.update p b' (md_ready m)\<rparr>"
      by (simp add: pick_ready_at_priority_def Some Let_def pk b'_def split: prod.split)
    moreover have "rv_flat (bk_all b') = rv_flat (bk_all b)" "rv_flat (bk_ws b') = rv_flat (bk_ws b)"
      using v by (auto simp: b'_def split: if_splits)
    ultimately show ?thesis using indexed_same_views [OF assms Some] by simp
  qed
  then show "indexed (snd (pick_ready_at_priority prefer_ws p strat pred m))"
    and "md_entries (snd (pick_ready_at_priority prefer_ws p strat pred m)) = md_entries m"
    and "md_key (snd (pick_ready_at_priority prefer_ws p strat pred m)) = md_key m"
    by simp_all
qed

lemma pick_ready_entries:
  assumes "shard_ok t m" "0 \<le> now" "t \<le> now"
  shows "shard_ok now (snd (pick_ready now ws strat pred m))"
    and "md_entries (snd (pick_ready now ws strat pred m)) = md_entries (promote_expired now m)"
    and "md_key (snd (pick_ready now ws strat pred m)) = md_key m"
proof -
  let ?m = "promote_expired now m"
  have ok: "shard_ok now ?m" using promote_expired_ok(1) [OF assms] .
  have ix: "indexed ?m" using ok by (simp add: shard_ok_def)
  have k: "md_key ?m = md_key m"
    using promote_expired_map(2) assms by (simp add: shard_ok_def)
  show "shard_ok now (snd (pick_ready now ws strat pred m))"
    "md_entries (snd (pick_ready now ws strat pred m)) = md_entries (promote_expired now m)"
    "md_key (snd (pick_ready now ws strat pred m)) = md_key m"
    using pick_at_priority_keeps [OF ix] ok k
    by (auto simp: pick_ready_def Let_def shard_ok_def split: option.split)
qed

text \<open>The pick of a shard, in terms of its entries and of the verdict at the pick.\<close>

definition available_entry :: "gotime \<Rightarrow> model_sched \<Rightarrow> (sched_entry \<Rightarrow> bool) \<Rightarrow> bool \<Rightarrow> sched_entry \<Rightarrow> bool" where
  "available_entry now m pred ws e \<longleftrightarrow>
     (\<exists>i. map_of (md_entries m) i = Some e) \<and> \<not> blocked (Some (sn_auth e)) (md_key m) now \<and> pred e \<and>
     (ws \<longrightarrow> am_ws (sn_meta e))"

lemma offered_available:
  assumes "shard_ok t m" "0 \<le> now" "t \<le> now"
  shows "offered (promote_expired now m) pred ws e \<longleftrightarrow> available_entry now (promote_expired now m) pred ws e"
  using promote_expired_ok(2) [OF assms] promote_expired_map(2) [of now m] assms
  by (auto simp: offered_def available_entry_def shard_ok_def)

lemma pick_ready_spec:
  assumes ok: "shard_ok t m" and now: "0 \<le> now" "t \<le> now" and pos: "positive_when_weighted strat pred"
  defines "m' \<equiv> promote_expired now m"
  shows "(\<exists>e. available_entry now m' pred False e) \<Longrightarrow>
      \<exists>e. fst (pick_ready now prefer_ws strat pred m) = Some (sn_auth e) \<and>
        available_entry now m' pred (prefer_ws \<and> (\<exists>e. available_entry now m' pred True e)) e \<and>
        (\<forall>e'. available_entry now m' pred (prefer_ws \<and> (\<exists>e. available_entry now m' pred True e)) e' \<longrightarrow>
           am_priority (sn_meta e') \<le> am_priority (sn_meta e))"
    and "(\<nexists>e. available_entry now m' pred False e) \<Longrightarrow> fst (pick_ready now prefer_ws strat pred m) = None"
proof -
  have ok': "shard_ok now m'" unfolding m'_def using promote_expired_ok(1) [OF ok now] .
  then have ix: "indexed m'" and eo: "entries_ok (md_entries m')" and kd: "keys_distinct (md_entries m')"
    by (auto simp: shard_ok_def entries_ok_def)
  have off: "offered m' pred ws e \<longleftrightarrow> available_entry now m' pred ws e" for ws e
    unfolding m'_def by (rule offered_available [OF ok now])
  have sw: "settles_ws m' pred prefer_ws \<longleftrightarrow> prefer_ws \<and> (\<exists>e. available_entry now m' pred True e)"
    by (simp add: settles_ws_iff [OF ix kd] off)
  show "\<exists>e. fst (pick_ready now prefer_ws strat pred m) = Some (sn_auth e) \<and>
        available_entry now m' pred (prefer_ws \<and> (\<exists>e. available_entry now m' pred True e)) e \<and>
        (\<forall>e'. available_entry now m' pred (prefer_ws \<and> (\<exists>e. available_entry now m' pred True e)) e' \<longrightarrow>
           am_priority (sn_meta e') \<le> am_priority (sn_meta e))"
    if ex: "\<exists>e. available_entry now m' pred False e"
  proof (cases "highest_ready_priority prefer_ws pred m'")
    case None
    then have "first_priority bk_all pred m' = None"
      by (simp add: highest_ready_priority_def split: option.splits)
    then show ?thesis using first_priority_None [OF ix kd, of False pred] ex off by auto
  next
    case (Some p)
    then have fp: "first_priority (view_of (settles_ws m' pred prefer_ws)) pred m' = Some p"
      by (simp add: highest_ready_priority_eq)
    note hp = first_priority_Some [OF ix kd fp]
    have "\<exists>e. fst (pick_ready_at_priority prefer_ws p strat pred m') = Some (sn_auth e) \<and>
        offered m' pred (settles_ws m' pred prefer_ws) e \<and> am_priority (sn_meta e) = p"
      proof (rule pick_at_priority_spec [OF ix eo pos hp(1)])
      assume "prefer_ws" "\<exists>e. offered m' pred True e \<and> am_priority (sn_meta e) = p"
      then show "settles_ws m' pred prefer_ws" unfolding sw off by blast
    qed
    moreover have "pick_ready now prefer_ws strat pred m = pick_ready_at_priority prefer_ws p strat pred m'"
      by (simp add: pick_ready_def Some m'_def [symmetric] Let_def)
    ultimately show ?thesis using hp(2) unfolding sw off by fastforce
  qed
  show "fst (pick_ready now prefer_ws strat pred m) = None" if no: "\<nexists>e. available_entry now m' pred False e"
  proof -
    have "highest_ready_priority prefer_ws pred m' = None"
    proof (rule ccontr)
      assume "highest_ready_priority prefer_ws pred m' \<noteq> None"
      then obtain p where "first_priority (view_of (settles_ws m' pred prefer_ws)) pred m' = Some p"
        by (auto simp: highest_ready_priority_eq)
      from first_priority_Some(1) [OF ix kd this] show False using no off by (auto simp: offered_def)
    qed
    then show ?thesis by (simp add: pick_ready_def m'_def [symmetric] Let_def)
  qed
qed

end
