(* ===== verification/SchedulerState.thy ===== *)
theory SchedulerState
  imports SchedulerPicks
begin

text \<open>
  The state of the scheduler under every sequence of its operations: each shard of a provider
  mirrors the provider's credentials that list the shard's model, each credential belongs to
  one provider, and this holds in every reachable state. On it rest the specifications of
  \<open>pickSingle\<close> and \<open>pickMixed\<close>.
\<close>

section \<open>Entries under the operations of a shard\<close>

definition meta_ok :: "string \<Rightarrow> auth_meta \<Rightarrow> bool" where
  "meta_ok i meta \<longleftrightarrow>
     i \<noteq> [] \<and> a_id (am_auth meta) = i \<and> am_priority meta = auth_priority (Some (am_auth meta)) \<and>
     am_weight meta = auth_weight (Some (am_auth meta)) \<and>
     am_ws meta = auth_websockets_enabled (Some (am_auth meta))"

definition shard_meta :: "model_sched \<Rightarrow> string \<Rightarrow> auth_meta option" where
  "shard_meta m i = map_option sn_meta (map_of (md_entries m) i)"

definition supported_meta :: "(string \<times> auth_meta) list \<Rightarrow> string \<Rightarrow> string \<Rightarrow> auth_meta option" where
  "supported_meta auths key i =
     (case map_of auths i of
        None \<Rightarrow> None
      | Some meta \<Rightarrow> if supports_model meta key then Some meta else None)"

definition mirrors :: "(string \<times> auth_meta) list \<Rightarrow> model_sched \<Rightarrow> bool" where
  "mirrors auths m \<longleftrightarrow> (\<forall>i. shard_meta m i = supported_meta auths (md_key m) i)"

definition provider_ok :: "gotime \<Rightarrow> provider_sched \<Rightarrow> bool" where
  "provider_ok t p \<longleftrightarrow>
     keys_distinct (ps_auths p) \<and>
     (\<forall>i meta. map_of (ps_auths p) i = Some meta \<longrightarrow> meta_ok i meta) \<and>
     (\<forall>k m. map_of (ps_shards p) k = Some m \<longrightarrow> shard_ok t m \<and> md_key m = k \<and> mirrors (ps_auths p) m)"

lemma shard_ok_mono: "shard_ok t m \<Longrightarrow> t \<le> t' \<Longrightarrow> shard_ok t' m"
  using entry_sync_mono unfolding shard_ok_def by blast

lemma provider_ok_mono: "provider_ok t p \<Longrightarrow> t \<le> t' \<Longrightarrow> provider_ok t' p"
  using shard_ok_mono unfolding provider_ok_def by blast

lemma shard_ok_new: "shard_ok t (new_shard key)"
  by (simp add: shard_ok_def new_shard_def entries_ok_def indexed_def ready_at_def waiting_def)

lemma upsert_entry_ok:
  assumes ok: "shard_ok t m" and now: "0 \<le> now" "t \<le> now" and meta: "meta_ok i meta"
  shows "shard_ok now (upsert_entry now meta m)"
    and "shard_meta (upsert_entry now meta m) j = (if j = i then Some meta else shard_meta m j)"
    and "md_key (upsert_entry now meta m) = md_key m"
proof -
  have i: "a_id (am_auth meta) = i" "i \<noteq> []" "am_priority meta = prio (am_auth meta)"
    using meta by (auto simp: meta_ok_def prio_def)
  have eo: "entries_ok (md_entries m)" and ix: "indexed m"
    and sy: "\<And>i e. map_of (md_entries m) i = Some e \<Longrightarrow> entry_sync (md_key m) t e"
    using ok by (auto simp: shard_ok_def)
  have kd: "keys_distinct (md_entries m)" using eo by (simp add: entries_ok_def)
  define cls where "cls = classify_upsert (is_auth_blocked_for_model (Some (am_auth meta)) (md_key m) now)"
  define e where "e = \<lparr>sn_meta = meta, sn_auth = am_auth meta, sn_state = fst cls, sn_next = snd cls\<rparr>"
  have es: "md_entries (upsert_entry now meta m) = AList.update i e (md_entries m)"
    using upsert_entry_entries(1) [of now meta m] by (simp add: i e_def cls_def)
  have "entry_sync (md_key m) now e"
    unfolding entry_sync_def e_def using now by (intro exI [of _ now]) (simp add: cls_def)
  moreover have "entries_ok (AList.update i e (md_entries m))"
    using eo i kd by (auto simp: entries_ok_map update_conv e_def prio_def split: if_splits)
  moreover have "entry_sync (md_key m) now e'" if "map_of (md_entries m) j = Some e'" for j e'
    using sy [OF that] now(2) by (rule entry_sync_mono)
  ultimately show "shard_ok now (upsert_entry now meta m)"
    using upsert_entry_indexed [OF kd ix, of now meta]
    unfolding shard_ok_def es by (auto simp: update_conv upsert_entry_entries(2) split: if_splits)
  show "shard_meta (upsert_entry now meta m) j = (if j = i then Some meta else shard_meta m j)"
    by (simp add: shard_meta_def es update_conv e_def)
  show "md_key (upsert_entry now meta m) = md_key m" by (rule upsert_entry_entries)
qed

lemma remove_entry_ok:
  assumes ok: "shard_ok t m" and i: "i \<noteq> []"
  shows "shard_ok t (remove_entry i m)"
    and "shard_meta (remove_entry i m) j = (if j = i then None else shard_meta m j)"
    and "md_key (remove_entry i m) = md_key m"
proof -
  have eo: "entries_ok (md_entries m)" and ix: "indexed m"
    and sy: "\<And>i e. map_of (md_entries m) i = Some e \<Longrightarrow> entry_sync (md_key m) t e"
    using ok by (auto simp: shard_ok_def)
  have kd: "keys_distinct (md_entries m)" using eo by (simp add: entries_ok_def)
  note re = remove_entry_entries(1) [OF i, of m]
  have "entries_ok (AList.delete i (md_entries m))"
    using eo kd by (auto simp: entries_ok_map delete_conv distinct_delete split: if_splits)
  then show "shard_ok t (remove_entry i m)"
    using remove_entry_indexed [OF kd ix, of i] sy
    by (auto simp: shard_ok_def re delete_conv remove_entry_entries(2) split: if_splits)
  show "shard_meta (remove_entry i m) j = (if j = i then None else shard_meta m j)"
    by (simp add: shard_meta_def re delete_conv)
  show "md_key (remove_entry i m) = md_key m" by (rule remove_entry_entries)
qed

lemma promote_meta:
  assumes "shard_ok t m" "0 \<le> now"
  shows "shard_meta (promote_expired now m) i = shard_meta m i"
proof -
  have "indexed m" using assms(1) by (simp add: shard_ok_def)
  then show ?thesis
    using promote_expired_map(1) [OF assms(2)]
    by (simp add: shard_meta_def option.map_comp comp_def)
qed

lemma pick_meta:
  assumes "shard_ok t m" "0 \<le> now" "t \<le> now"
  shows "shard_meta (snd (pick_ready now ws strat pred m)) i = shard_meta m i"
  using promote_meta [OF assms(1,2)] pick_ready_entries(2) [OF assms] by (simp add: shard_meta_def)

lemma mirrors_cong:
  "mirrors auths m \<Longrightarrow> (\<And>i. shard_meta m' i = shard_meta m i) \<Longrightarrow> md_key m' = md_key m \<Longrightarrow> mirrors auths m'"
  by (simp add: mirrors_def)

text \<open>A shard brought up to date: an entry is ready exactly when its credential is not blocked.\<close>

definition fresh_shard :: "gotime \<Rightarrow> model_sched \<Rightarrow> bool" where
  "fresh_shard now m \<longleftrightarrow>
     (\<forall>i e. map_of (md_entries m) i = Some e \<longrightarrow>
        (sn_state e = SReady \<longleftrightarrow> \<not> blocked (Some (sn_auth e)) (md_key m) now))"

lemma promote_fresh:
  assumes "shard_ok t m" "0 \<le> now" "t \<le> now"
  shows "fresh_shard now (promote_expired now m)"
  using promote_expired_ok(2) [OF assms] promote_expired_map(2) [OF assms(2)] assms(1)
  by (simp add: fresh_shard_def shard_ok_def)

lemma upsert_fresh:
  "fresh_shard now m \<Longrightarrow> fresh_shard now (upsert_entry now meta m)"
  using classify_ready_iff
  by (simp add: fresh_shard_def upsert_entry_entries update_conv)

lemma build_shard_fresh: "fresh_shard now (build_shard now key auths)"
proof -
  have "fresh_shard now m \<Longrightarrow>
    fresh_shard now (fold (\<lambda>(i, meta) m. if \<not> supports_model meta key then m else upsert_entry now meta m) auths m)"
    for m
    by (induction auths arbitrary: m) (auto simp: upsert_fresh)
  then show ?thesis by (simp add: build_shard_def fresh_shard_def new_shard_def)
qed

section \<open>A provider\<close>

lemma provider_upsert_ok:
  assumes ok: "provider_ok t p" and now: "0 \<le> now" "t \<le> now" and meta: "meta_ok i meta"
  shows "provider_ok now (provider_upsert_auth now meta p)"
    and "map_of (ps_auths (provider_upsert_auth now meta p)) j =
      (if j = i then Some meta else map_of (ps_auths p) j)"
proof -
  have i: "a_id (am_auth meta) = i" "i \<noteq> []" using meta by (auto simp: meta_ok_def)
  let ?p = "provider_upsert_auth now meta p"
  have au: "ps_auths ?p = AList.update i meta (ps_auths p)" by (simp add: provider_upsert_auth_def i)
  then show a: "map_of (ps_auths ?p) j = (if j = i then Some meta else map_of (ps_auths p) j)" for j
    by (simp add: update_conv)
  have "shard_ok now m' \<and> md_key m' = k \<and> mirrors (ps_auths ?p) m'" if ms: "map_of (ps_shards ?p) k = Some m'" for k m'
  proof -
    obtain m where m: "map_of (ps_shards p) k = Some m"
      "m' = (if \<not> supports_model meta k then remove_entry i m else upsert_entry now meta m)"
      using ms by (auto simp: provider_upsert_auth_def map_of_map_keyed i)
    have sm: "shard_ok t m" "md_key m = k" "mirrors (ps_auths p) m" using ok m(1) by (auto simp: provider_ok_def)
    show ?thesis
    proof (cases "supports_model meta k")
      case True
      note u = upsert_entry_ok [OF sm(1) now meta]
      have "mirrors (ps_auths ?p) (upsert_entry now meta m)"
        using sm(2,3) True by (auto simp: mirrors_def supported_meta_def [of _ _ i] u a) (simp add: supported_meta_def a)
      then show ?thesis using True u sm(2) m(2) by simp
    next
      case False
      note r = remove_entry_ok [OF sm(1) i(2)]
      have "mirrors (ps_auths ?p) (remove_entry i m)"
        using sm(2,3) False by (auto simp: mirrors_def supported_meta_def [of _ _ i] r a) (simp add: supported_meta_def a)
      then show ?thesis using False r sm(2) m(2) now(2) shard_ok_mono by simp
    qed
  qed
  moreover have "meta_ok j mt" if "map_of (ps_auths ?p) j = Some mt" for j mt
    using that ok meta by (auto simp: a provider_ok_def split: if_splits)
  moreover have "keys_distinct (ps_auths ?p)" using ok by (simp add: au provider_ok_def)
  ultimately show "provider_ok now ?p" by (simp add: provider_ok_def)
qed

lemma provider_remove_ok:
  assumes ok: "provider_ok t p" and i: "i \<noteq> []"
  shows "provider_ok t (provider_remove_auth i p)"
    and "map_of (ps_auths (provider_remove_auth i p)) j = (if j = i then None else map_of (ps_auths p) j)"
proof -
  let ?p = "provider_remove_auth i p"
  show a: "map_of (ps_auths ?p) j = (if j = i then None else map_of (ps_auths p) j)" for j
    using i by (simp add: provider_remove_auth_def delete_conv)
  have "shard_ok t m' \<and> md_key m' = k \<and> mirrors (ps_auths ?p) m'" if ms: "map_of (ps_shards ?p) k = Some m'" for k m'
  proof -
    obtain m where m: "map_of (ps_shards p) k = Some m" "m' = remove_entry i m"
      using ms i by (auto simp: provider_remove_auth_def map_of_map_keyed)
    have sm: "shard_ok t m" "md_key m = k" "mirrors (ps_auths p) m" using ok m(1) by (auto simp: provider_ok_def)
    note r = remove_entry_ok [OF sm(1) i]
    have "mirrors (ps_auths ?p) (remove_entry i m)"
      using sm(2,3) by (auto simp: mirrors_def supported_meta_def [of _ _ i] r a) (simp add: supported_meta_def a)
    then show ?thesis using r sm(2) m(2) by simp
  qed
  moreover have "meta_ok j mt" if "map_of (ps_auths ?p) j = Some mt" for j mt
    using that ok by (auto simp: a provider_ok_def split: if_splits)
  moreover have "keys_distinct (ps_auths ?p)" using ok i by (simp add: provider_remove_auth_def provider_ok_def)
  ultimately show "provider_ok t ?p" by (simp add: provider_ok_def)
qed

lemma build_shard_ok:
  assumes "0 \<le> now" "keys_distinct auths" "\<And>i meta. map_of auths i = Some meta \<Longrightarrow> meta_ok i meta"
  shows "shard_ok now (build_shard now key auths) \<and> md_key (build_shard now key auths) = key \<and>
    mirrors auths (build_shard now key auths)"
proof -
  let ?f = "\<lambda>(i, meta) m. if \<not> supports_model meta key then m else upsert_entry now meta m"
  have "shard_ok now (fold ?f auths m) \<and> md_key (fold ?f auths m) = key \<and>
      (\<forall>j. shard_meta (fold ?f auths m) j =
        (case map_of auths j of
           None \<Rightarrow> shard_meta m j
         | Some mt \<Rightarrow> if supports_model mt key then Some mt else shard_meta m j))"
    if "shard_ok now m" "md_key m = key" for m
    using assms(2,3) that
  proof (induction auths arbitrary: m)
    case Nil
    then show ?case by simp
  next
    case (Cons a auths)
    obtain i meta where a: "a = (i, meta)" by (cases a)
    have mo: "meta_ok i meta" using Cons.prems(2) [of i meta] by (simp add: a)
    have i: "map_of auths i = None" using Cons.prems(1) by (simp add: a map_of_eq_None_iff)
    have rest: "keys_distinct auths" using Cons.prems(1) by (simp add: a)
    have rest2: "meta_ok j mt" if "map_of auths j = Some mt" for j mt
      by (rule Cons.prems(2)) (use that i in \<open>simp add: a, metis option.distinct(1)\<close>)
    show ?case
    proof (cases "supports_model meta key")
      case True
      note u = upsert_entry_ok [OF Cons.prems(3) assms(1) order_refl mo]
      have "md_key (upsert_entry now meta m) = key" using u(3) Cons.prems(4) by simp
      from Cons.IH [OF rest rest2 u(1) this] show ?thesis
        using True i by (auto simp: a u(2) split: option.split)
    next
      case False
      from Cons.IH [OF rest rest2 Cons.prems(3,4)] show ?thesis
        using False i by (auto simp: a split: option.split)
    qed
  qed
  from this [OF shard_ok_new, of key] have f: "shard_ok now (build_shard now key auths)"
    "md_key (build_shard now key auths) = key"
    "shard_meta (build_shard now key auths) j =
      (case map_of auths j of
         None \<Rightarrow> shard_meta (new_shard key) j
       | Some mt \<Rightarrow> if supports_model mt key then Some mt else shard_meta (new_shard key) j)" for j
    by (auto simp: build_shard_def new_shard_def)
  have "shard_meta (new_shard key) j = None" for j by (simp add: shard_meta_def new_shard_def)
  then show ?thesis
    using f by (simp add: mirrors_def supported_meta_def cong: option.case_cong if_cong)
qed

lemma ensure_model_ok:
  assumes ok: "provider_ok t p" and now: "0 \<le> now" "t \<le> now"
    and e: "ensure_model now model p = (p', m)"
  shows "provider_ok now p'" "ps_auths p' = ps_auths p" "md_key m = canonical_model_key model"
    "map_of (ps_shards p') (canonical_model_key model) = Some m" "shard_ok now m" "mirrors (ps_auths p) m"
    "fresh_shard now m"
proof -
  let ?k = "canonical_model_key model"
  have p': "p' = p\<lparr>ps_shards := AList.update ?k m (ps_shards p)\<rparr>"
    and m: "m = (case map_of (ps_shards p) ?k of Some m \<Rightarrow> promote_expired now m
              | None \<Rightarrow> build_shard now ?k (ps_auths p))"
    using e by (auto simp: ensure_model_def Let_def)
  have a: "keys_distinct (ps_auths p)" "\<And>i meta. map_of (ps_auths p) i = Some meta \<Longrightarrow> meta_ok i meta"
    using ok by (auto simp: provider_ok_def)
  have m_ok: "shard_ok now m \<and> md_key m = ?k \<and> mirrors (ps_auths p) m"
  proof (cases "map_of (ps_shards p) ?k")
    case None
    then show ?thesis using build_shard_ok [OF now(1) a] m by simp
  next
    case (Some m0)
    have s0: "shard_ok t m0" "md_key m0 = ?k" "mirrors (ps_auths p) m0" using ok Some by (auto simp: provider_ok_def)
    have "md_key (promote_expired now m0) = ?k"
      using promote_expired_map(2) [OF now(1)] s0 by (simp add: shard_ok_def)
    moreover have "mirrors (ps_auths p) (promote_expired now m0)"
      by (rule mirrors_cong [OF s0(3)]) (use promote_meta [OF s0(1) now(1)] calculation s0(2) in auto)
    ultimately show ?thesis using m Some promote_expired_ok(1) [OF s0(1) now] by simp
  qed
  then show "md_key m = ?k" "shard_ok now m" "mirrors (ps_auths p) m" by blast+
  show "fresh_shard now m"
    using m ok build_shard_fresh promote_fresh [OF _ now]
    by (auto simp: provider_ok_def split: option.split)
  show "ps_auths p' = ps_auths p" "map_of (ps_shards p') ?k = Some m" by (simp_all add: p')
  show "provider_ok now p'"
    using provider_ok_mono [OF ok now(2)] m_ok
    by (auto simp: p' provider_ok_def update_conv split: if_splits)
qed

lemma put_pick_ok:
  assumes ok: "provider_ok t p" and now: "0 \<le> now" "t \<le> now" and m: "map_of (ps_shards p) k = Some m"
  shows "provider_ok now (p\<lparr>ps_shards := AList.update k (snd (pick_ready now ws strat pred m)) (ps_shards p)\<rparr>)"
proof -
  have s: "shard_ok t m" "md_key m = k" "mirrors (ps_auths p) m" using ok m by (auto simp: provider_ok_def)
  note pe = pick_ready_entries [OF s(1) now, of ws strat pred]
  have "mirrors (ps_auths p) (snd (pick_ready now ws strat pred m))"
    by (rule mirrors_cong [OF s(3)]) (use pick_meta [OF s(1) now] pe(3) in auto)
  then show ?thesis
    using provider_ok_mono [OF ok now(2)] pe(1,3) s(2)
    by (auto simp: provider_ok_def update_conv split: if_splits)
qed

section \<open>The scheduler\<close>

text \<open>
  Every credential is owned by the one provider its owner map names. Identifiers are as the
  manager stores them, without surrounding blanks.
\<close>

definition sched_ok :: "gotime \<Rightarrow> auth_sched \<Rightarrow> bool" where
  "sched_ok t s \<longleftrightarrow>
     (\<forall>k p. map_of (as_providers s) k = Some p \<longrightarrow> k \<noteq> [] \<and> provider_ok t p) \<and>
     (\<forall>i k. (\<exists>p meta. map_of (as_providers s) k = Some p \<and> map_of (ps_auths p) i = Some meta) \<longleftrightarrow>
        map_of (as_auth_providers s) i = Some k) \<and>
     (\<forall>i k p meta. map_of (as_providers s) k = Some p \<and> map_of (ps_auths p) i = Some meta \<longrightarrow>
        am_provider meta = k)"

text \<open>The credentials a provider of the scheduler holds.\<close>

definition held :: "auth_sched \<Rightarrow> string \<Rightarrow> string \<Rightarrow> auth_meta option" where
  "held s k i = Option.bind (map_of (as_providers s) k) (\<lambda>p. map_of (ps_auths p) i)"

lemma held_Some:
  "held s k i = Some meta \<longleftrightarrow> (\<exists>p. map_of (as_providers s) k = Some p \<and> map_of (ps_auths p) i = Some meta)"
  by (auto simp: held_def Option.bind_eq_Some_conv simp del: map_of_eq_Some_iff)

lemma sched_ok_alt:
  "sched_ok t s \<longleftrightarrow>
     (\<forall>k p. map_of (as_providers s) k = Some p \<longrightarrow> k \<noteq> [] \<and> provider_ok t p) \<and>
     (\<forall>i k. (\<exists>meta. held s k i = Some meta) \<longleftrightarrow> map_of (as_auth_providers s) i = Some k) \<and>
     (\<forall>i k meta. held s k i = Some meta \<longrightarrow> am_provider meta = k)"
  unfolding sched_ok_def held_Some by blast

lemma sched_ok_mono: "sched_ok t s \<Longrightarrow> t \<le> t' \<Longrightarrow> sched_ok t' s"
  using provider_ok_mono unfolding sched_ok_def by blast

lemma sched_ok_new: "sched_ok t (new_auth_scheduler strat)"
  by (simp add: sched_ok_def new_auth_scheduler_def)

lemma sched_ok_owner:
  assumes "sched_ok t s" "held s k i = Some meta" "held s k' i = Some meta'"
  shows "k = k'"
  using assms unfolding sched_ok_alt by (metis option.inject)

lemma read_provider_eq:
  assumes "sched_ok t s"
  shows "(read_provider s i = k \<and> k \<noteq> []) \<longleftrightarrow> map_of (as_auth_providers s) i = Some k"
proof -
  have "k \<noteq> []" if "map_of (as_auth_providers s) i = Some k" for k
    using assms that unfolding sched_ok_def by blast
  then show ?thesis by (auto simp: read_provider_def split: option.split simp del: map_of_eq_Some_iff)
qed

lemma update_provider_map:
  "map_of (as_providers (update_provider k f s)) k' =
     (if k' = k then map_option f (map_of (as_providers s) k) else map_of (as_providers s) k')"
  "as_auth_providers (update_provider k f s) = as_auth_providers s"
  by (auto simp: update_provider_def update_conv split: option.split)

text \<open>Replacing a provider by one with the same credentials keeps the invariant.\<close>

lemma sched_put_ok:
  assumes ok: "sched_ok t s" and tt: "t \<le> t'" and k: "map_of (as_providers s) k = Some p"
    and p': "provider_ok t' p'" "ps_auths p' = ps_auths p"
  shows "sched_ok t' (s\<lparr>as_providers := AList.update k p' (as_providers s)\<rparr>)"
    and "held (s\<lparr>as_providers := AList.update k p' (as_providers s)\<rparr>) = held s"
proof -
  let ?s = "s\<lparr>as_providers := AList.update k p' (as_providers s)\<rparr>"
  show h: "held ?s = held s"
    by (rule ext, rule ext) (use k p'(2) in \<open>auto simp: held_def update_conv\<close>)
  have "q \<noteq> [] \<and> provider_ok t' x" if "map_of (as_providers ?s) q = Some x" for q x
    using that ok k p'(1) provider_ok_mono [OF _ tt]
    by (cases "q = k") (auto simp: sched_ok_def update_conv simp del: map_of_eq_Some_iff)
  then show "sched_ok t' ?s"
    using ok h unfolding sched_ok_alt by simp
qed

lemma sched_remove_ok:
  assumes ok: "sched_ok t s" and i: "i \<noteq> []"
  shows "sched_ok t (sched_remove_auth_locked i s)"
    and "held (sched_remove_auth_locked i s) k j = (if j = i then None else held s k j)"
proof -
  have pk: "k \<noteq> [] \<and> provider_ok t p" if "map_of (as_providers s) k = Some p" for k p
    using ok that by (simp add: sched_ok_def)
  have own: "(\<exists>meta. held s k j = Some meta) \<longleftrightarrow> map_of (as_auth_providers s) j = Some k" for j k
    using ok by (simp add: sched_ok_alt)
  have "sched_ok t (sched_remove_auth_locked i s) \<and>
    (\<forall>k j. held (sched_remove_auth_locked i s) k j = (if j = i then None else held s k j))"
  proof (cases "map_of (as_auth_providers s) i")
    case None
    then have "read_provider s i = []" by (simp add: read_provider_def)
    then have same: "sched_remove_auth_locked i s = s" by (simp add: sched_remove_auth_locked_def)
    have "held s k i = None" for k using own [of k i] None by (cases "held s k i") auto
    then show ?thesis using ok same by auto
  next
    case (Some o1)
    then have ro: "read_provider s i = o1" "o1 \<noteq> []" using read_provider_eq [OF ok, of i o1] by auto
    let ?s = "sched_remove_auth_locked i s"
    have s': "?s = (update_provider o1 (provider_remove_auth i) s)
        \<lparr>as_auth_providers := AList.delete i (as_auth_providers s)\<rparr>"
      using i ro by (simp add: sched_remove_auth_locked_def Let_def)
    have h: "held ?s k j = (if j = i then None else held s k j)" for k j
    proof (cases "k = o1")
      case True
      then show ?thesis
        by (cases "map_of (as_providers s) o1")
          (use i in \<open>auto simp: held_def s' update_provider_map provider_remove_auth_def delete_conv\<close>)
    next
      case False
      then have "held s k i = None" using own [of k i] Some by (cases "held s k i") auto
      then show ?thesis using False by (auto simp: held_def s' update_provider_map)
    qed
    have "q \<noteq> [] \<and> provider_ok t x" if "map_of (as_providers ?s) q = Some x" for q x
      using that pk provider_remove_ok(1) [OF _ i]
      by (cases "q = o1") (auto simp: s' update_provider_map simp del: map_of_eq_Some_iff)
    moreover have "(\<exists>meta. held ?s q j = Some meta) \<longleftrightarrow> map_of (as_auth_providers ?s) j = Some q" for q j
    proof -
      have "map_of (as_auth_providers ?s) j = (if j = i then None else map_of (as_auth_providers s) j)"
        by (simp add: s' delete_conv)
      then show ?thesis using own [of q j] h [of q j] by (cases "j = i") simp_all
    qed
    moreover have "am_provider mt = q" if "held ?s q j = Some mt" for q j mt
      using that h [of q j] ok unfolding sched_ok_alt by (auto split: if_splits)
    ultimately show ?thesis using h unfolding sched_ok_alt by blast
  qed
  then show "sched_ok t (sched_remove_auth_locked i s)"
    "held (sched_remove_auth_locked i s) k j = (if j = i then None else held s k j)" by blast+
qed

definition clean_id :: "auth \<Rightarrow> bool" where
  "clean_id a \<longleftrightarrow> trim_space (a_id a) = a_id a"

lemma build_meta_ok:
  "a_id a \<noteq> [] \<Longrightarrow> meta_ok (a_id a) (build_scheduled_auth_meta models_for a)"
  by (simp add: meta_ok_def build_scheduled_auth_meta_def)

lemma build_meta_auth [simp]: "am_auth (build_scheduled_auth_meta models_for a) = a"
  by (simp add: build_scheduled_auth_meta_def)

text \<open>Whether the scheduler takes a credential, and under which provider.\<close>

definition schedulable :: "auth \<Rightarrow> bool" where
  "schedulable a \<longleftrightarrow> a_id a \<noteq> [] \<and> executor_key_from_auth (Some a) \<noteq> [] \<and> \<not> a_disabled a"

lemma sched_upsert_skip:
  assumes "clean_id a" "\<not> schedulable a"
  shows "sched_upsert_auth models_for now (Some a) s = sched_remove_auth_locked (a_id a) s"
  using assms by (auto simp: sched_upsert_auth_def clean_id_def schedulable_def Let_def)

lemma sched_remove_nothing [simp]: "sched_remove_auth_locked [] s = s"
  by (simp add: sched_remove_auth_locked_def)

lemma new_provider_ok: "provider_ok t (new_provider k)"
  by (simp add: provider_ok_def new_provider_def)

text \<open>
  Taking a credential: it leaves a previous other provider, the owner map names the new one,
  whose entry is written last.
\<close>

lemma sched_upsert_take:
  fixes models_for :: "string \<Rightarrow> string list" and now t :: gotime and a :: auth and s :: auth_sched
  defines "key \<equiv> executor_key_from_auth (Some a)"
    and "meta \<equiv> build_scheduled_auth_meta models_for a"
    and "s' \<equiv> sched_upsert_auth models_for now (Some a) s"
  assumes ok: "sched_ok t s" and now: "0 \<le> now" "t \<le> now" and cl: "clean_id a" and sc: "schedulable a"
  shows "sched_ok now s'"
    and "held s' k j = (if j = a_id a then (if k = key then Some meta else None) else held s k j)"
proof -
  let ?i = "a_id a"
  have i: "?i \<noteq> []" "key \<noteq> []" "\<not> a_disabled a" "trim_space ?i = ?i"
    using sc cl by (auto simp: schedulable_def clean_id_def key_def)
  have mo: "meta_ok ?i meta" unfolding meta_def using build_meta_ok [OF i(1)] .
  have pk: "k \<noteq> [] \<and> provider_ok t p" if "map_of (as_providers s) k = Some p" for k p
    using ok that by (simp add: sched_ok_def)
  have own: "(\<exists>meta. held s k j = Some meta) \<longleftrightarrow> map_of (as_auth_providers s) j = Some k" for j k
    using ok by (simp add: sched_ok_alt)
  define previous where "previous = read_provider s ?i"
  define s1 where "s1 = (if previous \<noteq> [] \<and> previous \<noteq> key
     then update_provider previous (provider_remove_auth ?i) s else s)"
  define p where "p = (case map_of (as_providers s1) key of None \<Rightarrow> new_provider key | Some p \<Rightarrow> p)"
  have s': "s' = s1\<lparr>as_auth_providers := AList.update ?i key (as_auth_providers s1),
      as_providers := AList.update key (provider_upsert_auth now meta p) (as_providers s1)\<rparr>"
    using i unfolding s'_def sched_upsert_auth_def meta_def p_def s1_def previous_def key_def
    by (simp add: Let_def)
  have as1: "as_auth_providers s1 = as_auth_providers s" by (simp add: s1_def update_provider_map)
  have p1: "q \<noteq> [] \<and> provider_ok t x" if "map_of (as_providers s1) q = Some x" for q x
    using that pk provider_remove_ok(1) [OF _ i(1)]
    by (cases "q = previous") (auto simp: s1_def update_provider_map split: if_splits simp del: map_of_eq_Some_iff)
  have h1: "held s1 k j = (if j = ?i \<and> k \<noteq> key then None else held s k j)" for k j
  proof -
    have none: "held s k ?i = None" if "k \<noteq> previous"
    proof (rule ccontr)
      assume "held s k ?i \<noteq> None"
      then have "map_of (as_auth_providers s) ?i = Some k" using own [of k ?i] by auto
      then show False using read_provider_eq [OF ok, of ?i k] that by (simp add: previous_def)
    qed
    have none': "held s k ?i = None" if "previous = []"
    proof (rule ccontr)
      assume "held s k ?i \<noteq> None"
      then have "map_of (as_auth_providers s) ?i = Some k" using own [of k ?i] by auto
      then show False using read_provider_eq [OF ok, of ?i k] that by (auto simp: previous_def)
    qed
    show ?thesis
    proof (cases "previous \<noteq> [] \<and> previous \<noteq> key \<and> k = previous")
      case True
      then have "held s1 k j = (if j = ?i then None else held s k j)"
        by (cases "map_of (as_providers s) previous")
          (use i in \<open>auto simp: held_def s1_def update_provider_map provider_remove_auth_def delete_conv\<close>)
      then show ?thesis using True by auto
    next
      case False
      then have "held s1 k j = held s k j" by (auto simp: held_def s1_def update_provider_map)
      then show ?thesis using False none none' by auto
    qed
  qed
  have pok: "provider_ok t p"
    using p1 new_provider_ok by (auto simp: p_def split: option.split)
  have pa: "map_of (ps_auths p) j = held s1 key j" for j
    by (auto simp: p_def held_def new_provider_def split: option.split)
  note u = provider_upsert_ok [OF pok now mo]
  have h: "held s' k j = (if j = ?i then (if k = key then Some meta else None) else held s k j)" for k j
  proof (cases "k = key")
    case True
    then have "held s' k j = map_of (ps_auths (provider_upsert_auth now meta p)) j"
      by (simp add: held_def s' update_conv)
    then show ?thesis using True by (simp add: u(2) pa h1)
  next
    case False
    then have "held s' k j = held s1 k j" by (simp add: held_def s' update_conv)
    then show ?thesis using False h1 by simp
  qed
  then show "held s' k j = (if j = ?i then (if k = key then Some meta else None) else held s k j)" .
  have "q \<noteq> [] \<and> provider_ok now x" if "map_of (as_providers s') q = Some x" for q x
    using that p1 u(1) i(2) provider_ok_mono [OF _ now(2)]
    by (cases "q = key") (auto simp: s' update_conv simp del: map_of_eq_Some_iff)
  moreover have "(\<exists>meta. held s' q j = Some meta) \<longleftrightarrow> map_of (as_auth_providers s') j = Some q" for q j
  proof -
    have "map_of (as_auth_providers s') j = (if j = ?i then Some key else map_of (as_auth_providers s) j)"
      by (simp add: s' as1 update_conv)
    then show ?thesis using own [of q j] h [of q j] by (cases "j = ?i") auto
  qed
  moreover have "am_provider mt = q" if "held s' q j = Some mt" for q j mt
    using that h [of q j] ok unfolding sched_ok_alt
    by (auto simp: meta_def key_def build_scheduled_auth_meta_def split: if_splits)
  ultimately show "sched_ok now s'" unfolding sched_ok_alt by blast
qed

lemma sched_upsert_ok:
  assumes "sched_ok t s" "0 \<le> now" "t \<le> now" "clean_id a"
  shows "sched_ok now (sched_upsert_auth models_for now (Some a) s)"
proof (cases "schedulable a")
  case True
  then show ?thesis using sched_upsert_take(1) assms by blast
next
  case False
  have "sched_ok t (sched_remove_auth_locked (a_id a) s)"
    using sched_remove_ok(1) [OF assms(1), of "a_id a"] assms(1) by (cases "a_id a = []") auto
  then show ?thesis
    unfolding sched_upsert_skip [OF assms(4) False] by (rule sched_ok_mono [OF _ assms(3)])
qed

section \<open>Picks of the scheduler\<close>

text \<open>
  The credentials a request can be served with by one provider: held by it, listing the model,
  accepted by the request and not blocked at the time of the pick.
\<close>

definition fresh_entry :: "auth_meta \<Rightarrow> sched_entry" where
  "fresh_entry meta = \<lparr>sn_meta = meta, sn_auth = am_auth meta, sn_state = SReady, sn_next = 0\<rparr>"

definition servable ::
  "gotime \<Rightarrow> string \<Rightarrow> (sched_entry \<Rightarrow> bool) \<Rightarrow> auth_sched \<Rightarrow> string \<Rightarrow> bool \<Rightarrow> auth \<Rightarrow> bool" where
  "servable now key pred s k ws a \<longleftrightarrow>
     (\<exists>i meta. held s k i = Some meta \<and> am_auth meta = a \<and> supports_model meta key \<and>
        pred (fresh_entry meta) \<and> \<not> blocked (Some a) key now \<and>
        (ws \<longrightarrow> auth_websockets_enabled (Some a)))"

definition request_pred :: "pick_request \<Rightarrow> string \<Rightarrow> strategy \<Rightarrow> sched_entry \<Rightarrow> bool" where
  "request_pred req pinned strat e \<longleftrightarrow>
     eligibility_allows (pr_eligibility req) (Some (sn_auth e)) \<and>
     a_id (sn_auth e) \<notin> set (pr_tried req) \<and>
     (pinned \<noteq> [] \<longrightarrow> a_id (sn_auth e) = pinned) \<and>
     (strat = StratWeighted \<longrightarrow> 0 < am_weight (sn_meta e))"

lemma request_pred_code:
  "request_pred req pinned strat =
     scheduled_auth_predicate (pr_eligibility req) (pr_tried req) pinned (strat = StratWeighted)"
  by (rule ext) (auto simp: request_pred_def scheduled_auth_predicate_def)

lemma request_pred_fresh:
  "am_auth (sn_meta e) = sn_auth e \<Longrightarrow> request_pred req pinned strat e = request_pred req pinned strat (fresh_entry (sn_meta e))"
  by (simp add: request_pred_def fresh_entry_def)

lemma request_pred_positive: "positive_when_weighted strat (request_pred req pinned strat)"
  by (simp add: positive_when_weighted_def request_pred_def)

lemma available_servable:
  assumes ok: "shard_ok now m" and mi: "mirrors (ps_auths p) m" and pr: "map_of (as_providers s) k = Some p"
    and metas: "\<And>i meta. map_of (ps_auths p) i = Some meta \<Longrightarrow> meta_ok i meta"
    and fresh: "\<And>e. am_auth (sn_meta e) = sn_auth e \<Longrightarrow> pred e = pred (fresh_entry (sn_meta e))"
  shows "(\<exists>e. available_entry now m pred ws e \<and> sn_auth e = a \<and> am_priority (sn_meta e) = n) \<longleftrightarrow>
    servable now (md_key m) pred s k ws a \<and> prio a = n"
proof -
  have eo: "entries_ok (md_entries m)" using ok by (simp add: shard_ok_def)
  have sm: "shard_meta m i = supported_meta (ps_auths p) (md_key m) i" for i using mi by (simp add: mirrors_def)
  have hp: "held s k i = map_of (ps_auths p) i" for i by (simp add: held_def pr)
  show ?thesis
  proof
    assume "\<exists>e. available_entry now m pred ws e \<and> sn_auth e = a \<and> am_priority (sn_meta e) = n"
    then obtain e i where e: "map_of (md_entries m) i = Some e" "\<not> blocked (Some (sn_auth e)) (md_key m) now"
      "pred e" "ws \<longrightarrow> am_ws (sn_meta e)" "sn_auth e = a" "am_priority (sn_meta e) = n"
      by (auto simp: available_entry_def simp del: map_of_eq_Some_iff)
    note d = entries_okD [OF eo e(1)]
    have "supported_meta (ps_auths p) (md_key m) i = Some (sn_meta e)"
      using sm [of i] e(1) by (simp add: shard_meta_def)
    then have h: "map_of (ps_auths p) i = Some (sn_meta e)" "supports_model (sn_meta e) (md_key m)"
      by (auto simp: supported_meta_def split: option.splits if_splits simp del: map_of_eq_Some_iff)
    have "meta_ok i (sn_meta e)" using metas [OF h(1)] .
    then show "servable now (md_key m) pred s k ws a \<and> prio a = n"
      using h e d fresh [OF d(3)] unfolding servable_def hp by (auto simp: meta_ok_def)
  next
    assume h: "servable now (md_key m) pred s k ws a \<and> prio a = n"
    then obtain i meta where m: "map_of (ps_auths p) i = Some meta" "am_auth meta = a"
      "supports_model meta (md_key m)" "pred (fresh_entry meta)" "\<not> blocked (Some a) (md_key m) now"
      "ws \<longrightarrow> auth_websockets_enabled (Some a)"
      unfolding servable_def hp by blast
    have "shard_meta m i = Some meta" using sm [of i] m(1,3) by (simp add: supported_meta_def)
    then obtain e where e: "map_of (md_entries m) i = Some e" "sn_meta e = meta"
      by (auto simp: shard_meta_def simp del: map_of_eq_Some_iff)
    note d = entries_okD [OF eo e(1)]
    have "pred e" using fresh [OF d(3)] m(4) e(2) by simp
    moreover have "meta_ok i meta" using metas [OF m(1)] .
    ultimately show "\<exists>e. available_entry now m pred ws e \<and> sn_auth e = a \<and> am_priority (sn_meta e) = n"
      using e m d h by (intro exI [of _ e]) (auto simp: available_entry_def meta_ok_def prio_def)
  qed
qed

text \<open>The preferred transport is used when some servable credential has it.\<close>

definition transport :: "gotime \<Rightarrow> string \<Rightarrow> (sched_entry \<Rightarrow> bool) \<Rightarrow> auth_sched \<Rightarrow> string \<Rightarrow> bool \<Rightarrow> bool" where
  "transport now key pred s k prefer_ws \<longleftrightarrow> prefer_ws \<and> (\<exists>a. servable now key pred s k True a)"

lemma pick_ready_servable:
  fixes req :: pick_request and pinned :: string and strat :: strategy
  assumes ok: "shard_ok t m" and now: "0 \<le> now" "t \<le> now" and mi: "mirrors (ps_auths p) m"
    and pr: "map_of (as_providers s) k = Some p"
    and metas: "\<And>i meta. map_of (ps_auths p) i = Some meta \<Longrightarrow> meta_ok i meta"
  defines "pred \<equiv> request_pred req pinned strat"
  shows "fst (pick_ready now prefer_ws strat pred m) = Some a \<Longrightarrow>
      servable now (md_key m) pred s k (transport now (md_key m) pred s k prefer_ws) a \<and>
      (\<forall>b. servable now (md_key m) pred s k (transport now (md_key m) pred s k prefer_ws) b \<longrightarrow> prio b \<le> prio a)"
    and "fst (pick_ready now prefer_ws strat pred m) = None \<longleftrightarrow>
      (\<nexists>a. servable now (md_key m) pred s k False a)"
proof -
  let ?m = "promote_expired now m" and ?k = "md_key m"
  have ok': "shard_ok now ?m" using promote_expired_ok(1) [OF ok now] .
  have key: "md_key ?m = ?k" using promote_expired_map(2) [OF now(1)] ok by (simp add: shard_ok_def)
  have mi': "mirrors (ps_auths p) ?m" by (rule mirrors_cong [OF mi promote_meta [OF ok now(1)] key])
  have av: "(\<exists>e. available_entry now ?m pred ws e \<and> sn_auth e = a \<and> am_priority (sn_meta e) = n) \<longleftrightarrow>
      servable now ?k pred s k ws a \<and> prio a = n" for ws a n
    using available_servable [OF ok' mi' pr metas, of pred ws a n] request_pred_fresh
    unfolding key pred_def by blast
  have ex: "(\<exists>e. available_entry now ?m pred ws e) \<longleftrightarrow> (\<exists>a. servable now ?k pred s k ws a)" for ws
    using av by blast
  have pos: "positive_when_weighted strat pred" unfolding pred_def by (rule request_pred_positive)
  note spec = pick_ready_spec [OF ok now pos, of prefer_ws]
  show none: "fst (pick_ready now prefer_ws strat pred m) = None \<longleftrightarrow> (\<nexists>a. servable now ?k pred s k False a)"
    using spec unfolding ex by fastforce
  show "servable now ?k pred s k (transport now ?k pred s k prefer_ws) a \<and>
      (\<forall>b. servable now ?k pred s k (transport now ?k pred s k prefer_ws) b \<longrightarrow> prio b \<le> prio a)"
    if pk: "fst (pick_ready now prefer_ws strat pred m) = Some a"
  proof -
    have "\<exists>a. servable now ?k pred s k False a" using pk none by auto
    then obtain e where e: "fst (pick_ready now prefer_ws strat pred m) = Some (sn_auth e)"
      "available_entry now ?m pred (transport now ?k pred s k prefer_ws) e"
      "\<forall>e'. available_entry now ?m pred (transport now ?k pred s k prefer_ws) e' \<longrightarrow>
         am_priority (sn_meta e') \<le> am_priority (sn_meta e)"
      using spec(1) unfolding ex transport_def by blast
    have a: "sn_auth e = a" using e(1) pk by simp
    let ?ws = "transport now ?k pred s k prefer_ws"
    define n where "n = am_priority (sn_meta e)"
    have "\<exists>e'. available_entry now ?m pred ?ws e' \<and> sn_auth e' = a \<and> am_priority (sn_meta e') = n"
      using e(2) a by (intro exI [of _ e]) (simp add: n_def)
    then have "servable now ?k pred s k ?ws a \<and> prio a = n" by (rule iffD1 [OF av])
    moreover have "prio b \<le> n" if b: "servable now ?k pred s k ?ws b" for b
    proof -
      have "\<exists>e'. available_entry now ?m pred ?ws e' \<and> sn_auth e' = b \<and> am_priority (sn_meta e') = prio b"
        by (rule iffD2 [OF av]) (use b in simp)
      then show ?thesis using e(3) by (auto simp: n_def)
    qed
    ultimately show ?thesis by simp
  qed
qed

end
