(* ===== verification/SchedulerSpec.thy ===== *)
theory SchedulerSpec
  imports SchedulerState
begin

text \<open>
  The specification of the scheduler's picks: \<open>pickSingle\<close> and \<open>pickMixed\<close> return a servable
  credential of the highest priority over the requested providers, fail only when no provider
  has one, and keep the invariant; every reachable state of the scheduler satisfies it.
\<close>

section \<open>One provider\<close>

abbreviation shard_key :: "string \<Rightarrow> string" where
  "shard_key model \<equiv> canonical_model_key (canonical_model_key model)"

definition single_prefers_ws :: "pick_request \<Rightarrow> string \<Rightarrow> bool" where
  "single_prefers_ws req provider \<longleftrightarrow>
     pr_ws req \<and> provider_prefers_websocket_transport (to_lower (trim_space provider)) \<and>
     pinned_auth_id_from_metadata (pr_metadata req) = []"

lemma servable_held: "held s = held s' \<Longrightarrow> servable now key pred s k ws a = servable now key pred s' k ws a"
  by (simp add: servable_def)

lemma transport_held: "held s = held s' \<Longrightarrow> transport now key pred s k ws = transport now key pred s' k ws"
  by (simp add: transport_def servable_def)

lemma put_shard_eq:
  "map_of (as_providers s) k = Some p \<Longrightarrow>
   put_shard k key m s = s\<lparr>as_providers := AList.update k (p\<lparr>ps_shards := AList.update key m (ps_shards p)\<rparr>) (as_providers s)\<rparr>"
  by (simp add: put_shard_def update_provider_def)

text \<open>Ensuring a shard and writing a pick back.\<close>

lemma ensure_put_ok:
  assumes ok: "sched_ok t s" and now: "0 \<le> now" "t \<le> now" and k: "map_of (as_providers s) k = Some p"
    and e: "ensure_model now model p = (p1, m)"
  defines "s1 \<equiv> s\<lparr>as_providers := AList.update k p1 (as_providers s)\<rparr>"
  shows "sched_ok now s1" "held s1 = held s" "map_of (as_providers s1) k = Some p1" "provider_ok now p1"
    "map_of (ps_shards p1) (canonical_model_key model) = Some m" "shard_ok now m" "mirrors (ps_auths p1) m"
    "md_key m = canonical_model_key model"
proof -
  have po: "provider_ok t p" using ok k unfolding sched_ok_def by blast
  note en = ensure_model_ok [OF po now e]
  show "provider_ok now p1" "map_of (ps_shards p1) (canonical_model_key model) = Some m" "shard_ok now m"
    "mirrors (ps_auths p1) m" "md_key m = canonical_model_key model"
    using en by simp_all
  show "sched_ok now s1" "held s1 = held s"
    using sched_put_ok [OF ok now(2) k en(1,2)] by (simp_all add: s1_def)
  show "map_of (as_providers s1) k = Some p1" by (simp add: s1_def update_conv)
qed

lemma put_pick_sched_ok:
  assumes ok: "sched_ok t s" and now: "0 \<le> now" "t \<le> now" and k: "map_of (as_providers s) k = Some p"
    and m: "map_of (ps_shards p) key = Some m"
  shows "sched_ok now (put_shard k key (snd (pick_ready now ws strat pred m)) s)"
    and "held (put_shard k key (snd (pick_ready now ws strat pred m)) s) = held s"
proof -
  have po: "provider_ok t p" using ok k unfolding sched_ok_def by blast
  note pp = put_pick_ok [OF po now m, of ws strat pred]
  show "sched_ok now (put_shard k key (snd (pick_ready now ws strat pred m)) s)"
    "held (put_shard k key (snd (pick_ready now ws strat pred m)) s) = held s"
    using sched_put_ok [OF ok now(2) k pp] by (simp_all add: put_shard_eq [OF k])
qed

lemma metas_ok: "provider_ok t p \<Longrightarrow> map_of (ps_auths p) i = Some meta \<Longrightarrow> meta_ok i meta"
  by (simp add: provider_ok_def)

lemma pick_single_main:
  fixes provider model :: string and req :: pick_request and strat0 :: strategy
  assumes ok: "sched_ok t s" and now: "0 \<le> te" "t \<le> te" "te \<le> tp"
  defines "k \<equiv> to_lower (trim_space provider)"
    and "pred \<equiv> request_pred req (pinned_auth_id_from_metadata (pr_metadata req)) (effective_strategy strat0 s)"
  defines "ws \<equiv> transport tp (shard_key model) pred s k (single_prefers_ws req provider)"
  shows "sched_ok tp (snd (pick_single te tp terr strat0 req provider model s))"
    and "held (snd (pick_single te tp terr strat0 req provider model s)) = held s"
    and "fst (pick_single te tp terr strat0 req provider model s) = Inr a \<Longrightarrow>
      servable tp (shard_key model) pred s k ws a \<and>
      (\<forall>b. servable tp (shard_key model) pred s k ws b \<longrightarrow> prio b \<le> prio a)"
    and "(\<exists>err. fst (pick_single te tp terr strat0 req provider model s) = Inl err) \<longleftrightarrow>
      (\<nexists>a. servable tp (shard_key model) pred s k False a)"
proof -
  let ?r = "pick_single te tp terr strat0 req provider model s"
  have goal: "sched_ok tp (snd ?r) \<and> held (snd ?r) = held s \<and>
    (\<forall>a. fst ?r = Inr a \<longrightarrow> servable tp (shard_key model) pred s k ws a \<and>
      (\<forall>b. servable tp (shard_key model) pred s k ws b \<longrightarrow> prio b \<le> prio a)) \<and>
    ((\<exists>err. fst ?r = Inl err) \<longleftrightarrow> (\<nexists>a. servable tp (shard_key model) pred s k False a))"
  proof (cases "map_of (as_providers s) k")
    case None
    then have "?r = (Inl (CodedError ''auth_not_found'' ''no auth available''), s)"
      by (simp add: pick_single_def k_def Let_def)
    moreover have "\<not> servable now key pred s k ws' a" for now key ws' a
      using None by (simp add: servable_def held_def)
    moreover have "sched_ok tp s" using sched_ok_mono [OF ok] now by simp
    ultimately show ?thesis by auto
  next
    case (Some p)
    obtain p1 m where em: "ensure_model te (canonical_model_key model) p = (p1, m)"
      by (cases "ensure_model te (canonical_model_key model) p")
    define s1 where "s1 = s\<lparr>as_providers := AList.update k p1 (as_providers s)\<rparr>"
    note en = ensure_put_ok [OF ok now(1,2) Some em, folded s1_def]
    have tp: "0 \<le> tp" using now by simp
    let ?pick = "pick_ready tp (single_prefers_ws req provider) (effective_strategy strat0 s) pred m"
    have r: "?r = (case ?pick of
        (Some a, m') \<Rightarrow> (Inr a, put_shard k (shard_key model) m' s1)
      | (None, m') \<Rightarrow> (Inl (unavailable_error terr provider model pred m'), put_shard k (shard_key model) m' s1))"
    proof -
      have kE: "to_lower (trim_space provider) = k" by (simp add: k_def)
      have pE: "scheduled_auth_predicate (pr_eligibility req) (pr_tried req)
          (pinned_auth_id_from_metadata (pr_metadata req)) (effective_strategy strat0 s = StratWeighted) = pred"
        by (simp add: pred_def request_pred_code)
      show ?thesis
        unfolding pick_single_def Let_def kE pE single_prefers_ws_def s1_def
        by (simp only: Some em option.case prod.case)
    qed
    have snd_r: "snd ?r = put_shard k (shard_key model) (snd ?pick) s1"
      unfolding r by (simp split: prod.split option.split)
    have fst_r: "fst ?r = (case fst ?pick of Some a \<Rightarrow> Inr a
        | None \<Rightarrow> Inl (unavailable_error terr provider model pred (snd ?pick)))"
      unfolding r by (simp split: prod.split option.split)
    note put = put_pick_sched_ok [OF en(1) tp now(3) en(3,5), of "single_prefers_ws req provider" "effective_strategy strat0 s" pred]
    note sv = pick_ready_servable [OF en(6) tp now(3) en(7,3) metas_ok [OF en(4)],
        where req = req and pinned = "pinned_auth_id_from_metadata (pr_metadata req)" and
          strat = "effective_strategy strat0 s" and prefer_ws = "single_prefers_ws req provider",
        folded pred_def, unfolded en(8)]
    have heq: "held s1 = held s" by (rule en(2))
    show ?thesis
      using put sv heq servable_held [OF heq] transport_held [OF heq]
      by (auto simp: snd_r fst_r ws_def split: option.splits)
  qed
  then show "sched_ok tp (snd ?r)" "held (snd ?r) = held s"
    "fst ?r = Inr a \<Longrightarrow> servable tp (shard_key model) pred s k ws a \<and>
      (\<forall>b. servable tp (shard_key model) pred s k ws b \<longrightarrow> prio b \<le> prio a)"
    "(\<exists>err. fst ?r = Inl err) \<longleftrightarrow> (\<nexists>a. servable tp (shard_key model) pred s k False a)"
    by blast+
qed

section \<open>Several providers\<close>

text \<open>A shard of a scheduler's provider, up to date.\<close>

definition current_shard :: "gotime \<Rightarrow> string \<Rightarrow> auth_sched \<Rightarrow> string \<Rightarrow> model_sched \<Rightarrow> bool" where
  "current_shard now key s k m \<longleftrightarrow>
     (\<exists>p. map_of (as_providers s) k = Some p \<and> map_of (ps_shards p) key = Some m) \<and> fresh_shard now m"

lemma current_shardD:
  assumes "sched_ok now s" "current_shard now key s k m"
  obtains p where "map_of (as_providers s) k = Some p" "map_of (ps_shards p) key = Some m"
    "provider_ok now p" "shard_ok now m" "md_key m = key" "mirrors (ps_auths p) m" "fresh_shard now m"
proof -
  obtain p where p: "map_of (as_providers s) k = Some p" "map_of (ps_shards p) key = Some m" "fresh_shard now m"
    using assms(2) unfolding current_shard_def by blast
  moreover have "provider_ok now p" using assms(1) p(1) unfolding sched_ok_def by blast
  ultimately show thesis using that unfolding provider_ok_def by blast
qed

lemma candidate_shards_ok:
  assumes "sched_ok t s" "0 \<le> now" "t \<le> now" "distinct ks" "candidate_shards now model ks s = (ms, s')"
  shows "sched_ok now s' \<and> held s' = held s \<and>
    (\<forall>k. k \<notin> set ks \<longrightarrow> map_of (as_providers s') k = map_of (as_providers s) k) \<and>
    (\<forall>(k, m) \<in> set ms. k \<in> set ks \<and> current_shard now (canonical_model_key model) s' k m) \<and>
    (\<forall>k \<in> set ks. map_of (as_providers s) k \<noteq> None \<longrightarrow> (\<exists>m. (k, m) \<in> set ms)) \<and> distinct (map fst ms)"
  using assms
proof (induction ks arbitrary: s ms s' t)
  case Nil
  then show ?case using sched_ok_mono [OF Nil.prems(1,3)] by simp
next
  case (Cons k ks)
  let ?key = "canonical_model_key model"
  show ?case
  proof (cases "map_of (as_providers s) k")
    case None
    then have e: "candidate_shards now model ks s = (ms, s')" using Cons.prems(5) by simp
    have d: "distinct ks" using Cons.prems(4) by simp
    from Cons.IH [OF Cons.prems(1-3) d e] show ?thesis using None by auto
  next
    case (Some p)
    obtain p1 m where em: "ensure_model now model p = (p1, m)" by (cases "ensure_model now model p")
    define s1 where "s1 = s\<lparr>as_providers := AList.update k p1 (as_providers s)\<rparr>"
    note en = ensure_put_ok [OF Cons.prems(1-3) Some em, folded s1_def]
    obtain ms1 where e: "candidate_shards now model ks s1 = (ms1, s')" "ms = (k, m) # ms1"
      using Cons.prems(5) Some em by (auto simp: s1_def split: prod.splits)
    have d: "distinct ks" "k \<notin> set ks" using Cons.prems(4) by auto
    note ih = Cons.IH [OF en(1) Cons.prems(2) order_refl d(1) e(1)]
    have po: "provider_ok t p" using Cons.prems(1) Some unfolding sched_ok_def by blast
    have fr: "fresh_shard now m" using ensure_model_ok(7) [OF po Cons.prems(2,3) em] .
    have keep: "map_of (as_providers s') k = Some p1" using ih d(2) en(3) by simp
    have oth: "map_of (as_providers s1) q = map_of (as_providers s) q" if "q \<noteq> k" for q
      using that by (simp add: s1_def update_conv)
    have "current_shard now ?key s' k m" using keep en(5) fr by (simp add: current_shard_def)
    moreover have "k \<notin> fst ` set ms1" using ih d(2) by fastforce
    moreover have "\<exists>m'. (q, m') \<in> set ms"
      if "q \<in> set (k # ks)" "map_of (as_providers s) q \<noteq> None" for q
      using that ih oth [of q] e(2) by (cases "q = k") auto
    ultimately show ?thesis using ih oth e(2) en(2) by auto
  qed
qed

lemma offered_current:
  fixes req :: pick_request and pinned :: string and strat :: strategy
  assumes ok: "sched_ok now s" and c: "current_shard now key s k m"
  defines "P \<equiv> request_pred req pinned strat"
  shows "(\<exists>e. offered m P False e \<and> sn_auth e = a \<and> am_priority (sn_meta e) = n) \<longleftrightarrow>
    servable now key P s k False a \<and> prio a = n"
proof -
  obtain p where p: "map_of (as_providers s) k = Some p" "provider_ok now p" "shard_ok now m"
    "md_key m = key" "mirrors (ps_auths p) m" "fresh_shard now m"
    using current_shardD [OF ok c] by metis
  have "offered m P False e \<longleftrightarrow> available_entry now m P False e" for e
    using p(6) unfolding offered_def available_entry_def fresh_shard_def by blast
  then show ?thesis
    using available_servable [OF p(3,5,1) metas_ok [OF p(2)], of P False a n] request_pred_fresh p(4)
    unfolding P_def by blast
qed

text \<open>The best priority over the shards.\<close>

lemma best_fold:
  "fold (\<lambda>(k, m) best. case f m of None \<Rightarrow> best
      | Some p \<Rightarrow> (case best of None \<Rightarrow> Some p | Some b \<Rightarrow> if p > b then Some p else Some b)) ms acc = r \<Longrightarrow>
   (case r of
      None \<Rightarrow> acc = None \<and> (\<forall>(k, m) \<in> set ms. f m = None)
    | Some (b :: int) \<Rightarrow> (acc = Some b \<or> (\<exists>(k, m) \<in> set ms. f m = Some b)) \<and>
        (\<forall>p. acc = Some p \<longrightarrow> p \<le> b) \<and> (\<forall>(k, m) \<in> set ms. \<forall>p. f m = Some p \<longrightarrow> p \<le> b))"
proof (induction ms arbitrary: acc)
  case Nil
  then show ?case by (auto split: option.split)
next
  case (Cons x ms)
  obtain k m where x: "x = (k, m)" by (cases x)
  define acc' where "acc' = (case f m of None \<Rightarrow> acc
      | Some p \<Rightarrow> (case acc of None \<Rightarrow> Some p | Some b \<Rightarrow> if p > b then Some p else Some b))"
  have "fold (\<lambda>(k, m) best. case f m of None \<Rightarrow> best
      | Some p \<Rightarrow> (case best of None \<Rightarrow> Some p | Some b \<Rightarrow> if p > b then Some p else Some b)) ms acc' = r"
    using Cons.prems by (simp add: x acc'_def)
  from Cons.IH [OF this] show ?case
    by (cases r; cases "f m"; cases acc) (auto simp: x acc'_def split: if_splits)
qed

lemma highest_offered:
  assumes "sched_ok now s" "current_shard now key s k m"
  shows "highest_ready_priority False P m = None \<longleftrightarrow> (\<nexists>e. offered m P False e)"
    and "highest_ready_priority False P m = Some p \<Longrightarrow>
      (\<exists>e. offered m P False e \<and> am_priority (sn_meta e) = p) \<and>
      (\<forall>e. offered m P False e \<longrightarrow> am_priority (sn_meta e) \<le> p)"
proof -
  have "shard_ok now m" using current_shardD [OF assms] by metis
  then have ix: "indexed m" "keys_distinct (md_entries m)" by (auto simp: shard_ok_def entries_ok_def)
  have eq: "highest_ready_priority False P m = first_priority bk_all P m" by (simp add: highest_ready_priority_def)
  note s1 = first_priority_Some [OF ix, of False P, simplified]
  note n1 = first_priority_None [OF ix, of False P, simplified]
  show "highest_ready_priority False P m = None \<longleftrightarrow> (\<nexists>e. offered m P False e)"
    unfolding eq using s1(1) n1 by (cases "first_priority bk_all P m") blast+
  show "highest_ready_priority False P m = Some p \<Longrightarrow>
      (\<exists>e. offered m P False e \<and> am_priority (sn_meta e) = p) \<and>
      (\<forall>e. offered m P False e \<longrightarrow> am_priority (sn_meta e) \<le> p)"
    unfolding eq using s1 by blast
qed

text \<open>What the requested providers can serve together.\<close>

definition served :: "gotime \<Rightarrow> string \<Rightarrow> (sched_entry \<Rightarrow> bool) \<Rightarrow> auth_sched \<Rightarrow> string list \<Rightarrow> string \<Rightarrow> auth \<Rightarrow> bool" where
  "served now key P s ks k a \<longleftrightarrow> k \<in> set ks \<and> servable now key P s k False a"

lemma best_ready_spec:
  fixes req :: pick_request and pinned :: string and strat :: strategy
  assumes ok: "sched_ok t s" and now: "0 \<le> now" "t \<le> now" and d: "distinct ks"
    and c: "candidate_shards now model ks s = (ms, s')"
  defines "P \<equiv> request_pred req pinned strat" and "key \<equiv> canonical_model_key model"
  shows "best_ready_priority P ms = None \<longleftrightarrow> (\<nexists>k a. served now key P s ks k a)"
    and "best_ready_priority P ms = Some b \<Longrightarrow>
      (\<exists>(k, m) \<in> set ms. \<exists>e. offered m P False e \<and> am_priority (sn_meta e) = b) \<and>
      (\<forall>k a. served now key P s ks k a \<longrightarrow> prio a \<le> b)"
proof -
  note cs = candidate_shards_ok [OF ok now d c, folded key_def]
  have okn: "sched_ok now s'" and h: "held s' = held s" using cs by blast+
  have cur: "current_shard now key s' k m" "k \<in> set ks" if "(k, m) \<in> set ms" for k m using cs that by blast+
  have sv: "served now key P s ks k a \<longleftrightarrow>
      (\<exists>m e. (k, m) \<in> set ms \<and> offered m P False e \<and> sn_auth e = a \<and> am_priority (sn_meta e) = prio a)" for k a
  proof
    assume a: "served now key P s ks k a"
    then have sk: "servable now key P s' k False a" "k \<in> set ks"
      using servable_held [OF h] by (simp_all add: served_def)
    have "map_of (as_providers s) k \<noteq> None" 
      using a by (auto simp: served_def servable_def held_Some simp del: map_of_eq_Some_iff)
    then obtain m where m: "(k, m) \<in> set ms" using cs sk(2) by blast
    then show "\<exists>m e. (k, m) \<in> set ms \<and> offered m P False e \<and> sn_auth e = a \<and> am_priority (sn_meta e) = prio a"
      using offered_current [OF okn cur(1) [OF m], of req pinned strat a "prio a"] sk(1) unfolding P_def by blast
  next
    assume "\<exists>m e. (k, m) \<in> set ms \<and> offered m P False e \<and> sn_auth e = a \<and> am_priority (sn_meta e) = prio a"
    then obtain m where m: "(k, m) \<in> set ms"
      "\<exists>e. offered m P False e \<and> sn_auth e = a \<and> am_priority (sn_meta e) = prio a" by blast
    then have "servable now key P s' k False a"
      using offered_current [OF okn cur(1) [OF m(1)], of req pinned strat a "prio a"] unfolding P_def by blast
    then show "served now key P s ks k a" using cur(2) [OF m(1)] servable_held [OF h] by (simp add: served_def)
  qed
  have pr: "am_priority (sn_meta e) = prio (sn_auth e)" if "(k, m) \<in> set ms" "offered m P False e" for k m e
    using offered_current [OF okn cur(1) [OF that(1)], of req pinned strat "sn_auth e" "am_priority (sn_meta e)"]
      that(2) unfolding P_def by metis
  note bf = best_fold [where f = "highest_ready_priority False P" and ms = ms and acc = None and
      r = "best_ready_priority P ms", OF best_ready_priority_def [of P ms, symmetric]]
  note ho = highest_offered [OF okn cur(1), of _ _ P]
  show "best_ready_priority P ms = None \<longleftrightarrow> (\<nexists>k a. served now key P s ks k a)"
  proof
    assume "best_ready_priority P ms = None"
    then have "\<forall>(k, m) \<in> set ms. highest_ready_priority False P m = None" using bf by simp
    then show "\<nexists>k a. served now key P s ks k a" using ho(1) unfolding sv by blast
  next
    assume no: "\<nexists>k a. served now key P s ks k a"
    show "best_ready_priority P ms = None"
    proof (rule ccontr)
      assume "best_ready_priority P ms \<noteq> None"
      then obtain b k m where "(k, m) \<in> set ms" "highest_ready_priority False P m = Some b" using bf by auto
      then obtain e where "(k, m) \<in> set ms" "offered m P False e" using ho(2) by blast
      then show False using no pr unfolding sv by blast
    qed
  qed
  show "best_ready_priority P ms = Some b \<Longrightarrow>
      (\<exists>(k, m) \<in> set ms. \<exists>e. offered m P False e \<and> am_priority (sn_meta e) = b) \<and>
      (\<forall>k a. served now key P s ks k a \<longrightarrow> prio a \<le> b)"
  proof
    assume b: "best_ready_priority P ms = Some b"
    then obtain k m where m: "(k, m) \<in> set ms" "highest_ready_priority False P m = Some b" using bf by auto
    then show "\<exists>(k, m) \<in> set ms. \<exists>e. offered m P False e \<and> am_priority (sn_meta e) = b" using ho(2) by blast
    have mx: "p \<le> b" if "(k, m) \<in> set ms" "highest_ready_priority False P m = Some p" for k m p
      using bf b that by auto
    show "\<forall>k a. served now key P s ks k a \<longrightarrow> prio a \<le> b"
    proof (intro allI impI)
      fix k a
      assume "served now key P s ks k a"
      then obtain m e where e: "(k, m) \<in> set ms" "offered m P False e" "am_priority (sn_meta e) = prio a"
        unfolding sv by blast
      then obtain p where p: "highest_ready_priority False P m = Some p"
        using ho(1) by (cases "highest_ready_priority False P m") blast+
      then have "prio a \<le> p" using ho(2) e by metis
      then show "prio a \<le> b" using mx [OF e(1) p] by simp
    qed
  qed
qed

text \<open>A pick at one priority of an up-to-date shard.\<close>

lemma pick_at_priority_Some:
  assumes ok: "shard_ok now m" and r: "fst (pick_ready_at_priority False p strat P m) = Some a"
  shows "\<exists>e. offered m P False e \<and> sn_auth e = a \<and> am_priority (sn_meta e) = p"
proof -
  have ix: "indexed m" and eo: "entries_ok (md_entries m)" and kd: "keys_distinct (md_entries m)"
    using ok by (auto simp: shard_ok_def entries_ok_def)
  obtain b where b: "map_of (md_ready m) p = Some b"
    using r by (cases "map_of (md_ready m) p") (auto simp: pick_ready_at_priority_def simp del: map_of_eq_Some_iff)
  then obtain i v e where pk: "pick_in_view strat (md_entries m) P (bk_all b) = (Some i, v)"
    "map_of (md_entries m) i = Some e" "sn_auth e = a"
    using r by (auto simp: pick_ready_at_priority_def uses_ws_view_def Let_def bind_eq_Some_conv
        simp del: map_of_eq_Some_iff split: prod.splits)
  have "i \<in> set (rv_flat (bk_all b)) \<and> entry_ok (md_entries m) P i"
    using pick_in_view_sound [OF eo, of strat P "bk_all b" i] pk(1) by simp
  then show ?thesis
    using indexed_view [OF ix kd b, of i False] pk(2,3)
    by (auto simp: offered_def entry_ok_def simp del: map_of_eq_Some_iff)
qed

lemma pick_at_priority_live:
  assumes ok: "shard_ok now m" and pos: "positive_when_weighted strat P"
    and ex: "\<exists>e. offered m P False e \<and> am_priority (sn_meta e) = p"
  shows "fst (pick_ready_at_priority False p strat P m) \<noteq> None"
proof -
  have ix: "indexed m" and eo: "entries_ok (md_entries m)" using ok by (auto simp: shard_ok_def)
  have "\<not> settles_ws m P False" by (simp add: settles_ws_def)
  then show ?thesis using pick_at_priority_spec [OF ix eo pos, of False p] ex by auto
qed

lemma put_at_ok:
  assumes ok: "sched_ok now s" and c: "current_shard now key s k m"
  shows "sched_ok now (put_shard k key (snd (pick_ready_at_priority False b strat P m)) s)"
    and "held (put_shard k key (snd (pick_ready_at_priority False b strat P m)) s) = held s"
proof -
  obtain p where p: "map_of (as_providers s) k = Some p" "map_of (ps_shards p) key = Some m"
    "provider_ok now p" "shard_ok now m" "md_key m = key" "mirrors (ps_auths p) m"
    using current_shardD [OF ok c] by metis
  let ?m = "snd (pick_ready_at_priority False b strat P m)"
  have ix: "indexed m" using p(4) by (simp add: shard_ok_def)
  note kp = pick_at_priority_keeps [OF ix, of False b strat P]
  have "shard_ok now ?m" using p(4) kp by (simp add: shard_ok_def)
  moreover have "mirrors (ps_auths p) ?m" by (rule mirrors_cong [OF p(6)]) (simp_all add: shard_meta_def kp)
  ultimately have "provider_ok now (p\<lparr>ps_shards := AList.update key ?m (ps_shards p)\<rparr>)"
    using p(3,5) kp(3) by (auto simp: provider_ok_def update_conv split: if_splits)
  then show "sched_ok now (put_shard k key ?m s)" "held (put_shard k key ?m s) = held s"
    using sched_put_ok [OF ok order_refl p(1), of "p\<lparr>ps_shards := AList.update key ?m (ps_shards p)\<rparr>"]
    by (simp_all add: put_shard_eq [OF p(1)])
qed

lemma normalize_keys_distinct: "distinct (normalize_provider_keys ps)"
proof -
  have "distinct out \<Longrightarrow> distinct (normalize_provider_keys_loop ps out)" for out
    by (induction ps out rule: normalize_provider_keys_loop.induct) (auto simp: Let_def)
  then show ?thesis by (simp add: normalize_provider_keys_def)
qed

text \<open>The error path rebuilds the shards and leaves the credentials alone.\<close>

lemma mixed_error_ok:
  assumes "sched_ok t s" "0 \<le> now" "t \<le> now" "distinct ks"
  shows "sched_ok now (snd (mixed_unavailable_error now ks model P s))"
    and "held (snd (mixed_unavailable_error now ks model P s)) = held s"
  using candidate_shards_ok [OF assms, of "canonical_model_key model"]
  by (cases "candidate_shards now (canonical_model_key model) ks s"; simp add: mixed_unavailable_error_def)+

lemma sched_ok_frame:
  "sched_ok t s \<Longrightarrow> sched_ok t (s\<lparr>as_mixed_cursors := c\<rparr>)"
  "sched_ok t s \<Longrightarrow> sched_ok t (s\<lparr>as_mixed_weighted := w\<rparr>)"
  "held (s\<lparr>as_mixed_cursors := c\<rparr>) = held s"
  "held (s\<lparr>as_mixed_weighted := w\<rparr>) = held s"
  by (simp_all add: sched_ok_def held_def fun_eq_iff)

text \<open>
  The three ways to choose among the shards: what they return is offered at the best priority,
  and they return something when the best priority is attained.
\<close>

definition attained :: "(sched_entry \<Rightarrow> bool) \<Rightarrow> (string \<times> model_sched) list \<Rightarrow> int \<Rightarrow> bool" where
  "attained P ms b \<longleftrightarrow> (\<exists>(k, m) \<in> set ms. \<exists>e. offered m P False e \<and> am_priority (sn_meta e) = b)"

lemma mixed_fill_first_Some:
  assumes "\<And>k m. (k, m) \<in> set ms \<Longrightarrow> shard_ok now m" "mixed_fill_first b P ms = Some (a, k)"
  shows "\<exists>m. (k, m) \<in> set ms \<and> (\<exists>e. offered m P False e \<and> sn_auth e = a \<and> am_priority (sn_meta e) = b)"
  using assms
proof (induction ms)
  case (Cons x ms)
  obtain q m where x: "x = (q, m)" by (cases x)
  show ?case
  proof (cases "fst (pick_ready_at_priority False b StratFillFirst P m)")
    case None
    then show ?thesis using Cons by (auto simp: x)
  next
    case (Some c)
    have "shard_ok now m" using Cons.prems(1) [of q m] by (simp add: x)
    moreover have "c = a" "q = k" using Cons.prems(2) Some by (simp_all add: x)
    ultimately show ?thesis using pick_at_priority_Some [OF _ Some] by (auto simp: x)
  qed
qed simp

lemma mixed_fill_first_live:
  assumes "\<And>k m. (k, m) \<in> set ms \<Longrightarrow> shard_ok now m" "attained P ms b"
  shows "mixed_fill_first b P ms \<noteq> None"
  using assms
proof (induction ms)
  case Nil
  then show ?case by (simp add: attained_def)
next
  case (Cons x ms)
  obtain q m where x: "x = (q, m)" by (cases x)
  have s: "shard_ok now m" using Cons.prems(1) [of q m] by (simp add: x)
  have pos: "positive_when_weighted StratFillFirst P" by (simp add: positive_when_weighted_def)
  show ?case
  proof (cases "fst (pick_ready_at_priority False b StratFillFirst P m)")
    case None
    then have "\<nexists>e. offered m P False e \<and> am_priority (sn_meta e) = b"
      using pick_at_priority_live [OF s pos] by blast
    then have "attained P ms b" using Cons.prems(2) by (auto simp: attained_def x)
    then show ?thesis using Cons None by (auto simp: x)
  qed (simp add: x)
qed

lemma flat_at_priority_set:
  assumes "shard_ok now m"
  shows "e \<in> set (flat_at_priority b m) \<longleftrightarrow> offered m (\<lambda>_. True) False e \<and> am_priority (sn_meta e) = b"
proof -
  have ix: "indexed m" and kd: "keys_distinct (md_entries m)" using assms by (auto simp: shard_ok_def entries_ok_def)
  show ?thesis
  proof (cases "map_of (md_ready m) b")
    case None
    then have "\<not> (offered m (\<lambda>_. True) False e \<and> am_priority (sn_meta e) = b)"
      using offered_bucket [OF ix kd, of "\<lambda>_. True" False e] by (metis option.distinct(1))
    then show ?thesis using None by (simp add: flat_at_priority_def)
  next
    case (Some bk)
    have "e \<in> set (flat_at_priority b m) \<longleftrightarrow> (\<exists>i \<in> set (rv_flat (bk_all bk)). map_of (md_entries m) i = Some e)"
      by (simp add: flat_at_priority_def Some entry_list_set del: map_of_eq_Some_iff)
    also have "\<dots> \<longleftrightarrow> offered m (\<lambda>_. True) False e \<and> am_priority (sn_meta e) = b"
      using indexed_view [OF ix kd Some, of _ False] by (auto simp: offered_def simp del: map_of_eq_Some_iff)
    finally show ?thesis .
  qed
qed

definition mixed_entries :: "int \<Rightarrow> (string \<times> model_sched) list \<Rightarrow> sched_entry list" where
  "mixed_entries b ms = sort_key (\<lambda>e. a_id (sn_auth e)) (concat (map (\<lambda>(k, m). flat_at_priority b m) ms))"

lemma mixed_entries_set:
  assumes "\<And>k m. (k, m) \<in> set ms \<Longrightarrow> shard_ok now m"
  shows "e \<in> set (mixed_entries b ms) \<and> P e \<longleftrightarrow>
    (\<exists>(k, m) \<in> set ms. offered m P False e \<and> am_priority (sn_meta e) = b)"
proof -
  have "e \<in> set (mixed_entries b ms) \<longleftrightarrow> (\<exists>(k, m) \<in> set ms. e \<in> set (flat_at_priority b m))"
    by (auto simp: mixed_entries_def)
  also have "\<dots> \<longleftrightarrow> (\<exists>(k, m) \<in> set ms. offered m (\<lambda>_. True) False e \<and> am_priority (sn_meta e) = b)"
    using flat_at_priority_set [OF assms] by fastforce
  finally show ?thesis by (fastforce simp: offered_def)
qed

text \<open>The rotation: the segment of the slot has a ready entry, so its pick succeeds.\<close>

lemma ready_count_pos:
  assumes "shard_ok now m"
  shows "ready_count_at_priority False b P m \<noteq> 0 \<longleftrightarrow> (\<exists>e. offered m P False e \<and> am_priority (sn_meta e) = b)"
proof -
  have ix: "indexed m" and kd: "keys_distinct (md_entries m)" using assms by (auto simp: shard_ok_def entries_ok_def)
  show ?thesis
  proof (cases "map_of (md_ready m) b")
    case None
    have "\<not> (offered m P False e \<and> am_priority (sn_meta e) = b)" for e
      using offered_bucket [OF ix kd, of P False e] None by (metis option.distinct(1))
    then show ?thesis using None by (simp add: ready_count_at_priority_def)
  next
    case (Some bk)
    have "ready_count_at_priority False b P m \<noteq> 0 \<longleftrightarrow> view_pick_first (md_entries m) P (bk_all bk) \<noteq> None"
      by (auto simp: ready_count_at_priority_def Some uses_ws_view_def view_pick_first_None filter_empty_conv
          simp del: map_of_eq_Some_iff)
    then show ?thesis using view_first_offered [OF ix kd Some, of P False] by simp
  qed
qed

lemma segments_mem:
  "(k, m, f, w) \<in> set (segments b P from ms) \<Longrightarrow> (k, m) \<in> set ms \<and> w = ready_count_at_priority False b P m"
  by (induction b P "from" ms rule: segments.induct) (auto simp: Let_def)

lemma segments_cover:
  "from \<le> slot \<Longrightarrow> slot < from + sum_list (map (\<lambda>(k, m, f, w). w) (segments b P from ms)) \<Longrightarrow>
   \<exists>(k, m, f, w) \<in> set (segments b P from ms). w \<noteq> 0 \<and> slot < f + w"
proof (induction b P "from" ms rule: segments.induct)
  case (2 b P "from" k m ms)
  let ?w = "ready_count_at_priority False b P m"
  show ?case
  proof (cases "slot < from + ?w")
    case True
    then have "?w \<noteq> 0" using "2.prems"(1) by linarith
    then show ?thesis using True by (simp add: Let_def)
  next
    case False
    then have "\<exists>(k, m, f, w) \<in> set (segments b P (from + ?w) ms). w \<noteq> 0 \<and> slot < f + w"
      using "2.IH" [OF refl] "2.prems"(2) by (simp add: Let_def add.assoc)
    then show ?thesis by (auto simp: Let_def)
  qed
qed simp

lemma rotate_segments_start:
  assumes "\<exists>(k, m, f, w) \<in> set segs. w \<noteq> 0 \<and> slot < f + w"
  shows "\<exists>k m f w rest. rotate_segments slot segs = (k, m, slot, w) # rest \<and> w \<noteq> 0 \<and> (k, m, f, w) \<in> set segs"
proof -
  let ?ahead = "\<lambda>(k, m, f, w). w = 0 \<or> \<not> slot < f + w"
  obtain k0 m0 f0 w0 where "(k0, m0, f0, w0) \<in> set segs" "\<not> ?ahead (k0, m0, f0, w0)" using assms by auto
  then have "dropWhile ?ahead segs \<noteq> []" unfolding dropWhile_eq_Nil_conv by blast
  then obtain k m f w rest where d: "dropWhile ?ahead segs = (k, m, f, w) # rest"
    by (cases "dropWhile ?ahead segs") auto
  then have "\<not> ?ahead (k, m, f, w)" "(k, m, f, w) \<in> set segs"
    using hd_dropWhile [of ?ahead segs] set_dropWhileD [of "(k, m, f, w)" ?ahead segs] by auto
  then show ?thesis using d by (auto simp: rotate_segments_def Let_def)
qed

lemma rotate_segments_mem:
  "(k, m, f, w) \<in> set (rotate_segments slot segs) \<Longrightarrow> \<exists>f'. (k, m, f', w) \<in> set segs"
proof -
  let ?ahead = "\<lambda>(k, m, f, w). w = 0 \<or> \<not> slot < f + w"
  assume r: "(k, m, f, w) \<in> set (rotate_segments slot segs)"
  have dw: "x \<in> set segs" if "x \<in> set (dropWhile ?ahead segs)" for x using that by (rule set_dropWhileD)
  have tw: "x \<in> set segs" if "x \<in> set (takeWhile ?ahead segs)" for x using set_takeWhileD [OF that] ..
  show ?thesis
  proof (cases "dropWhile ?ahead segs")
    case Nil
    have "rotate_segments slot segs = []" unfolding rotate_segments_def Let_def Nil by simp
    then show ?thesis using r by simp
  next
    case (Cons y rest)
    obtain k1 m1 f1 w1 where y: "y = (k1, m1, f1, w1)" by (cases y)
    have r': "rotate_segments slot segs = (k1, m1, slot, w1) # rest @ takeWhile ?ahead segs"
      by (simp add: rotate_segments_def Let_def Cons y)
    then consider "k = k1" "m = m1" "w = w1" | "(k, m, f, w) \<in> set rest" | "(k, m, f, w) \<in> set (takeWhile ?ahead segs)"
      using r by auto
    then show ?thesis
    proof cases
      case 1
      then show ?thesis using dw [of "(k1, m1, f1, w1)"] Cons y by auto
    next
      case 2
      then show ?thesis using dw [of "(k, m, f, w)"] Cons by auto
    next
      case 3
      then show ?thesis using tw by blast
    qed
  qed
qed

lemma mixed_rotate_Some:
  assumes "\<And>k m f w. (k, m, f, w) \<in> set segs \<Longrightarrow> shard_ok now m" "mixed_rotate b P segs = Some (a, k, m', used)"
  shows "\<exists>m f w. (k, m, f, w) \<in> set segs \<and> m' = snd (pick_ready_at_priority False b StratRoundRobin P m) \<and>
    (\<exists>e. offered m P False e \<and> sn_auth e = a \<and> am_priority (sn_meta e) = b)"
  using assms
proof (induction segs)
  case (Cons x segs)
  obtain q m f w where x: "x = (q, m, f, w)" by (cases x)
  have s: "shard_ok now m" using Cons.prems(1) [of q m f w] by (simp add: x)
  obtain r m1 where pk: "pick_ready_at_priority False b StratRoundRobin P m = (r, m1)"
    by (cases "pick_ready_at_priority False b StratRoundRobin P m")
  show ?case
  proof (cases "w = 0 \<or> r = None")
    case True
    then have "mixed_rotate b P segs = Some (a, k, m', used)" using Cons.prems(2) by (auto simp: x pk split: if_splits)
    then show ?thesis using Cons.IH Cons.prems(1) by (auto simp: x) blast
  next
    case False
    then obtain c where c: "r = Some c" by auto
    have "c = a" "q = k" "m1 = m'" using Cons.prems(2) False c by (simp_all add: x pk)
    moreover have "\<exists>e. offered m P False e \<and> sn_auth e = c \<and> am_priority (sn_meta e) = b"
      using pick_at_priority_Some [OF s, of b StratRoundRobin P c] c pk by simp
    ultimately show ?thesis
      by (intro exI [of _ m] exI [of _ f] exI [of _ w]) (simp add: x pk)
  qed
qed simp

lemma offered_provider:
  assumes ok: "sched_ok now s" and c: "current_shard now key s k m" and o: "offered m P False e"
  shows "am_provider (sn_meta e) = k"
proof -
  obtain p where p: "map_of (as_providers s) k = Some p" "mirrors (ps_auths p) m"
    using current_shardD [OF ok c] by metis
  obtain i where i: "map_of (md_entries m) i = Some e" using o by (auto simp: offered_def)
  have "shard_meta m i = supported_meta (ps_auths p) (md_key m) i" using p(2) by (simp add: mirrors_def)
  then have "map_of (ps_auths p) i = Some (sn_meta e)"
    using i by (auto simp: shard_meta_def supported_meta_def split: option.splits if_splits simp del: map_of_eq_Some_iff)
  then show ?thesis using ok p(1) unfolding sched_ok_def by blast
qed

text \<open>What the shards at hand offer at the best priority, and a result that is one of them.\<close>

definition chosen :: "(sched_entry \<Rightarrow> bool) \<Rightarrow> (string \<times> model_sched) list \<Rightarrow> int \<Rightarrow> auth \<times> string \<Rightarrow> bool" where
  "chosen P ms b r \<longleftrightarrow>
     (\<exists>m e. (snd r, m) \<in> set ms \<and> offered m P False e \<and> sn_auth e = fst r \<and> am_priority (sn_meta e) = b)"

definition at_hand :: "gotime \<Rightarrow> string \<Rightarrow> auth_sched \<Rightarrow> (string \<times> model_sched) list \<Rightarrow> bool" where
  "at_hand now key s ms \<longleftrightarrow> (\<forall>(k, m) \<in> set ms. current_shard now key s k m)"

lemma at_hand_shard:
  "sched_ok now s \<Longrightarrow> at_hand now key s ms \<Longrightarrow> (k, m) \<in> set ms \<Longrightarrow> shard_ok now m"
  using current_shardD unfolding at_hand_def by (metis (no_types, lifting) case_prodD)

lemma pick_mixed_weighted_main:
  fixes req :: pick_request and pinned :: string
  assumes ok: "sched_ok now s" and now: "0 \<le> now" "now \<le> terr" and d: "distinct ks"
    and hand: "at_hand now key s ms"
  defines "P \<equiv> request_pred req pinned StratWeighted"
  assumes att: "attained P ms b"
  shows "\<exists>r. fst (pick_mixed_weighted terr ks model ck b P ms s) = Inr r \<and> chosen P ms b r"
    and "sched_ok terr (snd (pick_mixed_weighted terr ks model ck b P ms s))"
    and "held (snd (pick_mixed_weighted terr ks model ck b P ms s)) = held s"
proof -
  let ?es = "mixed_entries b ms"
  define st0 where "st0 = (case map_of (as_mixed_weighted s) ck of None \<Rightarrow> new_smooth_state | Some st \<Rightarrow> st)"
  define st1 where "st1 = prepare_smooth_state st0 (scheduled_weight_vector_matching P ?es [])"
  obtain picked cur where pk: "pick_smooth_weighted_scheduled P ?es (the (ss_current st1)) = (picked, cur)"
    by (cases "pick_smooth_weighted_scheduled P ?es (the (ss_current st1))")
  let ?s1 = "s\<lparr>as_mixed_weighted := AList.update ck (st1\<lparr>ss_current := Some cur\<rparr>) (as_mixed_weighted s)\<rparr>"
  have def: "pick_mixed_weighted terr ks model ck b P ms s =
      (case picked of
         Some e \<Rightarrow> (Inr (sn_auth e, am_provider (sn_meta e)), ?s1)
       | None \<Rightarrow> (case mixed_unavailable_error terr ks model P ?s1 of (err, s2) \<Rightarrow> (Inl err, s2)))"
    unfolding pick_mixed_weighted_def Let_def mixed_entries_def [symmetric] st0_def [symmetric]
      st1_def [symmetric] pk prod.case ..
  have mem: "e \<in> set ?es \<and> P e \<longleftrightarrow> (\<exists>(k, m) \<in> set ms. offered m P False e \<and> am_priority (sn_meta e) = b)" for e
    by (rule mixed_entries_set) (rule at_hand_shard [OF ok hand])
  obtain k0 m0 e0 where e0: "(k0, m0) \<in> set ms" "offered m0 P False e0" "am_priority (sn_meta e0) = b"
    using att by (auto simp: attained_def)
  then have in0: "e0 \<in> set ?es" "P e0" using mem [where e = e0] by blast+
  have "0 < am_weight (sn_meta e0)"
    using in0(2) request_pred_positive [of StratWeighted req pinned] by (auto simp: P_def positive_when_weighted_def)
  then obtain e where e: "picked = Some e"
    using pick_scheduled_none [of P ?es "the (ss_current st1)" e0] pk in0 by (cases picked) auto
  then have "e \<in> set ?es \<and> P e" using pick_scheduled_sound [of P ?es "the (ss_current st1)" e] pk by simp
  then obtain k m where km: "(k, m) \<in> set ms" "offered m P False e" "am_priority (sn_meta e) = b"
    using mem [where e = e] by blast
  then have "am_provider (sn_meta e) = k"
    using offered_provider [OF ok _ km(2)] hand by (auto simp: at_hand_def)
  then show "\<exists>r. fst (pick_mixed_weighted terr ks model ck b P ms s) = Inr r \<and> chosen P ms b r"
    using e km by (auto simp: def chosen_def)
  show "sched_ok terr (snd (pick_mixed_weighted terr ks model ck b P ms s))"
    "held (snd (pick_mixed_weighted terr ks model ck b P ms s)) = held s"
    using sched_ok_frame(2,4) sched_ok_mono [OF ok now(2)] by (simp_all add: def e)
qed

lemma pick_mixed_rotating_main:
  fixes req :: pick_request and pinned :: string and strat :: strategy
  assumes ok: "sched_ok now s" and now: "0 \<le> now" "now \<le> terr" and d: "distinct ks"
    and hand: "at_hand now key s ms"
  defines "P \<equiv> request_pred req pinned strat"
  assumes att: "attained P ms b"
  shows "\<exists>r. fst (pick_mixed_rotating terr ks model key ck b P ms s) = Inr r \<and> chosen P ms b r"
    and "sched_ok terr (snd (pick_mixed_rotating terr ks model key ck b P ms s))"
    and "held (snd (pick_mixed_rotating terr ks model key ck b P ms s)) = held s"
proof -
  note sh = at_hand_shard [OF ok hand]
  let ?segs = "segments b P 0 ms"
  define tot where "tot = sum_list (map (\<lambda>(k, m, from, w). w) ?segs)"
  define slot where "slot = nat (go_rem (read0 (as_mixed_cursors s) ck) (int tot))"
  have "tot \<noteq> 0"
  proof
    assume z: "tot = 0"
    obtain k0 m0 where m0: "(k0, m0) \<in> set ms" "\<exists>e. offered m0 P False e \<and> am_priority (sn_meta e) = b"
      using att by (auto simp: attained_def)
    have "\<exists>f. (k, m, f, ready_count_at_priority False b P m) \<in> set (segments b P from ms)"
      if "(k, m) \<in> set ms" for k m "from"
      using that by (induction b P "from" ms rule: segments.induct) (auto simp: Let_def)
    from this [OF m0(1)] have "ready_count_at_priority False b P m0 = 0"
      using z by (fastforce simp: tot_def)
    then show False using ready_count_pos [OF sh [OF m0(1)]] m0(2) by blast
  qed
  have "slot < tot"
  proof -
    have "go_rem (read0 (as_mixed_cursors s) ck) (int tot) < int tot"
      using \<open>tot \<noteq> 0\<close> by (simp add: go_rem_bounds)
    then show ?thesis using \<open>tot \<noteq> 0\<close> by (simp add: slot_def nat_less_iff)
  qed
  then have "\<exists>(k, m, f, w) \<in> set ?segs. w \<noteq> 0 \<and> slot < f + w"
    using segments_cover [of 0 slot b P ms] by (simp add: tot_def)
  then obtain k m f w rest where rs: "rotate_segments slot ?segs = (k, m, slot, w) # rest" "w \<noteq> 0" "(k, m, f, w) \<in> set ?segs"
    using rotate_segments_start by blast
  have m: "(k, m) \<in> set ms" "w = ready_count_at_priority False b P m" using segments_mem [OF rs(3)] by blast+
  have pos: "positive_when_weighted StratRoundRobin P" by (simp add: positive_when_weighted_def)
  obtain a where a: "fst (pick_ready_at_priority False b StratRoundRobin P m) = Some a"
    using pick_at_priority_live [OF sh [OF m(1)] pos] ready_count_pos [OF sh [OF m(1)]] rs(2) m(2) by blast
  let ?m' = "snd (pick_ready_at_priority False b StratRoundRobin P m)"
  have mr: "mixed_rotate b P (rotate_segments slot ?segs) = Some (a, k, ?m', slot)"
    using rs(1,2) a by (cases "pick_ready_at_priority False b StratRoundRobin P m") simp
  have def: "pick_mixed_rotating terr ks model key ck b P ms s =
      (Inr (a, k), (put_shard k key ?m' s)\<lparr>as_mixed_cursors := AList.update ck (int slot + 1) (as_mixed_cursors s)\<rparr>)"
    using \<open>tot \<noteq> 0\<close> mr
    unfolding pick_mixed_rotating_def Let_def tot_def [symmetric] slot_def [symmetric] by simp
  have "chosen P ms b (a, k)"
    using pick_at_priority_Some [OF sh [OF m(1)] a] m(1) by (auto simp: chosen_def)
  then show "\<exists>r. fst (pick_mixed_rotating terr ks model key ck b P ms s) = Inr r \<and> chosen P ms b r"
    by (simp add: def)
  have cur: "current_shard now key s k m" using hand m(1) by (auto simp: at_hand_def)
  show "sched_ok terr (snd (pick_mixed_rotating terr ks model key ck b P ms s))"
    "held (snd (pick_mixed_rotating terr ks model key ck b P ms s)) = held s"
    using sched_ok_frame(1,3) put_at_ok [OF ok cur, of b StratRoundRobin P] sched_ok_mono [OF _ now(2)]
    by (simp_all add: def)
qed

text \<open>A chosen credential, in terms of what the providers can serve.\<close>

lemma chosen_served:
  fixes req :: pick_request and pinned :: string and strat :: strategy
  assumes ok: "sched_ok t s" and now: "0 \<le> now" "t \<le> now" and d: "distinct ks"
    and c: "candidate_shards now model ks s = (ms, s')"
  defines "P \<equiv> request_pred req pinned strat" and "key \<equiv> canonical_model_key model"
  assumes b: "best_ready_priority P ms = Some b" and ch: "chosen P ms b (a, k)"
  shows "served now key P s ks k a \<and> (\<forall>k' a'. served now key P s ks k' a' \<longrightarrow> prio a' \<le> prio a)"
proof -
  note cs = candidate_shards_ok [OF ok now d c, folded key_def]
  obtain m e where m: "(k, m) \<in> set ms" "offered m P False e" "sn_auth e = a" "am_priority (sn_meta e) = b"
    using ch by (auto simp: chosen_def)
  have okn: "sched_ok now s'" and h: "held s' = held s" and k: "k \<in> set ks" and cur: "current_shard now key s' k m"
    using cs m(1) by blast+
  have "servable now key P s' k False a \<and> prio a = b"
    using offered_current [OF okn cur, of req pinned strat a b] m(2-4) unfolding P_def by blast
  then have "served now key P s ks k a" "prio a = b" using k servable_held [OF h] by (simp_all add: served_def)
  then show ?thesis using best_ready_spec(2) [OF ok now d c, of req pinned strat b] b unfolding P_def key_def by blast
qed

definition mixed_result_ok ::
  "gotime \<Rightarrow> string \<Rightarrow> (sched_entry \<Rightarrow> bool) \<Rightarrow> auth_sched \<Rightarrow> string list \<Rightarrow> (select_error + auth \<times> string) \<Rightarrow> bool" where
  "mixed_result_ok now key P s ks r \<longleftrightarrow>
     (case r of
        Inl _ \<Rightarrow> \<nexists>k a. served now key P s ks k a
      | Inr (a, k) \<Rightarrow>
          served now key P s ks k a \<and> (\<forall>k' a'. served now key P s ks k' a' \<longrightarrow> prio a' \<le> prio a))"

lemma pick_mixed_main:
  fixes req :: pick_request and strat0 :: strategy and model :: string and tp :: gotime
  assumes ok: "sched_ok t s" and now: "0 \<le> te" "t \<le> te" "te \<le> terr"
    and multi: "2 \<le> length (normalize_provider_keys providers)"
    and unpinned: "pinned_auth_id_from_metadata (pr_metadata req) = []"
  defines "P \<equiv> request_pred req [] (effective_strategy strat0 s)"
    and "r \<equiv> pick_mixed te tp terr strat0 req providers model s"
  shows "mixed_result_ok te (shard_key model) P s (normalize_provider_keys providers) (fst r)"
    and "sched_ok terr (snd r)" and "held (snd r) = held s"
proof -
  let ?ks = "normalize_provider_keys providers" and ?key = "shard_key model" and ?mk = "canonical_model_key model"
  let ?ck = "join_comma ?ks @ '':'' @ ?mk"
  define strat where "strat = effective_strategy strat0 s"
  have d: "distinct ?ks" by (rule normalize_keys_distinct)
  obtain ms s1 where c: "candidate_shards te ?mk ?ks s = (ms, s1)" by (cases "candidate_shards te ?mk ?ks s")
  note cs = candidate_shards_ok [OF ok now(1,2) d c]
  have ok1: "sched_ok te s1" and h1: "held s1 = held s" using cs by blast+
  have hand: "at_hand te ?key s1 ms" using cs by (auto simp: at_hand_def)
  have pE: "scheduled_auth_predicate (pr_eligibility req) (pr_tried req) [] (strat = StratWeighted) = P"
    by (simp add: P_def request_pred_code strat_def)
  have len: "?ks \<noteq> []" "length ?ks \<noteq> 1" using multi by auto
  define er where "er = (case mixed_unavailable_error terr ?ks model P s1 of (err, s2) \<Rightarrow> (Inl err :: select_error + auth \<times> string, s2))"
  have r: "r = (case best_ready_priority P ms of
      None \<Rightarrow> er
    | Some b \<Rightarrow>
        if strat = StratFillFirst then (case mixed_fill_first b P ms of Some x \<Rightarrow> (Inr x, s1) | None \<Rightarrow> er)
        else if strat = StratWeighted then pick_mixed_weighted terr ?ks model ?ck b P ms s1
        else pick_mixed_rotating terr ?ks model ?key ?ck b P ms s1)"
    unfolding r_def pick_mixed_def Let_def unpinned c prod.case strat_def [symmetric] pE er_def
    using len by (simp cong: option.case_cong)
  have ero: "sched_ok terr (snd er)" "held (snd er) = held s" "\<exists>e. fst er = Inl e"
    using mixed_error_ok [OF ok1 _ now(3) d, of model P] now h1
    by (auto simp: er_def split: prod.splits)
  have goal: "mixed_result_ok te ?key P s ?ks (fst r) \<and> sched_ok terr (snd r) \<and> held (snd r) = held s"
  proof (cases "best_ready_priority P ms")
    case None
    then have "\<nexists>k a. served te ?key P s ?ks k a"
      using best_ready_spec(1) [OF ok now(1,2) d c] unfolding P_def by blast
    then show ?thesis using ero None by (auto simp: r mixed_result_ok_def)
  next
    case (Some b)
    have att: "attained P ms b"
      using best_ready_spec(2) [OF ok now(1,2) d c] Some unfolding P_def attained_def by blast
    have good: "mixed_result_ok te ?key P s ?ks (Inr x)" if "chosen P ms b x" for x
      using chosen_served [OF ok now(1,2) d c, of req "[]" "effective_strategy strat0 s" b "fst x" "snd x"]
        Some that unfolding P_def mixed_result_ok_def by (simp add: case_prod_unfold)
    have ok1': "sched_ok terr s1" using sched_ok_mono [OF ok1 now(3)] .
    consider "strat = StratFillFirst" | "strat = StratWeighted" | "strat \<noteq> StratFillFirst" "strat \<noteq> StratWeighted"
      by blast
    then show ?thesis
    proof cases
      case 1
      note sh = at_hand_shard [OF ok1 hand]
      obtain a k where ff: "mixed_fill_first b P ms = Some (a, k)"
        using mixed_fill_first_live [OF sh att] by fastforce
      have "chosen P ms b (a, k)" using mixed_fill_first_Some [OF sh ff] by (auto simp: chosen_def)
      then show ?thesis using good ok1' h1 by (simp add: r Some 1 ff)
    next
      case 2
      have P: "P = request_pred req [] StratWeighted" using 2 by (simp add: P_def strat_def)
      note w = pick_mixed_weighted_main [OF ok1 now(1,3) d hand, of req "[]" b model ?ck, folded P, OF att]
      obtain x where x: "fst (pick_mixed_weighted terr ?ks model ?ck b P ms s1) = Inr x" "chosen P ms b x"
        using w(1) by blast
      then show ?thesis using good [OF x(2)] w(2,3) h1 by (simp add: r Some 2)
    next
      case 3
      note w = pick_mixed_rotating_main [OF ok1 now(1,3) d hand, of req "[]" strat b model ?ck,
          folded P_def [folded strat_def], OF att]
      obtain x where x: "fst (pick_mixed_rotating terr ?ks model ?key ?ck b P ms s1) = Inr x" "chosen P ms b x"
        using w(1) by blast
      then show ?thesis using good [OF x(2)] w(2,3) h1 3 by (simp add: r Some)
    qed
  qed
  then show "mixed_result_ok te ?key P s ?ks (fst r)" "sched_ok terr (snd r)" "held (snd r) = held s" by blast+
qed

text \<open>A request pinned to a credential goes to the provider that owns it.\<close>

lemma pick_mixed_pinned:
  fixes req :: pick_request and strat0 :: strategy and model pinned :: string and tp te terr :: gotime
  assumes ok: "sched_ok t s" and now: "0 \<le> te" "t \<le> te" "te \<le> tp"
    and multi: "2 \<le> length (normalize_provider_keys providers)"
    and pin: "pinned = pinned_auth_id_from_metadata (pr_metadata req)" "pinned \<noteq> []"
  defines "P \<equiv> request_pred req pinned (effective_strategy strat0 s)"
    and "r \<equiv> pick_mixed te tp terr strat0 req providers model s"
  shows "sched_ok tp (snd r) \<and> held (snd r) = held s \<and>
    (\<forall>a k. fst r = Inr (a, k) \<longrightarrow>
       k \<in> set (normalize_provider_keys providers) \<and> servable tp (shard_key model) P s k False a \<and> a_id a = pinned)"
proof -
  let ?ks = "normalize_provider_keys providers" and ?key = "shard_key model" and ?mk = "canonical_model_key model"
  define k where "k = read_provider s pinned"
  define strat where "strat = effective_strategy strat0 s"
  have pE: "scheduled_auth_predicate (pr_eligibility req) (pr_tried req) pinned (strat = StratWeighted) = P"
    by (simp add: P_def request_pred_code strat_def)
  have len: "?ks \<noteq> []" "length ?ks \<noteq> 1" using multi by auto
  have nf: ?thesis if "r = (Inl e, s)" for e
    using that sched_ok_mono [OF ok, of tp] now by auto
  show ?thesis
  proof (cases "k = [] \<or> \<not> contains_provider ?ks k \<or> map_of (as_providers s) k = None")
    case True
    then show ?thesis
      by (intro nf [of "CodedError ''auth_not_found'' ''no auth available''"])
        (use len pin in \<open>auto simp: r_def pick_mixed_def Let_def k_def\<close>)
  next
    case False
    then obtain p where p: "map_of (as_providers s) k = Some p" "k \<noteq> []" "contains_provider ?ks k" by auto
    obtain p1 m where em: "ensure_model te ?mk p = (p1, m)" by (cases "ensure_model te ?mk p")
    define s1 where "s1 = s\<lparr>as_providers := AList.update k p1 (as_providers s)\<rparr>"
    note en = ensure_put_ok [OF ok now(1,2) p(1) em, folded s1_def]
    have tp: "0 \<le> tp" using now by simp
    obtain res m' where pk: "pick_ready tp False strat P m = (res, m')" by (cases "pick_ready tp False strat P m")
    have r: "r = (case res of
        Some a \<Rightarrow> (Inr (a, k), put_shard k ?key m' s1)
      | None \<Rightarrow> (Inl (unavailable_error terr ''mixed'' model P m'), put_shard k ?key m' s1))"
      unfolding r_def pick_mixed_def Let_def strat_def [symmetric] pin(1) [symmetric] k_def [symmetric] pE
      using len p pin(2) by (simp add: em pk s1_def [symmetric] split: option.split)
    note put = put_pick_sched_ok [OF en(1) tp now(3) en(3,5), of False strat P]
    have sv: "servable tp ?key P s1 k False a" if "res = Some a" for a
      using pick_ready_servable(1) [OF en(6) tp now(3) en(7,3) metas_ok [OF en(4)],
          where req = req and pinned = pinned and strat = strat and prefer_ws = False and a = a]
        that pk unfolding strat_def P_def en(8) by (simp add: transport_def)
    have "a_id a = pinned" if "servable tp ?key P s1 k False a" for a
      using that pin(2)
      by (auto simp: servable_def P_def request_pred_def fresh_entry_def split: if_splits)
    moreover have "k \<in> set ?ks" using p(3) by (simp add: contains_provider_def list_ex_iff)
    ultimately show ?thesis
      using put sv servable_held [OF en(2)] en(2) by (auto simp: r pk split: option.splits)
  qed
qed

text \<open>Every pick keeps the invariant and the credentials.\<close>

lemma pick_mixed_keeps:
  assumes ok: "sched_ok t s" and now: "0 \<le> te" "t \<le> te" "te \<le> tp" "tp \<le> terr"
  shows "sched_ok terr (snd (pick_mixed te tp terr strat0 req providers model s))"
    and "held (snd (pick_mixed te tp terr strat0 req providers model s)) = held s"
proof -
  let ?ks = "normalize_provider_keys providers"
  let ?r = "pick_mixed te tp terr strat0 req providers model s"
  have "sched_ok terr (snd ?r) \<and> held (snd ?r) = held s"
  proof -
    consider "?ks = []" | "length ?ks = 1" | "2 \<le> length ?ks" by (cases ?ks; cases "tl ?ks") auto
    then show ?thesis
    proof cases
      case 1
      then show ?thesis using sched_ok_mono [OF ok, of terr] now by (simp add: pick_mixed_def Let_def)
    next
      case 2
      then have "snd ?r = snd (pick_single te tp terr strat0 req (hd ?ks) model s)"
        by (auto simp: pick_mixed_def Let_def split: prod.split sum.split)
      then show ?thesis
        using pick_single_main(1,2) [OF ok now(1-3), of terr strat0 req "hd ?ks" model] sched_ok_mono [OF _ now(4)]
        by auto
    next
      case 3
      show ?thesis
      proof (cases "pinned_auth_id_from_metadata (pr_metadata req) = []")
        case True
        have "te \<le> terr" using now by simp
        then show ?thesis using pick_mixed_main(2,3) [OF ok now(1,2) _ 3 True] by blast
      next
        case False
        then show ?thesis
          using pick_mixed_pinned [OF ok now(1-3) 3 refl False, of terr strat0 model] sched_ok_mono [OF _ now(4)]
          by blast
      qed
    qed
  qed
  then show "sched_ok terr (snd ?r)" "held (snd ?r) = held s" by blast+
qed

section \<open>Reachable states\<close>

text \<open>
  One constructor per operation of the scheduler; the clock never goes back between two
  operations. The registry may list different models at every upsert.
\<close>

datatype sched_op =
    OpUpsert "string \<Rightarrow> string list" gotime "auth option"
  | OpRemove string
  | OpRebuild "string \<Rightarrow> string list" gotime "auth option list"
  | OpSelector strategy
  | OpSingle gotime gotime gotime strategy pick_request string string
  | OpMixed gotime gotime gotime strategy pick_request "string list" string

inductive sched_step :: "gotime \<Rightarrow> auth_sched \<Rightarrow> sched_op \<Rightarrow> gotime \<Rightarrow> auth_sched \<Rightarrow> bool" where
  step_upsert:
    "t \<le> now \<Longrightarrow> (\<And>a. ao = Some a \<Longrightarrow> clean_id a) \<Longrightarrow>
     sched_step t s (OpUpsert models_for now ao) now (sched_upsert_auth models_for now ao s)"
| step_remove: "sched_step t s (OpRemove i) t (sched_remove_auth i s)"
| step_rebuild:
    "t \<le> now \<Longrightarrow> (\<And>a. Some a \<in> set auths \<Longrightarrow> clean_id a) \<Longrightarrow>
     sched_step t s (OpRebuild models_for now auths) now (sched_rebuild models_for now auths s)"
| step_selector: "sched_step t s (OpSelector strat) t (set_selector strat s)"
| step_single:
    "t \<le> te \<Longrightarrow> te \<le> tp \<Longrightarrow> tp \<le> terr \<Longrightarrow>
     sched_step t s (OpSingle te tp terr strat req provider model) terr
       (snd (pick_single te tp terr strat req provider model s))"
| step_mixed:
    "t \<le> te \<Longrightarrow> te \<le> tp \<Longrightarrow> tp \<le> terr \<Longrightarrow>
     sched_step t s (OpMixed te tp terr strat req providers model) terr
       (snd (pick_mixed te tp terr strat req providers model s))"

inductive_cases sched_stepE: "sched_step t s op t' s'"

inductive sched_reaches :: "gotime \<Rightarrow> auth_sched \<Rightarrow> bool" where
  reaches_new: "0 \<le> t \<Longrightarrow> sched_reaches t (new_auth_scheduler strat)"
| reaches_step: "sched_reaches t s \<Longrightarrow> sched_step t s op t' s' \<Longrightarrow> sched_reaches t' s'"

lemma sched_step_time: "sched_step t s op t' s' \<Longrightarrow> t \<le> t'"
  by (induction rule: sched_step.induct) auto

lemma sched_rebuild_ok:
  assumes "0 \<le> now" "\<And>a. Some a \<in> set auths \<Longrightarrow> clean_id a"
  shows "sched_ok now (sched_rebuild models_for now auths s)"
proof -
  have "sched_ok now (fold (sched_upsert_auth models_for now) auths s)"
    if "sched_ok now s" for s
    using assms(2) that
  proof (induction auths arbitrary: s)
    case (Cons ao auths)
    have "sched_ok now (sched_upsert_auth models_for now ao s)"
    proof (cases ao)
      case None
      then show ?thesis using Cons.prems(2) by (simp add: sched_upsert_auth_def)
    next
      case (Some a)
      then show ?thesis using sched_upsert_ok [OF Cons.prems(2) assms(1) order_refl] Cons.prems(1) by simp
    qed
    then show ?case using Cons by simp
  qed simp
  then show ?thesis by (simp add: sched_rebuild_def sched_ok_new)
qed

lemma sched_step_ok:
  assumes "sched_step t s op t' s'" "0 \<le> t" "sched_ok t s"
  shows "sched_ok t' s'"
  using assms
proof (induction rule: sched_step.induct)
  case (step_upsert t now ao s models_for)
  have now: "0 \<le> now" using step_upsert.hyps(1) step_upsert.prems(1) by simp
  show ?case
  proof (cases ao)
    case None
    then show ?thesis using sched_ok_mono [OF step_upsert.prems(2) step_upsert.hyps(1)]
      by (simp add: sched_upsert_auth_def)
  next
    case (Some a)
    then show ?thesis
      using sched_upsert_ok [OF step_upsert.prems(2) now step_upsert.hyps(1)] step_upsert.hyps(2) by simp
  qed
next
  case (step_remove t s i)
  then show ?case using sched_remove_ok(1) by (simp add: sched_remove_auth_def Let_def)
next
  case (step_rebuild t now auths s models_for)
  then show ?case by (intro sched_rebuild_ok) auto
next
  case (step_selector t s strat)
  then show ?case by (simp add: sched_ok_def set_selector_def)
next
  case (step_single t te tp terr s strat req provider model)
  then show ?case
    using pick_single_main(1) [OF step_single.prems(2) _ step_single.hyps(1,2)] sched_ok_mono by fastforce
next
  case (step_mixed t te tp terr s strat req providers model)
  then show ?case using pick_mixed_keeps(1) [OF step_mixed.prems(2) _ step_mixed.hyps] by simp
qed

lemma sched_reaches_ok: "sched_reaches t s \<Longrightarrow> 0 \<le> t \<and> sched_ok t s"
proof (induction rule: sched_reaches.induct)
  case (reaches_step t s op t' s')
  then show ?case using sched_step_ok sched_step_time by (meson order_trans)
qed (simp add: sched_ok_new)

end
