(* ===== verification/SchedulerProperties.thy ===== *)
theory SchedulerProperties
  imports SchedulerSpec
begin

text \<open>
  The properties of the incremental scheduler: in every state its operations can reach, a pick
  is right and complete with respect to the verdicts on the credentials, and the state mirrors
  what was inserted. The sample scheduler of the witnesses holds three credentials of two
  providers.
\<close>

section \<open>Sample values\<close>

definition member :: "string \<Rightarrow> string \<Rightarrow> string \<Rightarrow> auth" where
  "member i provider priority = (new_auth i provider)\<lparr>a_status := StatusActive,
     a_attributes := [''priority'' \<mapsto> priority]\<rparr>"

definition lists_m :: "string \<Rightarrow> string list" where "lists_m i = [''m'']"

definition demo_ops :: "sched_op list" where
  "demo_ops = [OpUpsert lists_m 10 (Some (member ''a'' ''claude'' ''1'')),
     OpUpsert lists_m 11 (Some (member ''b'' ''claude'' ''7'')),
     OpUpsert lists_m 12 (Some (member ''c'' ''gemini'' ''3''))]"

definition demo_sched :: auth_sched where
  "demo_sched = sched_upsert_auth lists_m 12 (Some (member ''c'' ''gemini'' ''3''))
     (sched_upsert_auth lists_m 11 (Some (member ''b'' ''claude'' ''7''))
       (sched_upsert_auth lists_m 10 (Some (member ''a'' ''claude'' ''1'')) (new_auth_scheduler StratRoundRobin)))"

definition plain_request :: pick_request where
  "plain_request = \<lparr>pr_ws = False, pr_eligibility = \<lparr>el_required_kind = [], el_policy = [], el_disallow_free = False\<rparr>,
     pr_metadata = Map.empty, pr_tried = []\<rparr>"

lemma upsert_reaches:
  "sched_reaches t s \<Longrightarrow> t \<le> now \<Longrightarrow> clean_id a \<Longrightarrow>
   sched_reaches now (sched_upsert_auth models_for now (Some a) s)"
  by (rule reaches_step, assumption, rule step_upsert) auto

lemma demo_reaches: "sched_reaches 12 demo_sched"
proof -
  have c: "clean_id (member ''a'' p q)" "clean_id (member ''b'' p q)" "clean_id (member ''c'' p q)" for p q
    by (simp_all add: clean_id_def member_def new_auth_def trim_space_def trim_left_def trim_right_def is_space_def)
  have "sched_reaches 10 (new_auth_scheduler StratRoundRobin)" by (rule reaches_new) simp
  from upsert_reaches [OF upsert_reaches [OF upsert_reaches [OF this]]] show ?thesis
    unfolding demo_sched_def using c by simp
qed

section \<open>Picks\<close>

text \<open>
  C8 \<open>pickSingle\<close> is right in every reachable state: a credential it returns belongs to the
  provider, lists the model, passes the request's filters, is not blocked at the time of the pick
  and has the highest priority of those (on the preferred transport when one is offered).
\<close>

theorem pick_single_right:
  assumes "sched_reaches t s" "t \<le> te" "te \<le> tp"
    and "fst (pick_single te tp terr strat req provider model s) = Inr a"
  defines "pred \<equiv> request_pred req (pinned_auth_id_from_metadata (pr_metadata req)) (effective_strategy strat s)"
    and "k \<equiv> to_lower (trim_space provider)"
  defines "ws \<equiv> transport tp (shard_key model) pred s k (single_prefers_ws req provider)"
  shows "servable tp (shard_key model) pred s k ws a \<and>
    (\<forall>b. servable tp (shard_key model) pred s k ws b \<longrightarrow> prio b \<le> prio a)"
proof -
  have "0 \<le> te" "sched_ok t s" using sched_reaches_ok [OF assms(1)] assms(2) by auto
  from pick_single_main(3) [OF this(2,1) assms(2-4)] show ?thesis unfolding pred_def k_def ws_def .
qed

text \<open>
  C9 \<open>pickSingle\<close> is complete in every reachable state: it fails exactly when the provider has no
  credential that lists the model, passes the request's filters and is not blocked; the
  incremental bookkeeping never hides a credential whose cooldown is over.
\<close>

theorem pick_single_complete:
  assumes "sched_reaches t s" "t \<le> te" "te \<le> tp"
  shows "(\<exists>err. fst (pick_single te tp terr strat req provider model s) = Inl err) \<longleftrightarrow>
    (\<nexists>a. servable tp (shard_key model)
       (request_pred req (pinned_auth_id_from_metadata (pr_metadata req)) (effective_strategy strat s)) s
       (to_lower (trim_space provider)) False a)"
proof -
  have "0 \<le> te" "sched_ok t s" using sched_reaches_ok [OF assms(1)] assms(2) by auto
  from pick_single_main(4) [OF this(2,1) assms(2,3)] show ?thesis .
qed




text \<open>
  An upsert of a credential that can be scheduled puts it under its provider with the metadata
  of the snapshot, removes it from every other provider and moves no other credential.
\<close>

theorem upsert_effect:
  assumes "sched_reaches t s" "t \<le> now" "clean_id a" "schedulable a"
  shows "held (sched_upsert_auth models_for now (Some a) s) k j =
    (if j = a_id a
     then (if k = executor_key_from_auth (Some a) then Some (build_scheduled_auth_meta models_for a) else None)
     else held s k j)"
proof -
  have "0 \<le> now" "sched_ok t s" using sched_reaches_ok [OF assms(1)] assms(2) by auto
  from sched_upsert_take(2) [OF this(2,1) assms(2-4)] show ?thesis .
qed


section \<open>Witnesses\<close>

lemma demo_picks_b:
  "case fst (pick_single 20 20 20 StratCurrent plain_request ''claude'' ''m'' demo_sched) of
     Inr a \<Rightarrow> a_id a = ''b'' | Inl _ \<Rightarrow> False"
  by code_simp

theorem pick_single_right_witness:
  "\<exists>a. fst (pick_single 20 20 20 StratCurrent plain_request ''claude'' ''m'' demo_sched) = Inr a \<and> a_id a = ''b'' \<and>
     (\<forall>b. servable 20 (shard_key ''m'') (request_pred plain_request [] StratRoundRobin) demo_sched ''claude''
        (transport 20 (shard_key ''m'') (request_pred plain_request [] StratRoundRobin) demo_sched ''claude''
          (single_prefers_ws plain_request ''claude'')) b \<longrightarrow> prio b \<le> prio a)"
proof -
  obtain a where a: "fst (pick_single 20 20 20 StratCurrent plain_request ''claude'' ''m'' demo_sched) = Inr a" "a_id a = ''b''"
    using demo_picks_b by (auto split: sum.splits)
  have e: "to_lower (trim_space ''claude'') = ''claude''" "effective_strategy StratCurrent demo_sched = StratRoundRobin"
    "pinned_auth_id_from_metadata (pr_metadata plain_request) = []" by code_simp+
  show ?thesis using pick_single_right [OF demo_reaches _ _ a(1), unfolded e] a by simp
qed

theorem pick_single_complete_witness:
  "\<nexists>a. servable 20 (shard_key ''other'') (request_pred plain_request [] StratRoundRobin) demo_sched ''claude'' False a"
proof -
  have e: "to_lower (trim_space ''claude'') = ''claude''" "effective_strategy StratCurrent demo_sched = StratRoundRobin"
    "pinned_auth_id_from_metadata (pr_metadata plain_request) = []" by code_simp+
  have "case fst (pick_single 20 20 20 StratCurrent plain_request ''claude'' ''other'' demo_sched) of
      Inr a \<Rightarrow> False | Inl _ \<Rightarrow> True" by code_simp
  then have "\<exists>err. fst (pick_single 20 20 20 StratCurrent plain_request ''claude'' ''other'' demo_sched) = Inl err"
    by (auto split: sum.splits)
  then show ?thesis
    using pick_single_complete [OF demo_reaches, of 20 20 20 StratCurrent plain_request "''claude''" "''other''", unfolded e]
    by simp
qed




theorem upsert_effect_witness:
  "held (sched_upsert_auth lists_m 30 (Some (member ''a'' ''gemini'' ''1'')) demo_sched) ''claude'' ''a'' = None \<and>
   held (sched_upsert_auth lists_m 30 (Some (member ''a'' ''gemini'' ''1'')) demo_sched) ''gemini'' ''a'' \<noteq> None"
proof -
  have c: "clean_id (member ''a'' ''gemini'' ''1'')" "schedulable (member ''a'' ''gemini'' ''1'')"
    "executor_key_from_auth (Some (member ''a'' ''gemini'' ''1'')) = ''gemini''" "a_id (member ''a'' ''gemini'' ''1'') = ''a''"
    by code_simp+
  show ?thesis using upsert_effect [OF demo_reaches _ c(1,2), of 30 lists_m] by (simp add: c(3,4))
qed



end
