(* ===== verification/ErrorClass.thy ===== *)
theory ErrorClass
  imports AuthTypes ThinkingSuffix
begin

text \<open>
  Classification of upstream failures (\<open>sdk/cliproxy/auth/conductor_cooldown.go\<close> and
  \<open>internal/clienterror/client_error.go\<close>): which failures are the request's or the
  connection's fault and so must not penalise a credential, and the recognition of a missing
  model in a decoded error body. A Go error is seen through the questions the code asks of
  its chain (\<open>go_error\<close>); what third-party packages answer (websocket close codes, the JSON
  paths gjson reads) are fields of that view.
\<close>

section \<open>Questions about a Go error chain\<close>

text \<open>
  \<open>ge_body\<close> is \<open>None\<close> when the trimmed text is empty or not JSON, else the strings read at
  the code paths and at the type paths of the body.
\<close>

record go_error =
  ge_text :: string
  ge_status :: int
  ge_close :: "int option"
  ge_canceled_or_eof :: bool
  ge_request_scoped :: bool
  ge_auth :: "auth_error option"
  ge_body :: "(string list \<times> string list) option"

section \<open>Messages\<close>

definition is_connection_lifecycle_message :: "string \<Rightarrow> bool" where
  "is_connection_lifecycle_message message =
     (let lower = to_lower (trim_space message) in
      if lower = [] then False
      else if lower \<in> set [''context canceled'', ''eof'', ''unexpected eof''] then True
      else if str_contains lower ''websocket: close 1000'' \<or>
              str_contains lower ''websocket: close 1001'' \<or>
              str_contains lower ''websocket: close 1006'' then True
      else if str_contains lower ''unexpected eof'' then True
      else False)"

definition is_model_support_error_message :: "string \<Rightarrow> bool" where
  "is_model_support_error_message message =
     (let lower = to_lower (trim_space message) in
      if lower = [] then False
      else list_ex (str_contains lower)
        [''model_not_supported'', ''requested model is not supported'',
         ''requested model is unsupported'', ''requested model is unavailable'',
         ''model is not supported'', ''model not supported'', ''unsupported model'',
         ''model unavailable'', ''not available for your plan'', ''not available for your account''])"

definition is_invalid_grant_error_message :: "string \<Rightarrow> bool" where
  "is_invalid_grant_error_message message = str_contains (to_lower message) ''invalid_grant''"

definition is_cloudflare_challenge_error_message :: "string \<Rightarrow> bool" where
  "is_cloudflare_challenge_error_message message =
     (let lower = to_lower (trim_space message) in
      str_contains lower ''challenge-platform'' \<or> str_contains lower ''cf-mitigated'' \<or>
      str_contains lower ''cloudflare challenge'' \<or>
      (str_contains lower ''cloudflare'' \<and> str_contains lower ''<html''))"

definition is_item_not_persisted :: "string \<Rightarrow> bool" where
  "is_item_not_persisted message =
     (let lower = to_lower message in
      str_contains lower ''item with id'' \<and> str_contains lower ''not found'' \<and>
      str_contains lower ''items are not persisted when `store` is set to false'')"

section \<open>Recorded results\<close>

definition status_code_from_result :: "auth_error option \<Rightarrow> int" where
  "status_code_from_result e = (case e of None \<Rightarrow> 0 | Some _ \<Rightarrow> error_status_code e)"

definition is_connection_lifecycle_result_error :: "auth_error option \<Rightarrow> bool" where
  "is_connection_lifecycle_result_error e =
     (case e of
        None \<Rightarrow> False
      | Some x \<Rightarrow>
          if err_code x = connection_lifecycle_error_code then True
          else if status_code_from_result e \<noteq> 0 then False
          else is_connection_lifecycle_message (err_message x))"

definition is_request_scoped_not_found_result_error :: "auth_error option \<Rightarrow> bool" where
  "is_request_scoped_not_found_result_error e =
     (case e of
        None \<Rightarrow> False
      | Some x \<Rightarrow> if status_code_from_result e \<noteq> 404 then False else is_item_not_persisted (err_message x))"

definition is_request_scoped_result_error :: "auth_error option \<Rightarrow> bool" where
  "is_request_scoped_result_error e =
     (e \<noteq> None \<and> (is_request_scoped e \<or> is_request_scoped_not_found_result_error e))"

definition should_skip_credential_cooldown :: "auth_error option \<Rightarrow> bool" where
  "should_skip_credential_cooldown e =
     (is_request_scoped_result_error e \<or> is_connection_lifecycle_result_error e)"

definition is_invalid_grant_result_error :: "auth_error option \<Rightarrow> bool" where
  "is_invalid_grant_result_error e =
     (case e of
        None \<Rightarrow> False
      | Some x \<Rightarrow>
          let status = status_code_from_result e in
          if status \<noteq> 400 \<and> status \<noteq> 401 then False
          else is_invalid_grant_error_message (err_code x) \<or>
               is_invalid_grant_error_message (err_message x))"

definition is_model_support_result_error :: "auth_error option \<Rightarrow> bool" where
  "is_model_support_result_error e =
     (case e of
        None \<Rightarrow> False
      | Some x \<Rightarrow>
          let status = status_code_from_result e in
          if status \<noteq> 400 \<and> status \<noteq> 422 then False
          else is_model_support_error_message (err_message x))"

definition is_cloudflare_challenge_result_error :: "auth_error option \<Rightarrow> bool" where
  "is_cloudflare_challenge_result_error e =
     (case e of None \<Rightarrow> False | Some x \<Rightarrow> is_cloudflare_challenge_error_message (err_message x))"

definition has_unauthorized_auth_failure :: "auth option \<Rightarrow> bool" where
  "has_unauthorized_auth_failure ao =
     (case ao of
        None \<Rightarrow> False
      | Some a \<Rightarrow>
          (case a_last_error a of
             None \<Rightarrow> False
           | Some e \<Rightarrow> error_status_code (Some e) = 401 \<or> equal_fold (err_code e) ''unauthorized''))"

section \<open>Errors of an execution\<close>

definition is_connection_lifecycle_error :: "go_error option \<Rightarrow> bool" where
  "is_connection_lifecycle_error eo =
     (case eo of
        None \<Rightarrow> False
      | Some e \<Rightarrow>
          if (case ge_close e of Some c \<Rightarrow> c = 1000 \<or> c = 1001 \<or> c = 1006 | None \<Rightarrow> False) then True
          else if ge_status e \<noteq> 0 then False
          else if ge_canceled_or_eof e then True
          else is_connection_lifecycle_message (ge_text e))"

definition is_unauthorized_error :: "go_error option \<Rightarrow> bool" where
  "is_unauthorized_error eo =
     (case eo of
        None \<Rightarrow> False
      | Some e \<Rightarrow>
          if ge_status e = 401 then True
          else str_contains (to_lower (ge_text e)) ''status 401'' \<or>
               str_contains (to_lower (ge_text e)) ''401 unauthorized'')"

definition refresh_error_from_error :: "go_error option \<Rightarrow> auth_error option" where
  "refresh_error_from_error eo =
     (case eo of
        None \<Rightarrow> None
      | Some e \<Rightarrow>
          let status = (if ge_status e = 0 \<and> is_unauthorized_error eo then 401 else ge_status e) in
          Some \<lparr>err_code = (if status = 401 then ''unauthorized'' else []),
                err_message = ge_text e, err_retryable = False, err_http = status\<rparr>)"

definition request_fault_codes :: "string list" where
  "request_fault_codes =
     [''cyber_policy'', ''context_length_exceeded'', ''message_too_big'', ''string_above_max_length'',
      ''invalid_prompt'', ''invalid_value'', ''unsupported_value'', ''invalid_request_error'',
      ''previous_response_not_found'']"

definition request_fault_types :: "string list" where
  "request_fault_types =
     [''invalid_request'', ''invalid_request_error'', ''bad_request_error'', ''invalid_prompt'']"

definition has_request_fault_body :: "go_error option \<Rightarrow> bool" where
  "has_request_fault_body eo =
     (case eo of
        None \<Rightarrow> False
      | Some e \<Rightarrow>
          (case ge_body e of
             None \<Rightarrow> False
           | Some (codes, types) \<Rightarrow>
               if list_ex (\<lambda>c. to_lower (trim_space c) \<in> set request_fault_codes) codes then True
               else list_ex (\<lambda>t. to_lower (trim_space t) \<in> set request_fault_types) types))"

definition is_request_fault :: "int \<Rightarrow> go_error option \<Rightarrow> bool" where
  "is_request_fault status0 eo =
     (let status = (case eo of
                      Some e \<Rightarrow> if status0 \<le> 0 then (if ge_status e \<noteq> 0 then ge_status e else status0)
                                else status0
                    | None \<Rightarrow> status0) in
      if has_request_fault_body eo then True
      else if (case eo of Some e \<Rightarrow> is_item_not_persisted (ge_text e) | None \<Rightarrow> False) then True
      else status = 400 \<or> status = 409 \<or> status = 413 \<or> status = 422)"

definition is_model_support_error :: "go_error option \<Rightarrow> bool" where
  "is_model_support_error eo =
     (case eo of
        None \<Rightarrow> False
      | Some e \<Rightarrow>
          if ge_status e \<noteq> 400 \<and> ge_status e \<noteq> 422 then False
          else is_model_support_error_message (ge_text e))"

definition is_invalid_grant_error :: "go_error option \<Rightarrow> bool" where
  "is_invalid_grant_error eo =
     (case eo of
        None \<Rightarrow> False
      | Some e \<Rightarrow>
          if ge_status e \<noteq> 400 \<and> ge_status e \<noteq> 401 then False
          else is_invalid_grant_error_message (ge_text e))"

definition is_cloudflare_challenge_error :: "go_error option \<Rightarrow> bool" where
  "is_cloudflare_challenge_error eo =
     (case eo of None \<Rightarrow> False | Some e \<Rightarrow> is_cloudflare_challenge_error_message (ge_text e))"

definition is_request_scoped_error :: "go_error option \<Rightarrow> bool" where
  "is_request_scoped_error eo = (case eo of None \<Rightarrow> False | Some e \<Rightarrow> ge_request_scoped e)"

definition is_request_invalid_error :: "go_error option \<Rightarrow> bool" where
  "is_request_invalid_error eo =
     (case eo of
        None \<Rightarrow> False
      | Some e \<Rightarrow>
          if is_request_scoped_error eo then True
          else if is_cloudflare_challenge_error eo then False
          else if is_invalid_grant_error eo then False
          else if is_model_support_error eo then False
          else is_request_fault (ge_status e) eo)"

definition result_error_from_error :: "go_error option \<Rightarrow> auth_error option" where
  "result_error_from_error eo =
     (case eo of
        None \<Rightarrow> None
      | Some e \<Rightarrow>
          let r0 = (case ge_auth e of
                      Some a \<Rightarrow> a
                    | None \<Rightarrow> \<lparr>err_code = [], err_message = ge_text e, err_retryable = False, err_http = 0\<rparr>);
              r1 = (if err_http r0 = 0 then r0\<lparr>err_http := ge_status e\<rparr> else r0)
          in Some
               (if is_request_scoped_error eo \<or> is_request_invalid_error eo
                then r1\<lparr>err_code := request_scoped_error_code\<rparr>
                else if is_connection_lifecycle_error eo then
                  (if err_code r1 = [] \<or> err_code r1 = connection_lifecycle_error_code
                   then r1\<lparr>err_code := connection_lifecycle_error_code\<rparr> else r1)
                else r1))"

section \<open>The missing model in an error body\<close>

text \<open>\<open>strings.Trim\<close>, \<open>TrimLeft\<close> and \<open>TrimRight\<close> with a cut set, \<open>TrimPrefix\<close>.\<close>

definition trim_left_set :: "char list \<Rightarrow> string \<Rightarrow> string" where
  "trim_left_set cs s = dropWhile (\<lambda>c. c \<in> set cs) s"

definition trim_right_set :: "char list \<Rightarrow> string \<Rightarrow> string" where
  "trim_right_set cs s = rev (dropWhile (\<lambda>c. c \<in> set cs) (rev s))"

definition trim_set :: "char list \<Rightarrow> string \<Rightarrow> string" where
  "trim_set cs s = trim_right_set cs (trim_left_set cs s)"

definition trim_prefix :: "string \<Rightarrow> string \<Rightarrow> string" where
  "trim_prefix s p = (if has_prefix s p then drop (length p) s else s)"

definition after_last :: "char list \<Rightarrow> string \<Rightarrow> string" where
  "after_last cs s = rev (takeWhile (\<lambda>c. c \<notin> set cs) (rev s))"

definition underscored :: "string \<Rightarrow> string" where
  "underscored s = map (\<lambda>c. if c = CHR ''-'' \<or> c = CHR '' '' then CHR ''_'' else c) s"

text \<open>The cut set of blanks and final punctuation the code trims.\<close>

definition phrase_cutset :: "char list" where
  "phrase_cutset = '' .!;'' @ [CHR 0x09, CHR 0x0D, CHR 0x0A]"

definition is_model_not_found_identifier :: "string \<Rightarrow> bool" where
  "is_model_not_found_identifier value =
     (let c0 = to_lower (trim_space value);
          candidate =
            (case last_index c0 (CHR ''#'') of
               Some i \<Rightarrow>
                 if i + 1 < length c0 then drop (i + 1) c0
                 else after_last ''/:'' (trim_right_set ''/'' (takeWhile (\<lambda>c. c \<noteq> CHR ''?'') c0))
             | None \<Rightarrow> after_last ''/:'' (trim_right_set ''/'' (takeWhile (\<lambda>c. c \<noteq> CHR ''?'') c0)))
      in underscored candidate \<in> set [''model_not_found'', ''model_not_found_error'',
           ''unknown_model'', ''model_does_not_exist'', ''model_not_exist''])"

definition is_not_found_error_identifier :: "string \<Rightarrow> bool" where
  "is_not_found_error_identifier value =
     (underscored (to_lower (trim_space value)) \<in> set [''not_found'', ''not_found_error''])"

definition is_missing_model_phrase :: "string \<Rightarrow> bool" where
  "is_missing_model_phrase value =
     (trim_set phrase_cutset value \<in> set [''not found'', ''was not found'', ''could not be found'',
        ''does not exist'', ''doesn'' @ [CHR 0x27] @ ''t exist'', ''not exist'', ''is unknown''])"

fun trim_reference_loop :: "string \<Rightarrow> string list \<Rightarrow> string \<times> bool" where
  "trim_reference_loop value [] = ([], False)"
| "trim_reference_loop value (candidate # cs) =
     (if value = candidate then ([], True)
      else if \<not> has_prefix value candidate then trim_reference_loop value cs
      else
        let remainder = drop (length candidate) value in
        if remainder = [] \<or> hd remainder \<in> set '' :,''
        then (trim_left_set '' :,'' remainder, True)
        else trim_reference_loop value cs)"

definition trim_requested_model_reference :: "string \<Rightarrow> string \<Rightarrow> string \<times> bool" where
  "trim_requested_model_reference value requested_model =
     (let model = to_lower (trim_space requested_model) in
      if model = [] then ([], False)
      else trim_reference_loop value
             [model, [CHR 0x27] @ model @ [CHR 0x27], [CHR 0x22] @ model @ [CHR 0x22],
              [CHR 0x60] @ model @ [CHR 0x60]])"

text \<open>A prefix counts when it is the whole text or is followed by a blank or a colon.\<close>

definition prefix_applies :: "string \<Rightarrow> string \<Rightarrow> bool" where
  "prefix_applies lower p =
     (lower = p \<or> has_prefix lower (p @ '' '') \<or> has_prefix lower (p @ '':''))"

definition after_prefix :: "string \<Rightarrow> string \<Rightarrow> string" where
  "after_prefix lower p =
     trim_space (trim_prefix (trim_space (trim_prefix lower p)) '':'')"

definition explicit_unknown_prefixes :: "string list" where
  "explicit_unknown_prefixes = [''no such model'', ''unknown model'']"

definition model_prefixes :: "string list" where
  "model_prefixes = [''the requested model'', ''requested model'', ''the model'', ''model'']"

definition is_explicit_model_not_found_message :: "string \<Rightarrow> string \<Rightarrow> bool" where
  "is_explicit_model_not_found_message message requested_model =
     (let lower = trim_set phrase_cutset (to_lower (trim_space message)) in
      if lower = [] then False
      else if str_contains (underscored lower) ''model_not_found'' \<or>
              str_contains (underscored lower) ''unknown_model'' then True
      else
        (case find (prefix_applies lower) explicit_unknown_prefixes of
           Some p \<Rightarrow>
             let remainder = after_prefix lower p in
             if remainder = [] then True
             else (case trim_requested_model_reference remainder requested_model of
                     (missing, ok) \<Rightarrow> ok \<and> missing = [])
         | None \<Rightarrow>
             (case find (prefix_applies lower) model_prefixes of
                Some p \<Rightarrow>
                  let remainder = after_prefix lower p in
                  if is_missing_model_phrase remainder then True
                  else (case trim_requested_model_reference remainder requested_model of
                          (missing, ok) \<Rightarrow> ok \<and> is_missing_model_phrase missing)
              | None \<Rightarrow> False)))"

definition is_exact_requested_model_reference :: "string \<Rightarrow> string \<Rightarrow> bool" where
  "is_exact_requested_model_reference message requested_model =
     (let lower = trim_set phrase_cutset (to_lower (trim_space message)) in
      (case find (prefix_applies lower) model_prefixes of
         Some p \<Rightarrow>
           (case trim_requested_model_reference (after_prefix lower p) requested_model of
              (suffix, ok) \<Rightarrow> ok \<and> suffix = [])
       | None \<Rightarrow> False))"

text \<open>Decoded JSON values, with the fields of an object in iteration order.\<close>

datatype json =
    JNull
  | JBool bool
  | JNumber gofloat
  | JString string
  | JArray "json list"
  | JObject "(string \<times> json) list"

fun contains_structured_model_not_found :: "json \<Rightarrow> string \<Rightarrow> bool"
and structured_fields :: "(string \<times> json) list \<Rightarrow> string \<Rightarrow> bool \<Rightarrow> bool \<Rightarrow> bool"
and structured_items :: "json list \<Rightarrow> string \<Rightarrow> bool" where
  "contains_structured_model_not_found (JObject fs) m = structured_fields fs m False False"
| "contains_structured_model_not_found (JArray xs) m = structured_items xs m"
| "contains_structured_model_not_found JNull m = False"
| "contains_structured_model_not_found (JBool b) m = False"
| "contains_structured_model_not_found (JNumber f) m = False"
| "contains_structured_model_not_found (JString s) m = False"
| "structured_fields [] m not_found_type exact = (not_found_type \<and> exact)"
| "structured_fields ((key, item) # fs) m not_found_type exact =
     (case item of
        JString s \<Rightarrow>
          let k = to_lower (trim_space key) in
          if k = ''code'' then
            (if is_model_not_found_identifier s then True
             else structured_fields fs m not_found_type exact)
          else if k = ''type'' then
            (if is_model_not_found_identifier s then True
             else structured_fields fs m (not_found_type \<or> is_not_found_error_identifier s) exact)
          else if k \<in> set [''error'', ''message'', ''detail'', ''error_description'', ''title''] then
            (if is_explicit_model_not_found_message s m then True
             else structured_fields fs m not_found_type
                    (exact \<or> is_exact_requested_model_reference s m))
          else structured_fields fs m not_found_type exact
      | JObject gs \<Rightarrow>
          (if contains_structured_model_not_found (JObject gs) m then True
           else structured_fields fs m not_found_type exact)
      | JArray xs \<Rightarrow>
          (if contains_structured_model_not_found (JArray xs) m then True
           else structured_fields fs m not_found_type exact)
      | _ \<Rightarrow> structured_fields fs m not_found_type exact)"
| "structured_items [] m = False"
| "structured_items (item # xs) m =
     (if (case item of JString s \<Rightarrow> is_explicit_model_not_found_message s m | _ \<Rightarrow> False) then True
      else if contains_structured_model_not_found item m then True
      else structured_items xs m)"

section \<open>Which failures are skipped\<close>

text \<open>No status-bearing failure is taken for a lifecycle event because of its text.\<close>

lemma lifecycle_needs_no_status:
  "status_code_from_result (Some e) \<noteq> 0 \<Longrightarrow>
   is_connection_lifecycle_result_error (Some e) \<longleftrightarrow> err_code e = connection_lifecycle_error_code"
  by (simp add: is_connection_lifecycle_result_error_def)

lemma request_fault_simps:
  "has_request_fault_body None = False"
  "ge_body e = None \<Longrightarrow> has_request_fault_body (Some e) = False"
  by (simp_all add: has_request_fault_body_def)

text \<open>The result recorded for an error keeps its message; only the code classifies it.\<close>

lemma result_error_message:
  "result_error_from_error (Some e) = Some r \<Longrightarrow>
   err_message r = (case ge_auth e of Some a \<Rightarrow> err_message a | None \<Rightarrow> ge_text e)"
  by (auto simp: result_error_from_error_def Let_def split: option.splits if_splits)

lemma result_error_status:
  "result_error_from_error (Some e) = Some r \<Longrightarrow>
   err_http r = (case ge_auth e of Some a \<Rightarrow> (if err_http a = 0 then ge_status e else err_http a)
                 | None \<Rightarrow> ge_status e)"
  by (auto simp: result_error_from_error_def Let_def split: option.splits if_splits)

text \<open>Every error of the request is skipped.\<close>

lemma request_invalid_skipped:
  "is_request_invalid_error (Some e) \<Longrightarrow>
   should_skip_credential_cooldown (result_error_from_error (Some e))"
  by (simp add: should_skip_credential_cooldown_def is_request_scoped_result_error_def
      result_error_from_error_def is_request_scoped_def Let_def)

section \<open>The verdict on a body does not depend on the order of its fields\<close>

text \<open>What one field contributes: an immediate verdict, a not-found type, an exact reference.\<close>

definition field_hit :: "string \<Rightarrow> string \<times> json \<Rightarrow> bool" where
  "field_hit m f =
     (case snd f of
        JString s \<Rightarrow>
          (let k = to_lower (trim_space (fst f)) in
           if k = ''code'' \<or> k = ''type'' then is_model_not_found_identifier s
           else k \<in> set [''error'', ''message'', ''detail'', ''error_description'', ''title''] \<and>
                is_explicit_model_not_found_message s m)
      | JObject gs \<Rightarrow> contains_structured_model_not_found (JObject gs) m
      | JArray xs \<Rightarrow> contains_structured_model_not_found (JArray xs) m
      | _ \<Rightarrow> False)"

definition field_not_found :: "string \<times> json \<Rightarrow> bool" where
  "field_not_found f =
     (case snd f of
        JString s \<Rightarrow> to_lower (trim_space (fst f)) = ''type'' \<and> is_not_found_error_identifier s
      | _ \<Rightarrow> False)"

definition field_exact :: "string \<Rightarrow> string \<times> json \<Rightarrow> bool" where
  "field_exact m f =
     (case snd f of
        JString s \<Rightarrow>
          to_lower (trim_space (fst f)) \<in>
            set [''error'', ''message'', ''detail'', ''error_description'', ''title''] \<and>
          is_exact_requested_model_reference s m
      | _ \<Rightarrow> False)"

lemma structured_fields_iff:
  "structured_fields fs m nf ex \<longleftrightarrow>
     (\<exists>f \<in> set fs. field_hit m f) \<or>
     ((nf \<or> (\<exists>f \<in> set fs. field_not_found f)) \<and> (ex \<or> (\<exists>f \<in> set fs. field_exact m f)))"
proof (induction fs arbitrary: nf ex)
  case (Cons f fs)
  obtain key item where f: "f = (key, item)" by (cases f)
  show ?case
  proof (cases item)
    case (JString s)
    define k where "k = to_lower (trim_space key)"
    consider "k = ''code''" | "k = ''type''"
      | "k \<noteq> ''code''" "k \<noteq> ''type''"
        "k \<in> set [''error'', ''message'', ''detail'', ''error_description'', ''title'']"
      | "k \<noteq> ''code''" "k \<noteq> ''type''"
        "k \<notin> set [''error'', ''message'', ''detail'', ''error_description'', ''title'']"
      by blast
    then show ?thesis
    proof cases
      case 1
      then show ?thesis
        by (simp add: f JString Cons.IH field_hit_def field_not_found_def field_exact_def
            k_def [symmetric])
    next
      case 2
      then show ?thesis
        by (auto simp add: f JString Cons.IH field_hit_def field_not_found_def field_exact_def
            k_def [symmetric])
    next
      case 3
      have "structured_fields (f # fs) m nf ex =
          (is_explicit_model_not_found_message s m \<or>
           structured_fields fs m nf (ex \<or> is_exact_requested_model_reference s m))"
        using 3 by (simp add: f JString k_def [symmetric] Let_def del: set_simps)
      moreover have "field_hit m f = is_explicit_model_not_found_message s m"
        "field_not_found f = False" "field_exact m f = is_exact_requested_model_reference s m"
        using 3 by (simp_all add: f JString field_hit_def field_not_found_def field_exact_def
            k_def [symmetric] del: set_simps)
      ultimately show ?thesis using Cons.IH by auto
    next
      case 4
      have "structured_fields (f # fs) m nf ex = structured_fields fs m nf ex"
        using 4 by (simp add: f JString k_def [symmetric] Let_def del: set_simps)
      moreover have "field_hit m f = False" "field_not_found f = False" "field_exact m f = False"
        using 4 by (simp_all add: f JString field_hit_def field_not_found_def field_exact_def
            k_def [symmetric] del: set_simps)
      ultimately show ?thesis using Cons.IH by auto
    qed
  qed (auto simp: f Cons.IH field_hit_def field_not_found_def field_exact_def)
qed simp

lemma structured_order_independent:
  "set fs = set gs \<Longrightarrow>
   contains_structured_model_not_found (JObject fs) m =
   contains_structured_model_not_found (JObject gs) m"
  by (simp add: structured_fields_iff)

end
