(* ===== verification/RecentRequests.thy ===== *)
theory RecentRequests
  imports AuthTypes
begin

text \<open>
  The ring of recent request counters kept with every credential (\<open>types.go\<close>): twenty
  ten-minute buckets, overwritten in place as time passes. The refinement at the end relates
  the ring to the history of the requests it recorded.
\<close>

definition bucket_seconds :: int where "bucket_seconds = 10 * 60"

definition bucket_count :: nat where "bucket_count = 20"

text \<open>Seconds between Go's zero time and the Unix epoch.\<close>

definition unix_epoch :: int where "unix_epoch = 62135596800"

definition time_unix :: "gotime \<Rightarrow> int" where
  "time_unix t = t div second - unix_epoch"

definition recent_bucket_id :: "gotime \<Rightarrow> int" where
  "recent_bucket_id now = (if is_zero now then 0 else go_quot (time_unix now) bucket_seconds)"

definition recent_bucket_index :: "int \<Rightarrow> nat" where
  "recent_bucket_index b =
     (let m = go_rem b (int bucket_count) in nat (if m < 0 then m + int bucket_count else m))"

definition record_ring :: "gotime \<Rightarrow> bool \<Rightarrow> request_bucket list \<Rightarrow> request_bucket list" where
  "record_ring now ok ring =
     (let b = recent_bucket_id now;
          i = recent_bucket_index b;
          old = ring ! i;
          cur = (if rb_id old \<noteq> b then \<lparr>rb_id = b, rb_success = 0, rb_failed = 0\<rparr> else old)
      in ring[i := (if ok then cur\<lparr>rb_success := rb_success cur + 1\<rparr>
                    else cur\<lparr>rb_failed := rb_failed cur + 1\<rparr>)])"

definition record_recent_request :: "auth \<Rightarrow> gotime \<Rightarrow> bool \<Rightarrow> auth" where
  "record_recent_request a now ok = a\<lparr>a_recent := record_ring now ok (a_recent a)\<rparr>"

text \<open>
  The snapshot, oldest bucket first. The label of a bucket is a local-time rendering of its
  start and end, which depends on the time zone database: it is the parameter \<open>label\<close>.
\<close>

definition recent_requests_snapshot ::
  "(int \<Rightarrow> string) \<Rightarrow> auth option \<Rightarrow> gotime \<Rightarrow> (string \<times> int \<times> int) list" where
  "recent_requests_snapshot label ao now =
     (case ao of
        None \<Rightarrow> []
      | Some a \<Rightarrow>
          map (\<lambda>i. let b = recent_bucket_id now - int i;
                        e = a_recent a ! recent_bucket_index b
                    in if rb_id e = b then (label b, rb_success e, rb_failed e)
                       else (label b, 0, 0))
            (rev [0..<bucket_count]))"

section \<open>The ring refines the request history\<close>

text \<open>The history: when a request was recorded and whether it succeeded, oldest first.\<close>

type_synonym request_history = "(gotime \<times> bool) list"

definition history_count :: "request_history \<Rightarrow> int \<Rightarrow> bool \<Rightarrow> int" where
  "history_count h b ok = int (length (filter (\<lambda>(t, s). recent_bucket_id t = b \<and> s = ok) h))"

fun record_history :: "auth \<Rightarrow> request_history \<Rightarrow> auth" where
  "record_history a [] = a"
| "record_history a ((t, s) # h) = record_history (record_recent_request a t s) h"

definition ring_empty :: "request_bucket list" where
  "ring_empty = replicate bucket_count \<lparr>rb_id = 0, rb_success = 0, rb_failed = 0\<rparr>"

definition ring_refines :: "request_bucket list \<Rightarrow> request_history \<Rightarrow> bool" where
  "ring_refines ring h \<longleftrightarrow>
     length ring = bucket_count \<and>
     (\<forall>b. let e = ring ! recent_bucket_index b in
        (rb_id e = b \<longrightarrow> rb_success e = history_count h b True \<and>
                         rb_failed e = history_count h b False) \<and>
        (rb_id e \<noteq> b \<longrightarrow> (\<forall>l. (\<forall>x \<in> set h. recent_bucket_id (fst x) \<le> l) \<longrightarrow>
            l - int bucket_count < b \<longrightarrow>
            history_count h b True = 0 \<and> history_count h b False = 0)))"

lemma recent_bucket_index_mod: "recent_bucket_index b = nat (b mod int bucket_count)"
proof -
  let ?m = "go_rem b 20"
  have bnd: "- 20 < ?m \<and> ?m < 20" and cong: "?m mod 20 = b mod 20"
    using go_rem_bounds [of 20 b] go_rem_cong [of 20 b] by (auto simp: bucket_count_def)
  have "(if ?m < 0 then ?m + 20 else ?m) = ?m mod 20"
    using bnd by presburger
  then show ?thesis
    unfolding recent_bucket_index_def Let_def bucket_count_def by (simp only: of_nat_numeral cong)
qed

lemma recent_bucket_index_less [simp]: "recent_bucket_index b < bucket_count"
  by (simp add: recent_bucket_index_mod bucket_count_def)

lemma recent_bucket_index_eq:
  "recent_bucket_index b = recent_bucket_index c \<longleftrightarrow> b mod int bucket_count = c mod int bucket_count"
  by (simp add: recent_bucket_index_mod bucket_count_def eq_nat_nat_iff)

lemma history_count_snoc:
  "history_count (h @ [(t, s)]) b ok =
     history_count h b ok + (if recent_bucket_id t = b \<and> s = ok then 1 else 0)"
  by (simp add: history_count_def)

lemma history_count_absent:
  "\<forall>x \<in> set h. recent_bucket_id (fst x) \<noteq> b \<Longrightarrow> history_count h b ok = 0"
  by (auto simp: history_count_def filter_empty_conv)

lemma ring_refines_empty: "ring_refines ring_empty []"
  by (auto simp: ring_refines_def ring_empty_def history_count_def Let_def)

lemma ring_refines_record:
  assumes R: "ring_refines ring h"
    and mono: "\<forall>x \<in> set h. recent_bucket_id (fst x) \<le> recent_bucket_id t"
  shows "ring_refines (record_ring t s ring) (h @ [(t, s)])"
proof -
  let ?e = "recent_bucket_id t"
  let ?i = "recent_bucket_index ?e"
  have len: "length ring = bucket_count"
    and hit: "\<And>b. rb_id (ring ! recent_bucket_index b) = b \<Longrightarrow>
        rb_success (ring ! recent_bucket_index b) = history_count h b True \<and>
        rb_failed (ring ! recent_bucket_index b) = history_count h b False"
    and miss: "\<And>b l. rb_id (ring ! recent_bucket_index b) \<noteq> b \<Longrightarrow>
        \<forall>x \<in> set h. recent_bucket_id (fst x) \<le> l \<Longrightarrow> l - int bucket_count < b \<Longrightarrow>
        history_count h b True = 0 \<and> history_count h b False = 0"
    using R by (auto simp: ring_refines_def Let_def)
  have fresh: "rb_id (ring ! ?i) \<noteq> ?e \<Longrightarrow> history_count h ?e True = 0 \<and> history_count h ?e False = 0"
    by (rule miss [OF _ mono]) (auto simp: bucket_count_def)
  have slot: "record_ring t s ring ! ?i =
      \<lparr>rb_id = ?e, rb_success = history_count (h @ [(t, s)]) ?e True,
       rb_failed = history_count (h @ [(t, s)]) ?e False\<rparr>"
  proof (cases "rb_id (ring ! ?i) = ?e")
    case True
    then show ?thesis
      using hit [OF True] len
      by (cases "ring ! ?i") (simp add: record_ring_def Let_def history_count_snoc)
  next
    case False
    then show ?thesis
      using fresh [OF False] len by (simp add: record_ring_def Let_def history_count_snoc)
  qed
  have other: "recent_bucket_index b \<noteq> ?i \<Longrightarrow>
      record_ring t s ring ! recent_bucket_index b = ring ! recent_bucket_index b" for b
    by (auto simp: record_ring_def Let_def)
  have same_slot: "history_count (h @ [(t, s)]) b ok = 0"
    if "recent_bucket_index b = ?i" "b \<noteq> ?e" "?e - int bucket_count < b" for b ok
  proof -
    have "b mod 20 = ?e mod 20" "?e - 20 < b"
      using that by (simp_all add: recent_bucket_index_eq bucket_count_def)
    then have "20 dvd ?e - b" by (simp add: mod_eq_dvd_iff [symmetric])
    have "?e < b"
      using zdvd_imp_le [OF \<open>20 dvd ?e - b\<close>] \<open>b \<noteq> ?e\<close> \<open>?e - 20 < b\<close> by linarith
    then have "\<forall>x \<in> set h. recent_bucket_id (fst x) \<noteq> b" using mono by fastforce
    then show ?thesis using \<open>b \<noteq> ?e\<close> by (simp add: history_count_snoc history_count_absent)
  qed
  show ?thesis
    unfolding ring_refines_def Let_def
  proof (intro conjI allI impI)
    show "length (record_ring t s ring) = bucket_count"
      using len by (simp add: record_ring_def Let_def)
  next
    fix b assume id: "rb_id (record_ring t s ring ! recent_bucket_index b) = b"
    have "rb_success (record_ring t s ring ! recent_bucket_index b) = history_count (h @ [(t, s)]) b True \<and>
        rb_failed (record_ring t s ring ! recent_bucket_index b) = history_count (h @ [(t, s)]) b False"
    proof (cases "recent_bucket_index b = ?i")
      case True
      then have "b = ?e" using id slot by (metis request_bucket.select_convs(1))
      then show ?thesis
        unfolding True slot by (simp only: request_bucket.select_convs simp_thms)
    next
      case False
      then have "b \<noteq> ?e" by auto
      then show ?thesis
        using id hit [of b] unfolding other [OF False] by (simp add: history_count_snoc)
    qed
    then show "rb_success (record_ring t s ring ! recent_bucket_index b) = history_count (h @ [(t, s)]) b True"
      and "rb_failed (record_ring t s ring ! recent_bucket_index b) = history_count (h @ [(t, s)]) b False"
      by blast+
  next
    fix b l
    assume id: "rb_id (record_ring t s ring ! recent_bucket_index b) \<noteq> b"
      and le: "\<forall>x \<in> set (h @ [(t, s)]). recent_bucket_id (fst x) \<le> l"
      and gt: "l - int bucket_count < b"
    have z: "history_count (h @ [(t, s)]) b ok = 0" for ok
    proof (cases "recent_bucket_index b = ?i")
      case True
      then show ?thesis using id slot le gt same_slot [of b ok] by auto
    next
      case False
      then have "b \<noteq> ?e" by auto
      moreover have "history_count h b ok = 0"
        using id other [OF False] miss [of b l] le gt by (cases ok) auto
      ultimately show ?thesis by (simp add: history_count_snoc)
    qed
    show "history_count (h @ [(t, s)]) b True = 0" and "history_count (h @ [(t, s)]) b False = 0"
      by (rule z)+
  qed
qed

lemma ring_refines_history:
  assumes "sorted (map (\<lambda>x. recent_bucket_id (fst x)) (g @ h))" and "ring_refines (a_recent a) g"
  shows "ring_refines (a_recent (record_history a h)) (g @ h)"
  using assms
proof (induction h arbitrary: a g)
  case Nil
  then show ?case by simp
next
  case (Cons x h)
  obtain t s where x: "x = (t, s)" by (cases x)
  have "ring_refines (a_recent (record_recent_request a t s)) (g @ [(t, s)])"
    using Cons.prems x
    by (auto simp: record_recent_request_def sorted_append intro!: ring_refines_record)
  then show ?case
    using Cons.IH [of "g @ [(t, s)]" "record_recent_request a t s"] Cons.prems(1) x by simp
qed

lemma ring_refines_snapshot:
  assumes "ring_refines (a_recent a) h"
    and "\<forall>x \<in> set h. recent_bucket_id (fst x) \<le> recent_bucket_id now"
  shows "recent_requests_snapshot label (Some a) now =
     map (\<lambda>i. let b = recent_bucket_id now - int i in
            (label b, history_count h b True, history_count h b False)) (rev [0..<bucket_count])"
proof -
  have "(let e = a_recent a ! recent_bucket_index b in
          if rb_id e = b then (label b, rb_success e, rb_failed e) else (label b, 0, 0)) =
        (label b, history_count h b True, history_count h b False)"
    if "recent_bucket_id now - int bucket_count < b" for b
    using assms that by (auto simp: ring_refines_def Let_def)
  then show ?thesis
    by (auto simp: recent_requests_snapshot_def Let_def)
qed

end
