(* ===== verification/RuntimeConfig.thy ===== *)
theory RuntimeConfig
  imports AuthTypes
begin

text \<open>
  The part of the runtime configuration that routing and cooling read
  (\<open>internal/config/config_types.go\<close>, \<open>config.go\<close>, \<open>vertex_compat.go\<close>) and the search for the
  entry a credential was built from (\<open>sdk/cliproxy/auth/conductor_models.go\<close>). The key
  structures of the six providers are read through one Go interface and are one record here;
  so are their model structures.
\<close>

section \<open>Configuration\<close>

record model_entry =
  me_name :: string
  me_alias :: string
  me_force :: bool

record key_config =
  kc_api_key :: string
  kc_base_url :: string
  kc_prefix :: string
  kc_proxy_url :: string
  kc_models :: "model_entry list"

record compat_config =
  cc_name :: string
  cc_disabled :: bool
  cc_disable_cooling :: bool
  cc_models :: "model_entry list"

record runtime_config =
  rc_disable_cooling :: bool
  rc_compat :: "compat_config list"
  rc_gemini :: "key_config list"
  rc_interactions :: "key_config list"
  rc_claude :: "key_config list"
  rc_codex :: "key_config list"
  rc_xai :: "key_config list"
  rc_vertex :: "key_config list"
  rc_antigravity_credits :: bool

text \<open>\<open>&Config{}\<close>.\<close>

definition empty_config :: runtime_config where
  "empty_config =
     \<lparr>rc_disable_cooling = False, rc_compat = [], rc_gemini = [], rc_interactions = [],
      rc_claude = [], rc_codex = [], rc_xai = [], rc_vertex = [], rc_antigravity_credits = False\<rparr>"

section \<open>The entry of an OpenAI-compatible provider\<close>

definition resolve_openai_compat_config ::
  "runtime_config option \<Rightarrow> string \<Rightarrow> string \<Rightarrow> string \<Rightarrow> compat_config option" where
  "resolve_openai_compat_config cfg provider_key compat_name auth_provider =
     (case cfg of
        None \<Rightarrow> None
      | Some c \<Rightarrow>
          let candidates = filter (\<lambda>v. v \<noteq> [])
                [trim_space compat_name, trim_space provider_key, trim_space auth_provider]
          in find (\<lambda>compat. \<not> cc_disabled compat \<and>
                     list_ex (\<lambda>cand. cand \<noteq> [] \<and> equal_fold (trim_space cand) (cc_name compat))
                       candidates)
               (rc_compat c))"

text \<open>The entry at the index a configured credential remembers, when it is still in range.\<close>

definition indexed_entry :: "auth \<Rightarrow> 'e list \<Rightarrow> ('e \<Rightarrow> bool) \<Rightarrow> 'e option" where
  "indexed_entry a entries ok =
     (if auth_source_kind (Some a) \<noteq> ''config'' then None
      else (case parse_int64 (auth_attribute a ''config_index'') of
              None \<Rightarrow> None
            | Some i \<Rightarrow>
                if 0 \<le> i \<and> i < int (length entries) \<and> ok (entries ! nat i)
                then Some (entries ! nat i) else None))"

definition resolve_openai_compat_config_for_auth ::
  "runtime_config option \<Rightarrow> auth option \<Rightarrow> string \<Rightarrow> string \<Rightarrow> compat_config option" where
  "resolve_openai_compat_config_for_auth cfg ao provider_key compat_name =
     (case cfg of
        None \<Rightarrow> None
      | Some c \<Rightarrow>
          (case (case ao of None \<Rightarrow> None
                          | Some a \<Rightarrow> indexed_entry a (rc_compat c) (\<lambda>e. \<not> cc_disabled e)) of
             Some e \<Rightarrow> Some e
           | None \<Rightarrow>
               resolve_openai_compat_config cfg provider_key compat_name
                 (case ao of None \<Rightarrow> [] | Some a \<Rightarrow> a_provider a)))"

section \<open>The entry of an API key\<close>

definition matches_credentials :: "string \<Rightarrow> string \<Rightarrow> key_config \<Rightarrow> bool" where
  "matches_credentials attr_key attr_base entry =
     (let cfg_key = trim_space (kc_api_key entry); cfg_base = trim_space (kc_base_url entry) in
      if attr_key \<noteq> [] \<and> attr_base \<noteq> []
      then equal_fold cfg_key attr_key \<and> equal_fold cfg_base attr_base
      else if attr_key \<noteq> []
      then equal_fold cfg_key attr_key \<and> (cfg_base = [] \<or> equal_fold cfg_base attr_base)
      else attr_base \<noteq> [] \<and> equal_fold cfg_base attr_base)"

definition resolve_api_key_config :: "key_config list \<Rightarrow> auth option \<Rightarrow> key_config option" where
  "resolve_api_key_config entries ao =
     (case ao of
        None \<Rightarrow> None
      | Some a \<Rightarrow>
          if entries = [] then None
          else
            let attr_key = auth_attribute a ''api_key''; attr_base = auth_attribute a ''base_url'';
                credentials = matches_credentials attr_key attr_base;
                placed = (\<lambda>e. credentials e \<and>
                   equal_fold (trim_space (kc_prefix e)) (trim_space (a_prefix a)) \<and>
                   equal_fold (trim_space (kc_proxy_url e)) (trim_space (a_proxy_url a)))
            in (case indexed_entry a entries credentials of
                  Some e \<Rightarrow> Some e
                | None \<Rightarrow>
                   (case find placed entries of
                      Some e \<Rightarrow> Some e
                    | None \<Rightarrow>
                       (case find credentials entries of
                          Some e \<Rightarrow> Some e
                        | None \<Rightarrow>
                            if attr_key \<noteq> []
                            then find (\<lambda>e. equal_fold (trim_space (kc_api_key e)) attr_key) entries
                            else None))))"

text \<open>The key list a provider name selects; the other providers are OpenAI-compatible.\<close>

definition provider_keys :: "runtime_config \<Rightarrow> string \<Rightarrow> key_config list option" where
  "provider_keys c provider =
     (if provider = ''gemini'' then Some (rc_gemini c)
      else if provider = ''gemini-interactions'' then Some (rc_interactions c)
      else if provider = ''claude'' then Some (rc_claude c)
      else if provider = ''codex'' then Some (rc_codex c)
      else if provider = ''xai'' then Some (rc_xai c)
      else if provider = ''vertex'' then Some (rc_vertex c)
      else None)"

definition configured_model_alias_entries :: "runtime_config option \<Rightarrow> auth option \<Rightarrow> model_entry list" where
  "configured_model_alias_entries cfg ao =
     (case (cfg, ao) of
        (Some c, Some a) \<Rightarrow>
          (case provider_keys c (to_lower (trim_space (a_provider a))) of
             Some keys \<Rightarrow>
               (case resolve_api_key_config keys ao of None \<Rightarrow> [] | Some e \<Rightarrow> kc_models e)
           | None \<Rightarrow>
               let provider_key = auth_attribute a ''provider_key'';
                   compat_name = auth_attribute a ''compat_name''
               in if compat_name \<noteq> [] \<or> equal_fold (trim_space (a_provider a)) ''openai-compatibility''
                  then (case resolve_openai_compat_config_for_auth cfg ao provider_key compat_name of
                          None \<Rightarrow> [] | Some e \<Rightarrow> cc_models e)
                  else [])
      | _ \<Rightarrow> [])"

end
