(* ===== verification/Cooldown.thy ===== *)
theory Cooldown
  imports Availability ErrorClass RecentRequests RuntimeConfig
begin

text \<open>
  Cooldown and availability state of credentials (\<open>sdk/cliproxy/auth/conductor_cooldown.go\<close>):
  the backoff ladder, the per-model states and their aggregation into the credential, the
  effect of an execution result (\<open>MarkResult\<close>), the persisted cooldown records and the reset
  of a credential's quota. The manager's map of credentials is an association list; the calls
  into the registry, the scheduler and the cooldown store are a list of effects in call order.
\<close>

section \<open>Whether cooling is on\<close>

definition provider_cooling_disabled_for_auth :: "auth option \<Rightarrow> runtime_config option \<Rightarrow> bool" where
  "provider_cooling_disabled_for_auth ao cfg =
     (case (ao, cfg) of
        (Some a, Some c) \<Rightarrow>
          let provider = to_lower (trim_space (a_provider a));
              provider_key = auth_attribute a ''provider_key'';
              compat_name = auth_attribute a ''compat_name''
          in if provider = [] then False
             else if provider_key = [] \<and> compat_name = [] \<and> provider \<noteq> ''openai-compatibility''
               then False
             else
               let pk = (if provider_key = [] then provider else provider_key)
               in (case resolve_openai_compat_config cfg pk compat_name provider of
                     None \<Rightarrow> False
                   | Some entry \<Rightarrow> cc_disable_cooling entry)
      | _ \<Rightarrow> False)"

text \<open>\<open>global_off\<close> is the process-wide switch \<open>quotaCooldownDisabled\<close>.\<close>

definition quota_cooldown_disabled_for_auth_with_config ::
  "bool \<Rightarrow> auth option \<Rightarrow> runtime_config option \<Rightarrow> bool" where
  "quota_cooldown_disabled_for_auth_with_config global_off ao cfg =
     (case disable_cooling_override ao of
        Some b \<Rightarrow> b
      | None \<Rightarrow>
          if ao \<noteq> None \<and> provider_cooling_disabled_for_auth ao cfg then True
          else if (case cfg of Some c \<Rightarrow> rc_disable_cooling c | None \<Rightarrow> False) then True
          else global_off)"

section \<open>Durations\<close>

definition quota_backoff_base :: duration where "quota_backoff_base = second"

definition quota_backoff_max :: duration where "quota_backoff_max = 30 * minute"

definition transient_error_cooldown :: duration where "transient_error_cooldown = minute"

text \<open>Go's \<open>1 << n\<close> on a 64-bit \<open>int\<close>.\<close>

definition shl1 :: "int \<Rightarrow> int" where
  "shl1 n = (if n \<ge> 64 then 0 else wrap64 (2 ^ nat n))"

definition next_quota_cooldown :: "int \<Rightarrow> bool \<Rightarrow> duration \<times> int" where
  "next_quota_cooldown prev_level0 disable_cooling =
     (let prev_level = (if prev_level0 < 0 then 0 else prev_level0) in
      if disable_cooling then (0, prev_level)
      else
        let c0 = wrap64 (quota_backoff_base * shl1 prev_level);
            cooldown = (if c0 < quota_backoff_base then quota_backoff_base else c0)
        in if cooldown \<ge> quota_backoff_max then (quota_backoff_max, prev_level)
           else (cooldown, prev_level + 1))"

definition quota_cooldown_after_failure :: "quota_state \<Rightarrow> gotime \<Rightarrow> gotime \<times> int" where
  "quota_cooldown_after_failure q now =
     (if after (q_next_recover q) now then (q_next_recover q, q_backoff q)
      else (case next_quota_cooldown (q_backoff q) False of
              (cooldown, next_level) \<Rightarrow> ((if cooldown > 0 then now + cooldown else 0), next_level)))"

definition next_cloudflare_cooldown :: "int \<Rightarrow> bool \<Rightarrow> gotime \<Rightarrow> gotime \<times> int" where
  "next_cloudflare_cooldown backoff_level disable_cooling now =
     (if \<not> disable_cooling then
        (case next_quota_cooldown backoff_level disable_cooling of
           (c0, next_level) \<Rightarrow>
             let cooldown = (if c0 < 10 * second then 10 * second else c0)
             in ((if cooldown > 0 then now + cooldown else 0), next_level))
      else (0, backoff_level))"

definition next_transient_error_retry_after :: "int \<Rightarrow> gotime \<Rightarrow> gotime" where
  "next_transient_error_retry_after seconds now =
     (if seconds < 0 then 0
      else if seconds = 0 then now + transient_error_cooldown
      else now + wrap64 (seconds * second))"

definition recoverable_failure_retry_after :: "int \<Rightarrow> gotime \<Rightarrow> bool \<Rightarrow> gotime" where
  "recoverable_failure_retry_after seconds now disable_cooling =
     (if disable_cooling then 0 else next_transient_error_retry_after seconds now)"

section \<open>Model states\<close>

definition new_model_state :: model_state where
  "new_model_state =
     \<lparr>ms_status = StatusActive, ms_message = [], ms_unavailable = False, ms_next_retry = 0,
      ms_last_error = None, ms_quota = no_quota, ms_updated = 0\<rparr>"

definition merge_model_state :: "model_state option \<Rightarrow> model_state option \<Rightarrow> model_state option" where
  "merge_model_state target source =
     (case (target, source) of
        (None, _) \<Rightarrow> source
      | (_, None) \<Rightarrow> target
      | (Some t, Some s) \<Rightarrow>
          let preferred = (if after (ms_updated s) (ms_updated t) then s else t);
              fallback = (if after (ms_updated s) (ms_updated t) then t else s);
              later = (\<lambda>u v. if after u v then u else v);
              unavailable = (ms_unavailable t \<or> ms_unavailable s);
              exceeded = (q_exceeded (ms_quota t) \<or> q_exceeded (ms_quota s))
          in Some
            \<lparr>ms_status =
               (if ms_status t = StatusDisabled \<or> ms_status s = StatusDisabled then StatusDisabled
                else if unavailable \<or> exceeded then StatusError
                else ms_status preferred),
             ms_message =
               (if ms_message preferred = [] then ms_message fallback else ms_message preferred),
             ms_unavailable = unavailable,
             ms_next_retry = later (ms_next_retry s) (ms_next_retry t),
             ms_last_error =
               (if ms_last_error preferred = None then ms_last_error fallback
                else ms_last_error preferred),
             ms_quota =
               \<lparr>q_exceeded = exceeded,
                q_reason = (if q_reason (ms_quota preferred) = [] then q_reason (ms_quota fallback)
                            else q_reason (ms_quota preferred)),
                q_next_recover = later (q_next_recover (ms_quota s)) (q_next_recover (ms_quota t)),
                q_backoff = (if q_backoff (ms_quota s) > q_backoff (ms_quota t)
                             then q_backoff (ms_quota s) else q_backoff (ms_quota t))\<rparr>,
             ms_updated = later (ms_updated s) (ms_updated t)\<rparr>)"

type_synonym state_map = "(string \<times> model_state option) list"

fun normalize_loop :: "state_map \<Rightarrow> state_map \<Rightarrow> bool \<Rightarrow> state_map \<times> bool" where
  "normalize_loop [] normalized changed = (normalized, changed)"
| "normalize_loop ((model, st) # ms) normalized changed =
     (let k0 = canonical_model_key model;
          key = (if k0 = [] then trim_space model else k0);
          ch = (changed \<or> key \<noteq> model)
      in (case map_of normalized key of
            Some existing \<Rightarrow>
              normalize_loop ms (AList.update key (merge_model_state existing st) normalized) True
          | None \<Rightarrow> normalize_loop ms (AList.update key st normalized) ch))"

definition normalize_model_states :: "auth \<Rightarrow> auth \<times> bool" where
  "normalize_model_states a =
     (if a_model_states a = [] then (a, False)
      else (case normalize_loop (a_model_states a) [] False of
              (normalized, changed) \<Rightarrow>
                (if changed then a\<lparr>a_model_states := normalized\<rparr> else a, changed)))"

definition set_model_state :: "string \<Rightarrow> model_state \<Rightarrow> auth \<Rightarrow> auth" where
  "set_model_state key st a = a\<lparr>a_model_states := AList.update key (Some st) (a_model_states a)\<rparr>"

text \<open>
  \<open>ensureModelState\<close> returns a pointer into the map: the model returns the credential that
  holds the state, its key and the state; writing through the pointer is \<open>set_model_state\<close>.
\<close>

definition ensure_model_state :: "auth \<Rightarrow> string \<Rightarrow> (auth \<times> string \<times> model_state) option" where
  "ensure_model_state a model0 =
     (let key = canonical_model_key model0 in
      if key = [] then None
      else
        let a1 = fst (normalize_model_states a) in
        (case map_of (a_model_states a1) key of
           Some (Some st) \<Rightarrow> Some (a1, key, st)
         | _ \<Rightarrow> Some (set_model_state key new_model_state a1, key, new_model_state)))"

definition reset_model_state :: "gotime \<Rightarrow> model_state \<Rightarrow> model_state" where
  "reset_model_state now st =
     st\<lparr>ms_unavailable := False, ms_status := StatusActive, ms_message := [], ms_next_retry := 0,
        ms_last_error := None, ms_quota := no_quota, ms_updated := now\<rparr>"

definition model_state_is_clean :: "model_state option \<Rightarrow> bool" where
  "model_state_is_clean so =
     (case so of
        None \<Rightarrow> True
      | Some st \<Rightarrow>
          if ms_status st \<noteq> StatusActive then False
          else if ms_unavailable st \<or> ms_message st \<noteq> [] \<or> \<not> is_zero (ms_next_retry st) \<or>
                  ms_last_error st \<noteq> None then False
          else if q_exceeded (ms_quota st) \<or> q_reason (ms_quota st) \<noteq> [] \<or>
                  \<not> is_zero (q_next_recover (ms_quota st)) \<or> q_backoff (ms_quota st) \<noteq> 0 then False
          else True)"

section \<open>Aggregation into the credential\<close>

text \<open>The local variables of \<open>updateAggregatedAvailability\<close>.\<close>

record aggregate =
  ag_all :: bool
  ag_earliest :: gotime
  ag_exceeded :: bool
  ag_recover :: gotime
  ag_level :: int
  ag_has :: bool

definition aggregate_start :: aggregate where
  "aggregate_start =
     \<lparr>ag_all = True, ag_earliest = 0, ag_exceeded = False, ag_recover = 0, ag_level = 0,
      ag_has = False\<rparr>"

definition state_expired :: "gotime \<Rightarrow> model_state \<Rightarrow> bool" where
  "state_expired now st =
     (ms_status st \<noteq> StatusDisabled \<and> ms_unavailable st \<and> \<not> is_zero (ms_next_retry st) \<and>
      \<not> after (ms_next_retry st) now)"

definition refresh_state :: "gotime \<Rightarrow> model_state \<Rightarrow> model_state" where
  "refresh_state now st =
     (if state_expired now st then st\<lparr>ms_unavailable := False, ms_next_retry := 0\<rparr> else st)"

definition aggregate_step :: "gotime \<Rightarrow> model_state \<Rightarrow> aggregate \<Rightarrow> aggregate" where
  "aggregate_step now st ag =
     (let cooling = (ms_status st \<noteq> StatusDisabled \<and> ms_unavailable st \<and>
                     \<not> is_zero (ms_next_retry st) \<and> after (ms_next_retry st) now);
          unavailable = (ms_status st = StatusDisabled \<or> cooling);
          q = ms_quota st;
          a1 = ag\<lparr>ag_has := True,
                  ag_earliest :=
                    (if cooling \<and> (is_zero (ag_earliest ag) \<or>
                                    before (ms_next_retry st) (ag_earliest ag))
                     then ms_next_retry st else ag_earliest ag),
                  ag_all := (if \<not> unavailable then False else ag_all ag)\<rparr>
      in if q_exceeded q then
           a1\<lparr>ag_exceeded := True,
              ag_recover :=
                (if is_zero (ag_recover ag) \<or>
                    (\<not> is_zero (q_next_recover q) \<and> before (q_next_recover q) (ag_recover ag))
                 then q_next_recover q else ag_recover ag),
              ag_level := (if q_backoff q > ag_level ag then q_backoff q else ag_level ag)\<rparr>
         else a1)"

fun aggregate_loop :: "gotime \<Rightarrow> state_map \<Rightarrow> aggregate \<Rightarrow> aggregate \<times> state_map" where
  "aggregate_loop now [] ag = (ag, [])"
| "aggregate_loop now ((m, None) # ms) ag =
     (case aggregate_loop now ms ag of (ag', ms') \<Rightarrow> (ag', (m, None) # ms'))"
| "aggregate_loop now ((m, Some st) # ms) ag =
     (case aggregate_loop now ms (aggregate_step now st ag) of
        (ag', ms') \<Rightarrow> (ag', (m, Some (refresh_state now st)) # ms'))"

definition clear_aggregated_availability :: "auth \<Rightarrow> auth" where
  "clear_aggregated_availability a =
     a\<lparr>a_unavailable := False, a_next_retry := 0, a_quota := no_quota\<rparr>"

definition update_aggregated_availability :: "gotime \<Rightarrow> auth \<Rightarrow> auth" where
  "update_aggregated_availability now a =
     (if a_model_states a = [] then clear_aggregated_availability a
      else (case aggregate_loop now (a_model_states a) aggregate_start of
              (ag, ms) \<Rightarrow>
                let a1 = a\<lparr>a_model_states := ms\<rparr> in
                if \<not> ag_has ag then clear_aggregated_availability a1
                else
                  a1\<lparr>a_unavailable := ag_all ag,
                     a_next_retry := (if ag_all ag then ag_earliest ag else 0),
                     a_quota :=
                       (if ag_exceeded ag
                        then \<lparr>q_exceeded = True, q_reason = ''quota'',
                              q_next_recover = ag_recover ag, q_backoff = ag_level ag\<rparr>
                        else no_quota)\<rparr>))"

definition has_model_error :: "auth \<Rightarrow> gotime \<Rightarrow> bool" where
  "has_model_error a now =
     list_ex (\<lambda>(m, so). case so of
          None \<Rightarrow> False
        | Some st \<Rightarrow>
            ms_last_error st \<noteq> None \<or>
            (ms_status st = StatusError \<and> ms_unavailable st \<and>
             (is_zero (ms_next_retry st) \<or> after (ms_next_retry st) now)))
       (a_model_states a)"

definition clear_auth_state_on_success :: "gotime \<Rightarrow> auth \<Rightarrow> auth" where
  "clear_auth_state_on_success now a =
     a\<lparr>a_unavailable := False, a_status := StatusActive, a_status_message := [],
       a_quota := no_quota, a_last_error := None, a_next_retry := 0, a_updated := now\<rparr>"

section \<open>The effect of a failed execution\<close>

text \<open>The state of a model after a failure: the cooldown, a suspension reason, the quota flag.\<close>

definition note_state_failure :: "auth_error option \<Rightarrow> gotime \<Rightarrow> model_state \<Rightarrow> model_state" where
  "note_state_failure e now st =
     (let s1 = st\<lparr>ms_unavailable := True, ms_status := StatusError, ms_updated := now\<rparr> in
      case e of
        None \<Rightarrow> s1
      | Some x \<Rightarrow> s1\<lparr>ms_last_error := e, ms_message := err_message x\<rparr>)"

definition note_auth_failure :: "auth_error option \<Rightarrow> auth \<Rightarrow> auth" where
  "note_auth_failure e a =
     (case e of None \<Rightarrow> a | Some x \<Rightarrow> a\<lparr>a_last_error := e, a_status_message := err_message x\<rparr>)"

definition suspension :: "bool \<Rightarrow> string \<Rightarrow> string option" where
  "suspension disable_cooling reason = (if disable_cooling then None else Some reason)"

definition fail_model_state ::
  "int \<Rightarrow> bool \<Rightarrow> auth_error option \<Rightarrow> duration option \<Rightarrow> gotime \<Rightarrow> model_state \<Rightarrow>
   model_state \<times> string option \<times> bool" where
  "fail_model_state transient disable_cooling e retry_after now st =
     (let status = status_code_from_result e;
          pause = (\<lambda>d. if disable_cooling then 0 else now + d);
          recov = recoverable_failure_retry_after transient now disable_cooling
      in if is_model_support_result_error e then
           (st\<lparr>ms_next_retry := now + 12 * hour\<rparr>, Some ''model_not_supported'', False)
         else if is_cloudflare_challenge_result_error e then
           (case next_cloudflare_cooldown (q_backoff (ms_quota st)) disable_cooling now of
              (nxt, level) \<Rightarrow>
                (st\<lparr>ms_next_retry := nxt, ms_message := ''cloudflare challenge'',
                    ms_quota := \<lparr>q_exceeded = True, q_reason = ''cloudflare challenge'',
                                 q_next_recover = nxt, q_backoff = level\<rparr>\<rparr>, None, False))
         else if is_invalid_grant_result_error e then
           (st\<lparr>ms_next_retry := pause (30 * minute)\<rparr>, suspension disable_cooling ''invalid_grant'', False)
         else if status = 401 then
           (st\<lparr>ms_next_retry := pause (30 * minute)\<rparr>, suspension disable_cooling ''unauthorized'', False)
         else if status = 402 \<or> status = 403 then
           (st\<lparr>ms_next_retry := pause (30 * minute)\<rparr>, suspension disable_cooling ''payment_required'', False)
         else if status = 404 then
           (st\<lparr>ms_next_retry := pause (12 * hour)\<rparr>, suspension disable_cooling ''not_found'', False)
         else if status = 429 then
           (case (if disable_cooling then (0, q_backoff (ms_quota st))
                  else (case retry_after of
                          Some d \<Rightarrow> (now + d, q_backoff (ms_quota st))
                        | None \<Rightarrow> quota_cooldown_after_failure (ms_quota st) now)) of
              (nxt, level) \<Rightarrow>
                (st\<lparr>ms_next_retry := nxt,
                    ms_quota := \<lparr>q_exceeded = True, q_reason = ''quota'', q_next_recover = nxt,
                                 q_backoff = level\<rparr>\<rparr>,
                 suspension disable_cooling ''quota'', \<not> disable_cooling))
         else
           (st\<lparr>ms_next_retry := recov, ms_unavailable := \<not> is_zero recov\<rparr>, None, False))"

definition release_when_not_cooling :: "bool \<Rightarrow> model_state \<Rightarrow> model_state" where
  "release_when_not_cooling disable_cooling st =
     (if disable_cooling \<and> is_zero (ms_next_retry st) \<and> is_zero (q_next_recover (ms_quota st))
      then st\<lparr>ms_unavailable := False, ms_quota := (ms_quota st)\<lparr>q_exceeded := False\<rparr>\<rparr>
      else st)"

definition fail_model ::
  "int \<Rightarrow> bool \<Rightarrow> string \<Rightarrow> auth_error option \<Rightarrow> duration option \<Rightarrow> gotime \<Rightarrow> auth \<Rightarrow>
   auth \<times> string option \<times> bool" where
  "fail_model transient disable_cooling model_key e retry_after now a =
     (case ensure_model_state a model_key of
        None \<Rightarrow> (a, None, False)
      | Some (a1, key, st0) \<Rightarrow>
          (case fail_model_state transient disable_cooling e retry_after now
                  (note_state_failure e now st0) of
             (st1, suspend, quota) \<Rightarrow>
               let a2 = note_auth_failure e a1;
                   a3 = (if \<not> is_model_support_result_error e \<and> is_cloudflare_challenge_result_error e
                            \<and> a_last_error a2 \<noteq> None
                         then a2\<lparr>a_status_message := ''cloudflare challenge''\<rparr> else a2);
                   a4 = set_model_state key (release_when_not_cooling disable_cooling st1) a3;
                   a5 = a4\<lparr>a_status := StatusError, a_updated := now\<rparr>
               in (update_aggregated_availability now a5, suspend, quota)))"

definition apply_auth_failure_state ::
  "int \<Rightarrow> auth_error option \<Rightarrow> duration option \<Rightarrow> gotime \<Rightarrow> bool \<Rightarrow> auth \<Rightarrow> auth" where
  "apply_auth_failure_state transient e retry_after now disable_cooling a =
     (if should_skip_credential_cooldown e then a
      else
        let a1 = a\<lparr>a_unavailable := True, a_status := StatusError, a_updated := now\<rparr>;
            a2 = (case e of
                    None \<Rightarrow> a1
                  | Some x \<Rightarrow>
                      let b = a1\<lparr>a_last_error := e\<rparr>
                      in if err_message x \<noteq> [] then b\<lparr>a_status_message := err_message x\<rparr> else b);
            status = status_code_from_result e;
            pause = (\<lambda>d. if disable_cooling then 0 else now + d);
            recov = recoverable_failure_retry_after transient now disable_cooling;
            a3 =
              (if is_cloudflare_challenge_result_error e then
                 (case next_cloudflare_cooldown (q_backoff (a_quota a2)) disable_cooling now of
                    (nxt, level) \<Rightarrow>
                      a2\<lparr>a_status_message := ''cloudflare challenge'',
                         a_quota := \<lparr>q_exceeded = True, q_reason = ''cloudflare challenge'',
                                     q_next_recover = nxt, q_backoff = level\<rparr>,
                         a_next_retry := nxt\<rparr>)
               else if is_invalid_grant_result_error e then
                 a2\<lparr>a_status_message := ''invalid_grant'', a_next_retry := pause (30 * minute)\<rparr>
               else if status = 401 then
                 a2\<lparr>a_status_message := ''unauthorized'', a_next_retry := pause (30 * minute)\<rparr>
               else if status = 402 \<or> status = 403 then
                 a2\<lparr>a_status_message := ''payment_required'', a_next_retry := pause (30 * minute)\<rparr>
               else if status = 404 then
                 a2\<lparr>a_status_message := ''not_found'', a_next_retry := pause (12 * hour)\<rparr>
               else if status = 429 then
                 (case (if disable_cooling then (0, q_backoff (a_quota a2))
                        else (case retry_after of
                                Some d \<Rightarrow> (now + d, q_backoff (a_quota a2))
                              | None \<Rightarrow> quota_cooldown_after_failure (a_quota a2) now)) of
                    (nxt, level) \<Rightarrow>
                      a2\<lparr>a_status_message := ''quota exhausted'',
                         a_quota := \<lparr>q_exceeded = True, q_reason = ''quota'',
                                     q_next_recover = nxt, q_backoff = level\<rparr>,
                         a_next_retry := nxt\<rparr>)
               else if status \<in> set [408, 500, 502, 503, 504] then
                 a2\<lparr>a_status_message := ''transient upstream error'', a_next_retry := recov,
                    a_unavailable := \<not> is_zero recov\<rparr>
               else
                 a2\<lparr>a_status_message :=
                      (if a_status_message a2 = [] then ''request failed'' else a_status_message a2),
                    a_next_retry := recov, a_unavailable := \<not> is_zero recov\<rparr>)
        in if disable_cooling \<and> is_zero (a_next_retry a3) \<and> is_zero (q_next_recover (a_quota a3))
           then a3\<lparr>a_unavailable := False, a_quota := (a_quota a3)\<lparr>q_exceeded := False\<rparr>\<rparr>
           else a3)"

section \<open>The backoff ladder\<close>

lemma backoff_bounds: "0 < quota_backoff_base" "quota_backoff_base < quota_backoff_max"
  by (simp_all add: quota_backoff_base_def quota_backoff_max_def minute_def second_def)

lemma in_int64I: "0 \<le> x \<Longrightarrow> x \<le> 9223372036854775807 \<Longrightarrow> in_int64 x"
  by (simp add: in_int64_def int64_min_def int64_max_def)

lemma shl1_small: "0 \<le> n \<Longrightarrow> n < 63 \<Longrightarrow> shl1 n = 2 ^ nat n"
proof -
  assume n: "0 \<le> n" "n < 63"
  then have "(2::int) ^ nat n \<le> 2 ^ 62" by (intro power_increasing) auto
  then have "in_int64 (2 ^ nat n)" by (intro in_int64I) auto
  then show ?thesis using n by (simp add: shl1_def wrap64_id)
qed

text \<open>Up to level 33 the product does not overflow: the ladder is the capped power of two.\<close>

lemma next_quota_cooldown_ladder:
  assumes "0 \<le> l" "l \<le> 33"
  shows "next_quota_cooldown l False =
    (if l \<le> 10 then (2 ^ nat l * second, l + 1) else (quota_backoff_max, l))"
proof -
  have le: "(2::int) ^ nat l \<le> 2 ^ 33" using assms by (intro power_increasing) auto
  then have "in_int64 (second * 2 ^ nat l)" by (intro in_int64I) (auto simp: second_def)
  then have c: "wrap64 (quota_backoff_base * shl1 l) = second * 2 ^ nat l"
    using assms by (simp add: shl1_small quota_backoff_base_def wrap64_id)
  have "(1::int) \<le> 2 ^ nat l" by (rule one_le_power) simp
  then have ge: "\<not> second * 2 ^ nat l < second" by (simp add: second_def not_less)
  have step: "next_quota_cooldown l False =
      (if second * 2 ^ nat l \<ge> quota_backoff_max then (quota_backoff_max, l)
       else (second * 2 ^ nat l, l + 1))"
    using assms(1) c ge by (simp add: next_quota_cooldown_def Let_def quota_backoff_base_def)
  have "second * 2 ^ nat l \<ge> quota_backoff_max \<longleftrightarrow> \<not> l \<le> 10"
  proof (cases "l \<le> 10")
    case True
    then have "(2::int) ^ nat l \<le> 2 ^ 10" by (intro power_increasing) auto
    then show ?thesis using True by (simp add: quota_backoff_max_def minute_def second_def)
  next
    case False
    then have "(2::int) ^ 11 \<le> 2 ^ nat l" by (intro power_increasing) auto
    then show ?thesis using False by (simp add: quota_backoff_max_def minute_def second_def)
  qed
  then show ?thesis unfolding step by (simp add: mult.commute)
qed

lemma next_quota_cooldown_bounds:
  "quota_backoff_base \<le> fst (next_quota_cooldown l False) \<and>
   fst (next_quota_cooldown l False) \<le> quota_backoff_max"
  using backoff_bounds by (auto simp: next_quota_cooldown_def Let_def)

text \<open>The level after \<open>k\<close> failures in a row, starting without one.\<close>

fun level_after :: "nat \<Rightarrow> int" where
  "level_after 0 = 0"
| "level_after (Suc k) = snd (next_quota_cooldown (level_after k) False)"

lemma level_after_eq: "level_after k = min (int k) 11"
  by (induction k) (auto simp: next_quota_cooldown_ladder)

lemma quota_cooldown_after_failure_future:
  "now < fst (quota_cooldown_after_failure q now)"
proof (cases "after (q_next_recover q) now")
  case True
  then show ?thesis by (simp add: quota_cooldown_after_failure_def go_time)
next
  case False
  have "0 < fst (next_quota_cooldown (q_backoff q) False)"
    using next_quota_cooldown_bounds [of "q_backoff q"] backoff_bounds by linarith
  then show ?thesis
    using False
    by (cases "next_quota_cooldown (q_backoff q) False") (simp add: quota_cooldown_after_failure_def)
qed

text \<open>A failure inside an open window neither moves the window nor climbs the ladder.\<close>

lemma quota_window_reused:
  "now \<le> later \<Longrightarrow> later < fst (quota_cooldown_after_failure q now) \<Longrightarrow>
   quota_cooldown_after_failure
     (q\<lparr>q_next_recover := fst (quota_cooldown_after_failure q now),
        q_backoff := snd (quota_cooldown_after_failure q now)\<rparr>) later =
   quota_cooldown_after_failure q now"
  by (simp add: quota_cooldown_after_failure_def [of "q\<lparr>q_next_recover := _, q_backoff := _\<rparr>"] go_time)

section \<open>Well-formed states\<close>

text \<open>
  A quota is exceeded exactly while it carries a recovery time, and times are never negative.
\<close>

definition quota_wf :: "quota_state \<Rightarrow> bool" where
  "quota_wf q = (0 \<le> q_next_recover q \<and> (q_exceeded q \<longleftrightarrow> q_next_recover q \<noteq> 0))"

definition state_wf :: "model_state \<Rightarrow> bool" where
  "state_wf st = (quota_wf (ms_quota st) \<and> 0 \<le> ms_next_retry st)"

text \<open>A model name whose key needs no second reduction, as any name with at most one suffix.\<close>

definition plain_model :: "string \<Rightarrow> bool" where
  "plain_model m =
     (canonical_model_key m \<noteq> [] \<and>
      canonical_model_key (canonical_model_key m) = canonical_model_key m)"

definition states_wf :: "state_map \<Rightarrow> bool" where
  "states_wf ms =
     (keys_distinct ms \<and>
      (\<forall>(m, so) \<in> set ms. m \<noteq> [] \<and> canonical_model_key m = m \<and>
         (case so of None \<Rightarrow> True | Some st \<Rightarrow> state_wf st)))"

abbreviation auth_wf :: "auth \<Rightarrow> bool" where
  "auth_wf a \<equiv> states_wf (a_model_states a)"

lemma no_quota_wf [simp]: "quota_wf no_quota"
  by (simp add: quota_wf_def no_quota_def)

lemma new_model_state_wf [simp]: "state_wf new_model_state"
  by (simp add: state_wf_def new_model_state_def)

lemma reset_model_state_wf [simp]: "state_wf (reset_model_state now st)"
  by (simp add: state_wf_def reset_model_state_def)

lemma refresh_state_wf [simp]: "state_wf st \<Longrightarrow> state_wf (refresh_state now st)"
  by (simp add: state_wf_def refresh_state_def)

lemma states_wf_state:
  "states_wf ms \<Longrightarrow> map_of ms k = Some (Some st) \<Longrightarrow> state_wf st"
  by (auto simp: states_wf_def dest!: map_of_SomeD)

lemma states_wf_update:
  assumes "states_wf ms" "k \<noteq> []" "canonical_model_key k = k" "state_wf st"
  shows "states_wf (AList.update k (Some st) ms)"
proof -
  have "set (AList.update k (Some st) ms) \<subseteq> insert (k, Some st) (set ms)"
    by (induction ms) auto
  then show ?thesis using assms unfolding states_wf_def by fastforce
qed

lemma canonical_ne: "m \<noteq> [] \<Longrightarrow> canonical_model_key m = m \<Longrightarrow> canonical_model_key m \<noteq> []"
  by simp

lemma normalize_loop_canonical:
  "states_wf ms \<Longrightarrow> fst ` set ms \<inter> fst ` set acc = {} \<Longrightarrow> snd (normalize_loop ms acc False) = False"
proof (induction ms arbitrary: acc)
  case (Cons x ms)
  obtain k so where x: "x = (k, so)" by (cases x)
  have k: "canonical_model_key k = k" "k \<noteq> []" "k \<notin> fst ` set ms" "states_wf ms"
    using Cons.prems(1) x by (auto simp: states_wf_def)
  have acc: "map_of acc k = None" using Cons.prems(2) x by (auto simp: map_of_eq_None_iff)
  have "fst ` set ms \<inter> fst ` set (AList.update k so acc) = {}"
    using Cons.prems(2) k(3) x by (auto simp: dom_update)
  then show ?case using Cons.IH [OF k(4)] x k acc by (simp add: Let_def)
qed simp

lemma normalize_canonical: "auth_wf a \<Longrightarrow> normalize_model_states a = (a, False)"
  using normalize_loop_canonical [of "a_model_states a" "[]"]
  by (auto simp: normalize_model_states_def split: prod.split)

text \<open>On a well-formed credential, the state an operation works on and where it is kept.\<close>

definition current_state :: "auth \<Rightarrow> string \<Rightarrow> model_state" where
  "current_state a key =
     (case map_of (a_model_states a) key of Some (Some st) \<Rightarrow> st | _ \<Rightarrow> new_model_state)"

lemma current_state_wf: "auth_wf a \<Longrightarrow> state_wf (current_state a key)"
  using states_wf_state by (auto simp: current_state_def split: option.split)

lemma ensure_canonical:
  assumes "auth_wf a" "k \<noteq> []" "canonical_model_key k = k"
  shows "\<exists>a1. ensure_model_state a k = Some (a1, k, current_state a k) \<and>
    (\<forall>st. set_model_state k st a1 = set_model_state k st a) \<and>
    (a1 = a \<or> a1 = set_model_state k new_model_state a)"
proof (cases "\<exists>st. map_of (a_model_states a) k = Some (Some st)")
  case True
  then show ?thesis
    using assms by (auto simp: ensure_model_state_def normalize_canonical current_state_def Let_def)
next
  case False
  then have "ensure_model_state a k =
      Some (set_model_state k new_model_state a, k, new_model_state)"
    using assms by (auto simp: ensure_model_state_def normalize_canonical Let_def split: option.splits)
  moreover have "current_state a k = new_model_state"
    using False by (auto simp: current_state_def split: option.splits)
  moreover have "set_model_state k st (set_model_state k new_model_state a) = set_model_state k st a" for st
    by (simp add: set_model_state_def)
  ultimately show ?thesis by auto
qed

section \<open>Aggregation\<close>

definition present_states :: "state_map \<Rightarrow> model_state list" where
  "present_states ms = List.map_filter snd ms"

lemma present_states_simps [simp]:
  "present_states [] = []"
  "present_states ((m, None) # ms) = present_states ms"
  "present_states ((m, Some st) # ms) = st # present_states ms"
  by (simp_all add: present_states_def map_filter_simps)

lemma aggregate_loop_eq:
  "aggregate_loop now ms ag =
     (fold (aggregate_step now) (present_states ms) ag,
      map (\<lambda>(m, so). (m, map_option (refresh_state now) so)) ms)"
  by (induction now ms ag rule: aggregate_loop.induct) auto

definition state_down :: "gotime \<Rightarrow> model_state \<Rightarrow> bool" where
  "state_down now st =
     (ms_status st = StatusDisabled \<or>
      (ms_unavailable st \<and> ms_next_retry st \<noteq> 0 \<and> now < ms_next_retry st))"

lemma fold_aggregate_flags:
  "ag_all (fold (aggregate_step now) sts ag) \<longleftrightarrow> ag_all ag \<and> (\<forall>st \<in> set sts. state_down now st)"
  "ag_has (fold (aggregate_step now) sts ag) \<longleftrightarrow> ag_has ag \<or> sts \<noteq> []"
  "ag_exceeded (fold (aggregate_step now) sts ag) \<longleftrightarrow>
     ag_exceeded ag \<or> (\<exists>st \<in> set sts. q_exceeded (ms_quota st))"
  by (induction sts arbitrary: ag) (auto simp: aggregate_step_def state_down_def Let_def go_time)

text \<open>The earlier of two instants, 0 meaning none.\<close>

definition sooner :: "gotime \<Rightarrow> gotime \<Rightarrow> gotime" where
  "sooner t u = (if t = 0 then u else if u = 0 then t else min t u)"

lemma sooner_assoc: "sooner (sooner t u) v = sooner t (sooner u v)"
  by (auto simp: sooner_def min_def)

lemma sooner_commute: "sooner t u = sooner u t"
  by (auto simp: sooner_def)

lemma sooner_left_commute: "sooner t (sooner u v) = sooner u (sooner t v)"
  by (metis sooner_assoc sooner_commute)

lemmas sooner_ac = sooner_assoc sooner_commute sooner_left_commute

lemma aggregate_step_eq:
  "aggregate_step now st ag =
     \<lparr>ag_all = (ag_all ag \<and> state_down now st),
      ag_earliest = sooner (ag_earliest ag)
        (if ms_status st \<noteq> StatusDisabled \<and> state_down now st then ms_next_retry st else 0),
      ag_exceeded = (ag_exceeded ag \<or> q_exceeded (ms_quota st)),
      ag_recover = sooner (ag_recover ag)
        (if q_exceeded (ms_quota st) then q_next_recover (ms_quota st) else 0),
      ag_level = (if q_exceeded (ms_quota st) then max (q_backoff (ms_quota st)) (ag_level ag)
                  else ag_level ag),
      ag_has = True\<rparr>"
  by (cases ag) (auto simp: aggregate_step_def state_down_def sooner_def Let_def go_time min_def max_def)

lemma aggregate_step_commute:
  "aggregate_step now s \<circ> aggregate_step now t = aggregate_step now t \<circ> aggregate_step now s"
proof (rule ext)
  fix ag
  have s3: "sooner (sooner x u) v = sooner (sooner x v) u" for x u v
    by (simp add: sooner_ac)
  have m3: "(if b then max l (if c then max k x else x) else (if c then max k x else x)) =
      (if c then max k (if b then max l x else x) else (if b then max l x else x))" for b c and l k x :: int
    by (simp add: max.left_commute)
  show "(aggregate_step now s \<circ> aggregate_step now t) ag = (aggregate_step now t \<circ> aggregate_step now s) ag"
    unfolding comp_def aggregate_step_eq [of now s] aggregate_step_eq [of now t]
    using s3 m3 by auto
qed

lemma present_states_mset: "mset ms = mset ms' \<Longrightarrow> mset (present_states ms) = mset (present_states ms')"
proof -
  have "present_states xs = map (\<lambda>x. the (snd x)) (filter (\<lambda>x. snd x \<noteq> None) xs)" for xs
    by (simp add: present_states_def List.map_filter_def comp_def)
  then show "mset ms = mset ms' \<Longrightarrow> mset (present_states ms) = mset (present_states ms')" by simp
qed

lemma aggregation_order_independent:
  fixes now :: gotime
  assumes "mset ms = mset (a_model_states a)"
  defines "b \<equiv> update_aggregated_availability now a"
    and "b' \<equiv> update_aggregated_availability now (a\<lparr>a_model_states := ms\<rparr>)"
  shows "b' = b\<lparr>a_model_states := a_model_states b'\<rparr> \<and>
    mset (a_model_states b') = mset (a_model_states b)"
proof -
  have ne: "ms = [] \<longleftrightarrow> a_model_states a = []" using assms(1) by auto
  have f: "fold (aggregate_step now) (present_states ms) =
      fold (aggregate_step now) (present_states (a_model_states a))"
    by (rule fold_multiset_equiv [OF aggregate_step_commute present_states_mset [OF assms(1)]])
  show ?thesis
    using ne assms(1)
    by (auto simp: b_def b'_def update_aggregated_availability_def aggregate_loop_eq f Let_def
        clear_aggregated_availability_def)
qed

lemma update_aggregated_states:
  "a_model_states (update_aggregated_availability now a) =
     map (\<lambda>(m, so). (m, map_option (refresh_state now) so)) (a_model_states a)"
  by (auto simp: update_aggregated_availability_def aggregate_loop_eq Let_def
      clear_aggregated_availability_def)

lemma map_of_map_option:
  "map_of (map (\<lambda>(m, so). (m, map_option f so)) ms) k = map_option (map_option f) (map_of ms k)"
  by (induction ms) auto

lemma update_aggregated_other:
  "a_disabled (update_aggregated_availability now a) = a_disabled a"
  "a_status (update_aggregated_availability now a) = a_status a"
  "a_id (update_aggregated_availability now a) = a_id a"
  "a_metadata (update_aggregated_availability now a) = a_metadata a"
  "a_last_error (update_aggregated_availability now a) = a_last_error a"
  by (simp_all add: update_aggregated_availability_def clear_aggregated_availability_def Let_def
      split: prod.split)

lemma update_aggregated_wf: "auth_wf a \<Longrightarrow> auth_wf (update_aggregated_availability now a)"
proof -
  assume a: "auth_wf a"
  have k: "map fst (map (\<lambda>(m, so). (m, map_option f so)) ms) = map fst ms" for f and ms :: state_map
    by (induction ms) auto
  show ?thesis
    using a unfolding update_aggregated_states states_wf_def k
    by (fastforce split: option.splits)
qed

text \<open>What the aggregation computes.\<close>

lemma update_aggregated_unavailable:
  "a_unavailable (update_aggregated_availability now a) \<longleftrightarrow>
     present_states (a_model_states a) \<noteq> [] \<and>
     (\<forall>st \<in> set (present_states (a_model_states a)). state_down now st)"
  by (auto simp: update_aggregated_availability_def aggregate_loop_eq fold_aggregate_flags Let_def
      clear_aggregated_availability_def aggregate_start_def)

lemma fold_aggregate_earliest:
  "(\<forall>st \<in> set sts. state_down now st \<and> ms_status st \<noteq> StatusDisabled) \<Longrightarrow> sts \<noteq> [] \<Longrightarrow>
   ag_earliest (fold (aggregate_step now) sts ag) =
     sooner (ag_earliest ag) (Min (ms_next_retry ` set sts))"
proof (induction sts arbitrary: ag)
  case (Cons st sts)
  have nz: "ms_next_retry s \<noteq> 0" if "s \<in> set (st # sts)" for s
    using Cons.prems(1) that by (auto simp: state_down_def)
  show ?case
  proof (cases "sts = []")
    case True
    then show ?thesis using Cons.prems by (simp add: aggregate_step_eq)
  next
    case False
    have "Min (ms_next_retry ` set sts) \<in> ms_next_retry ` set sts" using False by (intro Min_in) auto
    then have "Min (ms_next_retry ` set sts) \<noteq> 0" using nz by auto
    then have "sooner (ms_next_retry st) (Min (ms_next_retry ` set sts)) =
        Min (ms_next_retry ` set (st # sts))"
      using nz [of st] False by (simp add: sooner_def)
    then show ?thesis
      using Cons.IH [of "aggregate_step now st ag"] Cons.prems False
      by (simp add: aggregate_step_eq sooner_assoc)
  qed
qed simp

lemma update_aggregated_next_retry:
  assumes "present_states (a_model_states a) \<noteq> []"
    and "\<forall>st \<in> set (present_states (a_model_states a)). state_down now st \<and> ms_status st \<noteq> StatusDisabled"
  shows "a_next_retry (update_aggregated_availability now a) =
    Min (ms_next_retry ` set (present_states (a_model_states a)))"
proof -
  have "a_model_states a \<noteq> []" using assms(1) by auto
  moreover have "sooner 0 t = t" for t by (simp add: sooner_def)
  ultimately show ?thesis
    using fold_aggregate_earliest [OF assms(2,1), of aggregate_start] assms
    by (simp add: update_aggregated_availability_def aggregate_loop_eq fold_aggregate_flags Let_def
        aggregate_start_def)
qed

section \<open>The verdict on a well-formed credential\<close>

lemma matching_states_canonical:
  assumes "states_wf ms"
  shows "matching_states k ms = (case map_of ms k of Some (Some st) \<Rightarrow> [st] | _ \<Rightarrow> [])"
  using assms
proof (induction ms)
  case (Cons x ms)
  obtain m so where x: "x = (m, so)" by (cases x)
  have m: "canonical_model_key m = m" "m \<notin> fst ` set ms" "states_wf ms"
    using Cons.prems x by (auto simp: states_wf_def)
  have none: "map_of ms m = None" using m(2) by (simp add: map_of_eq_None_iff)
  show ?case using Cons.IH [OF m(3)] m(1) none by (cases so) (auto simp: x)
qed simp

definition model_verdict :: "model_state option \<Rightarrow> gotime \<Rightarrow> block_verdict" where
  "model_verdict so now =
     (case so of
        None \<Rightarrow> (False, BlockNone, 0)
      | Some st \<Rightarrow> if ms_status st = StatusDisabled then (True, BlockDisabled, 0) else state_block st now)"

lemma scan_single:
  "matching_states key ms = [st] \<Longrightarrow>
   scan_model_states key now ms False (False, BlockNone, 0) =
     (if ms_status st = StatusDisabled then Inl (True, BlockDisabled, 0)
      else (case state_block st now of (b, r, n) \<Rightarrow>
        if \<not> b then Inr (True, (False, BlockNone, 0))
        else if is_zero n then Inl (True, r, 0)
        else Inr (True, (True, r, n))))"
proof (induction key ms rule: matching_states.induct)
  case (3 key mo st' xs)
  show ?case
  proof (cases "canonical_model_key mo = key")
    case True
    then have st': "st' = st" "matching_states key xs = []" using "3.prems" by auto
    have rest: "scan_model_states key now xs True w = Inr (True, w)" for w
      using scan_soft [of key xs now True w] st'(2) by simp
    show ?thesis
      using True st'(1) rest by (cases "state_block st now") simp
  next
    case False
    then show ?thesis using "3.IH" "3.prems" by simp
  qed
qed simp_all

lemma verdict_canonical:
  assumes now: "0 \<le> now" and wf: "auth_wf a" and en: "\<not> a_disabled a" "a_status a \<noteq> StatusDisabled"
    and m: "model \<noteq> []" and ne: "a_model_states a \<noteq> []"
  shows "is_auth_blocked_for_model (Some a) model now =
    model_verdict (Option.bind (map_of (a_model_states a) (canonical_model_key model)) id) now"
proof -
  let ?k = "canonical_model_key model"
  have mm: "matching_states ?k (a_model_states a) =
      (case map_of (a_model_states a) ?k of Some (Some st) \<Rightarrow> [st] | _ \<Rightarrow> [])"
    by (rule matching_states_canonical [OF wf])
  show ?thesis
  proof (cases "\<exists>st. map_of (a_model_states a) ?k = Some (Some st)")
    case False
    then have n: "matching_states ?k (a_model_states a) = []"
      "Option.bind (map_of (a_model_states a) ?k) id = None"
      using mm by (auto split: option.splits)
    have "is_auth_blocked_for_model (Some a) model now = (False, BlockNone, 0)"
      using blocked_for_model_eq [OF en m ne, of now] unfolding n by simp
    then show ?thesis unfolding n by (simp add: model_verdict_def)
  next
    case True
    then obtain st where st: "map_of (a_model_states a) ?k = Some (Some st)" by blast
    have mst: "matching_states ?k (a_model_states a) = [st]" using mm st by simp
    obtain b r n where s: "state_block st now = (b, r, n)" by (cases "state_block st now")
    note c = state_block_cases(1) [OF now s]
    note scan = scan_single [OF mst, of now]
    show ?thesis
    proof (cases "ms_status st = StatusDisabled")
      case True
      then show ?thesis
        using en m ne st scan by (simp add: is_auth_blocked_for_model_def model_verdict_def)
    next
      case False
      then show ?thesis
        using en m ne st scan s c
        by (cases b; cases "n = 0") (simp_all add: is_auth_blocked_for_model_def model_verdict_def go_time)
    qed
  qed
qed

text \<open>Dropping an expired mark does not change the verdict.\<close>

lemma refresh_state_block:
  assumes "0 \<le> now" "state_wf st"
  shows "state_block (refresh_state now st) now = state_block st now"
proof (cases "state_expired now st")
  case False
  then show ?thesis by (simp add: refresh_state_def)
next
  case True
  then have h: "ms_unavailable st" "ms_next_retry st \<noteq> 0" "\<not> now < ms_next_retry st"
    by (auto simp: state_expired_def go_time)
  have q: "q_exceeded (ms_quota st) \<longleftrightarrow> q_next_recover (ms_quota st) \<noteq> 0"
    "0 \<le> q_next_recover (ms_quota st)"
    using assms(2) by (auto simp: state_wf_def quota_wf_def)
  show ?thesis
    using True h q assms(1)
    by (auto simp: refresh_state_def state_block_def availability_block_def next_recovery_pair
        Let_def go_time)
qed

lemma refresh_state_status [simp]: "ms_status (refresh_state now st) = ms_status st"
  by (simp add: refresh_state_def)

lemma model_verdict_refresh:
  "0 \<le> now \<Longrightarrow> (case so of None \<Rightarrow> True | Some st \<Rightarrow> state_wf st) \<Longrightarrow>
   model_verdict (map_option (refresh_state now) so) now = model_verdict so now"
  by (cases so) (auto simp: model_verdict_def refresh_state_block)

end
