(* ===== verification/Manager.thy ===== *)
theory Manager
  imports Cooldown
begin

text \<open>
  The operations of the manager on its credentials' cooldown state
  (\<open>sdk/cliproxy/auth/conductor_cooldown.go\<close>): \<open>MarkResult\<close>, the availability-neutral
  result, the reset of a quota, the records of the cooldown store and their restoration.
\<close>

section \<open>State and effects\<close>

text \<open>
  \<open>mg_store\<close> and \<open>mg_scheduler\<close> tell whether a cooldown store and a scheduler are attached.
  Saving a credential, the hook and the error event are effects, as the other calls out are.
\<close>

record manager =
  mg_auths :: "(string \<times> auth option) list"
  mg_config :: "runtime_config option"
  mg_quota_off :: bool
  mg_transient :: int
  mg_store :: bool
  mg_scheduler :: bool

record exec_result =
  er_auth_id :: string
  er_model :: string
  er_success :: bool
  er_retry_after :: "duration option"
  er_error :: "auth_error option"

text \<open>
  Calls into the registry, the scheduler, the stores, the hook, the error events, the refresh
  loop and the executor of a provider.
\<close>

datatype effect =
    ClearModelQuota string string
  | SetModelQuota string string
  | ResumeModel string string
  | SuspendModel string string string
  | UpsertAuth auth
  | PersistCooldowns
  | SaveAuth auth
  | ResultHook exec_result
  | ErrorEvent exec_result "auth option"
  | AuthRegistered auth
  | AuthUpdated auth
  | Reschedule string
  | Unschedule string
  | CloseSessions string

definition cooldown_disabled_for_auth :: "manager \<Rightarrow> auth \<Rightarrow> bool" where
  "cooldown_disabled_for_auth m a =
     quota_cooldown_disabled_for_auth_with_config (mg_quota_off m) (Some a) (mg_config m)"

definition lookup_auth :: "manager \<Rightarrow> string \<Rightarrow> auth option" where
  "lookup_auth m i = (case map_of (mg_auths m) i of Some (Some a) \<Rightarrow> Some a | _ \<Rightarrow> None)"

definition store_auth :: "string \<Rightarrow> auth \<Rightarrow> manager \<Rightarrow> manager" where
  "store_auth i a m = m\<lparr>mg_auths := AList.update i (Some a) (mg_auths m)\<rparr>"

section \<open>Cooldown records\<close>

record cooldown_record =
  cr_provider :: string
  cr_auth_id :: string
  cr_auth_file :: string
  cr_model :: string
  cr_status :: string
  cr_next_retry :: gotime
  cr_reason :: string
  cr_quota :: quota_state
  cr_last_error :: "auth_error option"
  cr_updated :: gotime

definition cooldown_auth_file :: "auth \<Rightarrow> string" where
  "cooldown_auth_file a =
     (if auth_attribute a ''path'' \<noteq> [] then auth_attribute a ''path''
      else if trim_space (a_file_name a) \<noteq> [] then trim_space (a_file_name a)
      else [])"

definition cooldown_reason :: "string \<Rightarrow> quota_state \<Rightarrow> auth_error option \<Rightarrow> string" where
  "cooldown_reason status_message quota last_err =
     (if trim_space (q_reason quota) \<noteq> [] then trim_space (q_reason quota)
      else if trim_space status_message \<noteq> [] then trim_space status_message
      else (case last_err of
              None \<Rightarrow> []
            | Some e \<Rightarrow>
                if trim_space (err_code e) \<noteq> [] then trim_space (err_code e)
                else if trim_space (err_message e) \<noteq> [] then trim_space (err_message e)
                else []))"

definition auth_cooldown_state_record :: "auth \<Rightarrow> gotime \<Rightarrow> cooldown_record option" where
  "auth_cooldown_state_record a now =
     (if \<not> a_unavailable a \<or> is_zero (a_next_retry a) \<or> \<not> after (a_next_retry a) now then None
      else Some
        \<lparr>cr_provider = trim_space (a_provider a), cr_auth_id = a_id a,
         cr_auth_file = cooldown_auth_file a, cr_model = [], cr_status = ''cooling'',
         cr_next_retry = a_next_retry a,
         cr_reason = cooldown_reason (a_status_message a) (a_quota a) (a_last_error a),
         cr_quota = a_quota a, cr_last_error = a_last_error a, cr_updated = a_updated a\<rparr>)"

definition model_cooldown_state_record ::
  "auth \<Rightarrow> string \<Rightarrow> model_state option \<Rightarrow> gotime \<Rightarrow> cooldown_record option" where
  "model_cooldown_state_record a model0 so now =
     (let model = trim_space model0 in
      case so of
        None \<Rightarrow> None
      | Some st \<Rightarrow>
          if model = [] \<or> \<not> ms_unavailable st \<or> is_zero (ms_next_retry st) \<or>
             \<not> after (ms_next_retry st) now then None
          else Some
            \<lparr>cr_provider = trim_space (a_provider a), cr_auth_id = a_id a,
             cr_auth_file = cooldown_auth_file a, cr_model = model, cr_status = ''cooling'',
             cr_next_retry = ms_next_retry st,
             cr_reason = cooldown_reason (ms_message st) (ms_quota st) (ms_last_error st),
             cr_quota = ms_quota st, cr_last_error = ms_last_error st, cr_updated = ms_updated st\<rparr>)"

definition cooldown_state_records_for_auth :: "manager \<Rightarrow> auth \<Rightarrow> gotime \<Rightarrow> cooldown_record list" where
  "cooldown_state_records_for_auth m a now =
     (if a_id a = [] \<or> a_disabled a \<or> a_status a = StatusDisabled \<or> cooldown_disabled_for_auth m a
      then []
      else sort_key cr_model
        ((case auth_cooldown_state_record a now of None \<Rightarrow> [] | Some r \<Rightarrow> [r]) @
         List.map_filter (\<lambda>(model, so). model_cooldown_state_record a model so now)
           (a_model_states a)))"

definition cooldown_quota_equal :: "quota_state \<Rightarrow> quota_state \<Rightarrow> bool" where
  "cooldown_quota_equal a b =
     (q_exceeded a = q_exceeded b \<and> q_reason a = q_reason b \<and> q_backoff a = q_backoff b \<and>
      q_next_recover a = q_next_recover b)"

definition cooldown_error_equal :: "auth_error option \<Rightarrow> auth_error option \<Rightarrow> bool" where
  "cooldown_error_equal a b =
     (case (a, b) of
        (Some x, Some y) \<Rightarrow>
          err_code x = err_code y \<and> err_message x = err_message y \<and>
          err_retryable x = err_retryable y \<and> err_http x = err_http y
      | _ \<Rightarrow> a = None \<and> b = None)"

definition cooldown_state_record_equal :: "cooldown_record \<Rightarrow> cooldown_record \<Rightarrow> bool" where
  "cooldown_state_record_equal a b =
     (if cr_provider a \<noteq> cr_provider b \<or> cr_auth_id a \<noteq> cr_auth_id b \<or>
         cr_auth_file a \<noteq> cr_auth_file b \<or> cr_model a \<noteq> cr_model b \<or>
         cr_status a \<noteq> cr_status b \<or> cr_reason a \<noteq> cr_reason b \<or>
         cr_next_retry a \<noteq> cr_next_retry b \<or> cr_updated a \<noteq> cr_updated b \<or>
         \<not> cooldown_quota_equal (cr_quota a) (cr_quota b)
      then False
      else cooldown_error_equal (cr_last_error a) (cr_last_error b))"

fun cooldown_state_records_equal :: "cooldown_record list \<Rightarrow> cooldown_record list \<Rightarrow> bool" where
  "cooldown_state_records_equal [] [] = True"
| "cooldown_state_records_equal (a # as) (b # bs) =
     (cooldown_state_record_equal a b \<and> cooldown_state_records_equal as bs)"
| "cooldown_state_records_equal _ _ = False"

text \<open>The snapshot of all credentials, sorted by provider, credential and model.\<close>

definition cooldown_state_records_snapshot :: "manager \<Rightarrow> gotime \<Rightarrow> cooldown_record list" where
  "cooldown_state_records_snapshot m now =
     sort_key cr_provider (sort_key cr_auth_id (sort_key cr_model
       (concat (map (\<lambda>(i, ao). case ao of
                        None \<Rightarrow> []
                      | Some a \<Rightarrow> cooldown_state_records_for_auth m a now) (mg_auths m)))))"

section \<open>Results\<close>

definition count_result :: "gotime \<Rightarrow> bool \<Rightarrow> auth \<Rightarrow> auth" where
  "count_result now ok a =
     (let b = record_recent_request a now ok
      in if ok then b\<lparr>a_success := a_success b + 1\<rparr> else b\<lparr>a_failed := a_failed b + 1\<rparr>)"

definition succeed_model :: "string \<Rightarrow> gotime \<Rightarrow> auth \<Rightarrow> auth" where
  "succeed_model model_key now a =
     (case ensure_model_state a model_key of
        None \<Rightarrow> a
      | Some (a1, key, st) \<Rightarrow>
          let a2 = update_aggregated_availability now
                     (set_model_state key (reset_model_state now st) a1);
              a3 = (if \<not> has_model_error a2 now
                    then a2\<lparr>a_last_error := None, a_status_message := [], a_status := StatusActive\<rparr>
                    else a2)
          in a3\<lparr>a_updated := now\<rparr>)"

text \<open>The credential after a result, with the suspension reason and the quota flag.\<close>

definition mark_auth ::
  "int \<Rightarrow> bool \<Rightarrow> exec_result \<Rightarrow> gotime \<Rightarrow> auth \<Rightarrow> auth \<times> string option \<times> bool" where
  "mark_auth transient disable_cooling r now a =
     (let key = canonical_model_key (er_model r);
          a1 = count_result now (er_success r) a
      in if er_success r then
           (if key \<noteq> [] then succeed_model key now a1 else clear_auth_state_on_success now a1,
            None, False)
         else if key \<noteq> [] then
           (if \<not> should_skip_credential_cooldown (er_error r)
            then fail_model transient disable_cooling key (er_error r) (er_retry_after r) now a1
            else (a1, None, False))
         else
           (apply_auth_failure_state transient (er_error r) (er_retry_after r) now disable_cooling a1,
            None, False))"

definition mark_result :: "gotime \<Rightarrow> exec_result \<Rightarrow> manager \<Rightarrow> manager \<times> effect list" where
  "mark_result now r m =
     (if er_auth_id r = [] then (m, [])
      else
        let i = er_auth_id r; key = canonical_model_key (er_model r) in
        (case lookup_auth m i of
           None \<Rightarrow> (m, [ResultHook r, ErrorEvent r None])
         | Some a \<Rightarrow>
             (case mark_auth (mg_transient m) (cooldown_disabled_for_auth m a) r now a of
                (a', suspend, quota) \<Rightarrow>
                  let changed = (mg_store m \<and>
                        \<not> cooldown_state_records_equal (cooldown_state_records_for_auth m a now)
                            (cooldown_state_records_for_auth m a' now));
                      resume = (er_success r \<and> key \<noteq> [])
                  in (store_auth i a' m,
                      [SaveAuth a'] @
                      (if mg_scheduler m then [UpsertAuth a'] else []) @
                      (if changed then [PersistCooldowns] else []) @
                      (if resume then [ClearModelQuota i key] else []) @
                      (if quota \<and> key \<noteq> [] then [SetModelQuota i key] else []) @
                      (if resume then [ResumeModel i key]
                       else (case suspend of None \<Rightarrow> [] | Some why \<Rightarrow> [SuspendModel i key why])) @
                      [ResultHook r, ErrorEvent r (Some a')]))))"

definition record_availability_neutral_result ::
  "gotime \<Rightarrow> exec_result \<Rightarrow> manager \<Rightarrow> manager \<times> effect list" where
  "record_availability_neutral_result now r m =
     (if er_auth_id r = [] then (m, [])
      else (case lookup_auth m (er_auth_id r) of
              None \<Rightarrow> (m, [ResultHook r, ErrorEvent r None])
            | Some a \<Rightarrow>
                let a' = count_result now (er_success r) a
                in (store_auth (er_auth_id r) a' m,
                    [SaveAuth a', ResultHook r, ErrorEvent r (Some a')])))"

section \<open>Clearing, restoring and resetting\<close>

definition has_cooldown_mark :: "bool \<Rightarrow> gotime \<Rightarrow> quota_state \<Rightarrow> bool" where
  "has_cooldown_mark unavailable next_retry q =
     (unavailable \<or> \<not> is_zero next_retry \<or> q_exceeded q \<or> \<not> is_zero (q_next_recover q))"

definition clear_model_cooldown :: "gotime \<Rightarrow> model_state \<Rightarrow> model_state" where
  "clear_model_cooldown now st =
     (if has_cooldown_mark (ms_unavailable st) (ms_next_retry st) (ms_quota st)
      then st\<lparr>ms_unavailable := False, ms_next_retry := 0, ms_quota := no_quota, ms_updated := now\<rparr>
      else st)"

definition clear_cooldown_state_for_auth :: "gotime \<Rightarrow> auth \<Rightarrow> auth \<times> bool" where
  "clear_cooldown_state_for_auth now a =
     (let c1 = has_cooldown_mark (a_unavailable a) (a_next_retry a) (a_quota a);
          a1 = (if c1 then a\<lparr>a_unavailable := False, a_next_retry := 0, a_quota := no_quota,
                            a_updated := now\<rparr> else a);
          c2 = list_ex (\<lambda>(m, so). case so of
                   None \<Rightarrow> False
                 | Some st \<Rightarrow>
                     has_cooldown_mark (ms_unavailable st) (ms_next_retry st) (ms_quota st))
                 (a_model_states a);
          a2 = a1\<lparr>a_model_states :=
                 map (\<lambda>(m, so). (m, map_option (clear_model_cooldown now) so)) (a_model_states a1)\<rparr>
      in (if a_model_states a \<noteq> [] then update_aggregated_availability now a2 else a2, c1 \<or> c2))"

text \<open>\<open>clearDisabledCooldownStates\<close>: the credentials whose cooling is off or that are disabled.\<close>

definition clears_on_config :: "bool \<Rightarrow> runtime_config option \<Rightarrow> auth \<Rightarrow> bool" where
  "clears_on_config global_off cfg a =
     (quota_cooldown_disabled_for_auth_with_config global_off (Some a) cfg \<or> a_disabled a \<or>
      a_status a = StatusDisabled)"

fun clear_disabled_loop ::
  "gotime \<Rightarrow> bool \<Rightarrow> runtime_config option \<Rightarrow> (string \<times> auth option) list \<Rightarrow>
   (string \<times> auth option) list \<times> auth list" where
  "clear_disabled_loop now global_off cfg [] = ([], [])"
| "clear_disabled_loop now global_off cfg ((i, None) # as) =
     (case clear_disabled_loop now global_off cfg as of (as', snaps) \<Rightarrow> ((i, None) # as', snaps))"
| "clear_disabled_loop now global_off cfg ((i, Some a) # as) =
     (case clear_disabled_loop now global_off cfg as of (as', snaps) \<Rightarrow>
        (if \<not> clears_on_config global_off cfg a then ((i, Some a) # as', snaps)
         else (case clear_cooldown_state_for_auth now a of
                 (a', changed) \<Rightarrow>
                   ((i, Some a') # as', if changed then a' # snaps else snaps))))"

definition clear_disabled_cooldown_states ::
  "gotime \<Rightarrow> runtime_config option \<Rightarrow> manager \<Rightarrow> manager \<times> effect list \<times> bool" where
  "clear_disabled_cooldown_states now cfg m =
     (case clear_disabled_loop now (mg_quota_off m) cfg (mg_auths m) of
        (as', snaps) \<Rightarrow>
          (m\<lparr>mg_auths := as'\<rparr>, if mg_scheduler m then map UpsertAuth snaps else [], snaps \<noteq> []))"

definition restore_record_on_auth :: "cooldown_record \<Rightarrow> gotime \<Rightarrow> auth \<Rightarrow> auth" where
  "restore_record_on_auth rec now a =
     (let updated = (if is_zero (cr_updated rec) then now else cr_updated rec);
          reason = trim_space (cr_reason rec);
          model = trim_space (cr_model rec);
          q0 = cr_quota rec;
          quota = (if q_exceeded q0 \<and> is_zero (q_next_recover q0)
                   then q0\<lparr>q_next_recover := cr_next_retry rec\<rparr> else q0)
      in if model = [] then
           (let b = a\<lparr>a_unavailable := True, a_status := StatusError, a_next_retry := cr_next_retry rec,
                      a_quota := quota, a_updated := updated\<rparr>;
                c = (if reason \<noteq> [] then b\<lparr>a_status_message := reason\<rparr> else b)
            in c\<lparr>a_last_error := cr_last_error rec\<rparr>)
         else
           (case ensure_model_state a model of
              None \<Rightarrow> update_aggregated_availability now a
            | Some (a1, key, st) \<Rightarrow>
                let src = \<lparr>ms_status = StatusError, ms_message = reason, ms_unavailable = True,
                           ms_next_retry = cr_next_retry rec, ms_last_error = cr_last_error rec,
                           ms_quota = quota, ms_updated = updated\<rparr>
                in update_aggregated_availability now
                     (set_model_state key (the (merge_model_state (Some st) (Some src))) a1)))"

definition restore_cooldown_record :: "gotime \<Rightarrow> cooldown_record \<Rightarrow> manager \<Rightarrow> manager \<times> bool" where
  "restore_cooldown_record now rec m =
     (let i = trim_space (cr_auth_id rec) in
      if i = [] \<or> is_zero (cr_next_retry rec) \<or> \<not> after (cr_next_retry rec) now then (m, False)
      else (case lookup_auth m i of
              None \<Rightarrow> (m, False)
            | Some a \<Rightarrow>
                if a_disabled a \<or> a_status a = StatusDisabled \<or> cooldown_disabled_for_auth m a
                then (m, False)
                else (store_auth i (restore_record_on_auth rec now a) m, True)))"

text \<open>
  \<open>RestoreCooldownStates\<close> on the loaded records: the model records first, then the records
  of whole credentials; the scheduler gets the final snapshot of every restored credential.
\<close>

fun restore_loop ::
  "gotime \<Rightarrow> cooldown_record list \<Rightarrow> manager \<Rightarrow> (string \<times> auth) list \<Rightarrow>
   manager \<times> (string \<times> auth) list" where
  "restore_loop now [] m snaps = (m, snaps)"
| "restore_loop now (r # rs) m snaps =
     (case restore_cooldown_record now r m of
        (m1, ok) \<Rightarrow>
          restore_loop now rs m1
            (if ok then (case lookup_auth m1 (trim_space (cr_auth_id r)) of
                           Some a \<Rightarrow> AList.update (a_id a) a snaps
                         | None \<Rightarrow> snaps)
             else snaps))"

definition restore_cooldown_states ::
  "gotime \<Rightarrow> cooldown_record list \<Rightarrow> manager \<Rightarrow> manager \<times> effect list" where
  "restore_cooldown_states now records m =
     (if \<not> mg_store m \<or> records = [] then (m, [])
      else
        let model_level = filter (\<lambda>r. trim_space (cr_model r) \<noteq> []) records;
            auth_level = filter (\<lambda>r. trim_space (cr_model r) = []) records
        in (case restore_loop now model_level m [] of
              (m1, s1) \<Rightarrow>
                (case restore_loop now auth_level m1 s1 of
                   (m2, s2) \<Rightarrow>
                     (m2, (if mg_scheduler m then map (\<lambda>(i, a). UpsertAuth a) s2 else []) @
                          [PersistCooldowns]))))"

fun dedupe_loop :: "string list \<Rightarrow> string list \<Rightarrow> string list" where
  "dedupe_loop [] out = out"
| "dedupe_loop (v # vs) out =
     (let t = trim_space v in
      if t = [] then dedupe_loop vs out
      else if t \<in> set out then dedupe_loop vs out
      else dedupe_loop vs (out @ [t]))"

definition dedupe_strings :: "string list \<Rightarrow> string list" where
  "dedupe_strings values = (if length values < 2 then values else dedupe_loop values [])"

text \<open>
  \<open>ResetQuota\<close>. The models registered for the credential and whether saving it succeeds come
  from other components: \<open>registered\<close> and \<open>saved\<close>.
\<close>

definition reset_states :: "gotime \<Rightarrow> auth \<Rightarrow> auth" where
  "reset_states now a =
     a\<lparr>a_model_states :=
        map (\<lambda>(m, so). (m, if trim_space m = [] then so else map_option (reset_model_state now) so))
          (a_model_states a)\<rparr>"

definition reset_quota_auth :: "gotime \<Rightarrow> string list \<Rightarrow> auth \<Rightarrow> auth \<times> string list" where
  "reset_quota_auth now registered a =
     (let keys = filter (\<lambda>m. trim_space m \<noteq> []) (map fst (a_model_states a));
          a1 = reset_states now a;
          cleared = clear_cooldown_state_for_auth now a1;
          a2 = (if snd cleared then fst cleared
                else if a_model_states (fst cleared) \<noteq> []
                then update_aggregated_availability now (fst cleared) else fst cleared);
          models = dedupe_strings (if keys = [] then registered else keys);
          a3 = (if \<not> a_disabled a2 \<and> a_status a2 \<noteq> StatusDisabled \<and> \<not> has_model_error a2 now
                then a2\<lparr>a_last_error := None, a_status_message := [], a_status := StatusActive\<rparr>
                else a2)
      in (a3\<lparr>a_updated := now\<rparr>, models))"

datatype reset_outcome =
    ResetIdRequired
  | ResetUnknown
  | ResetSaveFailed
  | ResetDone auth "string list"

definition reset_quota ::
  "gotime \<Rightarrow> string list \<Rightarrow> bool \<Rightarrow> string \<Rightarrow> manager \<Rightarrow> reset_outcome \<times> manager \<times> effect list" where
  "reset_quota now registered saved auth_id0 m =
     (let i = trim_space auth_id0 in
      if i = [] then (ResetIdRequired, m, [])
      else (case lookup_auth m i of
              None \<Rightarrow> (ResetUnknown, m, [])
            | Some a \<Rightarrow>
                (case reset_quota_auth now registered a of
                   (a', models) \<Rightarrow>
                     let m' = store_auth i a' m;
                         changed = (mg_store m \<and>
                           \<not> cooldown_state_records_equal (cooldown_state_records_for_auth m a now)
                               (cooldown_state_records_for_auth m a' now))
                     in if \<not> saved then (ResetSaveFailed, m', [SaveAuth a'])
                        else (ResetDone a' models, m',
                              [SaveAuth a'] @
                              concat (map (\<lambda>k. [ClearModelQuota i k, ResumeModel i k]) models) @
                              (if mg_scheduler m then [UpsertAuth a'] else []) @
                              (if changed then [PersistCooldowns] else [])))))"

section \<open>The state after a failure\<close>

lemma count_result_fields [simp]:
  "a_model_states (count_result now ok a) = a_model_states a"
  "a_disabled (count_result now ok a) = a_disabled a"
  "a_status (count_result now ok a) = a_status a"
  "a_id (count_result now ok a) = a_id a"
  "a_metadata (count_result now ok a) = a_metadata a"
  "a_quota (count_result now ok a) = a_quota a"
  "a_unavailable (count_result now ok a) = a_unavailable a"
  "a_next_retry (count_result now ok a) = a_next_retry a"
  by (simp_all add: count_result_def record_recent_request_def Let_def)

text \<open>The state a failure leaves for its model.\<close>

definition failed_state ::
  "int \<Rightarrow> bool \<Rightarrow> auth_error option \<Rightarrow> duration option \<Rightarrow> gotime \<Rightarrow> model_state \<Rightarrow> model_state" where
  "failed_state transient dis e ra now st =
     release_when_not_cooling dis
       (fst (fail_model_state transient dis e ra now (note_state_failure e now st)))"

text \<open>The clock is past Go's zero time, hints are not negative, the configured pause fits.\<close>

definition sane_inputs :: "int \<Rightarrow> duration option \<Rightarrow> gotime \<Rightarrow> bool" where
  "sane_inputs transient ra now =
     (0 < now \<and> (case ra of None \<Rightarrow> True | Some d \<Rightarrow> 0 \<le> d) \<and> transient * second \<le> int64_max)"

lemma note_state_failure_fields [simp]:
  "ms_quota (note_state_failure e now st) = ms_quota st"
  "ms_unavailable (note_state_failure e now st) = True"
  "ms_status (note_state_failure e now st) = StatusError"
  "ms_next_retry (note_state_failure e now st) = ms_next_retry st"
  by (simp_all add: note_state_failure_def Let_def split: option.split)

lemma recoverable_nonneg:
  "sane_inputs transient ra now \<Longrightarrow> 0 \<le> recoverable_failure_retry_after transient now dis"
proof -
  assume h: "sane_inputs transient ra now"
  have "0 < transient \<Longrightarrow> wrap64 (transient * second) = transient * second"
    using h by (intro wrap64_id in_int64I) (auto simp: sane_inputs_def int64_max_def second_def)
  then show ?thesis
    using h by (auto simp: recoverable_failure_retry_after_def next_transient_error_retry_after_def
        sane_inputs_def transient_error_cooldown_def minute_def second_def)
qed

lemma recoverable_future:
  "sane_inputs transient ra now \<Longrightarrow> 0 \<le> transient \<Longrightarrow>
   now + second \<le> recoverable_failure_retry_after transient now False"
proof -
  assume h: "sane_inputs transient ra now" "0 \<le> transient"
  have "0 < transient \<Longrightarrow> wrap64 (transient * second) = transient * second"
    using h by (intro wrap64_id in_int64I) (auto simp: sane_inputs_def int64_max_def second_def)
  then show ?thesis
    using h by (auto simp: recoverable_failure_retry_after_def next_transient_error_retry_after_def
        sane_inputs_def transient_error_cooldown_def minute_def second_def)
qed

lemma cloudflare_future:
  "fst (next_cloudflare_cooldown level False now) \<ge> now + 10 * second"
  by (auto simp: next_cloudflare_cooldown_def second_def Let_def split: prod.split)

lemma quota_after_failure_pos: "0 \<le> now \<Longrightarrow> 0 < fst (quota_cooldown_after_failure q now)"
  using quota_cooldown_after_failure_future [of now q] by linarith

text \<open>The shape of the failed state: what is paused, for each class of failure.\<close>

definition quota_class :: "auth_error option \<Rightarrow> bool" where
  "quota_class e =
     (\<not> is_model_support_result_error e \<and> \<not> is_cloudflare_challenge_result_error e \<and>
      \<not> is_invalid_grant_result_error e \<and> status_code_from_result e = 429)"

definition quota_pause :: "duration option \<Rightarrow> gotime \<Rightarrow> quota_state \<Rightarrow> gotime \<times> int" where
  "quota_pause ra now q =
     (case ra of Some d \<Rightarrow> (now + d, q_backoff q) | None \<Rightarrow> quota_cooldown_after_failure q now)"

lemma fail_model_state_quota:
  "quota_class e \<Longrightarrow>
   fail_model_state transient False e ra now st =
     (case quota_pause ra now (ms_quota st) of (nxt, level) \<Rightarrow>
        (st\<lparr>ms_next_retry := nxt,
            ms_quota := \<lparr>q_exceeded = True, q_reason = ''quota'', q_next_recover = nxt, q_backoff = level\<rparr>\<rparr>,
         Some ''quota'', True))"
  by (simp add: quota_class_def fail_model_state_def quota_pause_def suspension_def Let_def)

lemma fail_model_state_keeps:
  assumes "\<not> is_cloudflare_challenge_result_error e \<or> is_model_support_result_error e"
    "\<not> quota_class e"
  shows "ms_quota (fst (fail_model_state transient dis e ra now st)) = ms_quota st"
  using assms by (auto simp: fail_model_state_def quota_class_def Let_def)

lemma fail_model_state_status [simp]:
  "ms_status (fst (fail_model_state transient dis e ra now st)) = ms_status st"
  by (simp add: fail_model_state_def Let_def split: prod.split)

lemma release_status [simp]: "ms_status (release_when_not_cooling dis st) = ms_status st"
  by (simp add: release_when_not_cooling_def)

lemma release_False [simp]: "release_when_not_cooling False st = st"
  by (simp add: release_when_not_cooling_def)

lemma failed_state_status [simp]: "ms_status (failed_state transient dis e ra now st) = StatusError"
  by (simp add: failed_state_def)

lemma fail_model_state_retry_nonneg:
  assumes s: "sane_inputs transient ra now" and st: "0 \<le> q_next_recover (ms_quota st)"
  shows "0 \<le> ms_next_retry (fst (fail_model_state transient dis e ra now st))"
proof -
  have now: "0 < now" and ra: "\<And>d. ra = Some d \<Longrightarrow> 0 \<le> d" using s by (auto simp: sane_inputs_def)
  have cf: "0 \<le> fst (next_cloudflare_cooldown l dis now)" for l
    using cloudflare_future [of now l] now
    by (cases dis) (auto simp: next_cloudflare_cooldown_def second_def)
  have qa: "0 \<le> fst (quota_cooldown_after_failure q now)" for q
    using quota_after_failure_pos [of now q] now by linarith
  show ?thesis
    using now ra recoverable_nonneg [OF s, of dis] cf [of "q_backoff (ms_quota st)"]
      qa [of "ms_quota st"]
    by (auto simp: fail_model_state_def Let_def hour_def minute_def second_def
        split: prod.splits option.splits)
qed

lemma failed_state_wf:
  assumes s: "sane_inputs transient ra now" and wf: "state_wf st"
  shows "state_wf (failed_state transient dis e ra now st)"
proof -
  let ?n = "note_state_failure e now st"
  let ?f = "fst (fail_model_state transient dis e ra now ?n)"
  have now: "0 < now" and ra: "\<And>d. ra = Some d \<Longrightarrow> 0 \<le> d" using s by (auto simp: sane_inputs_def)
  have q0: "quota_wf (ms_quota st)" using wf by (simp add: state_wf_def)
  have nr: "0 \<le> ms_next_retry ?f"
    using fail_model_state_retry_nonneg [OF s, of ?n dis e] q0 by (simp add: quota_wf_def)
  consider (keep) "ms_quota ?f = ms_quota st"
    | (set) "q_exceeded (ms_quota ?f)" "q_next_recover (ms_quota ?f) = ms_next_retry ?f"
        "ms_next_retry ?f = 0 \<longleftrightarrow> dis"
  proof (cases "quota_class e")
    case True
    have "fst (quota_pause ra now (ms_quota st)) \<noteq> 0"
      using now ra quota_after_failure_pos [of now "ms_quota st"]
      by (auto simp: quota_pause_def split: option.split)
    then show ?thesis
      using True fail_model_state_quota [OF True, of transient ra now ?n] that(2)
      by (cases dis) (auto simp: fail_model_state_def quota_class_def Let_def split: prod.splits)
  next
    case False
    show ?thesis
    proof (cases "is_cloudflare_challenge_result_error e \<and> \<not> is_model_support_result_error e")
      case True
      have "fst (next_cloudflare_cooldown (q_backoff (ms_quota st)) False now) \<noteq> 0"
        using cloudflare_future [of now "q_backoff (ms_quota st)"] now by (auto simp: second_def)
      then show ?thesis
        using True that(2)
        by (cases dis) (auto simp: fail_model_state_def Let_def next_cloudflare_cooldown_def
            split: prod.splits)
    next
      case nc: False
      then show ?thesis using fail_model_state_keeps [of e transient dis ra now ?n] False that(1) by auto
    qed
  qed
  then show ?thesis
  proof cases
    case keep
    then show ?thesis
      using q0 nr by (auto simp: failed_state_def release_when_not_cooling_def state_wf_def quota_wf_def go_time)
  next
    case set
    then show ?thesis
      using nr by (auto simp: failed_state_def release_when_not_cooling_def state_wf_def quota_wf_def go_time)
  qed
qed

text \<open>With cooling enabled every counted failure blocks its model for at least a second.\<close>

lemma fail_model_state_blocks:
  assumes s: "sane_inputs transient ra now" and tr: "0 \<le> transient"
    and ra: "case ra of None \<Rightarrow> True | Some d \<Rightarrow> second \<le> d \<or> \<not> quota_class e"
    and fresh: "quota_class e \<Longrightarrow> ra = None \<Longrightarrow> q_next_recover (ms_quota st) \<le> now"
  shows "now + second \<le> ms_next_retry (fst (fail_model_state transient False e ra now st))"
    and "ms_unavailable st \<Longrightarrow> ms_unavailable (fst (fail_model_state transient False e ra now st))"
proof -
  have now: "0 < now" using s by (simp add: sane_inputs_def)
  have rf: "now + second \<le> recoverable_failure_retry_after transient now False"
    by (rule recoverable_future [OF s tr])
  have cf: "now + second \<le> fst (next_cloudflare_cooldown l False now)" for l
    using cloudflare_future [of now l] by (simp add: second_def)
  have qa: "q_next_recover q \<le> now \<Longrightarrow> now + second \<le> fst (quota_cooldown_after_failure q now)" for q
    using next_quota_cooldown_bounds [of "q_backoff q"] backoff_bounds
    by (cases "next_quota_cooldown (q_backoff q) False")
      (auto simp: quota_cooldown_after_failure_def go_time quota_backoff_base_def)
  show "now + second \<le> ms_next_retry (fst (fail_model_state transient False e ra now st))"
  proof (cases "quota_class e")
    case True
    then show ?thesis
      unfolding fail_model_state_quota [OF True]
      using ra fresh qa [of "ms_quota st"] True
      by (cases ra) (auto simp: quota_pause_def split: prod.splits)
  next
    case False
    then show ?thesis
      using rf cf [of "q_backoff (ms_quota st)"]
      by (auto simp: fail_model_state_def quota_class_def Let_def hour_def minute_def second_def
          split: prod.splits)
  qed
  show "ms_unavailable st \<Longrightarrow> ms_unavailable (fst (fail_model_state transient False e ra now st))"
    using rf now by (auto simp: fail_model_state_def Let_def go_time second_def split: prod.splits option.splits)
qed

section \<open>What a result does to the credential\<close>

lemma set_model_state_fields [simp]:
  "a_disabled (set_model_state k st a) = a_disabled a"
  "a_status (set_model_state k st a) = a_status a"
  "a_model_states (set_model_state k st a) = AList.update k (Some st) (a_model_states a)"
  by (simp_all add: set_model_state_def)

lemma note_auth_failure_fields [simp]:
  "a_disabled (note_auth_failure e a) = a_disabled a"
  "a_model_states (note_auth_failure e a) = a_model_states a"
  "a_status (note_auth_failure e a) = a_status a"
  by (simp_all add: note_auth_failure_def split: option.split)

lemma update_after_ensure:
  "a1 = a \<or> a1 = set_model_state k new_model_state a \<Longrightarrow>
   AList.update k v (a_model_states a1) = AList.update k v (a_model_states a)"
  by auto

definition refreshed :: "gotime \<Rightarrow> state_map \<Rightarrow> state_map" where
  "refreshed now ms = map (\<lambda>(m, so). (m, map_option (refresh_state now) so)) ms"

lemma fail_model_result:
  fixes transient :: int and dis :: bool and ra :: "duration option" and e :: "auth_error option"
    and now :: gotime
  assumes wf: "auth_wf a" and k: "k \<noteq> []" "canonical_model_key k = k"
  defines "r \<equiv> fail_model transient dis k e ra now a"
  shows "a_model_states (fst r) = refreshed now
      (AList.update k (Some (failed_state transient dis e ra now (current_state a k))) (a_model_states a))"
    and "a_disabled (fst r) = a_disabled a" "a_status (fst r) = StatusError"
    and "snd r = snd (fail_model_state transient dis e ra now (note_state_failure e now (current_state a k)))"
proof -
  obtain a1 where a1: "ensure_model_state a k = Some (a1, k, current_state a k)"
    "a1 = a \<or> a1 = set_model_state k new_model_state a"
    using ensure_canonical [OF wf k] by blast
  have d: "a_disabled a1 = a_disabled a" using a1(2) by auto
  show "a_model_states (fst r) = refreshed now
      (AList.update k (Some (failed_state transient dis e ra now (current_state a k))) (a_model_states a))"
    using update_after_ensure [OF a1(2)]
    by (simp add: r_def fail_model_def a1(1) Let_def update_aggregated_states refreshed_def
        failed_state_def split: prod.split)
  show "a_disabled (fst r) = a_disabled a" "a_status (fst r) = StatusError"
    using d by (simp_all add: r_def fail_model_def a1(1) Let_def update_aggregated_other split: prod.split)
  show "snd r = snd (fail_model_state transient dis e ra now (note_state_failure e now (current_state a k)))"
    by (simp add: r_def fail_model_def a1(1) Let_def split: prod.split)
qed

lemma succeed_model_result:
  fixes now :: gotime
  assumes wf: "auth_wf a" and k: "k \<noteq> []" "canonical_model_key k = k"
  defines "r \<equiv> succeed_model k now a"
  shows "a_model_states r = refreshed now
      (AList.update k (Some (reset_model_state now (current_state a k))) (a_model_states a))"
    and "a_disabled r = a_disabled a"
    and "a_status a \<noteq> StatusDisabled \<Longrightarrow> a_status r \<noteq> StatusDisabled"
proof -
  obtain a1 where a1: "ensure_model_state a k = Some (a1, k, current_state a k)"
    "a1 = a \<or> a1 = set_model_state k new_model_state a"
    using ensure_canonical [OF wf k] by blast
  have d: "a_disabled a1 = a_disabled a" "a_status a1 = a_status a" using a1(2) by auto
  show "a_model_states r = refreshed now
      (AList.update k (Some (reset_model_state now (current_state a k))) (a_model_states a))"
    using update_after_ensure [OF a1(2)]
    by (simp add: r_def succeed_model_def a1(1) Let_def update_aggregated_states refreshed_def)
  show "a_disabled r = a_disabled a"
    "a_status a \<noteq> StatusDisabled \<Longrightarrow> a_status r \<noteq> StatusDisabled"
    using d by (simp_all add: r_def succeed_model_def a1(1) Let_def update_aggregated_other)
qed

lemma refreshed_wf: "states_wf ms \<Longrightarrow> states_wf (refreshed now ms)"
  using update_aggregated_wf [of "(new_auth [] [])\<lparr>a_model_states := ms\<rparr>" now]
  by (simp add: update_aggregated_states refreshed_def)

lemma refreshed_lookup:
  "map_of (refreshed now ms) k = map_option (map_option (refresh_state now)) (map_of ms k)"
  by (simp add: refreshed_def map_of_map_option)

lemma bind_id: "Option.bind (map_option (map_option f) x) id = map_option f (Option.bind x id)"
  by (cases x) auto

text \<open>The verdicts after one state was written and the credential aggregated.\<close>

lemma written_verdict:
  assumes now: "0 \<le> now" and wf: "auth_wf a" and k: "k \<noteq> []" "canonical_model_key k = k"
    and st: "state_wf st"
    and x: "a_model_states x = refreshed now (AList.update k (Some st) (a_model_states a))"
    and en: "\<not> a_disabled x" "a_status x \<noteq> StatusDisabled" and m: "m \<noteq> []"
  shows "is_auth_blocked_for_model (Some x) m now =
    (if canonical_model_key m = k then model_verdict (Some st) now
     else model_verdict (Option.bind (map_of (a_model_states a) (canonical_model_key m)) id) now)"
proof -
  have wfu: "states_wf (AList.update k (Some st) (a_model_states a))"
    by (rule states_wf_update [OF wf k st])
  then have wfx: "auth_wf x" unfolding x by (rule refreshed_wf)
  have ne: "a_model_states x \<noteq> []" by (simp add: x refreshed_def)
  have w: "case Option.bind (map_of (AList.update k (Some st) (a_model_states a)) j) id of
      None \<Rightarrow> True | Some s \<Rightarrow> state_wf s" for j
    using states_wf_state [OF wfu, of j] by (auto simp: Option.bind_eq_Some_conv split: option.split)
  show ?thesis
    unfolding verdict_canonical [OF now wfx en m ne]
    using model_verdict_refresh [OF now w [of "canonical_model_key m"]]
    by (simp add: x refreshed_lookup bind_id)
qed

lemma plain_modelD:
  "plain_model m \<Longrightarrow> canonical_model_key m \<noteq> [] \<and>
     canonical_model_key (canonical_model_key m) = canonical_model_key m \<and> m \<noteq> []"
  by (auto simp: plain_model_def canonical_model_key_def)

text \<open>The invariant.\<close>

lemma mark_auth_wf:
  assumes wf: "auth_wf a" and s: "sane_inputs transient (er_retry_after r) now"
    and m: "canonical_model_key (er_model r) = [] \<or> plain_model (er_model r)"
  shows "auth_wf (fst (mark_auth transient dis r now a))"
proof -
  let ?k = "canonical_model_key (er_model r)"
  let ?a = "count_result now (er_success r) a"
  have wfa: "auth_wf ?a" using wf by simp
  show ?thesis
  proof (cases "?k = []")
    case True
    have "a_model_states (clear_auth_state_on_success now x) = a_model_states x"
      "a_model_states (apply_auth_failure_state transient e ra now dis x) = a_model_states x" for e ra x
      by (simp_all add: clear_auth_state_on_success_def apply_auth_failure_state_def Let_def
          split: prod.split option.split)
    then show ?thesis using True wf by (simp add: mark_auth_def Let_def)
  next
    case False
    then have k: "?k \<noteq> []" "canonical_model_key ?k = ?k" using m plain_modelD by blast+
    have st: "state_wf (failed_state transient dis e (er_retry_after r) now (current_state ?a ?k))"
      "state_wf (reset_model_state now (current_state ?a ?k))" for e
      using failed_state_wf [OF s current_state_wf [OF wfa]] by simp_all
    have "auth_wf (succeed_model ?k now ?a)"
      unfolding succeed_model_result(1) [OF wfa k]
      by (rule refreshed_wf [OF states_wf_update [OF wfa k st(2)]])
    moreover have "auth_wf (fst (fail_model transient dis ?k (er_error r) (er_retry_after r) now ?a))"
      unfolding fail_model_result(1) [OF wfa k]
      by (rule refreshed_wf [OF states_wf_update [OF wfa k st(1)]])
    ultimately show ?thesis using False wf
      by (cases "er_success r") (simp_all add: mark_auth_def Let_def)
  qed
qed

lemma mark_auth_failure:
  assumes "canonical_model_key (er_model r) \<noteq> []" "\<not> er_success r"
    "\<not> should_skip_credential_cooldown (er_error r)"
  shows "mark_auth transient dis r now a =
    fail_model transient dis (canonical_model_key (er_model r)) (er_error r) (er_retry_after r) now
      (count_result now False a)"
  using assms by (simp add: mark_auth_def Let_def)

lemma mark_auth_success:
  assumes "canonical_model_key (er_model r) \<noteq> []" "er_success r"
  shows "fst (mark_auth transient dis r now a) =
    succeed_model (canonical_model_key (er_model r)) now (count_result now True a)"
  using assms by (simp add: mark_auth_def Let_def)

lemma reset_state_verdict: "model_verdict (Some (reset_model_state now st)) t = (False, BlockNone, 0)"
  by (simp add: model_verdict_def reset_model_state_def state_block_def availability_block_def no_quota_def)

lemma current_state_count [simp]: "current_state (count_result now ok a) k = current_state a k"
  by (simp add: current_state_def)

text \<open>One result, all verdicts: of its own model and of every other model.\<close>

lemma mark_auth_verdicts:
  assumes wf: "auth_wf a" and s: "sane_inputs transient (er_retry_after r) now"
    and pm: "plain_model (er_model r)"
    and en: "\<not> a_disabled a" "a_status a \<noteq> StatusDisabled" and m: "m \<noteq> []"
    and cnt: "er_success r \<or> \<not> should_skip_credential_cooldown (er_error r)"
  defines "k \<equiv> canonical_model_key (er_model r)"
  shows "is_auth_blocked_for_model (Some (fst (mark_auth transient dis r now a))) m now =
    (if canonical_model_key m = k
     then (if er_success r then (False, BlockNone, 0)
           else model_verdict (Some (failed_state transient dis (er_error r) (er_retry_after r) now
                  (current_state a k))) now)
     else model_verdict (Option.bind (map_of (a_model_states a) (canonical_model_key m)) id) now)"
proof -
  let ?a = "count_result now (er_success r) a"
  have now: "0 \<le> now" using s by (simp add: sane_inputs_def)
  have k: "k \<noteq> []" "canonical_model_key k = k" using plain_modelD [OF pm] by (simp_all add: k_def)
  have wfa: "auth_wf ?a" using wf by simp
  show ?thesis
  proof (cases "er_success r")
    case True
    have ms: "fst (mark_auth transient dis r now a) = succeed_model k now ?a"
      using mark_auth_success [of r transient dis now a] k True by (simp add: k_def)
    show ?thesis
      unfolding ms
      using written_verdict [OF now wfa k _ succeed_model_result(1) [OF wfa k] _ _ m]
        succeed_model_result(2,3) [OF wfa k, of now] en True
      by (simp add: reset_state_verdict)
  next
    case False
    have mf: "mark_auth transient dis r now a = fail_model transient dis k (er_error r) (er_retry_after r) now ?a"
      using mark_auth_failure [of r transient dis now a] k cnt False by (simp add: k_def)
    have st: "state_wf (failed_state transient dis (er_error r) (er_retry_after r) now (current_state ?a k))"
      by (rule failed_state_wf [OF s current_state_wf [OF wfa]])
    show ?thesis
      unfolding mf
      using written_verdict [OF now wfa k st fail_model_result(1) [OF wfa k] _ _ m]
        fail_model_result(2,3) [OF wfa k, of transient dis "er_error r" "er_retry_after r" now] en False
      by simp
  qed
qed

section \<open>Saving and restoring a cooldown\<close>

lemma canonical_trim: "trim_space (canonical_model_key m) = canonical_model_key m"
  by (simp add: canonical_model_key_def Let_def)

lemma merge_into_new:
  assumes "0 < ms_next_retry s" "0 \<le> q_next_recover (ms_quota s)" "ms_unavailable s"
    "ms_status s = StatusError"
  shows "\<exists>t. merge_model_state (Some new_model_state) (Some s) = Some t \<and>
    ms_unavailable t \<and> ms_status t = StatusError \<and> ms_next_retry t = ms_next_retry s \<and>
    q_exceeded (ms_quota t) = q_exceeded (ms_quota s) \<and>
    q_next_recover (ms_quota t) = q_next_recover (ms_quota s)"
  using assms by (auto simp: merge_model_state_def new_model_state_def no_quota_def Let_def go_time)

lemma record_restore_verdict:
  assumes now: "0 < now" and k: "k \<noteq> []" "canonical_model_key k = k" and st: "state_wf st"
    and nd: "ms_status st \<noteq> StatusDisabled"
    and rec: "model_cooldown_state_record a k (Some st) now = Some rec"
    and b: "auth_wf b" "map_of (a_model_states b) k = None" "\<not> a_disabled b" "a_status b \<noteq> StatusDisabled"
    and m: "m \<noteq> []" "canonical_model_key m = k"
  shows "is_auth_blocked_for_model (Some (restore_record_on_auth rec now b)) m now =
    model_verdict (Some st) now"
proof -
  have tk: "trim_space k = k" using canonical_trim [of k] k(2) by simp
  have r: "ms_unavailable st" "now < ms_next_retry st" "cr_model rec = k"
    "cr_next_retry rec = ms_next_retry st" "cr_quota rec = ms_quota st"
    using rec by (auto simp: model_cooldown_state_record_def tk Let_def go_time split: if_splits)
  have q: "0 \<le> q_next_recover (ms_quota st)" "q_exceeded (ms_quota st) \<Longrightarrow> q_next_recover (ms_quota st) \<noteq> 0"
    using st by (auto simp: state_wf_def quota_wf_def)
  have cs: "current_state b k = new_model_state" by (simp add: current_state_def b(2))
  obtain b1 where b1: "ensure_model_state b k = Some (b1, k, new_model_state)"
    "b1 = b \<or> b1 = set_model_state k new_model_state b"
    using ensure_canonical [OF b(1) k] cs by auto
  define src where "src = \<lparr>ms_status = StatusError, ms_message = trim_space (cr_reason rec),
     ms_unavailable = True, ms_next_retry = ms_next_retry st, ms_last_error = cr_last_error rec,
     ms_quota = ms_quota st, ms_updated = (if is_zero (cr_updated rec) then now else cr_updated rec)\<rparr>"
  obtain t where t: "merge_model_state (Some new_model_state) (Some src) = Some t"
    "ms_unavailable t" "ms_status t = StatusError" "ms_next_retry t = ms_next_retry st"
    "q_exceeded (ms_quota t) = q_exceeded (ms_quota st)"
    "q_next_recover (ms_quota t) = q_next_recover (ms_quota st)"
    using merge_into_new [of src] r(2) now q(1) by (auto simp: src_def)
  have wft: "state_wf t" using t st by (auto simp: state_wf_def quota_wf_def)
  have res: "restore_record_on_auth rec now b =
      update_aggregated_availability now (set_model_state k t b1)"
  proof -
    have qq: "(if q_exceeded (ms_quota st) \<and> is_zero (q_next_recover (ms_quota st))
        then (ms_quota st)\<lparr>q_next_recover := ms_next_retry st\<rparr> else ms_quota st) = ms_quota st"
      using q(2) by (auto simp: go_time)
    show ?thesis
      using k(1) t(1) unfolding restore_record_on_auth_def r tk Let_def qq
      by (simp add: b1(1) src_def)
  qed
  have ms: "a_model_states (restore_record_on_auth rec now b) =
      refreshed now (AList.update k (Some t) (a_model_states b))"
    using update_after_ensure [OF b1(2)] by (simp add: res update_aggregated_states refreshed_def)
  have en: "\<not> a_disabled (restore_record_on_auth rec now b)"
    "a_status (restore_record_on_auth rec now b) \<noteq> StatusDisabled"
    using b1(2) b(3,4) by (auto simp: res update_aggregated_other)
  have "model_verdict (Some t) now = model_verdict (Some st) now"
    using t nd r(1) by (simp add: model_verdict_def state_block_def)
  then show ?thesis
    using written_verdict [OF less_imp_le [OF now] b(1) k wft ms en m(1)] m(2) by simp
qed

end
