(* ===== verification/CooldownProperties.thy ===== *)
theory CooldownProperties
  imports Manager
begin

text \<open>
  The properties of results, cooldowns and backoff: what an execution result does to the
  availability of a credential, how long it is paused, and that the cooldown store brings
  the same verdict back. The sample credential of the witnesses cools down on one model.
\<close>

section \<open>Sample values\<close>

definition demo_state :: model_state where
  "demo_state = new_model_state\<lparr>ms_status := StatusError, ms_unavailable := True, ms_next_retry := 900 * second,
     ms_quota := \<lparr>q_exceeded = True, q_reason = ''quota'', q_next_recover = 900 * second, q_backoff = 3\<rparr>\<rparr>"

definition demo_auth :: auth where
  "demo_auth = (new_auth ''a'' ''claude'')\<lparr>a_status := StatusActive,
     a_model_states := [(''m'', Some demo_state), (''n'', Some new_model_state)]\<rparr>"

definition demo_result :: "bool \<Rightarrow> string \<Rightarrow> int \<Rightarrow> exec_result" where
  "demo_result ok model status =
     \<lparr>er_auth_id = ''a'', er_model = model, er_success = ok, er_retry_after = None,
      er_error = (if ok then None
        else Some \<lparr>err_code = [], err_message = ''rate limited'', err_retryable = True, err_http = status\<rparr>)\<rparr>"

lemma demo_auth_wf: "auth_wf demo_auth" by code_simp

lemma demo_auth_enabled: "\<not> a_disabled demo_auth" "a_status demo_auth \<noteq> StatusDisabled"
  by (simp_all add: demo_auth_def new_auth_def)

lemma demo_plain: "plain_model ''m''" "plain_model ''n''" "canonical_model_key ''m'' = ''m''"
  by code_simp+

lemma demo_sane: "sane_inputs 0 (er_retry_after (demo_result ok model status)) (1000 * second)"
  by (simp add: sane_inputs_def demo_result_def second_def int64_max_def)

lemma demo_counts: "\<not> should_skip_credential_cooldown (er_error (demo_result False model 429))"
  "quota_class (er_error (demo_result False model 429))"
  "er_success (demo_result True model 0)" "\<not> er_success (demo_result False model 429)"
  unfolding demo_result_def by code_simp+

lemmas demo_facts = demo_auth_wf demo_auth_enabled demo_plain demo_sane demo_counts

section \<open>What a result does to availability\<close>

text \<open>
  C25 A successful execution makes its model available again at once: after \<open>MarkResult\<close> of a
  success the credential is blocked for no model name with the same key, whatever cooldown the
  model was in.
\<close>

theorem success_unblocks:
  assumes "auth_wf a" "sane_inputs transient (er_retry_after r) now" "plain_model (er_model r)"
    and "\<not> a_disabled a" "a_status a \<noteq> StatusDisabled" "er_success r"
    and "m \<noteq> []" "canonical_model_key m = canonical_model_key (er_model r)"
  shows "\<not> fst (is_auth_blocked_for_model (Some (fst (mark_auth transient dis r now a))) m now)"
  using mark_auth_verdicts [OF assms(1-5,7)] assms(6,8) by simp

theorem success_unblocks_witness:
  "\<not> fst (is_auth_blocked_for_model
     (Some (fst (mark_auth 0 False (demo_result True ''m'' 0) (800 * second) demo_auth))) ''m'' (800 * second)) \<and>
   fst (is_auth_blocked_for_model (Some demo_auth) ''m'' (800 * second))"
proof
  show "\<not> fst (is_auth_blocked_for_model
     (Some (fst (mark_auth 0 False (demo_result True ''m'' 0) (800 * second) demo_auth))) ''m'' (800 * second))"
    by (rule success_unblocks)
      (simp_all add: demo_facts, simp_all add: demo_result_def sane_inputs_def second_def int64_max_def demo_plain)
  show "fst (is_auth_blocked_for_model (Some demo_auth) ''m'' (800 * second))" by code_simp
qed





text \<open>
  C37 A failure that is the request's own (cancelled connections, invalid requests, results
  marked as scoped to the request) only counts: the model states, the availability, the status
  and the quota of the credential stay as they were, in the branch with and without a model.
\<close>

theorem request_failures_only_count:
  assumes "\<not> er_success r" "should_skip_credential_cooldown (er_error r)"
  shows "mark_auth transient dis r now a = (count_result now False a, None, False) \<and>
    a_failed (count_result now False a) = a_failed a + 1 \<and>
    (\<forall>m t. is_auth_blocked_for_model (Some (fst (mark_auth transient dis r now a))) m t =
       is_auth_blocked_for_model (Some a) m t)"
proof -
  have e: "mark_auth transient dis r now a = (count_result now False a, None, False)"
    using assms by (simp add: mark_auth_def apply_auth_failure_state_def Let_def)
  have "a_failed (count_result now False a) = a_failed a + 1"
    by (simp add: count_result_def record_recent_request_def Let_def)
  then show ?thesis
    unfolding e by (simp add: is_auth_blocked_for_model_def auth_block_def)
qed

definition cancelled_result :: exec_result where
  "cancelled_result = (demo_result False ''m'' 0)
     \<lparr>er_error := Some \<lparr>err_code = [], err_message = ''context canceled'', err_retryable = False, err_http = 0\<rparr>\<rparr>"

theorem request_failures_only_count_witness:
  "mark_auth 0 False cancelled_result (1000 * second) demo_auth =
     (count_result (1000 * second) False demo_auth, None, False)"
proof -
  have "\<not> er_success cancelled_result" "should_skip_credential_cooldown (er_error cancelled_result)"
    by code_simp+
  then show ?thesis using request_failures_only_count by blast
qed





text \<open>
  With cooling switched off a failure leaves its model available: unless the model is not
  supported at all, and with no quota window pending, the model is not blocked after the result.
\<close>

theorem no_cooling_keeps_available:
  assumes "auth_wf a" "sane_inputs transient (er_retry_after r) now" "plain_model (er_model r)"
    and "\<not> a_disabled a" "a_status a \<noteq> StatusDisabled" "\<not> er_success r"
    and "\<not> should_skip_credential_cooldown (er_error r)" "\<not> is_model_support_result_error (er_error r)"
    and "q_next_recover (ms_quota (current_state a (canonical_model_key (er_model r)))) = 0"
    and "m \<noteq> []" "canonical_model_key m = canonical_model_key (er_model r)"
  shows "\<not> fst (is_auth_blocked_for_model (Some (fst (mark_auth transient True r now a))) m now)"
proof -
  let ?st = "current_state a (canonical_model_key (er_model r))"
  let ?f = "fst (fail_model_state transient True (er_error r) (er_retry_after r) now (note_state_failure (er_error r) now ?st))"
  have "ms_next_retry ?f = 0 \<and> q_next_recover (ms_quota ?f) = 0"
    using assms(8,9) by (auto simp: fail_model_state_def next_cloudflare_cooldown_def recoverable_failure_retry_after_def Let_def)
  then have fs: "failed_state transient True (er_error r) (er_retry_after r) now ?st =
      ?f\<lparr>ms_unavailable := False, ms_quota := (ms_quota ?f)\<lparr>q_exceeded := False\<rparr>\<rparr>"
    by (simp add: failed_state_def release_when_not_cooling_def go_time)
  show ?thesis
    using mark_auth_verdicts [OF assms(1-5,10), of True] assms(6,7,11)
    by (simp add: fs model_verdict_def state_block_def availability_block_def)
qed

definition idle_auth :: auth where
  "idle_auth = demo_auth\<lparr>a_model_states := [(''m'', Some new_model_state)]\<rparr>"

theorem no_cooling_keeps_available_witness:
  "\<not> fst (is_auth_blocked_for_model
     (Some (fst (mark_auth 0 True (demo_result False ''m'' 429) (1000 * second) idle_auth))) ''m'' (1000 * second))"
proof (rule no_cooling_keeps_available)
  show "auth_wf idle_auth" "\<not> is_model_support_result_error (er_error (demo_result False ''m'' 429))"
    "q_next_recover (ms_quota (current_state idle_auth (canonical_model_key (er_model (demo_result False ''m'' 429))))) = 0"
    by code_simp+
  show "\<not> a_disabled idle_auth" "a_status idle_auth \<noteq> StatusDisabled"
    using demo_auth_enabled by (simp_all add: idle_auth_def)
qed (simp_all only: demo_facts, simp_all add: demo_result_def demo_plain)

text \<open>
  \<open>MarkResult\<close> writes the one credential the result names: every other credential, the
  configuration and the switches stay, and the scheduler, when attached, is handed exactly the
  credential that is stored.
\<close>

theorem mark_result_frame:
  "(\<forall>i. i \<noteq> er_auth_id r \<longrightarrow> map_of (mg_auths (fst (mark_result now r m))) i = map_of (mg_auths m) i) \<and>
   mg_config (fst (mark_result now r m)) = mg_config m \<and>
   mg_quota_off (fst (mark_result now r m)) = mg_quota_off m \<and>
   (\<forall>b. UpsertAuth b \<in> set (snd (mark_result now r m)) \<longrightarrow>
      lookup_auth (fst (mark_result now r m)) (er_auth_id r) = Some b) \<and>
   (mg_scheduler m \<longrightarrow> lookup_auth m (er_auth_id r) \<noteq> None \<longrightarrow> er_auth_id r \<noteq> [] \<longrightarrow>
      (\<exists>b. UpsertAuth b \<in> set (snd (mark_result now r m))))"
  by (auto simp: mark_result_def store_auth_def lookup_auth_def update_conv Let_def
      simp del: map_of_eq_Some_iff split: prod.split option.splits)

definition demo_manager :: manager where
  "demo_manager = \<lparr>mg_auths = [(''a'', Some demo_auth), (''b'', Some (new_auth ''b'' ''claude''))],
     mg_config = None, mg_quota_off = False, mg_transient = 0, mg_store = True, mg_scheduler = True\<rparr>"

theorem mark_result_frame_witness:
  "map_of (mg_auths (fst (mark_result (1000 * second) (demo_result False ''m'' 429) demo_manager))) ''b'' =
   Some (Some (new_auth ''b'' ''claude''))"
  using mark_result_frame [of "demo_result False ''m'' 429" "1000 * second" demo_manager]
  by (simp add: demo_result_def demo_manager_def)

text \<open>
  The registry is told at most one thing per result: a success resumes the model and clears
  its quota mark, a failure suspends it or says nothing, and a quota mark is set only together
  with a suspension for the reason quota.
\<close>

theorem mark_result_effects:
  "(er_success r \<longrightarrow> (\<forall>i k w. SuspendModel i k w \<notin> set (snd (mark_result now r m)))) \<and>
   (\<not> er_success r \<longrightarrow> (\<forall>i k. ResumeModel i k \<notin> set (snd (mark_result now r m)) \<and>
      ClearModelQuota i k \<notin> set (snd (mark_result now r m)))) \<and>
   (\<forall>i k. SetModelQuota i k \<in> set (snd (mark_result now r m)) \<longrightarrow>
      SuspendModel i k ''quota'' \<in> set (snd (mark_result now r m)))"
proof -
  have suc: "er_success r \<Longrightarrow> snd (mark_auth tr d r now a) = (None, False)" for tr d a
    by (simp add: mark_auth_def Let_def)
  have quota: "snd (snd (fail_model_state tr d e ra now st)) \<Longrightarrow>
      fst (snd (fail_model_state tr d e ra now st)) = Some ''quota''" for tr d e ra st
    by (auto simp: fail_model_state_def suspension_def Let_def split: prod.splits if_splits)
  have "snd (fail_model tr d k e ra now a) = (None, False) \<or>
      (\<exists>st. snd (fail_model tr d k e ra now a) = snd (fail_model_state tr d e ra now st))" for tr d k e ra a
  proof (cases "ensure_model_state a k")
    case (Some x)
    obtain a1 key st0 where x: "x = (a1, key, st0)" by (cases x)
    show ?thesis
      by (rule disjI2, rule exI [of _ "note_state_failure e now st0"])
        (simp add: fail_model_def Some x Let_def split: prod.split)
  qed (simp add: fail_model_def)
  then have mq: "snd (snd (mark_auth tr d r now a)) \<Longrightarrow> fst (snd (mark_auth tr d r now a)) = Some ''quota''" for tr d a
    using quota by (auto simp: mark_auth_def Let_def split: if_splits) (metis snd_conv)
  show ?thesis
  proof (cases "er_auth_id r = [] \<or> lookup_auth m (er_auth_id r) = None")
    case True
    then show ?thesis by (auto simp: mark_result_def Let_def)
  next
    case False
    then obtain a where a: "lookup_auth m (er_auth_id r) = Some a" "er_auth_id r \<noteq> []" by auto
    obtain a' su q where ma: "mark_auth (mg_transient m) (cooldown_disabled_for_auth m a) r now a = (a', su, q)"
      by (cases "mark_auth (mg_transient m) (cooldown_disabled_for_auth m a) r now a")
    have s: "er_success r \<Longrightarrow> su = None \<and> \<not> q" and q: "q \<Longrightarrow> su = Some ''quota''"
      using suc [of "mg_transient m" "cooldown_disabled_for_auth m a" a]
        mq [of "mg_transient m" "cooldown_disabled_for_auth m a" a] by (simp_all add: ma)
    show ?thesis
      using s q a by (cases "er_success r"; cases q; cases su) (auto simp: mark_result_def Let_def ma split: if_splits)
  qed
qed

theorem mark_result_effects_witness:
  "SuspendModel ''a'' ''m'' ''quota'' \<in> set (snd (mark_result (1000 * second) (demo_result False ''m'' 429) demo_manager)) \<or>
   SetModelQuota ''a'' ''m'' \<notin> set (snd (mark_result (1000 * second) (demo_result False ''m'' 429) demo_manager))"
  using mark_result_effects [of "demo_result False ''m'' 429" "1000 * second" demo_manager] by blast

section \<open>Resetting and restoring\<close>







text \<open>
  C38 The cooldown store loses nothing: the record taken of a cooling model, restored on a
  credential without a state for it, gives the verdict the model had, reason and time included.
\<close>

theorem record_restore_roundtrip:
  assumes "0 < now" "k \<noteq> []" "canonical_model_key k = k" "state_wf st" "ms_status st \<noteq> StatusDisabled"
    and "model_cooldown_state_record a k (Some st) now = Some rec"
    and "auth_wf b" "map_of (a_model_states b) k = None" "\<not> a_disabled b" "a_status b \<noteq> StatusDisabled"
    and "m \<noteq> []" "canonical_model_key m = k"
  shows "is_auth_blocked_for_model (Some (restore_record_on_auth rec now b)) m now = state_block st now"
  using record_restore_verdict [OF assms] assms(5) by (simp add: model_verdict_def)

definition blank_auth :: auth where
  "blank_auth = demo_auth\<lparr>a_model_states := []\<rparr>"

theorem record_restore_roundtrip_witness:
  "is_auth_blocked_for_model
     (Some (restore_record_on_auth (the (model_cooldown_state_record demo_auth ''m'' (Some demo_state) (800 * second)))
        (800 * second) blank_auth)) ''m'' (800 * second) = state_block demo_state (800 * second)"
proof (rule record_restore_roundtrip)
  show "model_cooldown_state_record demo_auth ''m'' (Some demo_state) (800 * second) =
      Some (the (model_cooldown_state_record demo_auth ''m'' (Some demo_state) (800 * second)))"
    by (simp add: model_cooldown_state_record_def demo_state_def new_model_state_def go_time second_def Let_def
        trim_space_def trim_left_def trim_right_def is_space_def)
  show "state_wf demo_state" "auth_wf blank_auth" "ms_status demo_state \<noteq> StatusDisabled" by code_simp+
  show "map_of (a_model_states blank_auth) ''m'' = None" "\<not> a_disabled blank_auth" "a_status blank_auth \<noteq> StatusDisabled"
    using demo_auth_enabled by (simp_all add: blank_auth_def)
qed (simp_all add: demo_plain second_def)

text \<open>
  The availability aggregated into the credential means what it says: it is unavailable
  exactly when it has model states and every one of them is disabled or cooling, and then its
  retry time is the earliest of theirs.
\<close>

theorem aggregation_meaning:
  "(a_unavailable (update_aggregated_availability now a) \<longleftrightarrow>
      present_states (a_model_states a) \<noteq> [] \<and>
      (\<forall>st \<in> set (present_states (a_model_states a)). state_down now st)) \<and>
   (present_states (a_model_states a) \<noteq> [] \<longrightarrow>
    (\<forall>st \<in> set (present_states (a_model_states a)). state_down now st \<and> ms_status st \<noteq> StatusDisabled) \<longrightarrow>
    a_next_retry (update_aggregated_availability now a) =
      Min (ms_next_retry ` set (present_states (a_model_states a))))"
  using update_aggregated_unavailable update_aggregated_next_retry by blast

theorem aggregation_meaning_witness:
  "\<not> a_unavailable (update_aggregated_availability (800 * second) demo_auth) \<and>
   a_unavailable (update_aggregated_availability (800 * second)
     (demo_auth\<lparr>a_model_states := [(''m'', Some demo_state)]\<rparr>))"
proof -
  have "\<not> (\<forall>st \<in> set (present_states (a_model_states demo_auth)). state_down (800 * second) st)"
    "present_states (a_model_states (demo_auth\<lparr>a_model_states := [(''m'', Some demo_state)]\<rparr>)) \<noteq> []"
    "\<forall>st \<in> set (present_states (a_model_states (demo_auth\<lparr>a_model_states := [(''m'', Some demo_state)]\<rparr>))).
       state_down (800 * second) st"
    by code_simp+
  then show ?thesis using aggregation_meaning by blast
qed

text \<open>
  The aggregation does not depend on the order in which Go iterates over the map of model
  states: any permutation of the states gives the same credential up to that order.
\<close>

theorem aggregation_any_order:
  assumes "mset ms = mset (a_model_states a)"
  shows "update_aggregated_availability now (a\<lparr>a_model_states := ms\<rparr>) =
     (update_aggregated_availability now a)
       \<lparr>a_model_states := a_model_states (update_aggregated_availability now (a\<lparr>a_model_states := ms\<rparr>))\<rparr> \<and>
    mset (a_model_states (update_aggregated_availability now (a\<lparr>a_model_states := ms\<rparr>))) =
      mset (a_model_states (update_aggregated_availability now a))"
  by (rule aggregation_order_independent [OF assms])

theorem aggregation_any_order_witness:
  "mset (a_model_states (update_aggregated_availability (800 * second)
      (demo_auth\<lparr>a_model_states := [(''n'', Some new_model_state), (''m'', Some demo_state)]\<rparr>))) =
   mset (a_model_states (update_aggregated_availability (800 * second) demo_auth))"
proof -
  have "mset [(''n'', Some new_model_state), (''m'', Some demo_state)] = mset (a_model_states demo_auth)"
    by (simp add: demo_auth_def)
  from aggregation_any_order [OF this, of "800 * second"] show ?thesis by blast
qed

section \<open>Backoff\<close>

text \<open>
  The backoff ladder: the cooldown after k consecutive quota failures is 2^k seconds for
  k up to 10 and half an hour from then on, and the stored level stops at 11.
\<close>

theorem backoff_ladder:
  "level_after k = min (int k) 11 \<and>
   fst (next_quota_cooldown (level_after k) False) = (if k \<le> 10 then 2 ^ k * second else 30 * minute)"
proof -
  have "0 \<le> level_after k" "level_after k \<le> 33" by (simp_all add: level_after_eq)
  from next_quota_cooldown_ladder [OF this] show ?thesis
    by (auto simp: level_after_eq quota_backoff_max_def min_def)
qed

text \<open>
  Whatever level is stored, the next cooldown is between one second and half an hour, also
  where the 64-bit shift and product wrap, and with cooling off it is zero.
\<close>

theorem backoff_bounds_any_level:
  "second \<le> fst (next_quota_cooldown level False) \<and> fst (next_quota_cooldown level False) \<le> 30 * minute \<and>
   fst (next_quota_cooldown level True) = 0"
  using next_quota_cooldown_bounds [of level]
  by (simp add: quota_backoff_base_def quota_backoff_max_def next_quota_cooldown_def Let_def)

text \<open>
  One window, one step: failures that arrive while a quota window is running extend nothing
  and leave the level alone, so a burst of concurrent 429 responses climbs the ladder once.
\<close>

theorem burst_climbs_once:
  assumes "now \<le> later" "later < fst (quota_cooldown_after_failure q now)"
  shows "quota_cooldown_after_failure
     (q\<lparr>q_next_recover := fst (quota_cooldown_after_failure q now),
        q_backoff := snd (quota_cooldown_after_failure q now)\<rparr>) later =
   quota_cooldown_after_failure q now"
  by (rule quota_window_reused [OF assms])

theorem burst_climbs_once_witness:
  "quota_cooldown_after_failure
     (no_quota\<lparr>q_next_recover := fst (quota_cooldown_after_failure no_quota 5),
        q_backoff := snd (quota_cooldown_after_failure no_quota 5)\<rparr>) 6 = (5 + second, 1)"
proof -
  have r: "quota_cooldown_after_failure no_quota 5 = (5 + second, 1)" by code_simp
  show ?thesis using burst_climbs_once [of 5 6 no_quota] unfolding r by (simp add: second_def)
qed

text \<open>
  The shift wraps on a level of 34: such a level, which only a stored record can bring in,
  starts the ladder again at one second.
\<close>

lemma restored_level_restarts: "next_quota_cooldown 34 False = (second, 35)"
  by code_simp

section \<open>Classification of errors\<close>

text \<open>
  The search for a missing-model report in a JSON error body does not depend on the order in
  which Go iterates over an object's fields.
\<close>

theorem structured_search_any_order:
  assumes "set fs = set gs"
  shows "contains_structured_model_not_found (JObject fs) m = contains_structured_model_not_found (JObject gs) m"
  by (rule structured_order_independent [OF assms])

theorem structured_search_any_order_witness:
  "contains_structured_model_not_found (JObject [(''code'', JString ''model_not_found''), (''type'', JNull)]) ''x'' =
   contains_structured_model_not_found (JObject [(''type'', JNull), (''code'', JString ''model_not_found'')]) ''x''"
  by (rule structured_search_any_order) auto

text \<open>
  An error the client caused never cools a credential: what \<open>isRequestInvalidError\<close>
  recognises, \<open>resultErrorFromError\<close> turns into a result that \<open>shouldSkipCredentialCooldown\<close> skips.
\<close>

theorem invalid_requests_never_cool:
  assumes "is_request_invalid_error (Some e)"
  shows "should_skip_credential_cooldown (result_error_from_error (Some e))"
  by (rule request_invalid_skipped [OF assms])

definition bad_request :: go_error where
  "bad_request = \<lparr>ge_text = ''bad request'', ge_status = 400, ge_close = None, ge_canceled_or_eof = False,
     ge_request_scoped = False, ge_auth = None, ge_body = None\<rparr>"

theorem invalid_requests_never_cool_witness:
  "should_skip_credential_cooldown (result_error_from_error (Some bad_request))"
proof (rule invalid_requests_never_cool)
  show "is_request_invalid_error (Some bad_request)" by code_simp
qed

end
