(* ===== verification/SessionCache.thy ===== *)
theory SessionCache
  imports GoPrelude
begin

text \<open>
  The session to credential bindings with their alias groups and expiry
  (\<open>sdk/cliproxy/auth/session_cache.go\<close>). Every operation takes the instant it reads from the
  clock. The invariant \<open>groups_closed\<close> says that all aliases of a binding carry the very same
  entry; it is kept by every operation, and it is what makes the removal of a group complete.
\<close>

section \<open>Definitions\<close>

record session_entry =
  se_auth :: string
  se_expires :: gotime
  se_aliases :: "string list"

record session_cache =
  sc_entries :: "(string \<times> session_entry) list"
  sc_ttl :: duration

definition max_stable_session_aliases :: nat where "max_stable_session_aliases = 64"

definition new_session_cache :: "duration \<Rightarrow> session_cache" where
  "new_session_cache ttl = \<lparr>sc_entries = [], sc_ttl = (if ttl \<le> 0 then 30 * minute else ttl)\<rparr>"

text \<open>\<open>strings.Cut\<close> by a separator.\<close>

fun str_cut :: "string \<Rightarrow> string \<Rightarrow> (string \<times> string) option" where
  "str_cut [] sep = (if sep = [] then Some ([], []) else None)"
| "str_cut (c # cs) sep =
     (if has_prefix (c # cs) sep then Some ([], drop (length sep) (c # cs))
      else map_option (\<lambda>(l, r). (c # l, r)) (str_cut cs sep))"

definition is_local_prompt_cache_session_alias :: "string \<Rightarrow> bool" where
  "is_local_prompt_cache_session_alias alias =
     (if has_prefix alias ''pck:'' then True
      else (case str_cut alias ''::'' of
              None \<Rightarrow> False
            | Some (_, session_and_model) \<Rightarrow> has_prefix session_and_model ''pck:''))"

text \<open>The loop over the aliases: \<open>hasPromptCacheKey\<close> and \<open>stableAliases\<close> are its state.\<close>

fun compact_loop :: "(string \<Rightarrow> bool) \<Rightarrow> string list \<Rightarrow> bool \<Rightarrow> nat \<Rightarrow> string list" where
  "compact_loop is_pck [] has_pck stab = []"
| "compact_loop is_pck (a # as) has_pck stab =
     (if is_pck a then
        (if has_pck then compact_loop is_pck as has_pck stab
         else a # compact_loop is_pck as True stab)
      else if stab \<ge> max_stable_session_aliases then compact_loop is_pck as has_pck stab
      else a # compact_loop is_pck as has_pck (stab + 1))"

definition compact_session_aliases_with :: "string list \<Rightarrow> (string \<Rightarrow> bool) \<Rightarrow> string list" where
  "compact_session_aliases_with aliases is_pck = compact_loop is_pck aliases False 0"

definition compact_session_aliases :: "string list \<Rightarrow> string list" where
  "compact_session_aliases aliases =
     compact_session_aliases_with aliases is_local_prompt_cache_session_alias"

definition compact_home_session_aliases :: "string list \<Rightarrow> string list" where
  "compact_home_session_aliases aliases =
     compact_session_aliases_with aliases (\<lambda>alias. has_prefix alias ''pck:'')"

fun merge_loop :: "string list \<Rightarrow> string list \<Rightarrow> string list" where
  "merge_loop acc [] = acc"
| "merge_loop acc (a # as) =
     merge_loop (if a = [] then acc else if a \<in> set acc then acc else acc @ [a]) as"

definition merge_session_aliases :: "string list \<Rightarrow> string list \<Rightarrow> string list" where
  "merge_session_aliases existing candidates = merge_loop (merge_loop [] existing) candidates"

fun equal_session_aliases :: "string list \<Rightarrow> string list \<Rightarrow> bool" where
  "equal_session_aliases [] [] = True"
| "equal_session_aliases (x # xs) (y # ys) = (x = y \<and> equal_session_aliases xs ys)"
| "equal_session_aliases _ _ = False"

fun remove_alias_loop ::
  "string list \<Rightarrow> session_entry \<Rightarrow> (string \<times> session_entry) list \<Rightarrow> (string \<times> session_entry) list" where
  "remove_alias_loop [] entry m = m"
| "remove_alias_loop (a # as) entry m =
     (case map_of m a of
        None \<Rightarrow> remove_alias_loop as entry m
      | Some cur \<Rightarrow>
          if se_auth cur \<noteq> se_auth entry \<or> se_expires cur \<noteq> se_expires entry \<or>
             \<not> equal_session_aliases (se_aliases cur) (se_aliases entry)
          then remove_alias_loop as entry m
          else remove_alias_loop as entry (AList.delete a m))"

definition remove_alias_group ::
  "session_entry \<Rightarrow> (string \<times> session_entry) list \<Rightarrow> (string \<times> session_entry) list" where
  "remove_alias_group entry m = remove_alias_loop (se_aliases entry) entry m"

definition replace_alias_groups ::
  "string \<Rightarrow> gotime \<Rightarrow> string list \<Rightarrow> session_entry list \<Rightarrow>
   (string \<times> session_entry) list \<Rightarrow> (string \<times> session_entry) list" where
  "replace_alias_groups auth_id expires_at aliases previous m =
     (let m1 = fold remove_alias_group previous m;
          entry = \<lparr>se_auth = auth_id, se_expires = expires_at, se_aliases = aliases\<rparr>
      in fold (\<lambda>a. AList.update a entry) aliases m1)"

text \<open>
  \<open>Get\<close> reads under the read lock at \<open>now\<close> and, when the entry has expired, again under the
  write lock at the later instant \<open>now2\<close>. \<open>session_get_locked\<close> is the second part: it starts
  from the cache other goroutines may have changed in between.
\<close>

definition session_get_locked ::
  "gotime \<Rightarrow> string \<Rightarrow> session_cache \<Rightarrow> string option \<times> session_cache" where
  "session_get_locked now2 sid c =
     (case map_of (sc_entries c) sid of
        None \<Rightarrow> (None, c)
      | Some e \<Rightarrow>
          if before now2 (se_expires e) then (Some (se_auth e), c)
          else (None, c\<lparr>sc_entries := remove_alias_group e (sc_entries c)\<rparr>))"

definition session_get ::
  "gotime \<Rightarrow> gotime \<Rightarrow> string \<Rightarrow> session_cache \<Rightarrow> string option \<times> session_cache" where
  "session_get now now2 sid c =
     (if sid = [] then (None, c)
      else (case map_of (sc_entries c) sid of
              None \<Rightarrow> (None, c)
            | Some e \<Rightarrow>
                if before now (se_expires e) then (Some (se_auth e), c)
                else session_get_locked now2 sid c))"

definition session_get_and_refresh ::
  "gotime \<Rightarrow> string \<Rightarrow> session_cache \<Rightarrow> string option \<times> session_cache" where
  "session_get_and_refresh now sid c =
     (if sid = [] then (None, c)
      else (case map_of (sc_entries c) sid of
              None \<Rightarrow> (None, c)
            | Some e \<Rightarrow>
                if \<not> before now (se_expires e)
                then (None, c\<lparr>sc_entries := remove_alias_group e (sc_entries c)\<rparr>)
                else
                  let aliases = compact_session_aliases (merge_session_aliases [sid] (se_aliases e))
                  in (Some (se_auth e),
                      c\<lparr>sc_entries := replace_alias_groups (se_auth e) (now + sc_ttl c) aliases [e]
                                        (sc_entries c)\<rparr>)))"

text \<open>The loop of \<open>SetAliases\<close> over the identifiers: aliases, previous groups, entries.\<close>

fun set_aliases_loop ::
  "gotime \<Rightarrow> string list \<Rightarrow> string list \<Rightarrow> session_entry list \<Rightarrow> (string \<times> session_entry) list \<Rightarrow>
   string list \<times> session_entry list \<times> (string \<times> session_entry) list" where
  "set_aliases_loop now [] aliases previous m = (aliases, previous, m)"
| "set_aliases_loop now (sid # sids) aliases previous m =
     (case map_of m sid of
        None \<Rightarrow> set_aliases_loop now sids aliases previous m
      | Some e \<Rightarrow>
          if \<not> before now (se_expires e)
          then set_aliases_loop now sids aliases previous (remove_alias_group e m)
          else set_aliases_loop now sids (merge_session_aliases aliases (se_aliases e))
                 (previous @ [e]) m)"

definition session_set_aliases ::
  "gotime \<Rightarrow> string \<Rightarrow> string list \<Rightarrow> session_cache \<Rightarrow> session_cache" where
  "session_set_aliases now auth_id sids c =
     (if auth_id = [] then c
      else (case set_aliases_loop now sids (merge_session_aliases [] sids) [] (sc_entries c) of
              (aliases, previous, m) \<Rightarrow>
                let compacted = compact_session_aliases aliases in
                if compacted = [] then c\<lparr>sc_entries := m\<rparr>
                else c\<lparr>sc_entries :=
                         replace_alias_groups auth_id (now + sc_ttl c) compacted previous m\<rparr>))"

definition session_set :: "gotime \<Rightarrow> string \<Rightarrow> string \<Rightarrow> session_cache \<Rightarrow> session_cache" where
  "session_set now sid auth_id c = session_set_aliases now auth_id [sid] c"

fun invalidate_loop ::
  "string \<Rightarrow> session_entry \<Rightarrow> string list \<Rightarrow> (string \<times> session_entry) list \<Rightarrow>
   (string \<times> session_entry) list" where
  "invalidate_loop sid entry [] m = m"
| "invalidate_loop sid entry (a # as) m =
     (if a = sid then invalidate_loop sid entry as m
      else (case map_of m a of
              None \<Rightarrow> invalidate_loop sid entry as m
            | Some cur \<Rightarrow>
                if se_auth cur \<noteq> se_auth entry then invalidate_loop sid entry as m
                else invalidate_loop sid entry as
                       (AList.update a
                          (cur\<lparr>se_aliases := filter (\<lambda>x. x \<noteq> sid) (se_aliases cur)\<rparr>) m)))"

definition session_invalidate :: "string \<Rightarrow> session_cache \<Rightarrow> session_cache" where
  "session_invalidate sid c =
     (if sid = [] then c
      else
        let m = AList.delete sid (sc_entries c)
        in (case map_of (sc_entries c) sid of
              None \<Rightarrow> c\<lparr>sc_entries := m\<rparr>
            | Some e \<Rightarrow> c\<lparr>sc_entries := invalidate_loop sid e (se_aliases e) m\<rparr>))"

definition session_invalidate_auth :: "string \<Rightarrow> session_cache \<Rightarrow> session_cache" where
  "session_invalidate_auth auth_id c =
     (if auth_id = [] then c
      else c\<lparr>sc_entries := filter (\<lambda>(sid, e). se_auth e \<noteq> auth_id) (sc_entries c)\<rparr>)"

definition session_cleanup :: "gotime \<Rightarrow> session_cache \<Rightarrow> session_cache" where
  "session_cleanup now c =
     c\<lparr>sc_entries := filter (\<lambda>(sid, e). before now (se_expires e)) (sc_entries c)\<rparr>"

section \<open>The invariant\<close>

text \<open>
  Every alias of an entry is bound, and to that very entry; a key is among its own aliases;
  the empty identifier is never bound; an entry holds at most 64 stable aliases and one
  prompt-cache alias, all distinct.
\<close>

definition compact_aliases :: "string list \<Rightarrow> bool" where
  "compact_aliases as =
     (distinct as \<and> [] \<notin> set as \<and>
      length (filter is_local_prompt_cache_session_alias as) \<le> 1 \<and>
      length (filter (\<lambda>a. \<not> is_local_prompt_cache_session_alias a) as)
        \<le> max_stable_session_aliases)"

definition groups_closed :: "(string \<rightharpoonup> session_entry) \<Rightarrow> bool" where
  "groups_closed m =
     (\<forall>k e. m k = Some e \<longrightarrow>
        k \<in> set (se_aliases e) \<and> (\<forall>a \<in> set (se_aliases e). m a = Some e) \<and>
        compact_aliases (se_aliases e))"

definition session_cache_inv :: "session_cache \<Rightarrow> bool" where
  "session_cache_inv c = (keys_distinct (sc_entries c) \<and> groups_closed (map_of (sc_entries c)))"

lemma groups_closedD:
  assumes "groups_closed m" "m k = Some e"
  shows "k \<in> set (se_aliases e)" "a \<in> set (se_aliases e) \<Longrightarrow> m a = Some e"
    "compact_aliases (se_aliases e)" "k \<noteq> []"
proof -
  have *: "k \<in> set (se_aliases e)" "\<forall>a \<in> set (se_aliases e). m a = Some e"
    "compact_aliases (se_aliases e)"
    using assms unfolding groups_closed_def by blast+
  then show "k \<in> set (se_aliases e)" "a \<in> set (se_aliases e) \<Longrightarrow> m a = Some e"
    "compact_aliases (se_aliases e)" by blast+
  show "k \<noteq> []" using * unfolding compact_aliases_def by blast
qed

lemma groups_closedI:
  assumes "\<And>k e. m k = Some e \<Longrightarrow> k \<in> set (se_aliases e)"
    and "\<And>k e a. m k = Some e \<Longrightarrow> a \<in> set (se_aliases e) \<Longrightarrow> m a = Some e"
    and "\<And>k e. m k = Some e \<Longrightarrow> compact_aliases (se_aliases e)"
  shows "groups_closed m"
  using assms unfolding groups_closed_def by blast

lemma equal_session_aliases_eq [simp]: "equal_session_aliases l r \<longleftrightarrow> l = r"
  by (induction l r rule: equal_session_aliases.induct) auto

lemma entry_same_iff:
  "(se_auth cur \<noteq> se_auth e \<or> se_expires cur \<noteq> se_expires e \<or> se_aliases cur \<noteq> se_aliases e)
     \<longleftrightarrow> cur \<noteq> e"
  for cur e :: session_entry
  by (cases cur; cases e) auto

lemma remove_alias_loop_map:
  "map_of (remove_alias_loop as e m) =
     (\<lambda>k. if k \<in> set as \<and> map_of m k = Some e then None else map_of m k)"
  by (induction as e m rule: remove_alias_loop.induct)
    (auto simp: entry_same_iff fun_eq_iff split: option.split)

lemma remove_alias_loop_distinct:
  "keys_distinct m \<Longrightarrow> keys_distinct (remove_alias_loop as e m)"
  by (induction as e m rule: remove_alias_loop.induct) (auto split: option.split)

lemma remove_alias_group_map:
  "map_of (remove_alias_group e m) =
     (\<lambda>k. if k \<in> set (se_aliases e) \<and> map_of m k = Some e then None else map_of m k)"
  by (simp add: remove_alias_group_def remove_alias_loop_map)

lemma remove_alias_group_distinct [simp]:
  "keys_distinct m \<Longrightarrow> keys_distinct (remove_alias_group e m)"
  by (simp add: remove_alias_group_def remove_alias_loop_distinct)

text \<open>On closed groups the removal deletes exactly the bindings to the entry.\<close>

lemma remove_alias_group_closed:
  "groups_closed (map_of m) \<Longrightarrow>
   map_of (remove_alias_group e m) = (\<lambda>k. if map_of m k = Some e then None else map_of m k)"
  unfolding remove_alias_group_map by (rule ext) (metis groups_closedD(1))

definition without :: "(string \<rightharpoonup> session_entry) \<Rightarrow> session_entry set \<Rightarrow> (string \<rightharpoonup> session_entry)" where
  "without m E = (\<lambda>k. case m k of None \<Rightarrow> None | Some e \<Rightarrow> if e \<in> E then None else Some e)"

lemma without_Some [simp]: "without m E k = Some e \<longleftrightarrow> m k = Some e \<and> e \<notin> E"
  by (auto simp: without_def split: option.splits)

lemma groups_closed_without: "groups_closed m \<Longrightarrow> groups_closed (without m E)"
  by (rule groups_closedI) (simp_all, (blast dest: groups_closedD)+)

lemma remove_alias_group_without:
  "groups_closed (map_of m) \<Longrightarrow> map_of (remove_alias_group e m) = without (map_of m) {e}"
  by (auto simp: remove_alias_group_closed without_def fun_eq_iff split: option.split)

lemma without_without: "without (without m E) F = without m (E \<union> F)"
  by (auto simp: without_def fun_eq_iff split: option.split)

lemma fold_remove_without:
  "groups_closed (map_of m) \<Longrightarrow>
   map_of (fold remove_alias_group es m) = without (map_of m) (set es)"
proof (induction es arbitrary: m)
  case Nil
  then show ?case by (auto simp: without_def fun_eq_iff split: option.split)
next
  case (Cons e es)
  have "groups_closed (map_of (remove_alias_group e m))"
    using Cons.prems by (simp add: remove_alias_group_without groups_closed_without)
  from Cons.IH [OF this] show ?case
    using Cons.prems by (simp add: remove_alias_group_without without_without)
qed

lemma fold_remove_distinct:
  "keys_distinct m \<Longrightarrow> keys_distinct (fold remove_alias_group es m)"
  by (induction es arbitrary: m) auto

lemma fold_update_map:
  "map_of (fold (\<lambda>a. AList.update a e) as m) = (\<lambda>k. if k \<in> set as then Some e else map_of m k)"
  by (induction as arbitrary: m) (auto simp: fun_eq_iff)

lemma fold_update_distinct:
  "keys_distinct m \<Longrightarrow> keys_distinct (fold (\<lambda>a. AList.update a e) as m)"
  by (induction as arbitrary: m) auto

lemma replace_alias_groups_map:
  "groups_closed (map_of m) \<Longrightarrow>
   map_of (replace_alias_groups i t as es m) =
     (\<lambda>k. if k \<in> set as then Some \<lparr>se_auth = i, se_expires = t, se_aliases = as\<rparr>
          else without (map_of m) (set es) k)"
  by (rule ext) (simp add: replace_alias_groups_def Let_def fold_update_map fold_remove_without)

lemma replace_alias_groups_distinct [simp]:
  "keys_distinct m \<Longrightarrow> keys_distinct (replace_alias_groups i t as es m)"
  by (simp add: replace_alias_groups_def Let_def fold_update_distinct fold_remove_distinct)

text \<open>Replacing keeps the groups closed when every group the aliases touch is replaced.\<close>

lemma replace_alias_groups_closed:
  assumes "groups_closed (map_of m)" "compact_aliases as"
    and cover: "\<And>a e. a \<in> set as \<Longrightarrow> map_of m a = Some e \<Longrightarrow> e \<in> set es"
  shows "groups_closed (map_of (replace_alias_groups i t as es m))"
proof -
  let ?n = "without (map_of m) (set es)"
  let ?e = "\<lparr>se_auth = i, se_expires = t, se_aliases = as\<rparr>"
  have cl: "groups_closed ?n" by (rule groups_closed_without [OF assms(1)])
  have disj: "a \<notin> set as" if "?n k = Some e" "a \<in> set (se_aliases e)" for k e a
  proof
    assume a: "a \<in> set as"
    have "?n a = Some e" using groups_closedD(2) [OF cl that(1,2)] .
    then show False using cover [OF a] by simp
  qed
  show ?thesis
    unfolding replace_alias_groups_map [OF assms(1)]
  proof (rule groups_closedI, goal_cases)
    case (1 k e)
    then show ?case using groups_closedD(1) [OF cl] by (cases "k \<in> set as") auto
  next
    case (2 k e a)
    show ?case
    proof (cases "k \<in> set as")
      case True
      then show ?thesis using 2 by auto
    next
      case False
      then have n: "?n k = Some e" using 2 by (simp only: if_False)
      show ?thesis
        using disj [OF n 2(2)] groups_closedD(2) [OF cl n 2(2)] by (simp only: if_False)
    qed
  next
    case (3 k e)
    then show ?case
      using groups_closedD(3) [OF cl] assms(2) by (cases "k \<in> set as") (auto simp del: without_Some)
  qed
qed

section \<open>Compacting and merging\<close>

lemma compact_loop_subset: "set (compact_loop P as b n) \<subseteq> set as"
proof (induction P as b n rule: compact_loop.induct)
  case (2 P a as b n)
  then show ?case by (cases "P a"; cases b; cases "max_stable_session_aliases \<le> n") auto
qed simp

lemma compact_loop_distinct: "distinct as \<Longrightarrow> distinct (compact_loop P as b n)"
proof (induction P as b n rule: compact_loop.induct)
  case (2 P a as b n)
  then show ?case
    using compact_loop_subset [of P as True n] compact_loop_subset [of P as b "n + 1"]
    by (cases "P a"; cases b; cases "max_stable_session_aliases \<le> n") auto
qed simp

lemma compact_loop_bounds:
  "n \<le> max_stable_session_aliases \<Longrightarrow>
   length (filter P (compact_loop P as b n)) \<le> (if b then 0 else 1) \<and>
   n + length (filter (\<lambda>a. \<not> P a) (compact_loop P as b n)) \<le> max_stable_session_aliases"
proof (induction P as b n rule: compact_loop.induct)
  case (2 P a as b n)
  then show ?case
    by (cases "P a"; cases b; cases "max_stable_session_aliases \<le> n") auto
qed simp

lemma compact_session_aliases_ok:
  "distinct as \<Longrightarrow> [] \<notin> set as \<Longrightarrow> compact_aliases (compact_session_aliases as)"
  using compact_loop_bounds [of 0 is_local_prompt_cache_session_alias as False]
    compact_loop_subset [of is_local_prompt_cache_session_alias as False 0]
    compact_loop_distinct [of as is_local_prompt_cache_session_alias False 0]
  by (auto simp: compact_aliases_def compact_session_aliases_def compact_session_aliases_with_def)

lemma compact_session_aliases_subset: "set (compact_session_aliases as) \<subseteq> set as"
  by (simp add: compact_session_aliases_def compact_session_aliases_with_def compact_loop_subset)

text \<open>The first alias always survives.\<close>

lemma compact_session_aliases_first: "a \<in> set (compact_session_aliases (a # as))"
  by (simp add: compact_session_aliases_def compact_session_aliases_with_def
      max_stable_session_aliases_def)

lemma merge_loop_set: "set (merge_loop acc as) = set acc \<union> (set as - {[]})"
  by (induction acc as rule: merge_loop.induct) auto

lemma merge_loop_distinct: "distinct acc \<Longrightarrow> distinct (merge_loop acc as)"
  by (induction acc as rule: merge_loop.induct) auto

lemma merge_loop_prefix: "\<exists>zs. merge_loop acc as = acc @ zs"
proof (induction acc as rule: merge_loop.induct)
  case (2 acc a as)
  then show ?case by (auto split: if_splits)
qed simp

lemma merge_session_aliases_set:
  "set (merge_session_aliases xs ys) = (set xs \<union> set ys) - {[]}"
  by (auto simp: merge_session_aliases_def merge_loop_set)

lemma merge_session_aliases_distinct [simp]: "distinct (merge_session_aliases xs ys)"
  by (simp add: merge_session_aliases_def merge_loop_distinct)

lemma merge_loop_fresh:
  "distinct xs \<Longrightarrow> [] \<notin> set xs \<Longrightarrow> set acc \<inter> set xs = {} \<Longrightarrow> merge_loop acc xs = acc @ xs"
  by (induction xs arbitrary: acc) auto

lemma merge_session_aliases_extends:
  assumes "distinct xs" "[] \<notin> set xs"
  shows "\<exists>zs. merge_session_aliases xs ys = xs @ zs"
  using merge_loop_fresh [OF assms, of "[]"] merge_loop_prefix [of xs ys]
  by (simp add: merge_session_aliases_def)

section \<open>The operations keep the invariant\<close>

lemma session_cache_invI:
  "keys_distinct (sc_entries c) \<Longrightarrow> groups_closed (map_of (sc_entries c)) \<Longrightarrow> session_cache_inv c"
  by (simp add: session_cache_inv_def)

lemma remove_group_inv:
  "session_cache_inv c \<Longrightarrow>
   session_cache_inv (c\<lparr>sc_entries := remove_alias_group e (sc_entries c)\<rparr>)"
  by (simp add: session_cache_inv_def remove_alias_group_without groups_closed_without)

lemma new_session_cache_inv: "session_cache_inv (new_session_cache ttl)"
  by (simp add: session_cache_inv_def new_session_cache_def groups_closed_def)

lemma session_get_locked_inv:
  "session_cache_inv c \<Longrightarrow> session_cache_inv (snd (session_get_locked now sid c))"
  by (simp add: session_get_locked_def remove_group_inv split: option.split)

lemma session_get_inv:
  "session_cache_inv c \<Longrightarrow> session_cache_inv (snd (session_get now now2 sid c))"
  by (simp add: session_get_def session_get_locked_inv split: option.split)

lemma session_get_and_refresh_inv:
  assumes "session_cache_inv c"
  shows "session_cache_inv (snd (session_get_and_refresh now sid c))"
proof (cases "map_of (sc_entries c) sid")
  case None
  then show ?thesis using assms by (simp add: session_get_and_refresh_def)
next
  case (Some e)
  have cl: "groups_closed (map_of (sc_entries c))" and kd: "keys_distinct (sc_entries c)"
    using assms by (simp_all add: session_cache_inv_def)
  let ?as = "compact_session_aliases (merge_session_aliases [sid] (se_aliases e))"
  have "a \<in> set ?as \<Longrightarrow> map_of (sc_entries c) a = Some e" for a
    using compact_session_aliases_subset [of "merge_session_aliases [sid] (se_aliases e)"]
      groups_closedD(1,2) [OF cl Some] by (auto simp: merge_session_aliases_set)
  then have "groups_closed (map_of (replace_alias_groups (se_auth e) t ?as [e] (sc_entries c)))" for t
    by (intro replace_alias_groups_closed [OF cl] compact_session_aliases_ok)
      (auto simp: merge_session_aliases_set)
  then show ?thesis
    using assms kd
    by (simp add: session_get_and_refresh_def Some Let_def session_cache_inv_def
        remove_alias_group_without groups_closed_without)
qed

text \<open>
  The loop of \<open>SetAliases\<close>: the entries of the aliases collected so far are among the previous
  groups, except for identifiers that are still to be visited.
\<close>

lemma set_aliases_loop_inv:
  assumes "groups_closed (map_of m)" "keys_distinct m" "distinct al" "[] \<notin> set al"
    "set sids - {[]} \<subseteq> set al"
    "\<And>a e. a \<in> set al \<Longrightarrow> a \<notin> set sids \<Longrightarrow> map_of m a = Some e \<Longrightarrow> e \<in> set prev"
    "set_aliases_loop now sids al prev m = (al', prev', m')"
  shows "groups_closed (map_of m') \<and> keys_distinct m' \<and> distinct al' \<and> [] \<notin> set al' \<and>
    (\<exists>zs. al' = al @ zs) \<and>
    (\<forall>a e. a \<in> set al' \<longrightarrow> map_of m' a = Some e \<longrightarrow> e \<in> set prev')"
  using assms
proof (induction sids arbitrary: al prev m)
  case Nil
  then show ?case by auto
next
  case (Cons sid sids)
  show ?case
  proof (cases "map_of m sid")
    case None
    then show ?thesis
      using Cons.IH [of m al prev] Cons.prems by fastforce
  next
    case (Some e)
    show ?thesis
    proof (cases "before now (se_expires e)")
      case False
      let ?m = "remove_alias_group e m"
      have m: "map_of ?m = without (map_of m) {e}"
        using Cons.prems(1) by (rule remove_alias_group_without)
      have "a \<in> set al \<Longrightarrow> a \<notin> set sids \<Longrightarrow> map_of ?m a = Some f \<Longrightarrow> f \<in> set prev" for a f
        using Cons.prems(6) [of a f] Some by (cases "a = sid") (auto simp: m)
      moreover have "set sids - {[]} \<subseteq> set al" using Cons.prems(5) by auto
      moreover have "groups_closed (map_of ?m)" "keys_distinct ?m"
        using Cons.prems(1,2) by (simp_all add: m groups_closed_without)
      moreover have "set_aliases_loop now sids al prev ?m = (al', prev', m')"
        using Cons.prems(7) Some False by simp
      ultimately show ?thesis using Cons.IH [of ?m al prev] Cons.prems(3,4) by blast
    next
      case True
      let ?al = "merge_session_aliases al (se_aliases e)"
      obtain zs where zs: "?al = al @ zs"
        using merge_session_aliases_extends [OF Cons.prems(3,4)] by blast
      have "a \<in> set ?al \<Longrightarrow> a \<notin> set sids \<Longrightarrow> map_of m a = Some f \<Longrightarrow> f \<in> set (prev @ [e])" for a f
        using Cons.prems(6) [of a f] groups_closedD(2) [OF Cons.prems(1) Some, of a] Some
        by (cases "a = sid") (auto simp: merge_session_aliases_set)
      moreover have "set sids - {[]} \<subseteq> set ?al" "[] \<notin> set ?al"
        using Cons.prems(5) by (auto simp: merge_session_aliases_set)
      moreover have "set_aliases_loop now sids ?al (prev @ [e]) m = (al', prev', m')"
        using Cons.prems(7) Some True by simp
      ultimately have IH: "groups_closed (map_of m') \<and> keys_distinct m' \<and> distinct al' \<and>
          [] \<notin> set al' \<and> (\<exists>zs. al' = ?al @ zs) \<and>
          (\<forall>a e. a \<in> set al' \<longrightarrow> map_of m' a = Some e \<longrightarrow> e \<in> set prev')"
        using Cons.IH [of m ?al "prev @ [e]"] Cons.prems(1,2) merge_session_aliases_distinct
        by blast
      then have "\<exists>zs. al' = al @ zs" using zs by auto
      with IH show ?thesis by blast
    qed
  qed
qed

lemma session_set_aliases_cases:
  assumes inv: "session_cache_inv c" and i: "i \<noteq> []"
  obtains m al prev where
    "groups_closed (map_of m)" "keys_distinct m" "distinct al" "[] \<notin> set al"
    "\<exists>zs. al = merge_session_aliases [] sids @ zs"
    "\<And>a e. a \<in> set al \<Longrightarrow> map_of m a = Some e \<Longrightarrow> e \<in> set prev"
    "session_set_aliases now i sids c =
       (if compact_session_aliases al = [] then c\<lparr>sc_entries := m\<rparr>
        else c\<lparr>sc_entries := replace_alias_groups i (now + sc_ttl c)
                 (compact_session_aliases al) prev m\<rparr>)"
proof -
  let ?al0 = "merge_session_aliases [] sids"
  obtain al prev m where
    l: "set_aliases_loop now sids ?al0 [] (sc_entries c) = (al, prev, m)"
    by (cases "set_aliases_loop now sids ?al0 [] (sc_entries c)") auto
  have p: "groups_closed (map_of (sc_entries c))" "keys_distinct (sc_entries c)"
    using inv by (simp_all add: session_cache_inv_def)
  have q: "[] \<notin> set ?al0" "set sids - {[]} \<subseteq> set ?al0"
    by (auto simp: merge_session_aliases_set)
  have *: "groups_closed (map_of m) \<and> keys_distinct m \<and> distinct al \<and> [] \<notin> set al \<and>
      (\<exists>zs. al = ?al0 @ zs) \<and> (\<forall>a e. a \<in> set al \<longrightarrow> map_of m a = Some e \<longrightarrow> e \<in> set prev)"
    by (rule set_aliases_loop_inv [OF p merge_session_aliases_distinct q _ l])
      (simp add: merge_session_aliases_set)
  have "session_set_aliases now i sids c =
       (if compact_session_aliases al = [] then c\<lparr>sc_entries := m\<rparr>
        else c\<lparr>sc_entries := replace_alias_groups i (now + sc_ttl c)
                 (compact_session_aliases al) prev m\<rparr>)"
    using i l by (simp add: session_set_aliases_def Let_def)
  with that * show thesis by blast
qed

lemma session_set_aliases_inv:
  assumes inv: "session_cache_inv c"
  shows "session_cache_inv (session_set_aliases now i sids c)"
proof (cases "i = []")
  case True
  then show ?thesis using inv by (simp add: session_set_aliases_def)
next
  case False
  obtain m al prev where h:
    "groups_closed (map_of m)" "keys_distinct m" "distinct al" "[] \<notin> set al"
    "\<And>a e. a \<in> set al \<Longrightarrow> map_of m a = Some e \<Longrightarrow> e \<in> set prev"
    "session_set_aliases now i sids c =
       (if compact_session_aliases al = [] then c\<lparr>sc_entries := m\<rparr>
        else c\<lparr>sc_entries := replace_alias_groups i (now + sc_ttl c)
                 (compact_session_aliases al) prev m\<rparr>)"
    using session_set_aliases_cases [OF inv False, of sids now] by metis
  have "groups_closed (map_of (replace_alias_groups i t (compact_session_aliases al) prev m))" for t
    using h(5) compact_session_aliases_subset [of al]
    by (intro replace_alias_groups_closed [OF h(1) compact_session_aliases_ok [OF h(3,4)]]) auto
  then show ?thesis using h(1,2,6) by (simp add: session_cache_inv_def)
qed

lemma invalidate_loop_map:
  assumes "distinct as"
  shows "map_of (invalidate_loop sid e as m) =
    (\<lambda>k. if k \<in> set as \<and> k \<noteq> sid
         then map_option (\<lambda>cur. if se_auth cur = se_auth e
                then cur\<lparr>se_aliases := filter (\<lambda>x. x \<noteq> sid) (se_aliases cur)\<rparr> else cur) (map_of m k)
         else map_of m k)"
  using assms
proof (induction as arbitrary: m)
  case (Cons a as)
  show ?case
    using Cons.prems
    by (cases "map_of m a") (auto simp: Cons.IH fun_eq_iff)
qed simp

lemma invalidate_loop_distinct:
  "keys_distinct m \<Longrightarrow> keys_distinct (invalidate_loop sid e as m)"
  by (induction sid e as m rule: invalidate_loop.induct) (auto split: option.split)

text \<open>
  The entries after an invalidation: the group of the identifier loses it, the other groups
  are as before.
\<close>

definition trimmed :: "string \<Rightarrow> session_entry \<Rightarrow> session_entry" where
  "trimmed sid e = e\<lparr>se_aliases := filter (\<lambda>x. x \<noteq> sid) (se_aliases e)\<rparr>"

lemma session_invalidate_map:
  assumes inv: "session_cache_inv c" and sid: "sid \<noteq> []"
  shows "map_of (sc_entries (session_invalidate sid c)) =
    (\<lambda>k. if k = sid then None
         else map_option (\<lambda>cur. if sid \<in> set (se_aliases cur) then trimmed sid cur else cur)
                (map_of (sc_entries c) k))"
proof -
  have cl: "groups_closed (map_of (sc_entries c))" using inv by (simp add: session_cache_inv_def)
  show ?thesis
  proof (cases "map_of (sc_entries c) sid")
    case None
    then have no: "map_of (sc_entries c) k = Some cur \<Longrightarrow> sid \<notin> set (se_aliases cur)" for k cur
      using groups_closedD(2) [OF cl, of k cur sid] by auto
    show ?thesis
      using None sid no
      by (auto simp: session_invalidate_def Let_def fun_eq_iff option.map_comp
          intro!: sym [OF map_option_idI] split: option.split)
  next
    case (Some e)
    have da: "distinct (se_aliases e)"
      using groups_closedD(3) [OF cl Some] by (simp add: compact_aliases_def)
    have mem: "sid \<in> set (se_aliases cur) \<longleftrightarrow> k \<in> set (se_aliases e)"
      "sid \<in> set (se_aliases cur) \<Longrightarrow> cur = e" if "map_of (sc_entries c) k = Some cur" for k cur
      using groups_closedD(1,2) [OF cl that] groups_closedD(1,2) [OF cl Some] Some that by force+
    show ?thesis
    proof (rule ext)
      fix k
      show "map_of (sc_entries (session_invalidate sid c)) k =
        (if k = sid then None
         else map_option (\<lambda>cur. if sid \<in> set (se_aliases cur) then trimmed sid cur else cur)
                (map_of (sc_entries c) k))"
      proof (cases "map_of (sc_entries c) k")
        case None
        then show ?thesis
          using sid Some da by (simp add: session_invalidate_def Let_def invalidate_loop_map)
      next
        case k: (Some cur)
        show ?thesis
          using sid Some da k mem [OF k]
          by (auto simp: session_invalidate_def Let_def invalidate_loop_map trimmed_def)
      qed
    qed
  qed
qed

lemma compact_aliases_trimmed:
  "compact_aliases (se_aliases e) \<Longrightarrow> compact_aliases (se_aliases (trimmed sid e))"
  unfolding compact_aliases_def trimmed_def
proof (elim conjE, intro conjI)
  let ?as = "se_aliases e" and ?P = "is_local_prompt_cache_session_alias"
  assume h: "distinct ?as" "[] \<notin> set ?as" "length (filter ?P ?as) \<le> 1"
    "length (filter (\<lambda>a. \<not> ?P a) ?as) \<le> max_stable_session_aliases"
  have le: "length (filter Q (filter R xs)) \<le> length (filter Q xs)" for Q R and xs :: "string list"
    by (induction xs) auto
  show "distinct (se_aliases (e\<lparr>se_aliases := filter (\<lambda>x. x \<noteq> sid) ?as\<rparr>))" using h(1) by simp
  show "[] \<notin> set (se_aliases (e\<lparr>se_aliases := filter (\<lambda>x. x \<noteq> sid) ?as\<rparr>))" using h(2) by simp
  have al: "se_aliases (e\<lparr>se_aliases := filter (\<lambda>x. x \<noteq> sid) ?as\<rparr>) = filter (\<lambda>x. x \<noteq> sid) ?as"
    by simp
  show "length (filter ?P (se_aliases (e\<lparr>se_aliases := filter (\<lambda>x. x \<noteq> sid) ?as\<rparr>))) \<le> 1"
    unfolding al by (rule order_trans [OF le h(3)])
  show "length (filter (\<lambda>a. \<not> ?P a) (se_aliases (e\<lparr>se_aliases := filter (\<lambda>x. x \<noteq> sid) ?as\<rparr>)))
      \<le> max_stable_session_aliases"
    unfolding al by (rule order_trans [OF le h(4)])
qed

lemma session_invalidate_inv:
  assumes inv: "session_cache_inv c"
  shows "session_cache_inv (session_invalidate sid c)"
proof (cases "sid = []")
  case True
  then show ?thesis using inv by (simp add: session_invalidate_def)
next
  case False
  have cl: "groups_closed (map_of (sc_entries c))" and kd: "keys_distinct (sc_entries c)"
    using inv by (simp_all add: session_cache_inv_def)
  let ?f = "\<lambda>cur. if sid \<in> set (se_aliases cur) then trimmed sid cur else cur"
  have val: "map_of (sc_entries (session_invalidate sid c)) k = Some e \<longleftrightarrow>
      k \<noteq> sid \<and> (\<exists>cur. map_of (sc_entries c) k = Some cur \<and> e = ?f cur)" for k e
    unfolding session_invalidate_map [OF inv False]
    by (cases "map_of (sc_entries c) k") (simp_all del: map_of_eq_Some_iff, blast)
  have al: "a \<in> set (se_aliases (?f cur)) \<longleftrightarrow> a \<in> set (se_aliases cur) \<and> a \<noteq> sid" for a cur
    by (auto simp: trimmed_def)
  have "groups_closed (map_of (sc_entries (session_invalidate sid c)))"
  proof (rule groups_closedI, goal_cases)
    case (1 k e)
    then obtain cur where c: "map_of (sc_entries c) k = Some cur" "e = ?f cur" "k \<noteq> sid"
      unfolding val by blast
    show ?case
      using groups_closedD(1) [OF cl c(1)] c(3) unfolding c(2) al by simp
  next
    case (2 k e a)
    then obtain cur where c: "map_of (sc_entries c) k = Some cur" "e = ?f cur" "k \<noteq> sid"
      unfolding val by blast
    have a: "a \<in> set (se_aliases cur)" "a \<noteq> sid" using 2(2) unfolding c(2) al by simp_all
    show ?case
      unfolding val using groups_closedD(2) [OF cl c(1) a(1)] a(2) c(2) by blast
  next
    case (3 k e)
    then obtain cur where c: "map_of (sc_entries c) k = Some cur" "e = ?f cur"
      unfolding val by blast
    show ?case
      using compact_aliases_trimmed [OF groups_closedD(3) [OF cl c(1)]]
        groups_closedD(3) [OF cl c(1)] unfolding c(2) by simp
  qed
  moreover have "keys_distinct (sc_entries (session_invalidate sid c))"
    using kd False
    by (auto simp: session_invalidate_def Let_def invalidate_loop_distinct split: option.split)
  ultimately show ?thesis by (rule session_cache_invI [rotated])
qed

lemma map_of_filter_val:
  "keys_distinct m \<Longrightarrow> map_of (filter (\<lambda>(k, v). P v) m) k =
     (case map_of m k of None \<Rightarrow> None | Some v \<Rightarrow> if P v then Some v else None)"
proof (induction m)
  case (Cons x m)
  obtain k' v where x: "x = (k', v)" by (cases x)
  have "map_of m k' = None" using Cons.prems x by (simp add: map_of_eq_None_iff)
  then show ?case using Cons x by (auto split: option.split)
qed simp

lemma filter_entries_inv:
  assumes "session_cache_inv c"
  shows "session_cache_inv (c\<lparr>sc_entries := filter (\<lambda>(k, v). P v) (sc_entries c)\<rparr>)"
proof -
  have kd: "keys_distinct (sc_entries c)" using assms by (simp add: session_cache_inv_def)
  have "map_of (filter (\<lambda>(k, v). P v) (sc_entries c)) = without (map_of (sc_entries c)) {e. \<not> P e}"
    by (rule ext) (simp add: map_of_filter_val [OF kd] without_def split: option.split)
  moreover have "keys_distinct (filter (\<lambda>(k, v). P v) (sc_entries c))"
    using kd by (rule distinct_map_filter)
  ultimately show ?thesis
    using assms by (simp add: session_cache_inv_def groups_closed_without)
qed

lemma session_invalidate_auth_inv:
  "session_cache_inv c \<Longrightarrow> session_cache_inv (session_invalidate_auth i c)"
  using filter_entries_inv [of c "\<lambda>e. se_auth e \<noteq> i"] by (simp add: session_invalidate_auth_def)

lemma session_cleanup_inv:
  "session_cache_inv c \<Longrightarrow> session_cache_inv (session_cleanup now c)"
  using filter_entries_inv [of c "\<lambda>e. before now (se_expires e)"] by (simp add: session_cleanup_def)

lemmas session_cache_inv_intros =
  new_session_cache_inv session_get_inv session_get_and_refresh_inv session_set_aliases_inv
  session_invalidate_inv session_invalidate_auth_inv session_cleanup_inv

section \<open>What a lookup returns\<close>

text \<open>The live binding of an identifier.\<close>

definition bound_to :: "gotime \<Rightarrow> session_cache \<Rightarrow> string \<Rightarrow> string option" where
  "bound_to now c sid =
     (case map_of (sc_entries c) sid of
        None \<Rightarrow> None
      | Some e \<Rightarrow> if before now (se_expires e) then Some (se_auth e) else None)"

lemma session_get_bound:
  "now \<le> now2 \<Longrightarrow> sid \<noteq> [] \<Longrightarrow> fst (session_get now now2 sid c) = bound_to now c sid"
  by (auto simp: session_get_def session_get_locked_def bound_to_def go_time split: option.split)

lemma session_get_and_refresh_bound:
  "sid \<noteq> [] \<Longrightarrow> fst (session_get_and_refresh now sid c) = bound_to now c sid"
  by (auto simp: session_get_and_refresh_def bound_to_def Let_def split: option.split)

text \<open>A bound identifier set as the first one reads back until the time to live has passed.\<close>

lemma session_set_aliases_bound:
  assumes inv: "session_cache_inv c" and i: "i \<noteq> []" and sid: "sid \<noteq> []"
    and t: "t < now + sc_ttl c"
  shows "bound_to t (session_set_aliases now i (sid # sids) c) sid = Some i"
proof -
  obtain m al prev where h:
    "groups_closed (map_of m)"
    "\<exists>zs. al = merge_session_aliases [] (sid # sids) @ zs"
    "session_set_aliases now i (sid # sids) c =
       (if compact_session_aliases al = [] then c\<lparr>sc_entries := m\<rparr>
        else c\<lparr>sc_entries := replace_alias_groups i (now + sc_ttl c)
                 (compact_session_aliases al) prev m\<rparr>)"
    using session_set_aliases_cases [OF inv i, of "sid # sids" now] by metis
  obtain zs where "merge_session_aliases [] (sid # sids) = sid # zs"
    using merge_loop_prefix [of "[sid]" sids] sid by (auto simp: merge_session_aliases_def)
  then have "sid \<in> set (compact_session_aliases al)"
    using h(2) compact_session_aliases_first by fastforce
  then show ?thesis
    using h(3) t by (auto simp: bound_to_def replace_alias_groups_map [OF h(1)] go_time)
qed

text \<open>A refresh keeps the binding for another period and never moves it.\<close>

lemma session_refresh_bound:
  assumes inv: "session_cache_inv c" and sid: "sid \<noteq> []"
    and b: "bound_to now c sid = Some i" and t: "t < now + sc_ttl c"
  shows "bound_to t (snd (session_get_and_refresh now sid c)) sid = Some i"
proof -
  obtain e where e: "map_of (sc_entries c) sid = Some e" "before now (se_expires e)" "i = se_auth e"
    using b by (auto simp: bound_to_def split: option.splits if_splits)
  have cl: "groups_closed (map_of (sc_entries c))" using inv by (simp add: session_cache_inv_def)
  obtain zs where "merge_session_aliases [sid] (se_aliases e) = sid # zs"
    using merge_loop_prefix [of "[sid]" "se_aliases e"] sid by (auto simp: merge_session_aliases_def)
  then have "sid \<in> set (compact_session_aliases (merge_session_aliases [sid] (se_aliases e)))"
    using compact_session_aliases_first by simp
  then show ?thesis
    using e sid t
    by (simp add: bound_to_def session_get_and_refresh_def Let_def
        replace_alias_groups_map [OF cl] go_time)
qed

text \<open>
  No operation other than a new binding makes an identifier point to another credential:
  after an invalidation nothing brings the binding back.
\<close>

lemma session_invalidate_bound:
  assumes inv: "session_cache_inv c" and sid: "sid \<noteq> []"
  shows "bound_to t (session_invalidate sid c) k = (if k = sid then None else bound_to t c k)"
  unfolding bound_to_def session_invalidate_map [OF inv sid]
  by (auto simp: trimmed_def split: option.split)

lemma session_get_and_refresh_domain:
  assumes inv: "session_cache_inv c" and k: "map_of (sc_entries c) k = None"
  shows "map_of (sc_entries (snd (session_get_and_refresh now sid c))) k = None"
proof (cases "map_of (sc_entries c) sid")
  case None
  then show ?thesis using k by (simp add: session_get_and_refresh_def)
next
  case (Some e)
  have cl: "groups_closed (map_of (sc_entries c))" using inv by (simp add: session_cache_inv_def)
  let ?as = "compact_session_aliases (merge_session_aliases [sid] (se_aliases e))"
  have "k \<notin> set ?as"
    using compact_session_aliases_subset [of "merge_session_aliases [sid] (se_aliases e)"]
      groups_closedD(2) [OF cl Some] Some k by (fastforce simp: merge_session_aliases_set)
  then show ?thesis
    using k Some by (simp add: session_get_and_refresh_def Let_def remove_alias_group_map
        replace_alias_groups_map [OF cl] without_def)
qed

lemma session_invalidate_auth_bound:
  assumes "session_cache_inv c" "i \<noteq> []"
  shows "bound_to t (session_invalidate_auth i c) k =
    (if bound_to t c k = Some i then None else bound_to t c k)"
  using assms
  by (auto simp: bound_to_def session_invalidate_auth_def session_cache_inv_def map_of_filter_val
      split: option.split)

lemma session_cleanup_bound:
  assumes "session_cache_inv c" "now \<le> t"
  shows "bound_to t (session_cleanup now c) k = bound_to t c k"
  using assms
  by (auto simp: bound_to_def session_cleanup_def session_cache_inv_def map_of_filter_val go_time
      split: option.split)

end
