(* ===== verification/SessionAffinity.thy ===== *)
theory SessionAffinity
  imports Selectors SessionCache
begin

text \<open>
  \<open>SessionAffinitySelector.Pick\<close> (\<open>sdk/cliproxy/auth/selector.go\<close>): session-sticky selection
  over any fallback selector. The session identifiers \<open>extractSessionIDs\<close> reads from the
  request are parameters. The locale \<open>affinity_client\<close> extends the contract of a selector;
  what is proved in it holds for every fallback selector that keeps the contract.
\<close>

section \<open>Definitions\<close>

text \<open>The instants the code reads from the clock, one per program point.\<close>

record pick_clock =
  pc_now :: gotime
  pc_refresh :: gotime
  pc_get :: gotime
  pc_get2 :: gotime
  pc_fallback :: gotime
  pc_bind :: gotime

definition session_cache_key :: "string \<Rightarrow> string \<Rightarrow> string \<Rightarrow> string" where
  "session_cache_key provider sid model = provider @ ''::'' @ sid @ ''::'' @ model"

text \<open>The closure \<open>bind\<close>; an empty fallback key means there is none.\<close>

definition session_bind ::
  "gotime \<Rightarrow> string \<Rightarrow> string \<Rightarrow> string \<Rightarrow> session_cache \<Rightarrow> session_cache" where
  "session_bind now cache_key fallback_key auth_id c =
     (if fallback_key \<noteq> [] then session_set_aliases now auth_id [cache_key, fallback_key] c
      else session_set now cache_key auth_id c)"

text \<open>The final call of the fallback selector, with the binding on success.\<close>

definition pick_and_bind ::
  "(gotime \<Rightarrow> string \<Rightarrow> string \<Rightarrow> auth option list \<Rightarrow> 's \<Rightarrow> (select_error + auth) \<times> 's) \<Rightarrow>
   pick_clock \<Rightarrow> string \<Rightarrow> string \<Rightarrow> auth list \<Rightarrow> string \<Rightarrow> string \<Rightarrow> session_cache \<Rightarrow> 's \<Rightarrow>
   (select_error + auth) \<times> session_cache \<times> 's" where
  "pick_and_bind fallback clk provider model fallback_auths cache_key fallback_key c s =
     (case fallback (pc_fallback clk) provider model (map Some fallback_auths) s of
        (Inl e, s') \<Rightarrow> (Inl e, c, s')
      | (Inr a, s') \<Rightarrow> (Inr a, session_bind (pc_bind clk) cache_key fallback_key (a_id a) c, s'))"

definition session_affinity_pick ::
  "(gotime \<Rightarrow> string \<Rightarrow> string \<Rightarrow> auth option list \<Rightarrow> 's \<Rightarrow> (select_error + auth) \<times> 's) \<Rightarrow> bool \<Rightarrow>
   string \<Rightarrow> string \<Rightarrow> pick_clock \<Rightarrow> string \<Rightarrow> string \<Rightarrow> auth option list \<Rightarrow> session_cache \<Rightarrow> 's \<Rightarrow>
   (select_error + auth) \<times> session_cache \<times> 's" where
  "session_affinity_pick fallback weighted primary_id fallback_id clk provider model auths c s =
     (let candidates = (if weighted then positive_weight_auths auths else auths) in
      if primary_id = [] then
        (case get_available_auths candidates provider model (pc_now clk) of
           Inl e \<Rightarrow> (Inl e, c, s)
         | Inr fallback_auths \<Rightarrow>
             (case fallback (pc_fallback clk) provider model (map Some fallback_auths) s of
                (r, s') \<Rightarrow> (r, c, s')))
      else
        (case get_available_auths_across_priorities candidates provider model (pc_now clk) of
           Inl e \<Rightarrow> (Inl e, c, s)
         | Inr available \<Rightarrow>
             let fallback_auths = highest_priority_auths available;
                 cache_key = session_cache_key provider primary_id model;
                 fallback_key = (if fallback_id \<noteq> [] \<and> fallback_id \<noteq> primary_id
                                 then session_cache_key provider fallback_id model else [])
             in (case session_get_and_refresh (pc_refresh clk) cache_key c of
                   (Some cached, c1) \<Rightarrow>
                     (case find (\<lambda>a. a_id a = cached) available of
                        Some a \<Rightarrow> (Inr a, session_bind (pc_bind clk) cache_key fallback_key (a_id a) c1, s)
                      | None \<Rightarrow>
                          pick_and_bind fallback clk provider model fallback_auths cache_key
                            fallback_key c1 s)
                 | (None, c1) \<Rightarrow>
                     (case (if fallback_key \<noteq> [] then session_get (pc_get clk) (pc_get2 clk) fallback_key c1
                            else (None, c1)) of
                        (r, c2) \<Rightarrow>
                          (case Option.bind r (\<lambda>cached. find (\<lambda>a. a_id a = cached) available) of
                             Some a \<Rightarrow>
                               (Inr a, session_bind (pc_bind clk) cache_key fallback_key (a_id a) c2, s)
                           | None \<Rightarrow>
                               pick_and_bind fallback clk provider model fallback_auths cache_key
                                 fallback_key c2 s)))))"

section \<open>The bindings a pick makes\<close>

lemma session_bind_inv:
  "session_cache_inv c \<Longrightarrow> session_cache_inv (session_bind t k f i c)"
  by (simp add: session_bind_def session_set_def session_set_aliases_inv)

lemma session_bind_bound:
  "session_cache_inv c \<Longrightarrow> i \<noteq> [] \<Longrightarrow> k \<noteq> [] \<Longrightarrow> u < t + sc_ttl c \<Longrightarrow>
   bound_to u (session_bind t k f i c) k = Some i"
  by (simp add: session_bind_def session_set_def session_set_aliases_bound)

lemma session_ttl [simp]:
  "sc_ttl (snd (session_get_and_refresh t k c)) = sc_ttl c"
  "sc_ttl (snd (session_get t u k c)) = sc_ttl c"
  by (auto simp: session_get_and_refresh_def session_get_def session_get_locked_def Let_def
      split: option.split)

lemma session_cache_key_ne [simp]: "session_cache_key p sid m \<noteq> []"
  by (simp add: session_cache_key_def)

section \<open>The client of a selector\<close>

locale affinity_client = auth_selector fallback admits inv
  for fallback :: "gotime \<Rightarrow> string \<Rightarrow> string \<Rightarrow> auth option list \<Rightarrow> 's \<Rightarrow> (select_error + auth) \<times> 's"
    and admits :: "auth option \<Rightarrow> bool"
    and inv :: "'s \<Rightarrow> bool" +
  fixes weighted :: bool
  assumes admits_eq: "admits c = (weighted \<longrightarrow> auth_weight c > 0)"

text \<open>The time order of the clock readings a client needs.\<close>

definition clock_ok :: "pick_clock \<Rightarrow> bool" where
  "clock_ok clk = (0 \<le> pc_now clk \<and> pc_now clk \<le> pc_fallback clk)"

lemma across_Inr:
  assumes "get_available_auths_across_priorities auths provider model now = Inr av"
  shows "set av = set (eligible_auths auths model now)" "av \<noteq> []"
proof -
  have "eligible_auths auths model now \<noteq> []"
  proof
    assume el: "eligible_auths auths model now = []"
    obtain m cc e where c: "collect_available_by_priority auths model now = (m, cc, e)"
      by (cases "collect_available_by_priority auths model now") auto
    have "buckets_hold m (eligible_auths auths model now)"
      using collect_loop_buckets [of "[]" "[]" auths model now 0 0] c
      by (simp add: collect_available_by_priority_def buckets_hold_def)
    then have "m = []" using buckets_empty_iff el by blast
    then show False
      using c assms by (auto simp: get_available_auths_across_priorities_def Let_def
          get_available_auths_with_priority_mode_def split: if_splits)
  qed
  then obtain xs where "get_available_auths_across_priorities auths provider model now = Inr xs"
    "mset xs = mset (eligible_auths auths model now)" "eligible_auths auths model now \<noteq> []"
    using get_available_across_ok by blast
  then show "set av = set (eligible_auths auths model now)" "av \<noteq> []"
    using assms by (auto dest: mset_eq_setD)
qed

context affinity_client begin

definition candidates :: "auth option list \<Rightarrow> auth option list" where
  "candidates auths = (if weighted then positive_weight_auths auths else auths)"

lemma eligible_candidates:
  "a \<in> set (eligible_auths (candidates auths) model now) \<longleftrightarrow> pickable admits auths model now a"
  by (auto simp: candidates_def eligible_auths_iff pickable_def positive_weight_auths_def admits_eq)

text \<open>A pick of the fallback among available credentials is one of them.\<close>

lemma fallback_member:
  assumes "inv s" "fallback t provider model (map Some xs) s = (Inr a, s')"
  shows "a \<in> set xs"
  using pick_sound [OF assms] by (auto simp: pickable_def)

lemma fallback_top:
  assumes i: "inv s" and f: "fallback t provider model (map Some xs) s = (Inr a, s')"
    and t: "0 \<le> now" "now \<le> t" and xs: "set xs = set (top_tier ys)"
    and ys: "\<forall>y \<in> set ys. admits (Some y) \<and> \<not> blocked (Some y) model now"
  shows "a \<in> set ys \<and> (\<forall>b \<in> set ys. prio b \<le> prio a)"
  using fallback_member [OF i f] xs top_tier_member by blast

lemma fallback_live:
  assumes i: "inv s" and t: "0 \<le> now" "now \<le> t" and xs: "xs \<noteq> []"
    and el: "\<forall>x \<in> set xs. admits (Some x) \<and> \<not> blocked (Some x) model now"
  shows "\<exists>a s'. fallback t provider model (map Some xs) s = (Inr a, s')"
proof -
  have "pickable admits (map Some xs) model t (hd xs)"
    using el xs unblocked_mono [OF t] by (auto simp: pickable_def)
  then show ?thesis using pick_live [OF i] by blast
qed

text \<open>Every way a pick succeeds, with what each guarantees.\<close>

lemma affinity_pick_sound:
  assumes i: "inv s" and clk: "clock_ok clk"
    and p: "session_affinity_pick fallback weighted pid fid clk provider model auths c s = (Inr a, c', s')"
  shows "pickable admits auths model (pc_now clk) a \<and>
    ((\<forall>b. pickable admits auths model (pc_now clk) b \<longrightarrow> prio b \<le> prio a) \<or>
     (pid \<noteq> [] \<and>
      (bound_to (pc_refresh clk) c (session_cache_key provider pid model) = Some (a_id a) \<or>
       (fid \<noteq> [] \<and> fid \<noteq> pid))))"
proof -
  let ?k = "session_cache_key provider pid model"
  let ?fk = "if fid \<noteq> [] \<and> fid \<noteq> pid then session_cache_key provider fid model else []"
  have cand: "(if weighted then positive_weight_auths auths else auths) = candidates auths"
    by (simp add: candidates_def)
  have top: "set xs = set (top_tier (eligible_auths (candidates auths) model (pc_now clk))) \<Longrightarrow>
      fallback (pc_fallback clk) provider model (map Some xs) s = (Inr b, s'') \<Longrightarrow>
      pickable admits auths model (pc_now clk) b \<and>
      (\<forall>d. pickable admits auths model (pc_now clk) d \<longrightarrow> prio d \<le> prio b)" for xs b s''
    using fallback_member [OF i, of "pc_fallback clk" provider model xs b s'']
      top_tier_member eligible_candidates by metis
  show ?thesis
  proof (cases "pid = []")
    case True
    then obtain xs where xs: "get_available_auths (candidates auths) provider model (pc_now clk) = Inr xs"
      "fallback (pc_fallback clk) provider model (map Some xs) s = (Inr a, s')"
      using p unfolding session_affinity_pick_def cand Let_def
      by (auto split: sum.splits prod.splits)
    show ?thesis using top [OF get_available_Inr(2) [OF xs(1)] xs(2)] by blast
  next
    case False
    then obtain av where
      av: "get_available_auths_across_priorities (candidates auths) provider model (pc_now clk) = Inr av"
      using p unfolding session_affinity_pick_def cand Let_def by (auto split: sum.splits)
    have sav: "set av = set (eligible_auths (candidates auths) model (pc_now clk))"
      by (rule across_Inr(1) [OF av])
    have tav: "set (highest_priority_auths av) =
        set (top_tier (eligible_auths (candidates auths) model (pc_now clk)))"
      unfolding highest_priority_auths_top using sav top_tier_member by blast
    have pb: "pick_and_bind fallback clk provider model (highest_priority_auths av) k f d s = (Inr a, c', s')
        \<Longrightarrow> ?thesis" for k f d
      using top [OF tav] by (auto simp: pick_and_bind_def split: prod.splits sum.splits)
    have fnd: "find (\<lambda>b. a_id b = i) av = Some b \<Longrightarrow>
        pickable admits auths model (pc_now clk) b \<and> a_id b = i" for i b
      using eligible_candidates sav by (auto simp: find_Some_iff)
    obtain r c1 where g: "session_get_and_refresh (pc_refresh clk) ?k c = (r, c1)"
      by (cases "session_get_and_refresh (pc_refresh clk) ?k c")
    then have r: "r = bound_to (pc_refresh clk) c ?k"
      using session_get_and_refresh_bound [of ?k "pc_refresh clk" c] by simp
    show ?thesis
    proof (cases r)
      case (Some i)
      show ?thesis
      proof (cases "find (\<lambda>b. a_id b = i) av")
        case None
        then show ?thesis
          using p False av g Some pb unfolding session_affinity_pick_def cand Let_def by auto
      next
        case f: (Some b)
        then have "a = b"
          using p False av g Some unfolding session_affinity_pick_def cand Let_def by auto
        then show ?thesis using fnd [OF f] r Some False by simp
      qed
    next
      case None
      obtain q c2 where q: "(if ?fk \<noteq> [] then session_get (pc_get clk) (pc_get2 clk) ?fk c1
          else (None, c1)) = (q, c2)"
        by (cases "if ?fk \<noteq> [] then session_get (pc_get clk) (pc_get2 clk) ?fk c1 else (None, c1)")
      have p': "(case Option.bind q (\<lambda>cached. find (\<lambda>a. a_id a = cached) av) of
            Some a \<Rightarrow> (Inr a, session_bind (pc_bind clk) ?k ?fk (a_id a) c2, s)
          | None \<Rightarrow> pick_and_bind fallback clk provider model (highest_priority_auths av) ?k ?fk c2 s)
          = (Inr a, c', s')"
        using p False av g None q unfolding session_affinity_pick_def cand Let_def by simp
      show ?thesis
      proof (cases "Option.bind q (\<lambda>cached. find (\<lambda>a. a_id a = cached) av)")
        case None
        then show ?thesis using p' pb by simp
      next
        case (Some b)
        then obtain i where i: "q = Some i" "find (\<lambda>a. a_id a = i) av = Some b"
          by (auto simp: bind_eq_Some_conv)
        have fk: "fid \<noteq> [] \<and> fid \<noteq> pid"
        proof (rule ccontr)
          assume "\<not> ?thesis"
          then have "?fk = []" by (simp only: if_False)
          then have "q = None" using q by (simp only: simp_thms if_False prod.inject)
          then show False using i(1) by simp
        qed
        have "a = b" using p' unfolding Some by simp
        then show ?thesis using fk fnd [OF i(2)] False by blast
      qed
    qed
  qed
qed

text \<open>Stickiness: an available bound credential is returned whatever its priority.\<close>

lemma affinity_pick_sticky:
  assumes "pid \<noteq> []" "bound_to (pc_refresh clk) c (session_cache_key provider pid model) = Some (a_id a)"
    and "pickable admits auths model (pc_now clk) a"
  shows "\<exists>b c'. session_affinity_pick fallback weighted pid fid clk provider model auths c s =
    (Inr b, c', s) \<and> a_id b = a_id a"
proof -
  have cand: "(if weighted then positive_weight_auths auths else auths) = candidates auths"
    by (simp add: candidates_def)
  have el: "a \<in> set (eligible_auths (candidates auths) model (pc_now clk))"
    using assms(3) by (simp add: eligible_candidates)
  then obtain av where
    av: "get_available_auths_across_priorities (candidates auths) provider model (pc_now clk) = Inr av"
    using get_available_across_ok [of "candidates auths" model "pc_now clk" provider] by fastforce
  have "a \<in> set av" using el across_Inr(1) [OF av] by simp
  then obtain b where b: "find (\<lambda>x. a_id x = a_id a) av = Some b"
    by (cases "find (\<lambda>x. a_id x = a_id a) av") (auto simp: find_None_iff)
  then have "a_id b = a_id a" by (auto simp: find_Some_iff)
  moreover obtain c1 where
    "session_get_and_refresh (pc_refresh clk) (session_cache_key provider pid model) c = (Some (a_id a), c1)"
    using session_get_and_refresh_bound [of "session_cache_key provider pid model" "pc_refresh clk" c]
      assms(2) by (metis prod.collapse session_cache_key_ne)
  ultimately show ?thesis
    using assms(1) av b unfolding session_affinity_pick_def cand Let_def by auto
qed

text \<open>Progress: with an eligible candidate the pick succeeds.\<close>

lemma affinity_pick_live:
  assumes i: "inv s" and clk: "clock_ok clk"
    and ex: "\<exists>b. pickable admits auths model (pc_now clk) b"
  shows "\<exists>a c' s'. session_affinity_pick fallback weighted pid fid clk provider model auths c s = (Inr a, c', s')"
proof -
  have cand: "(if weighted then positive_weight_auths auths else auths) = candidates auths"
    by (simp add: candidates_def)
  have t: "0 \<le> pc_now clk" "pc_now clk \<le> pc_fallback clk" using clk by (simp_all add: clock_ok_def)
  have ne: "eligible_auths (candidates auths) model (pc_now clk) \<noteq> []"
    using ex eligible_candidates [of _ auths model "pc_now clk"] by (metis empty_iff list.set(1))
  have el: "\<forall>x \<in> set (eligible_auths (candidates auths) model (pc_now clk)).
      admits (Some x) \<and> \<not> blocked (Some x) model (pc_now clk)"
    by (simp add: eligible_candidates pickable_def)
  obtain xs where xs: "get_available_auths (candidates auths) provider model (pc_now clk) = Inr xs"
    using get_available_auths_ok [OF ne] by blast
  have fx: "\<exists>a s'. fallback (pc_fallback clk) provider model (map Some xs) s = (Inr a, s')"
    by (rule fallback_live [OF i t get_available_Inr(1) [OF xs]])
      (use get_available_Inr(2) [OF xs] top_tier_member el in blast)
  obtain av where
    av: "get_available_auths_across_priorities (candidates auths) provider model (pc_now clk) = Inr av"
    using get_available_across_ok [OF ne] by blast
  have fav: "\<exists>a s'. fallback (pc_fallback clk) provider model (map Some (highest_priority_auths av)) s
      = (Inr a, s')"
    by (rule fallback_live [OF i t])
      (use across_Inr [OF av] top_tier_ne [OF across_Inr(2) [OF av]] top_tier_member el in
        \<open>auto simp: highest_priority_auths_top\<close>)
  have pb: "\<exists>a c' s'. pick_and_bind fallback clk provider model (highest_priority_auths av) k f d s
      = (Inr a, c', s')" for k f d
    using fav by (auto simp: pick_and_bind_def)
  show ?thesis
    using fx xs av pb unfolding session_affinity_pick_def cand Let_def
    by (auto split: prod.split option.split)
qed

text \<open>The fallback's state stays sound.\<close>

lemma affinity_pick_keeps:
  assumes i: "inv s"
    and p: "session_affinity_pick fallback weighted pid fid clk provider model auths c s = (r, c', s')"
  shows "inv s'"
proof -
  have f: "inv s''" if "fallback t provider model xs s = (q, s'')" for t xs q s''
    using pick_inv [OF i, of t provider model xs] that by simp
  then have b: "inv s''" if "pick_and_bind fallback clk provider model xs k fk d s = (q, d', s'')"
    for xs k fk d q d' s''
    using that by (auto simp: pick_and_bind_def split: prod.splits sum.splits)
  show ?thesis
    using p i f b unfolding session_affinity_pick_def Let_def
    by (auto split: if_splits sum.splits option.splits prod.splits)
qed

text \<open>After a successful pick the session is bound to the credential for one period.\<close>

lemma affinity_pick_binds:
  assumes ci: "session_cache_inv c" and pid: "pid \<noteq> []" and ida: "a_id a \<noteq> []"
    and p: "session_affinity_pick fallback weighted pid fid clk provider model auths c s = (Inr a, c', s')"
    and u: "u < pc_bind clk + sc_ttl c"
  shows "bound_to u c' (session_cache_key provider pid model) = Some (a_id a) \<and> session_cache_inv c'"
proof -
  let ?k = "session_cache_key provider pid model"
  have b: "session_cache_inv d \<Longrightarrow> sc_ttl d = sc_ttl c \<Longrightarrow>
      bound_to u (session_bind (pc_bind clk) ?k f (a_id a) d) ?k = Some (a_id a) \<and>
      session_cache_inv (session_bind (pc_bind clk) ?k f (a_id a) d)" for d f
    using session_bind_bound [of d "a_id a" ?k u "pc_bind clk" f] session_bind_inv ida u by simp
  have pb: "session_cache_inv d \<Longrightarrow> sc_ttl d = sc_ttl c \<Longrightarrow>
      pick_and_bind fallback clk provider model xs ?k f d s = (Inr a, c', s') \<Longrightarrow> ?thesis" for xs f d
    using b by (auto simp: pick_and_bind_def split: prod.splits sum.splits)
  obtain r c1 where g: "session_get_and_refresh (pc_refresh clk) ?k c = (r, c1)"
    by (cases "session_get_and_refresh (pc_refresh clk) ?k c")
  have c1: "session_cache_inv c1" "sc_ttl c1 = sc_ttl c"
    using session_get_and_refresh_inv [OF ci, of "pc_refresh clk" ?k]
      session_ttl(1) [of "pc_refresh clk" ?k c] g by simp_all
  have c2: "session_cache_inv (snd (session_get t t2 fk c1))" "sc_ttl (snd (session_get t t2 fk c1)) = sc_ttl c"
    for t t2 fk
    using session_get_inv [OF c1(1)] c1(2) by simp_all
  show ?thesis
    using p pid g
    unfolding session_affinity_pick_def Let_def
    by (auto split: sum.splits option.splits prod.splits if_splits
        dest!: pb [rotated 2] intro: c1 c2 simp: b c1)
      (metis b pb c1 c2 snd_conv)+
qed

end

section \<open>The fallback selectors of the program\<close>

interpretation affinity_round_robin:
  affinity_client "round_robin_pick ws" "\<lambda>_. True" rr_inv False for ws
  by unfold_locales simp

interpretation affinity_fill_first:
  affinity_client "\<lambda>now provider model auths (s :: unit). (fill_first_pick ws now provider model auths, s)"
    "\<lambda>_. True" "\<lambda>_. True" False for ws
  by unfold_locales simp

interpretation affinity_weighted:
  affinity_client "weighted_pick ws route" "\<lambda>c. auth_weight c > 0" "\<lambda>_. True" True for ws route
  by unfold_locales simp

end
