(* ===== verification/SelectionProperties.thy ===== *)
theory SelectionProperties
  imports SessionAffinity
begin

text \<open>
  The properties of selection: the verdict on a credential, the candidates and errors of
  \<open>getAvailableAuths\<close>, the round-robin, fill-first and weighted selectors, and session affinity.
  The sample credentials differ in priority, weight and cooldown.
\<close>

section \<open>Sample values\<close>

definition cred :: "string \<Rightarrow> string \<Rightarrow> string \<Rightarrow> auth" where
  "cred i priority weight = (new_auth i ''claude'')\<lparr>a_status := StatusActive,
     a_attributes := [''priority'' \<mapsto> priority, ''weight'' \<mapsto> weight]\<rparr>"

definition cooling_cred :: "string \<Rightarrow> gotime \<Rightarrow> auth" where
  "cooling_cred i t = (cred i ''9'' ''1'')\<lparr>a_unavailable := True, a_next_retry := t,
     a_quota := \<lparr>q_exceeded = True, q_reason = ''quota'', q_next_recover = t, q_backoff = 1\<rparr>\<rparr>"

definition pool :: "auth option list" where
  "pool = [Some (cred ''b'' ''5'' ''2''), Some (cooling_cred ''c'' 100), Some (cred ''a'' ''5'' ''1''),
     Some (cred ''d'' ''1'' ''1'')]"

section \<open>The verdict\<close>

text \<open>
  C35 The verdict on a credential does not depend on the order in which Go iterates over its
  model states: whether it is blocked and until when is the same for every order, and the whole
  verdict is when it names a time.
\<close>

theorem verdict_any_order:
  assumes "0 \<le> now" "mset ms = mset (a_model_states a)"
  shows "(case (is_auth_blocked_for_model (Some a) model now,
                is_auth_blocked_for_model (Some (a\<lparr>a_model_states := ms\<rparr>)) model now) of
      ((b, r, n), (b', r', n')) \<Rightarrow> b' = b \<and> n' = n \<and> (n \<noteq> 0 \<longrightarrow> r' = r))"
  using blocked_order_independent [OF assms, of model] by (auto split: prod.splits)

text \<open>
  C36 Time alone never takes a credential away and a named retry time is kept: an available
  credential stays available as the clock advances, and a block that names a time, or none,
  lasts until that time, or stays.
\<close>

theorem verdicts_persist:
  assumes "0 \<le> t0" "t0 \<le> now"
  shows "(\<not> fst (is_auth_blocked_for_model ao model t0) \<longrightarrow> \<not> fst (is_auth_blocked_for_model ao model now)) \<and>
    (\<forall>r n. is_auth_blocked_for_model ao model t0 = (True, r, n) \<longrightarrow> n = 0 \<or> now < n \<longrightarrow>
       fst (is_auth_blocked_for_model ao model now))"
  using unblocked_mono [OF assms] still_blocked [OF assms] by blast

theorem verdicts_persist_witness:
  "fst (is_auth_blocked_for_model (Some (cooling_cred ''c'' 100)) [] 99) \<and>
   \<not> fst (is_auth_blocked_for_model (Some (cred ''a'' ''5'' ''1'')) [] 99)"
proof -
  have "is_auth_blocked_for_model (Some (cooling_cred ''c'' 100)) [] 50 = (True, BlockCooldown, 100)"
    "\<not> fst (is_auth_blocked_for_model (Some (cred ''a'' ''5'' ''1'')) [] 50)" by code_simp+
  then show ?thesis
    using verdicts_persist [of 50 99 "Some (cooling_cred ''c'' 100)" "[]"]
      verdicts_persist [of 50 99 "Some (cred ''a'' ''5'' ''1'')" "[]"] by simp
qed

theorem verdict_any_order_witness:
  "snd (snd (is_auth_blocked_for_model (Some ((cred ''a'' ''5'' ''1'')\<lparr>a_model_states := [(''m'', None), (''n'', None)]\<rparr>)) ''m'' 7)) =
   snd (snd (is_auth_blocked_for_model (Some ((cred ''a'' ''5'' ''1'')\<lparr>a_model_states := [(''n'', None), (''m'', None)]\<rparr>)) ''m'' 7))"
  using verdict_any_order [of 7 "[(''n'', None), (''m'', None)]"
      "(cred ''a'' ''5'' ''1'')\<lparr>a_model_states := [(''m'', None), (''n'', None)]\<rparr>" "''m''"]
  by (simp split: prod.splits)

section \<open>Candidates\<close>

text \<open>
  C34 \<open>getAvailableAuths\<close> returns the available credentials of the highest priority, each once,
  sorted by identifier; the incremental buckets of the code compute this filter and sort.
\<close>

theorem available_auths_spec:
  assumes "eligible_auths auths model now \<noteq> []"
  shows "get_available_auths auths provider model now =
    Inr (sort_key a_id (filter (\<lambda>a. prio a = Max (prio ` set (eligible_auths auths model now)))
           (eligible_auths auths model now)))"
  using get_available_auths_ok [OF assms] by (simp add: top_tier_def)

theorem available_auths_spec_witness:
  "\<exists>xs. get_available_auths pool ''claude'' [] 50 = Inr xs \<and> map a_id xs = [''a'', ''b'']"
proof -
  have "\<not> fst (is_auth_blocked_for_model (Some (cred i p w)) [] 50)" for i p w
    by (simp add: is_auth_blocked_for_model_def auth_block_def availability_block_def cred_def new_auth_def no_quota_def)
  moreover have "fst (is_auth_blocked_for_model (Some (cooling_cred ''c'' 100)) [] 50)" by code_simp
  ultimately have el: "eligible_auths pool [] 50 = [cred ''b'' ''5'' ''2'', cred ''a'' ''5'' ''1'', cred ''d'' ''1'' ''1'']"
    by (simp add: eligible_auths_def pool_def)
  have pr: "prio (cred ''b'' ''5'' ''2'') = 5" "prio (cred ''a'' ''5'' ''1'') = 5" "prio (cred ''d'' ''1'' ''1'') = 1"
    by code_simp+
  have le: "\<not> (''b'' \<le> ''a'')" "''a'' \<le> ''b''" by code_simp+
  have "sort_key a_id [cred ''b'' ''5'' ''2'', cred ''a'' ''5'' ''1''] = [cred ''a'' ''5'' ''1'', cred ''b'' ''5'' ''2'']"
    using le by (simp add: cred_def new_auth_def)
  then show ?thesis
    using available_auths_spec [of pool "[]" 50 "''claude''"] unfolding el
    by (simp add: pr) (simp add: cred_def new_auth_def)
qed

text \<open>
  When no credential is available the error tells why: with every credential cooling down it
  is a model cooldown that resets when the first of them recovers, otherwise it is the plain
  \<open>auth_unavailable\<close>.
\<close>

theorem unavailable_error_spec:
  assumes "0 \<le> now" "auths \<noteq> []" "eligible_auths auths model now = []"
  shows "get_available_auths auths provider model now =
    (if (\<forall>v \<in> set (verdicts auths model now). fst (snd v) = BlockCooldown) \<and>
        cool_times (verdicts auths model now) \<noteq> {}
     then Inl (ModelCooldown model (if provider = ''mixed'' then [] else provider)
                (time_sub (Min (cool_times (verdicts auths model now))) now))
     else Inl (CodedError ''auth_unavailable'' ''no auth available''))"
  by (rule get_available_auths_error [OF assms])

theorem unavailable_error_spec_witness:
  "get_available_auths [Some (cooling_cred ''c'' 100), Some (cooling_cred ''e'' 90)] ''claude'' [] 50 =
   Inl (ModelCooldown [] ''claude'' 40)"
proof -
  let ?as = "[Some (cooling_cred ''c'' 100), Some (cooling_cred ''e'' 90)]"
  have v: "verdicts ?as [] 50 = [(True, BlockCooldown, 100), (True, BlockCooldown, 90)]" by code_simp
  have c: "cool_times [(True, BlockCooldown, 100), (True, BlockCooldown, 90)] = {100, 90}"
    by (auto simp: cool_times_def)
  have "eligible_auths ?as [] 50 = []" using v by (simp add: eligible_auths_def verdicts_def)
  from unavailable_error_spec [OF _ _ this, of "''claude''"] show ?thesis
    by (simp only: v c) (simp add: time_sub_def int64_min_def int64_max_def)
qed

section \<open>Selectors\<close>

text \<open>
  C31 The round-robin selector is sound and live: it returns an available credential of the
  highest priority, it fails exactly when no credential is available, and its cursors stay in
  range.
\<close>

theorem round_robin_correct:
  assumes "rr_inv s"
  shows "(\<forall>a s'. round_robin_pick ws now provider model auths s = (Inr a, s') \<longrightarrow>
      Some a \<in> set auths \<and> \<not> fst (is_auth_blocked_for_model (Some a) model now) \<and>
      (\<forall>b. Some b \<in> set auths \<longrightarrow> \<not> fst (is_auth_blocked_for_model (Some b) model now) \<longrightarrow> prio b \<le> prio a)) \<and>
    ((\<exists>e. fst (round_robin_pick ws now provider model auths s) = Inl e) \<longleftrightarrow>
      (\<forall>b. Some b \<in> set auths \<longrightarrow> fst (is_auth_blocked_for_model (Some b) model now))) \<and>
    rr_inv (snd (round_robin_pick ws now provider model auths s))"
  using round_robin.pick_spec [OF assms] by simp

definition rr_start :: rr_state where
  "rr_start = \<lparr>rr_cursors = [], rr_max_keys = 0\<rparr>"

text \<open>
  Fill-first is sound and live, and deterministic: its pick is a function of the candidates
  and the clock alone, an available credential of the highest priority.
\<close>

theorem fill_first_correct:
  "(\<forall>a. fill_first_pick ws now provider model auths = Inr a \<longrightarrow>
      Some a \<in> set auths \<and> \<not> fst (is_auth_blocked_for_model (Some a) model now) \<and>
      (\<forall>b. Some b \<in> set auths \<longrightarrow> \<not> fst (is_auth_blocked_for_model (Some b) model now) \<longrightarrow> prio b \<le> prio a)) \<and>
   ((\<exists>e. fill_first_pick ws now provider model auths = Inl e) \<longleftrightarrow>
      (\<forall>b. Some b \<in> set auths \<longrightarrow> fst (is_auth_blocked_for_model (Some b) model now)))"
  using fill_first.pick_spec [where ws = ws and now = now and provider = provider and model = model and auths = auths]
  by simp

text \<open>
  The weighted selector picks only credentials of positive weight: its pick is available, of
  positive weight and of the highest priority among those, and it fails exactly when there is
  none.
\<close>

theorem weighted_correct:
  "(\<forall>a s'. weighted_pick ws route now provider model auths s = (Inr a, s') \<longrightarrow>
      Some a \<in> set auths \<and> 0 < auth_weight (Some a) \<and> \<not> fst (is_auth_blocked_for_model (Some a) model now) \<and>
      (\<forall>b. Some b \<in> set auths \<longrightarrow> 0 < auth_weight (Some b) \<longrightarrow>
         \<not> fst (is_auth_blocked_for_model (Some b) model now) \<longrightarrow> prio b \<le> prio a)) \<and>
   ((\<exists>e. fst (weighted_pick ws route now provider model auths s) = Inl e) \<longleftrightarrow>
      (\<forall>b. Some b \<in> set auths \<longrightarrow> 0 < auth_weight (Some b) \<longrightarrow>
         fst (is_auth_blocked_for_model (Some b) model now)))"
  using weighted.pick_spec [where ws = ws and route = route and now = now and provider = provider and
      model = model and auths = auths and s = s]
  by simp

text \<open>
  Round-robin rotates: over any number of picks with the same candidates the j-th pick is
  the candidate at the start position plus j, modulo the number of candidates.
\<close>

theorem round_robin_rotates:
  assumes "\<forall>t \<in> set ts. get_available_auths auths provider model t = Inr av"
    and "rr_key_known provider model s" "0 \<le> rr_index provider model s"
    and "rr_index provider model s + int (length ts) \<le> 2147483640"
  shows "fst (round_robin_run ws provider model auths ts s) =
    map (\<lambda>j. Inr (prefer_codex_websocket_auths ws provider av !
           nat ((rr_index provider model s + int j) mod int (length (prefer_codex_websocket_auths ws provider av)))))
      [0..<length ts]"
  by (rule round_robin_run_positions [OF assms])

text \<open>
  Smooth weighted round-robin is exactly fair: from a fresh state every credential is picked
  as many times as its weight says in each period of as many picks as the weights sum to, and
  the state returns to its start.
\<close>

theorem smooth_selector_fair:
  assumes "smooth_candidates a_id (\<lambda>a. auth_weight (Some a)) xs" "\<forall>x \<in> set xs. read0 c (a_id x) = 0"
  shows "\<forall>x \<in> set xs.
    times_picked (fst (smooth_run pick_smooth_positive xs (nat (weight_sum (\<lambda>a. auth_weight (Some a)) xs)) c)) x =
      auth_weight (Some x)"
  using selector_picker.run_fair [OF assms]
  by (cases "smooth_run pick_smooth_positive xs (nat (weight_sum (\<lambda>a. auth_weight (Some a)) xs)) c") auto

text \<open>
  Smooth weighted round-robin never bunches: after k picks no credential is ahead of its
  proportional share k * w / W by a whole pick or more.
\<close>

theorem smooth_selector_never_ahead:
  assumes "smooth_candidates a_id (\<lambda>a. auth_weight (Some a)) xs" "\<forall>x \<in> set xs. read0 c (a_id x) = 0" "x \<in> set xs"
  shows "weight_sum (\<lambda>a. auth_weight (Some a)) xs *
      (times_picked (fst (smooth_run pick_smooth_positive xs k c)) x - 1) < int k * auth_weight (Some x)"
  using selector_picker.run_never_ahead [OF assms(1,2) _ assms(3)]
  by (cases "smooth_run pick_smooth_positive xs k c") auto

definition trio :: "auth list" where
  "trio = [cred ''a'' ''1'' ''5'', cred ''b'' ''1'' ''1'', cred ''c'' ''1'' ''1'']"

lemma trio_candidates: "smooth_candidates a_id (\<lambda>a. auth_weight (Some a)) trio"
proof -
  have w: "auth_weight (Some (cred ''a'' ''1'' ''5'')) = 5" "auth_weight (Some (cred ''b'' ''1'' ''1'')) = 1"
    "auth_weight (Some (cred ''c'' ''1'' ''1'')) = 1"
    by code_simp+
  have i: "a_id (cred j p v) = j" for j p v by (simp add: cred_def new_auth_def)
  have "cred j p v \<noteq> cred j' p' v'" if "j \<noteq> j'" for j p v j' p' v' using i that by metis
  then show ?thesis
    by (simp add: smooth_candidates_def trio_def weight_sum_def w i int64_max_def)
qed

theorem smooth_selector_fair_witness:
  "times_picked (fst (smooth_run pick_smooth_positive trio (nat (weight_sum (\<lambda>a. auth_weight (Some a)) trio)) []))
     (cred ''a'' ''1'' ''5'') = 5"
proof -
  have "auth_weight (Some (cred ''a'' ''1'' ''5'')) = 5" by code_simp
  moreover have "cred ''a'' ''1'' ''5'' \<in> set trio" by (simp add: trio_def)
  moreover have "\<forall>x \<in> set trio. read0 [] (a_id x) = 0" by (simp add: read0_def)
  ultimately show ?thesis using smooth_selector_fair [OF trio_candidates, of "[]"] by simp
qed

theorem smooth_selector_never_ahead_witness:
  "weight_sum (\<lambda>a. auth_weight (Some a)) trio *
     (times_picked (fst (smooth_run pick_smooth_positive trio 3 [])) (cred ''a'' ''1'' ''5'') - 1) < 3 * 5"
proof -
  have "auth_weight (Some (cred ''a'' ''1'' ''5'')) = 5" by code_simp
  moreover have "cred ''a'' ''1'' ''5'' \<in> set trio" by (simp add: trio_def)
  moreover have "\<forall>x \<in> set trio. read0 [] (a_id x) = 0" by (simp add: read0_def)
  ultimately show ?thesis using smooth_selector_never_ahead [OF trio_candidates, of "[]" _ 3] by fastforce
qed

lemma pool_available:
  "\<not> fst (is_auth_blocked_for_model (Some (cred i p w)) [] t)"
  by (simp add: is_auth_blocked_for_model_def auth_block_def availability_block_def cred_def new_auth_def no_quota_def)

theorem round_robin_correct_witness:
  "\<exists>a. fst (round_robin_pick False 50 ''claude'' [] pool rr_start) = Inr a \<and> 5 \<le> prio a"
proof -
  have inv: "rr_inv rr_start" by (simp add: rr_inv_def rr_start_def read0_def)
  note c = round_robin_correct [OF inv, of False 50 "''claude''" "[]" pool]
  have b: "Some (cred ''b'' ''5'' ''2'') \<in> set pool" by (simp add: pool_def)
  obtain r s' where p: "round_robin_pick False 50 ''claude'' [] pool rr_start = (r, s')"
    by (cases "round_robin_pick False 50 ''claude'' [] pool rr_start")
  have "\<nexists>e. r = Inl e" using c b pool_available p by auto
  then obtain a where a: "r = Inr a" by (cases r) auto
  have "prio (cred ''b'' ''5'' ''2'') = 5" by code_simp
  then show ?thesis using c b pool_available p a by (metis fst_conv)
qed

theorem fill_first_correct_witness:
  "\<exists>a. fill_first_pick False 50 ''claude'' [] pool = Inr a \<and> 5 \<le> prio a"
proof -
  note c = fill_first_correct [of False 50 "''claude''" "[]" pool]
  have b: "Some (cred ''b'' ''5'' ''2'') \<in> set pool" by (simp add: pool_def)
  then obtain a where a: "fill_first_pick False 50 ''claude'' [] pool = Inr a"
    using c pool_available by (cases "fill_first_pick False 50 ''claude'' [] pool") auto
  have "prio (cred ''b'' ''5'' ''2'') = 5" by code_simp
  then show ?thesis using c b pool_available a by metis
qed

theorem weighted_correct_witness:
  "\<exists>a. fst (weighted_pick False None 50 ''claude'' [] pool \<lparr>wrr_states = [], wrr_max_keys = 0\<rparr>) = Inr a \<and> 0 < auth_weight (Some a)"
proof -
  let ?s = "\<lparr>wrr_states = [], wrr_max_keys = 0\<rparr>"
  note c = weighted_correct [of False None 50 "''claude''" "[]" pool ?s]
  have b: "Some (cred ''b'' ''5'' ''2'') \<in> set pool" by (simp add: pool_def)
  have w: "0 < auth_weight (Some (cred ''b'' ''5'' ''2''))" by code_simp
  obtain r s' where p: "weighted_pick False None 50 ''claude'' [] pool ?s = (r, s')"
    by (cases "weighted_pick False None 50 ''claude'' [] pool ?s")
  have "\<nexists>e. r = Inl e" using c b w pool_available p by auto
  then obtain a where "r = Inr a" by (cases r) auto
  then show ?thesis using c p by auto
qed

theorem round_robin_rotates_witness:
  "map (\<lambda>r. case r of Inr a \<Rightarrow> a_id a | Inl _ \<Rightarrow> [])
     (fst (round_robin_run False ''claude'' [] pool [50, 51, 52]
        (rr_start\<lparr>rr_cursors := [(''claude:'', 0)]\<rparr>))) = [''a'', ''b'', ''a'']"
proof -
  let ?av = "[cred ''a'' ''5'' ''1'', cred ''b'' ''5'' ''2'']"
  have el: "eligible_auths pool [] t = [cred ''b'' ''5'' ''2'', cred ''a'' ''5'' ''1'', cred ''d'' ''1'' ''1'']"
    if "t \<in> {50, 51, 52}" for t
  proof -
    have "\<forall>t \<in> {50, 51, 52}. fst (is_auth_blocked_for_model (Some (cooling_cred ''c'' 100)) [] t)" by code_simp
    then have "fst (is_auth_blocked_for_model (Some (cooling_cred ''c'' 100)) [] t)" using that by blast
    then show ?thesis using pool_available by (simp add: eligible_auths_def pool_def)
  qed
  have pr: "prio (cred ''b'' ''5'' ''2'') = 5" "prio (cred ''a'' ''5'' ''1'') = 5" "prio (cred ''d'' ''1'' ''1'') = 1"
    by code_simp+
  have le: "\<not> (''b'' \<le> ''a'')" "''a'' \<le> ''b''" by code_simp+
  have av: "\<forall>t \<in> set [50, 51, 52]. get_available_auths pool ''claude'' [] t = Inr ?av"
  proof
    fix t :: gotime
    assume "t \<in> set [50, 51, 52]"
    then have "t \<in> {50, 51, 52}" by simp
    note e = el [OF this]
    show "get_available_auths pool ''claude'' [] t = Inr ?av"
      using get_available_auths_ok [of pool "[]" t "''claude''"] le unfolding e top_tier_def
      by (simp add: pr) (simp add: cred_def new_auth_def)
  qed
  have k: "rr_key_known ''claude'' [] (rr_start\<lparr>rr_cursors := [(''claude:'', 0)]\<rparr>)"
    "rr_index ''claude'' [] (rr_start\<lparr>rr_cursors := [(''claude:'', 0)]\<rparr>) = 0" by code_simp+
  have px: "prefer_codex_websocket_auths False ''claude'' ?av = ?av" by (simp add: prefer_codex_websocket_auths_def)
  show ?thesis
    using round_robin_rotates [OF av k(1), of False] unfolding k(2) px
    by (simp add: upt_rec) (simp add: cred_def new_auth_def)
qed

section \<open>Session affinity\<close>

text \<open>
  C32 Sessions stick: while the credential a session is bound to is available, the session gets
  it back, whatever the priorities of the other credentials and whatever the wrapped selector
  would pick; stated here over round-robin.
\<close>

theorem affinity_sticks:
  assumes "pid \<noteq> []" "bound_to (pc_refresh clk) c (session_cache_key provider pid model) = Some (a_id a)"
    and "Some a \<in> set auths" "\<not> fst (is_auth_blocked_for_model (Some a) model (pc_now clk))"
  shows "\<exists>b c'. session_affinity_pick (round_robin_pick ws) False pid fid clk provider model auths c s = (Inr b, c', s) \<and>
    a_id b = a_id a"
  using affinity_round_robin.affinity_pick_sticky [OF assms(1,2)] assms(3,4) by (simp add: pickable_def)

text \<open>
  Session affinity is sound and live over round-robin: it returns an available credential
  whenever there is one, and never a blocked one.
\<close>

theorem affinity_correct:
  assumes "rr_inv s" "clock_ok clk"
  shows "(\<forall>a c' s'. session_affinity_pick (round_robin_pick ws) False pid fid clk provider model auths c s = (Inr a, c', s') \<longrightarrow>
      Some a \<in> set auths \<and> \<not> fst (is_auth_blocked_for_model (Some a) model (pc_now clk))) \<and>
    ((\<exists>b. Some b \<in> set auths \<and> \<not> fst (is_auth_blocked_for_model (Some b) model (pc_now clk))) \<longrightarrow>
      (\<exists>a c' s'. session_affinity_pick (round_robin_pick ws) False pid fid clk provider model auths c s = (Inr a, c', s')))"
proof (intro conjI allI impI)
  fix a c' s'
  assume p: "session_affinity_pick (round_robin_pick ws) False pid fid clk provider model auths c s = (Inr a, c', s')"
  from affinity_round_robin.affinity_pick_sound [OF assms p]
  show "Some a \<in> set auths" "\<not> fst (is_auth_blocked_for_model (Some a) model (pc_now clk))"
    by (simp_all add: pickable_def)
next
  assume "\<exists>b. Some b \<in> set auths \<and> \<not> fst (is_auth_blocked_for_model (Some b) model (pc_now clk))"
  then have "\<exists>b. pickable (\<lambda>_. True) auths model (pc_now clk) b" by (simp add: pickable_def)
  from affinity_round_robin.affinity_pick_live [OF assms this]
  show "\<exists>a c' s'. session_affinity_pick (round_robin_pick ws) False pid fid clk provider model auths c s = (Inr a, c', s')" .
qed

text \<open>
  A pick binds its session: afterwards the session's key is bound to the picked credential for
  the whole time to live, and the cache invariant is kept.
\<close>

theorem affinity_binds:
  assumes "session_cache_inv c" "pid \<noteq> []" "a_id a \<noteq> []"
    and "session_affinity_pick (round_robin_pick ws) False pid fid clk provider model auths c s = (Inr a, c', s')"
    and "u < pc_bind clk + sc_ttl c"
  shows "bound_to u c' (session_cache_key provider pid model) = Some (a_id a) \<and> session_cache_inv c'"
  by (rule affinity_round_robin.affinity_pick_binds [OF assms])

definition noon :: pick_clock where
  "noon = \<lparr>pc_now = 50, pc_refresh = 50, pc_get = 50, pc_get2 = 50, pc_fallback = 50, pc_bind = 50\<rparr>"

definition bound_cache :: session_cache where
  "bound_cache = session_set_aliases 40 ''d'' [session_cache_key ''claude'' ''s'' []] (new_session_cache 100)"

lemma bound_cache_ok:
  "session_cache_inv bound_cache"
  "bound_to 50 bound_cache (session_cache_key ''claude'' ''s'' []) = Some ''d''"
proof -
  show "session_cache_inv bound_cache"
    unfolding bound_cache_def by (intro session_cache_inv_intros)
  have "session_cache_key ''claude'' ''s'' [] \<noteq> []" by code_simp
  then show "bound_to 50 bound_cache (session_cache_key ''claude'' ''s'' []) = Some ''d''"
    unfolding bound_cache_def by (intro session_set_aliases_bound new_session_cache_inv) (simp_all add: new_session_cache_def)
qed

theorem affinity_sticks_witness:
  "\<exists>b c'. session_affinity_pick (round_robin_pick False) False ''s'' [] noon ''claude'' [] pool bound_cache rr_start =
     (Inr b, c', rr_start) \<and> a_id b = ''d''"
proof -
  have i: "a_id (cred ''d'' ''1'' ''1'') = ''d''" by (simp add: cred_def new_auth_def)
  have b: "bound_to (pc_refresh noon) bound_cache (session_cache_key ''claude'' ''s'' []) = Some (a_id (cred ''d'' ''1'' ''1''))"
    using bound_cache_ok(2) by (simp add: noon_def i)
  have m: "Some (cred ''d'' ''1'' ''1'') \<in> set pool" by (simp add: pool_def)
  show ?thesis
    using affinity_sticks [OF _ b m pool_available, of False "[]" rr_start] unfolding i by simp
qed

theorem affinity_correct_witness:
  "\<exists>a c' s'. session_affinity_pick (round_robin_pick False) False ''s'' [] noon ''claude'' [] pool bound_cache rr_start =
     (Inr a, c', s')"
proof -
  have inv: "rr_inv rr_start" by (simp add: rr_inv_def rr_start_def read0_def)
  have clk: "clock_ok noon" by (simp add: clock_ok_def noon_def)
  have "Some (cred ''d'' ''1'' ''1'') \<in> set pool" by (simp add: pool_def)
  then show ?thesis using affinity_correct [OF inv clk] pool_available by blast
qed

theorem affinity_binds_witness:
  "\<exists>a c' s'. session_affinity_pick (round_robin_pick False) False ''s'' [] noon ''claude'' []
      [Some (cred ''d'' ''1'' ''1'')] (new_session_cache 100) rr_start = (Inr a, c', s') \<and>
    bound_to 60 c' (session_cache_key ''claude'' ''s'' []) = Some (a_id a)"
proof -
  have inv: "rr_inv rr_start" by (simp add: rr_inv_def rr_start_def read0_def)
  have clk: "clock_ok noon" by (simp add: clock_ok_def noon_def)
  have pk: "pickable (\<lambda>_. True) [Some (cred ''d'' ''1'' ''1'')] [] (pc_now noon) b \<longleftrightarrow> b = cred ''d'' ''1'' ''1''" for b
    using pool_available by (auto simp: pickable_def)
  obtain a c' s' where p: "session_affinity_pick (round_robin_pick False) False ''s'' [] noon ''claude'' []
      [Some (cred ''d'' ''1'' ''1'')] (new_session_cache 100) rr_start = (Inr a, c', s')"
    using affinity_round_robin.affinity_pick_live [OF inv clk, of "[Some (cred ''d'' ''1'' ''1'')]" "[]"] pk by blast
  have "a = cred ''d'' ''1'' ''1''"
    using affinity_round_robin.affinity_pick_sound [OF inv clk p] pk by blast
  then have "a_id a \<noteq> []" by (simp add: cred_def new_auth_def)
  then show ?thesis
    using affinity_binds [OF new_session_cache_inv _ _ p, of 60] p by (auto simp: noon_def new_session_cache_def)
qed

section \<open>The session cache\<close>

text \<open>The operations of the cache and a run of them.\<close>

datatype cache_op =
    CacheGet gotime gotime string
  | CacheRefresh gotime string
  | CacheSet gotime string "string list"
  | CacheInvalidate string
  | CacheInvalidateAuth string
  | CacheCleanup gotime

fun cache_step :: "cache_op \<Rightarrow> session_cache \<Rightarrow> session_cache" where
  "cache_step (CacheGet now now2 sid) c = snd (session_get now now2 sid c)"
| "cache_step (CacheRefresh now sid) c = snd (session_get_and_refresh now sid c)"
| "cache_step (CacheSet now auth_id sids) c = session_set_aliases now auth_id sids c"
| "cache_step (CacheInvalidate sid) c = session_invalidate sid c"
| "cache_step (CacheInvalidateAuth auth_id) c = session_invalidate_auth auth_id c"
| "cache_step (CacheCleanup now) c = session_cleanup now c"

lemma cache_step_inv: "session_cache_inv c \<Longrightarrow> session_cache_inv (cache_step op c)"
  by (cases op) (simp_all add: session_cache_inv_intros)

lemma cache_run_inv: "session_cache_inv c \<Longrightarrow> session_cache_inv (fold cache_step ops c)"
  by (induction ops arbitrary: c) (simp_all add: cache_step_inv)

text \<open>
  C33 The alias groups of the session cache are consistent in every reachable state: an entry is
  stored under each of its aliases and under nothing else, and a group has no duplicates, at most
  64 stable aliases and at most one local prompt-cache alias.
\<close>

theorem cache_groups_consistent:
  "case map_of (sc_entries (fold cache_step ops (new_session_cache ttl))) k of
     None \<Rightarrow> True
   | Some e \<Rightarrow>
       k \<in> set (se_aliases e) \<and> distinct (se_aliases e) \<and>
       (\<forall>a \<in> set (se_aliases e). map_of (sc_entries (fold cache_step ops (new_session_cache ttl))) a = Some e) \<and>
       length (filter is_local_prompt_cache_session_alias (se_aliases e)) \<le> 1 \<and>
       length (filter (\<lambda>a. \<not> is_local_prompt_cache_session_alias a) (se_aliases e)) \<le> 64"
proof (cases "map_of (sc_entries (fold cache_step ops (new_session_cache ttl))) k")
  case (Some e)
  have "groups_closed (map_of (sc_entries (fold cache_step ops (new_session_cache ttl))))"
    using cache_run_inv [OF new_session_cache_inv] by (simp add: session_cache_inv_def)
  then have "k \<in> set (se_aliases e) \<and>
      (\<forall>a \<in> set (se_aliases e). map_of (sc_entries (fold cache_step ops (new_session_cache ttl))) a = Some e) \<and>
      compact_aliases (se_aliases e)"
    using Some unfolding groups_closed_def by blast
  then show ?thesis
    unfolding Some option.case by (simp add: compact_aliases_def max_stable_session_aliases_def)
qed simp

theorem cache_groups_consistent_witness:
  "\<exists>e. map_of (sc_entries (fold cache_step [CacheSet 1 ''a'' [''x'', ''y''], CacheInvalidate ''x''] (new_session_cache 9))) ''y'' = Some e \<and>
     ''y'' \<in> set (se_aliases e) \<and> distinct (se_aliases e)"
proof -
  let ?m = "map_of (sc_entries (fold cache_step [CacheSet 1 ''a'' [''x'', ''y''], CacheInvalidate ''x''] (new_session_cache 9)))"
  have "?m ''y'' \<noteq> None" by code_simp
  then obtain e where e: "?m ''y'' = Some e" by blast
  from cache_groups_consistent [where ops = "[CacheSet 1 ''a'' [''x'', ''y''], CacheInvalidate ''x'']" and ttl = 9 and k = "''y''"]
  show ?thesis unfolding e option.case using e by blast
qed

text \<open>
  What the operations do to the bindings: a set binds its identifier for the time to live,
  invalidation removes exactly one identifier, invalidating a credential removes exactly its
  bindings, and the cleanup changes no binding that is still valid.
\<close>

theorem cache_bindings:
  assumes "session_cache_inv c" "sid \<noteq> []" "i \<noteq> []"
  shows "(t < now + sc_ttl c \<longrightarrow> bound_to t (session_set_aliases now i (sid # sids) c) sid = Some i) \<and>
    bound_to t (session_invalidate sid c) k = (if k = sid then None else bound_to t c k) \<and>
    bound_to t (session_invalidate_auth i c) k = (if bound_to t c k = Some i then None else bound_to t c k) \<and>
    (now \<le> t \<longrightarrow> bound_to t (session_cleanup now c) k = bound_to t c k)"
  using session_set_aliases_bound [OF assms(1,3,2)] session_invalidate_bound [OF assms(1,2)]
    session_invalidate_auth_bound [OF assms(1,3)] session_cleanup_bound [OF assms(1)] by blast

theorem cache_bindings_witness:
  "bound_to 50 (session_invalidate_auth ''d'' bound_cache) (session_cache_key ''claude'' ''s'' []) = None"
  using cache_bindings [OF bound_cache_ok(1), of "''s''" "''d''" 50] bound_cache_ok(2) by simp

end
