(* ===== verification/Thinking.thy ===== *)
theory Thinking
  imports ThinkingSuffix
begin

text \<open>
  \<open>internal/thinking/convert.go\<close> and \<open>validate.go\<close>: conversion between reasoning levels and
  token budgets, and the validation of a reasoning configuration against what a model
  supports. Logging is left out; errors carry the data their message renders. Levels are
  strings, as in the code.
\<close>

record thinking_support =
  ts_min :: int
  ts_max :: int
  ts_zero_allowed :: bool
  ts_dynamic_allowed :: bool
  ts_levels :: "string list"

record thinking_model =
  tm_id :: string
  tm_type :: string
  tm_thinking :: "thinking_support option"

record thinking_config =
  tc_mode :: thinking_mode
  tc_budget :: int
  tc_level :: string

datatype thinking_error =
    ErrThinkingNotSupported string
  | ErrUnknownLevel string
  | ErrBudgetNoLevel int
  | ErrLevelNotSupported string "string list"
  | ErrBudgetOutOfRange int int int

section \<open>Levels and budgets (convert.go)\<close>

definition level_to_budget_map :: "string \<rightharpoonup> int" where
  "level_to_budget_map =
     map_of [(''none'', 0), (''auto'', -1), (''minimal'', 512), (''low'', 1024),
             (''medium'', 8192), (''high'', 24576), (''xhigh'', 32768), (''max'', 128000)]"

definition convert_level_to_budget :: "string \<Rightarrow> int option" where
  "convert_level_to_budget level = level_to_budget_map (to_lower level)"

definition convert_budget_to_level :: "int \<Rightarrow> string option" where
  "convert_budget_to_level b =
     (if b < -1 then None
      else if b = -1 then Some ''auto''
      else if b = 0 then Some ''none''
      else if b \<le> 512 then Some ''minimal''
      else if b \<le> 1024 then Some ''low''
      else if b \<le> 8192 then Some ''medium''
      else if b \<le> 24576 then Some ''high''
      else Some ''xhigh'')"

definition has_level :: "string list \<Rightarrow> string \<Rightarrow> bool" where
  "has_level levels target = list_ex (\<lambda>l. equal_fold (trim_space l) target) levels"

definition map_to_claude_effort :: "string \<Rightarrow> bool \<Rightarrow> string option" where
  "map_to_claude_effort level0 supports_max =
     (let level = to_lower (trim_space level0) in
      if level = [] then None
      else if level = ''minimal'' then Some ''low''
      else if level \<in> set [''low'', ''medium'', ''high''] then Some level
      else if level \<in> set [''xhigh'', ''max''] then
        (if supports_max then Some ''max'' else Some ''high'')
      else if level = ''auto'' then Some ''high''
      else None)"

datatype model_capability =
    CapabilityUnknown | CapabilityNone | CapabilityBudgetOnly | CapabilityLevelOnly
  | CapabilityHybrid

definition detect_model_capability :: "thinking_model option \<Rightarrow> model_capability" where
  "detect_model_capability mo =
     (case mo of
        None \<Rightarrow> CapabilityUnknown
      | Some m \<Rightarrow>
          (case tm_thinking m of
             None \<Rightarrow> CapabilityNone
           | Some s \<Rightarrow>
               let has_budget = (ts_min s > 0 \<or> ts_max s > 0);
                   has_levels = (ts_levels s \<noteq> [])
               in if has_budget \<and> has_levels then CapabilityHybrid
                  else if has_budget then CapabilityBudgetOnly
                  else if has_levels then CapabilityLevelOnly
                  else CapabilityNone))"

section \<open>Clamping (validate.go)\<close>

definition standard_level_order :: "string list" where
  "standard_level_order = [''minimal'', ''low'', ''medium'', ''high'', ''xhigh'', ''max'']"

fun level_index_from :: "nat \<Rightarrow> string list \<Rightarrow> string \<Rightarrow> nat option" where
  "level_index_from i [] level = None"
| "level_index_from i (l # ls) level =
     (if equal_fold level l then Some i else level_index_from (Suc i) ls level)"

definition level_index :: "string \<Rightarrow> nat option" where
  "level_index level = level_index_from 0 standard_level_order level"

definition is_level_supported :: "string \<Rightarrow> string list \<Rightarrow> bool" where
  "is_level_supported level supported = list_ex (\<lambda>s. equal_fold level (trim_space s)) supported"

definition normalize_levels :: "string list \<Rightarrow> string list" where
  "normalize_levels levels = map (\<lambda>l. to_lower (trim_space l)) levels"

text \<open>The loop of \<open>clampLevel\<close>: the best index and its distance so far (index -1 at first).\<close>

fun clamp_level_loop :: "int \<Rightarrow> string list \<Rightarrow> int \<Rightarrow> int \<Rightarrow> int" where
  "clamp_level_loop pos [] best_idx best_dist = best_idx"
| "clamp_level_loop pos (s # ss) best_idx best_dist =
     (case level_index (trim_space s) of
        None \<Rightarrow> clamp_level_loop pos ss best_idx best_dist
      | Some i \<Rightarrow>
          let idx = int i; dist = \<bar>pos - idx\<bar> in
          if dist < best_dist \<or> (dist = best_dist \<and> idx < best_idx)
          then clamp_level_loop pos ss idx dist
          else clamp_level_loop pos ss best_idx best_dist)"

definition clamp_level :: "string \<Rightarrow> thinking_model option \<Rightarrow> string" where
  "clamp_level level mo =
     (let supported = (case mo of None \<Rightarrow> []
                       | Some m \<Rightarrow> (case tm_thinking m of None \<Rightarrow> [] | Some s \<Rightarrow> ts_levels s))
      in if supported = [] \<or> is_level_supported level supported then level
         else (case level_index level of
                 None \<Rightarrow> level
               | Some pos \<Rightarrow>
                   let best = clamp_level_loop (int pos) supported (-1)
                                (int (length standard_level_order) + 1)
                   in if best \<ge> 0 then standard_level_order ! nat best else level))"

definition clamp_budget :: "int \<Rightarrow> thinking_model option \<Rightarrow> int" where
  "clamp_budget value mo =
     (case Option.bind mo tm_thinking of
        None \<Rightarrow> value
      | Some s \<Rightarrow>
          let mn = ts_min s; mx = ts_max s in
          if value = -1 then value
          else if value = 0 \<and> \<not> ts_zero_allowed s then mn
          else if mn = 0 \<and> mx = 0 then value
          else if value < mn then (if value = 0 \<and> ts_zero_allowed s then 0 else mn)
          else if value > mx then mx
          else value)"

section \<open>Provider families\<close>

definition is_gemini_family :: "string \<Rightarrow> bool" where
  "is_gemini_family p = (p \<in> set [''gemini'', ''antigravity''])"

definition is_openai_family :: "string \<Rightarrow> bool" where
  "is_openai_family p = (p \<in> set [''openai'', ''openai-response'', ''codex''])"

definition is_budget_capable_provider :: "string \<Rightarrow> bool" where
  "is_budget_capable_provider p = (p \<in> set [''gemini'', ''antigravity'', ''claude''])"

definition is_same_provider_family :: "string \<Rightarrow> string \<Rightarrow> bool" where
  "is_same_provider_family f t =
     (if f = t then True
      else (is_gemini_family f \<and> is_gemini_family t) \<or> (is_openai_family f \<and> is_openai_family t))"

section \<open>Validation\<close>

definition convert_auto_to_mid_range ::
  "thinking_config \<Rightarrow> thinking_support \<Rightarrow> thinking_config" where
  "convert_auto_to_mid_range c s =
     (if ts_levels s \<noteq> [] \<and> ts_min s = 0 \<and> ts_max s = 0
      then c\<lparr>tc_mode := ModeLevel, tc_level := ''medium'', tc_budget := 0\<rparr>
      else let mid = go_quot (wrap64 (ts_min s + ts_max s)) 2 in
           if mid \<le> 0 \<and> ts_zero_allowed s then c\<lparr>tc_mode := ModeNone, tc_budget := 0\<rparr>
           else if mid \<le> 0 then c\<lparr>tc_mode := ModeBudget, tc_budget := ts_min s\<rparr>
           else c\<lparr>tc_mode := ModeBudget, tc_budget := mid\<rparr>)"

text \<open>
  The steps of \<open>ValidateConfig\<close>, in its order. The first converts the format the model does
  not have and reports whether a budget was derived from a level.
\<close>

definition convert_for_capability ::
  "thinking_config \<Rightarrow> thinking_model \<Rightarrow> thinking_error + (thinking_config \<times> bool)" where
  "convert_for_capability c m =
     (case detect_model_capability (Some m) of
        CapabilityBudgetOnly \<Rightarrow>
          (if tc_mode c = ModeLevel then
             (if tc_level c = ''auto'' then Inr (c, False)
              else (case convert_level_to_budget (tc_level c) of
                      None \<Rightarrow> Inl (ErrUnknownLevel (tc_level c))
                    | Some b \<Rightarrow>
                        Inr (c\<lparr>tc_mode := ModeBudget, tc_budget := b, tc_level := []\<rparr>, True)))
           else Inr (c, False))
      | CapabilityLevelOnly \<Rightarrow>
          (if tc_mode c = ModeBudget then
             (case convert_budget_to_level (tc_budget c) of
                None \<Rightarrow> Inl (ErrBudgetNoLevel (tc_budget c))
              | Some l \<Rightarrow>
                  Inr (c\<lparr>tc_mode := ModeLevel, tc_level := clamp_level l (Some m),
                         tc_budget := 0\<rparr>, False))
           else Inr (c, False))
      | _ \<Rightarrow> Inr (c, False))"

definition normalize_special_config :: "thinking_config \<Rightarrow> thinking_config" where
  "normalize_special_config c0 =
     (let c1 = (if tc_mode c0 = ModeLevel \<and> tc_level c0 = ''none''
                then c0\<lparr>tc_mode := ModeNone, tc_budget := 0, tc_level := []\<rparr> else c0);
          c2 = (if tc_mode c1 = ModeLevel \<and> tc_level c1 = ''auto''
                then c1\<lparr>tc_mode := ModeAuto, tc_budget := -1, tc_level := []\<rparr> else c1)
      in if tc_mode c2 = ModeBudget \<and> tc_budget c2 = 0
         then c2\<lparr>tc_mode := ModeNone, tc_level := []\<rparr> else c2)"

definition check_level ::
  "thinking_config \<Rightarrow> thinking_support \<Rightarrow> thinking_model \<Rightarrow> bool \<Rightarrow>
   thinking_error + thinking_config" where
  "check_level c s m allow_clamp =
     (if ts_levels s \<noteq> [] \<and> tc_mode c = ModeLevel \<and> \<not> is_level_supported (tc_level c) (ts_levels s)
      then let c' = (if allow_clamp then c\<lparr>tc_level := clamp_level (tc_level c) (Some m)\<rparr> else c)
           in if \<not> is_level_supported (tc_level c') (ts_levels s)
              then Inl (ErrLevelNotSupported (to_lower (tc_level c')) (normalize_levels (ts_levels s)))
              else Inr c'
      else Inr c)"

definition check_strict_budget ::
  "thinking_config \<Rightarrow> thinking_support \<Rightarrow> bool \<Rightarrow> thinking_error + thinking_config" where
  "check_strict_budget c s strict =
     (if strict \<and> tc_mode c = ModeBudget \<and> (ts_min s \<noteq> 0 \<or> ts_max s \<noteq> 0) \<and>
         (tc_budget c < ts_min s \<or> tc_budget c > ts_max s \<or>
          (tc_budget c = 0 \<and> \<not> ts_zero_allowed s))
      then Inl (ErrBudgetOutOfRange (tc_budget c) (ts_min s) (ts_max s))
      else Inr c)"

definition resolve_auto ::
  "thinking_config \<Rightarrow> thinking_support \<Rightarrow> thinking_model \<Rightarrow> thinking_config" where
  "resolve_auto c s m =
     (if tc_mode c = ModeAuto \<and> \<not> ts_dynamic_allowed s then
        let c' = convert_auto_to_mid_range c s in
        if tc_mode c' = ModeLevel \<and> ts_levels s \<noteq> [] \<and>
           \<not> is_level_supported (tc_level c') (ts_levels s)
        then c'\<lparr>tc_level := clamp_level (tc_level c') (Some m)\<rparr> else c'
      else c)"

definition finish_config ::
  "thinking_config \<Rightarrow> thinking_support \<Rightarrow> thinking_model \<Rightarrow> string \<Rightarrow> thinking_config" where
  "finish_config c s m to_format =
     (if tc_mode c = ModeNone \<and> to_format = ''claude''
      then c\<lparr>tc_budget := 0, tc_level := []\<rparr>
      else let c1 = (if tc_mode c \<in> {ModeBudget, ModeAuto, ModeNone}
                     then c\<lparr>tc_budget := clamp_budget (tc_budget c) (Some m)\<rparr> else c);
               cannot_disable = (\<not> ts_zero_allowed s \<and> \<not> is_level_supported ''none'' (ts_levels s))
           in if tc_mode c1 = ModeNone \<and> ts_levels s \<noteq> [] \<and> (tc_budget c1 > 0 \<or> cannot_disable)
              then c1\<lparr>tc_level := hd (ts_levels s)\<rparr> else c1)"

definition model_family_mismatch :: "thinking_model \<Rightarrow> string \<Rightarrow> string \<Rightarrow> bool" where
  "model_family_mismatch m from_format to_format =
     (let ty = to_lower (trim_space (tm_type m)) in
      ty \<noteq> [] \<and>
      ((from_format \<noteq> [] \<and> \<not> is_same_provider_family from_format ty) \<or>
       (to_format \<noteq> [] \<and> \<not> is_same_provider_family to_format ty)))"

definition validate_config ::
  "thinking_config \<Rightarrow> thinking_model option \<Rightarrow> string \<Rightarrow> string \<Rightarrow> bool \<Rightarrow>
   thinking_error + thinking_config" where
  "validate_config c mo from0 to0 from_suffix =
     (let from_format = to_lower (trim_space from0); to_format = to_lower (trim_space to0) in
      case mo of
        None \<Rightarrow> (if tc_mode c \<noteq> ModeNone then Inl (ErrThinkingNotSupported ''unknown'') else Inr c)
      | Some m \<Rightarrow>
          (case tm_thinking m of
             None \<Rightarrow>
               (if tc_mode c \<noteq> ModeNone
                then Inl (ErrThinkingNotSupported (if tm_id m \<noteq> [] then tm_id m else ''unknown''))
                else Inr c)
           | Some s \<Rightarrow>
               let cap = detect_model_capability mo;
                   has_level_support = (cap = CapabilityLevelOnly \<or> cap = CapabilityHybrid);
                   mismatch = model_family_mismatch m from_format to_format;
                   same = is_same_provider_family from_format to_format;
                   allow_clamp = (has_level_support \<and> (\<not> same \<or> mismatch));
                   strict = (\<not> from_suffix \<and> from_format \<noteq> [] \<and> same \<and> \<not> mismatch)
               in (case convert_for_capability c m of
                     Inl e \<Rightarrow> Inl e
                   | Inr (c1, derived) \<Rightarrow>
                       (case check_level (normalize_special_config c1) s m allow_clamp of
                          Inl e \<Rightarrow> Inl e
                        | Inr c2 \<Rightarrow>
                            (case check_strict_budget c2 s (strict \<and> \<not> derived) of
                               Inl e \<Rightarrow> Inl e
                             | Inr c3 \<Rightarrow> Inr (finish_config (resolve_auto c3 s m) s m to_format))))))"

section \<open>Facts about levels\<close>

lemma level_index_from_Some:
  "level_index_from n ls l = Some i \<Longrightarrow> n \<le> i \<and> i < n + length ls \<and> equal_fold l (ls ! (i - n))"
proof (induction ls arbitrary: n)
  case Nil
  then show ?case by simp
next
  case (Cons x ls)
  show ?case
  proof (cases "equal_fold l x")
    case True
    then show ?thesis using Cons.prems by simp
  next
    case False
    then have "level_index_from (Suc n) ls l = Some i" using Cons.prems by simp
    from Cons.IH [OF this] show ?thesis by (auto simp: nth_Cons')
  qed
qed

lemma level_index_Some:
  "level_index l = Some i \<Longrightarrow>
   i < length standard_level_order \<and> equal_fold l (standard_level_order ! i)"
  using level_index_from_Some [of 0 standard_level_order l i] by (simp add: level_index_def)

lemma level_index_standard:
  "i < 6 \<Longrightarrow> level_index (standard_level_order ! i) = Some i"
proof -
  have "\<forall>i \<in> {0, 1, 2, 3, 4, 5}. level_index (standard_level_order ! i) = Some i"
    by code_simp
  moreover assume "i < 6"
  then have "i \<in> {0, 1, 2, 3, 4, 5}" by auto
  ultimately show ?thesis by blast
qed

lemma standard_level_order_length: "length standard_level_order = 6"
  by (simp add: standard_level_order_def)

text \<open>
  The order in which \<open>clampLevel\<close> prefers supported levels: by distance, and the lower
  level on a tie.
\<close>

definition nearer :: "int \<Rightarrow> int \<Rightarrow> int \<Rightarrow> bool" where
  "nearer pos i j \<longleftrightarrow> \<bar>pos - i\<bar> < \<bar>pos - j\<bar> \<or> (\<bar>pos - i\<bar> = \<bar>pos - j\<bar> \<and> i \<le> j)"

lemma nearer_refl: "nearer pos i i"
  by (simp add: nearer_def)

lemma nearer_trans: "nearer pos i j \<Longrightarrow> nearer pos j k \<Longrightarrow> nearer pos i k"
  by (auto simp: nearer_def)

definition supported_indices :: "string list \<Rightarrow> int list" where
  "supported_indices ss = map int (List.map_filter (\<lambda>s. level_index (trim_space s)) ss)"

lemma supported_indices_Nil [simp]: "supported_indices [] = []"
  by (simp add: supported_indices_def List.map_filter_def)

lemma supported_indices_Cons [simp]:
  "supported_indices (s # ss) =
     (case level_index (trim_space s) of None \<Rightarrow> supported_indices ss
      | Some i \<Rightarrow> int i # supported_indices ss)"
  by (simp add: supported_indices_def List.map_filter_def split: option.split)

lemma supported_indices_range: "j \<in> set (supported_indices ss) \<Longrightarrow> 0 \<le> j \<and> j < 6"
  by (induction ss) (auto split: option.splits dest: level_index_Some
      simp: standard_level_order_length)

lemma clamp_level_loop_started:
  assumes "0 \<le> bi"
  shows "let r = clamp_level_loop pos ss bi \<bar>pos - bi\<bar> in
     r \<in> insert bi (set (supported_indices ss)) \<and>
     (\<forall>j \<in> insert bi (set (supported_indices ss)). nearer pos r j)"
  using assms
proof (induction ss arbitrary: bi)
  case Nil
  then show ?case by (simp add: nearer_refl)
next
  case (Cons s ss)
  show ?case
  proof (cases "level_index (trim_space s)")
    case None
    then show ?thesis using Cons by simp
  next
    case (Some i)
    let ?better = "\<bar>pos - int i\<bar> < \<bar>pos - bi\<bar> \<or> (\<bar>pos - int i\<bar> = \<bar>pos - bi\<bar> \<and> int i < bi)"
    show ?thesis
    proof (cases ?better)
      case True
      then have "nearer pos (int i) bi" by (auto simp: nearer_def)
      then show ?thesis
        using True Some Cons.IH [of "int i"] nearer_trans by (auto simp: Let_def)
    next
      case False
      then have "nearer pos bi (int i)" by (auto simp: nearer_def)
      then show ?thesis
        using False Some Cons.IH [OF Cons.prems] nearer_trans by (auto simp: Let_def)
    qed
  qed
qed

lemma clamp_level_loop_start:
  assumes "0 \<le> pos" "pos < 6"
  shows "let r = clamp_level_loop pos ss (-1) 7 in
     (if supported_indices ss = [] then r = -1
      else r \<in> set (supported_indices ss) \<and> (\<forall>j \<in> set (supported_indices ss). nearer pos r j))"
proof (induction ss)
  case Nil
  then show ?case by simp
next
  case (Cons s ss)
  show ?case
  proof (cases "level_index (trim_space s)")
    case None
    then show ?thesis using Cons by (simp add: Let_def)
  next
    case (Some i)
    then have "i < 6" using level_index_Some by (auto simp: standard_level_order_length)
    then have "\<bar>pos - int i\<bar> < 7" using assms by auto
    then show ?thesis
      using Some clamp_level_loop_started [of "int i" pos ss] by (simp add: Let_def)
  qed
qed

lemma clamp_level_spec:
  assumes m: "tm_thinking m = Some s" and pos: "level_index level = Some pos"
    and no: "\<not> is_level_supported level (ts_levels s)"
    and ex: "supported_indices (ts_levels s) \<noteq> []"
  shows "\<exists>k. clamp_level level (Some m) = standard_level_order ! k \<and> k < 6 \<and>
     int k \<in> set (supported_indices (ts_levels s)) \<and>
     (\<forall>j \<in> set (supported_indices (ts_levels s)). nearer (int pos) (int k) j)"
proof -
  let ?r = "clamp_level_loop (int pos) (ts_levels s) (-1) 7"
  have "pos < 6" using level_index_Some [OF pos] by (simp add: standard_level_order_length)
  then have r: "?r \<in> set (supported_indices (ts_levels s))"
    "\<forall>j \<in> set (supported_indices (ts_levels s)). nearer (int pos) ?r j"
    using clamp_level_loop_start [of "int pos" "ts_levels s"] ex by (auto simp: Let_def)
  then have rng: "0 \<le> ?r" "?r < 6" using supported_indices_range by blast+
  have "clamp_level level (Some m) = standard_level_order ! nat ?r"
    using m pos no ex rng by (auto simp: clamp_level_def Let_def standard_level_order_length)
  then show ?thesis using r rng by (intro exI [of _ "nat ?r"]) auto
qed

lemma supported_index_is_supported:
  "int k \<in> set (supported_indices ls) \<Longrightarrow> is_level_supported (standard_level_order ! k) ls"
  by (induction ls)
     (auto simp: is_level_supported_def equal_fold_sym split: option.splits dest: level_index_Some)

lemma clamp_level_supported:
  assumes "tm_thinking m = Some s" and "level_index level \<noteq> None"
    and "supported_indices (ts_levels s) \<noteq> []"
  shows "is_level_supported (clamp_level level (Some m)) (ts_levels s)"
proof (cases "is_level_supported level (ts_levels s)")
  case True
  then show ?thesis using assms by (simp add: clamp_level_def Let_def)
next
  case False
  then show ?thesis
    using clamp_level_spec [OF assms(1) _ False assms(3)] assms(2) supported_index_is_supported
    by fastforce
qed

section \<open>Facts about budgets\<close>

text \<open>
  A support record as the model registry holds it: an ordered range without negative bounds
  and, if it lists levels, at least one of the standard ones.
\<close>

definition support_ok :: "thinking_support \<Rightarrow> bool" where
  "support_ok s \<longleftrightarrow>
     0 \<le> ts_min s \<and> ts_min s \<le> ts_max s \<and> in_int64 (ts_min s + ts_max s) \<and>
     (ts_levels s = [] \<or> supported_indices (ts_levels s) \<noteq> [])"

lemma clamp_budget_Some:
  "tm_thinking m = Some s \<Longrightarrow>
   clamp_budget v (Some m) =
     (if v = -1 then -1
      else if v = 0 \<and> \<not> ts_zero_allowed s then ts_min s
      else if ts_min s = 0 \<and> ts_max s = 0 then v
      else if v < ts_min s then (if v = 0 \<and> ts_zero_allowed s then 0 else ts_min s)
      else if v > ts_max s then ts_max s else v)"
  by (simp add: clamp_budget_def Let_def)

lemma clamp_budget_idem:
  "tm_thinking m = Some s \<Longrightarrow> support_ok s \<Longrightarrow>
   clamp_budget (clamp_budget v (Some m)) (Some m) = clamp_budget v (Some m)"
  by (auto simp: clamp_budget_Some support_ok_def)

lemma clamp_budget_range:
  "tm_thinking m = Some s \<Longrightarrow> support_ok s \<Longrightarrow> v \<noteq> -1 \<Longrightarrow> v \<noteq> 0 \<or> \<not> ts_zero_allowed s \<Longrightarrow>
   (ts_min s = 0 \<and> ts_max s = 0) \<or>
   (ts_min s \<le> clamp_budget v (Some m) \<and> clamp_budget v (Some m) \<le> ts_max s)"
  by (auto simp: clamp_budget_Some support_ok_def)

lemma convert_level_to_budget_cases:
  "convert_level_to_budget l = Some b \<Longrightarrow>
   (to_lower l, b) \<in> {(''none'', 0), (''auto'', -1), (''minimal'', 512), (''low'', 1024),
     (''medium'', 8192), (''high'', 24576), (''xhigh'', 32768), (''max'', 128000)}"
  by (auto simp: convert_level_to_budget_def level_to_budget_map_def split: if_splits)

lemma convert_budget_to_level_in_order:
  "convert_budget_to_level b = Some l \<Longrightarrow> l \<noteq> ''auto'' \<Longrightarrow> l \<noteq> ''none'' \<Longrightarrow>
   l \<in> set standard_level_order"
  by (auto simp: convert_budget_to_level_def standard_level_order_def split: if_splits)

section \<open>The shape of a validated configuration\<close>

text \<open>What \<open>ValidateConfig\<close> establishes; it returns configurations of this shape unchanged.\<close>

definition normal_config :: "thinking_model \<Rightarrow> thinking_support \<Rightarrow> string \<Rightarrow> thinking_config \<Rightarrow> bool" where
  "normal_config m s to_format c \<longleftrightarrow>
     (case tc_mode c of
        ModeLevel \<Rightarrow>
          tc_level c \<noteq> ''none'' \<and> tc_level c \<noteq> ''auto'' \<and>
          (ts_levels s = [] \<or> is_level_supported (tc_level c) (ts_levels s)) \<and>
          detect_model_capability (Some m) \<noteq> CapabilityBudgetOnly
      | ModeBudget \<Rightarrow>
          (tc_budget c \<noteq> -1 \<longrightarrow>
             (ts_min s = 0 \<and> ts_max s = 0) \<or> (ts_min s \<le> tc_budget c \<and> tc_budget c \<le> ts_max s)) \<and>
          detect_model_capability (Some m) \<noteq> CapabilityLevelOnly
      | ModeAuto \<Rightarrow> ts_dynamic_allowed s \<and> clamp_budget (tc_budget c) (Some m) = tc_budget c
      | ModeNone \<Rightarrow>
          (if to_format = ''claude'' then tc_budget c = 0 \<and> tc_level c = []
           else clamp_budget (tc_budget c) (Some m) = tc_budget c \<and>
             (ts_levels s \<noteq> [] \<and>
                (tc_budget c > 0 \<or> (\<not> ts_zero_allowed s \<and> \<not> is_level_supported ''none'' (ts_levels s)))
              \<longrightarrow> tc_level c = hd (ts_levels s))))"

definition special_normalized :: "thinking_config \<Rightarrow> bool" where
  "special_normalized c \<longleftrightarrow>
     (tc_mode c = ModeLevel \<longrightarrow> tc_level c \<noteq> ''none'' \<and> tc_level c \<noteq> ''auto'') \<and>
     (tc_mode c = ModeBudget \<longrightarrow> tc_budget c \<noteq> 0)"

definition format_fits :: "thinking_model \<Rightarrow> thinking_config \<Rightarrow> bool" where
  "format_fits m c \<longleftrightarrow>
     (detect_model_capability (Some m) = CapabilityBudgetOnly \<longrightarrow> tc_mode c \<noteq> ModeLevel) \<and>
     (detect_model_capability (Some m) = CapabilityLevelOnly \<longrightarrow> tc_mode c \<noteq> ModeBudget)"

lemma normalize_special_normalized: "special_normalized (normalize_special_config c)"
  by (simp add: special_normalized_def normalize_special_config_def Let_def)

lemma normalize_special_id: "special_normalized c \<Longrightarrow> normalize_special_config c = c"
  by (auto simp: special_normalized_def normalize_special_config_def Let_def)

lemma convert_for_capability_fits:
  "convert_for_capability c m = Inr (c1, d) \<Longrightarrow> format_fits m (normalize_special_config c1)"
  by (auto simp: convert_for_capability_def format_fits_def normalize_special_config_def Let_def
      split: model_capability.splits if_splits option.splits)

lemma clamp_level_result:
  "clamp_level l (Some m) = l \<or> clamp_level l (Some m) \<in> set standard_level_order"
proof (cases "clamp_level l (Some m) = l")
  case False
  then obtain s pos where s: "tm_thinking m = Some s" "level_index l = Some pos"
    "\<not> is_level_supported l (ts_levels s)" "supported_indices (ts_levels s) \<noteq> []"
    using clamp_level_loop_start [of "int (the (level_index l))"] level_index_Some
    by (fastforce simp: clamp_level_def Let_def standard_level_order_length
        split: option.splits if_splits)
  then show ?thesis using clamp_level_spec [OF s] by (auto simp: standard_level_order_length)
qed simp

lemma standard_not_special: "l \<in> set standard_level_order \<Longrightarrow> l \<noteq> ''none'' \<and> l \<noteq> ''auto''"
  by (auto simp: standard_level_order_def)

lemma clamp_level_not_special:
  "l \<noteq> ''none'' \<Longrightarrow> l \<noteq> ''auto'' \<Longrightarrow>
   clamp_level l (Some m) \<noteq> ''none'' \<and> clamp_level l (Some m) \<noteq> ''auto''"
  using clamp_level_result [of l m] standard_not_special [of "clamp_level l (Some m)"] by auto

lemma check_level_cases:
  assumes "check_level c s m allow = Inr c2"
  shows "(c2 = c \<or> (tc_mode c = ModeLevel \<and> c2 = c\<lparr>tc_level := clamp_level (tc_level c) (Some m)\<rparr>)) \<and>
    (tc_mode c2 = ModeLevel \<longrightarrow> ts_levels s = [] \<or> is_level_supported (tc_level c2) (ts_levels s))"
  using assms by (auto simp: check_level_def Let_def split: if_splits)

lemma special_normalized_clamp:
  "special_normalized c \<Longrightarrow> tc_mode c = ModeLevel \<Longrightarrow>
   special_normalized (c\<lparr>tc_level := clamp_level (tc_level c) (Some m)\<rparr>)"
  using clamp_level_not_special [of "tc_level c" m]
  unfolding special_normalized_def by simp

lemma check_level_result:
  assumes "check_level c s m allow = Inr c2" and "special_normalized c" and "format_fits m c"
  shows "special_normalized c2 \<and> format_fits m c2 \<and>
    (tc_mode c2 = ModeLevel \<longrightarrow> ts_levels s = [] \<or> is_level_supported (tc_level c2) (ts_levels s))"
  using check_level_cases [OF assms(1)] assms(2,3) special_normalized_clamp [OF assms(2), of m]
  by (auto simp: format_fits_def)

lemma check_strict_budget_Inr: "check_strict_budget c s b = Inr c' \<Longrightarrow> c' = c"
  by (auto simp: check_strict_budget_def split: if_splits)

lemma capability_level_only:
  "tm_thinking m = Some s \<Longrightarrow> support_ok s \<Longrightarrow>
   detect_model_capability (Some m) = CapabilityLevelOnly \<longleftrightarrow>
   ts_levels s \<noteq> [] \<and> ts_min s = 0 \<and> ts_max s = 0"
  by (auto simp: detect_model_capability_def support_ok_def Let_def)

lemma capability_budget_only:
  "tm_thinking m = Some s \<Longrightarrow>
   detect_model_capability (Some m) = CapabilityBudgetOnly \<Longrightarrow> ts_levels s = []"
  by (auto simp: detect_model_capability_def Let_def split: if_splits)

lemma mid_range_budget:
  assumes "support_ok s"
  shows "go_quot (wrap64 (ts_min s + ts_max s)) 2 = (ts_min s + ts_max s) div 2"
  using assms by (simp add: support_ok_def wrap64_id go_quot_nonneg)

text \<open>What resolving an automatic mode establishes.\<close>

lemma resolve_auto_result:
  assumes s: "tm_thinking m = Some s" "support_ok s"
    and c: "special_normalized c" "format_fits m c"
      "tc_mode c = ModeLevel \<longrightarrow> ts_levels s = [] \<or> is_level_supported (tc_level c) (ts_levels s)"
  shows "let c' = resolve_auto c s m in
     format_fits m c' \<and>
     (tc_mode c' = ModeLevel \<longrightarrow> tc_level c' \<noteq> ''none'' \<and> tc_level c' \<noteq> ''auto'' \<and>
        (ts_levels s = [] \<or> is_level_supported (tc_level c') (ts_levels s))) \<and>
     (tc_mode c' = ModeBudget \<longrightarrow> tc_budget c' \<noteq> 0 \<or> \<not> ts_zero_allowed s) \<and>
     (tc_mode c' = ModeAuto \<longrightarrow> ts_dynamic_allowed s) \<and>
     (tc_mode c' = ModeNone \<longrightarrow> tc_mode c = ModeNone \<or> tc_mode c = ModeAuto)"
proof (cases "tc_mode c = ModeAuto \<and> \<not> ts_dynamic_allowed s")
  case False
  then have "resolve_auto c s m = c" by (auto simp: resolve_auto_def)
  then show ?thesis using False c by (auto simp: special_normalized_def)
next
  case True
  show ?thesis
  proof (cases "ts_levels s \<noteq> [] \<and> ts_min s = 0 \<and> ts_max s = 0")
    case lv: True
    have "level_index ''medium'' \<noteq> None" by code_simp
    then have "is_level_supported (clamp_level ''medium'' (Some m)) (ts_levels s)"
      using clamp_level_supported [OF s(1)] s(2) lv by (auto simp: support_ok_def)
    moreover have "clamp_level ''medium'' (Some m) \<noteq> ''none'' \<and> clamp_level ''medium'' (Some m) \<noteq> ''auto''"
      by (rule clamp_level_not_special) simp_all
    moreover have "detect_model_capability (Some m) = CapabilityLevelOnly"
      using capability_level_only s lv by blast
    ultimately show ?thesis
      using True lv by (simp add: resolve_auto_def convert_auto_to_mid_range_def format_fits_def Let_def)
  next
    case nl: False
    then have "detect_model_capability (Some m) \<noteq> CapabilityLevelOnly"
      using capability_level_only s by blast
    then show ?thesis
      using True nl s(2)
      by (auto simp: resolve_auto_def convert_auto_to_mid_range_def format_fits_def Let_def
          mid_range_budget)
  qed
qed

lemma finish_config_mode [simp]: "tc_mode (finish_config c s m t) = tc_mode c"
  by (simp add: finish_config_def Let_def)

text \<open>Validation establishes the shape.\<close>

lemma finish_config_normal:
  assumes s: "tm_thinking m = Some s" "support_ok s"
    and c: "format_fits m c"
      "tc_mode c = ModeLevel \<longrightarrow> tc_level c \<noteq> ''none'' \<and> tc_level c \<noteq> ''auto'' \<and>
        (ts_levels s = [] \<or> is_level_supported (tc_level c) (ts_levels s))"
      "tc_mode c = ModeBudget \<longrightarrow> tc_budget c \<noteq> 0 \<or> \<not> ts_zero_allowed s"
      "tc_mode c = ModeAuto \<longrightarrow> ts_dynamic_allowed s"
  shows "normal_config m s t (finish_config c s m t)"
proof (cases "tc_mode c")
  case ModeBudget
  show ?thesis
  proof (cases "tc_budget c = -1")
    case True
    then show ?thesis
      using ModeBudget c clamp_budget_Some [OF s(1), of "-1"]
      by (simp add: normal_config_def finish_config_def format_fits_def Let_def)
  next
    case False
    then show ?thesis
      using ModeBudget c clamp_budget_range [OF s False]
      by (simp add: normal_config_def finish_config_def format_fits_def Let_def)
  qed
next
  case ModeLevel
  then show ?thesis
    using c by (simp add: normal_config_def finish_config_def format_fits_def Let_def)
next
  case ModeAuto
  then show ?thesis
    using c clamp_budget_idem [OF s] by (simp add: normal_config_def finish_config_def Let_def)
next
  case ModeNone
  then show ?thesis
    using clamp_budget_idem [OF s] by (simp add: normal_config_def finish_config_def Let_def)
qed

lemma validate_config_normal:
  assumes v: "validate_config c (Some m) f t fs = Inr c'"
    and s: "tm_thinking m = Some s" "support_ok s"
  shows "normal_config m s (to_lower (trim_space t)) c'"
proof -
  obtain c1 d al st c2 c3 where
    c1: "convert_for_capability c m = Inr (c1, d)" and
    c2: "check_level (normalize_special_config c1) s m al = Inr c2" and
    c3: "check_strict_budget c2 s st = Inr c3" and
    c': "c' = finish_config (resolve_auto c3 s m) s m (to_lower (trim_space t))"
    using v s(1) by (auto simp: validate_config_def Let_def split: sum.splits prod.splits)
  have "special_normalized c3 \<and> format_fits m c3 \<and>
    (tc_mode c3 = ModeLevel \<longrightarrow> ts_levels s = [] \<or> is_level_supported (tc_level c3) (ts_levels s))"
    using check_level_result [OF c2 normalize_special_normalized convert_for_capability_fits [OF c1]]
      check_strict_budget_Inr [OF c3] by simp
  then show ?thesis
    unfolding c' using resolve_auto_result [OF s, of c3]
    by (intro finish_config_normal [OF s]) (auto simp: Let_def)
qed

text \<open>A configuration of this shape passes validation unchanged.\<close>

lemma normal_config_fits:
  assumes n: "normal_config m s t c" and pos: "tc_mode c = ModeBudget \<longrightarrow> 0 < tc_budget c"
  shows "special_normalized c" and "convert_for_capability c m = Inr (c, False)"
    and "check_level c s m al = Inr c" and "resolve_auto c s m = c"
    and "tc_mode c = ModeBudget \<Longrightarrow>
      (ts_min s = 0 \<and> ts_max s = 0) \<or> (ts_min s \<le> tc_budget c \<and> tc_budget c \<le> ts_max s)"
  using n pos
  by (auto simp: normal_config_def special_normalized_def convert_for_capability_def
      check_level_def resolve_auto_def split: thinking_mode.splits model_capability.splits)

lemma normal_config_finish:
  assumes n: "normal_config m s t c" and pos: "tc_mode c = ModeBudget \<longrightarrow> 0 < tc_budget c"
    and s: "tm_thinking m = Some s"
  shows "finish_config c s m t = c"
proof (cases "tc_mode c")
  case ModeBudget
  then have "clamp_budget (tc_budget c) (Some m) = tc_budget c"
    using pos normal_config_fits(5) [OF n pos ModeBudget] by (auto simp: clamp_budget_Some [OF s])
  then show ?thesis using ModeBudget by (simp add: finish_config_def Let_def)
next
  case ModeLevel
  then show ?thesis by (simp add: finish_config_def Let_def)
next
  case ModeAuto
  then show ?thesis using n by (simp add: finish_config_def normal_config_def Let_def)
next
  case ModeNone
  then show ?thesis
    using n by (cases "t = ''claude''") (auto simp: finish_config_def normal_config_def Let_def)
qed

lemma validate_config_of_normal:
  assumes n: "normal_config m s (to_lower (trim_space t)) c"
    and pos: "tc_mode c = ModeBudget \<longrightarrow> 0 < tc_budget c"
    and s: "tm_thinking m = Some s"
  shows "validate_config c (Some m) f t fs = Inr c"
proof -
  have "check_strict_budget c s b = Inr c" for b
    using normal_config_fits(5) [OF n pos] pos by (auto simp: check_strict_budget_def)
  then show ?thesis
    using normal_config_fits(1-4) [OF n pos] normal_config_finish [OF n pos s] s
    by (simp add: validate_config_def Let_def normalize_special_id)
qed

end
