(* ===== verification/ModelProperties.thy ===== *)
theory ModelProperties
  imports Thinking RecentRequests
begin

text \<open>
  The properties of the smaller components: reasoning configurations and model suffixes,
  credential weights, and the ring of recent requests.
\<close>

section \<open>Reasoning configurations\<close>

definition hybrid_model :: thinking_model where
  "hybrid_model = \<lparr>tm_id = ''h'', tm_type = ''claude'', tm_thinking = Some
     \<lparr>ts_min = 128, ts_max = 20000, ts_zero_allowed = False, ts_dynamic_allowed = True,
      ts_levels = [''low'', ''high'']\<rparr>\<rparr>"

definition level_model :: thinking_model where
  "level_model = \<lparr>tm_id = ''l'', tm_type = ''openai'', tm_thinking = Some
     \<lparr>ts_min = 0, ts_max = 0, ts_zero_allowed = False, ts_dynamic_allowed = False,
      ts_levels = [''low'', ''high'']\<rparr>\<rparr>"



text \<open>
  Validation is idempotent: validating an accepted configuration again, in any source format,
  returns it unchanged.
\<close>

theorem validation_idempotent:
  assumes "validate_config c (Some m) from_format to_format from_suffix = Inr c'"
    and "tm_thinking m = Some s" "support_ok s" "tc_mode c' = ModeBudget \<longrightarrow> 0 < tc_budget c'"
  shows "validate_config c' (Some m) from2 to_format suffix2 = Inr c'"
  by (rule validate_config_of_normal [OF validate_config_normal [OF assms(1-3)] assms(4,2)])

theorem validation_idempotent_witness:
  "validate_config \<lparr>tc_mode = ModeBudget, tc_budget = 128, tc_level = []\<rparr> (Some hybrid_model) ''gemini'' ''claude'' True =
   Inr \<lparr>tc_mode = ModeBudget, tc_budget = 128, tc_level = []\<rparr>"
proof (rule validation_idempotent)
  show "validate_config \<lparr>tc_mode = ModeBudget, tc_budget = 5, tc_level = []\<rparr> (Some hybrid_model) ''openai'' ''claude'' True =
      Inr \<lparr>tc_mode = ModeBudget, tc_budget = 128, tc_level = []\<rparr>" by code_simp
  show "tm_thinking hybrid_model = Some (the (tm_thinking hybrid_model))" by (simp add: hybrid_model_def)
  show "support_ok (the (tm_thinking hybrid_model))" by code_simp
qed simp

text \<open>
  \<open>clampLevel\<close> returns the nearest supported level of the standard order, the lower one on a
  tie.
\<close>

theorem clamp_level_nearest:
  assumes "tm_thinking m = Some s" "level_index level = Some pos"
    and "\<not> is_level_supported level (ts_levels s)" "supported_indices (ts_levels s) \<noteq> []"
  shows "\<exists>k < 6. clamp_level level (Some m) = standard_level_order ! k \<and>
    is_level_supported (standard_level_order ! k) (ts_levels s) \<and>
    (\<forall>j \<in> set (supported_indices (ts_levels s)).
       \<bar>int pos - int k\<bar> < \<bar>int pos - j\<bar> \<or> (\<bar>int pos - int k\<bar> = \<bar>int pos - j\<bar> \<and> int k \<le> j))"
  using clamp_level_spec [OF assms] supported_index_is_supported by (fastforce simp: nearer_def)

theorem clamp_level_nearest_witness:
  "\<exists>k < 6. clamp_level ''medium'' (Some level_model) = standard_level_order ! k \<and>
     is_level_supported (standard_level_order ! k) [''low'', ''high'']"
proof -
  have l: "tm_thinking level_model = Some (the (tm_thinking level_model))"
    "ts_levels (the (tm_thinking level_model)) = [''low'', ''high'']" by (simp_all add: level_model_def)
  have "level_index ''medium'' = Some 2" "\<not> is_level_supported ''medium'' [''low'', ''high'']"
    "supported_indices [''low'', ''high''] \<noteq> []" by code_simp+
  then show ?thesis using clamp_level_nearest [OF l(1), of "''medium''" 2] unfolding l(2) by blast
qed

text \<open>
  An upper-case AUTO on a model with budgets only is not recognised as the automatic mode: it
  becomes a budget of -1.
\<close>

definition budget_model :: thinking_model where
  "budget_model = \<lparr>tm_id = ''b'', tm_type = ''gemini'', tm_thinking = Some
     \<lparr>ts_min = 128, ts_max = 20000, ts_zero_allowed = False, ts_dynamic_allowed = False, ts_levels = []\<rparr>\<rparr>"

lemma upper_case_auto_is_a_budget:
  "validate_config \<lparr>tc_mode = ModeLevel, tc_budget = 0, tc_level = ''AUTO''\<rparr> (Some budget_model) ''openai'' ''gemini'' False =
     Inr \<lparr>tc_mode = ModeBudget, tc_budget = -1, tc_level = []\<rparr> \<and>
   validate_config \<lparr>tc_mode = ModeLevel, tc_budget = 0, tc_level = ''auto''\<rparr> (Some budget_model) ''openai'' ''gemini'' False =
     Inr \<lparr>tc_mode = ModeBudget, tc_budget = 10064, tc_level = []\<rparr>"
  by code_simp

text \<open>
  Suffixes round-trip: appending a suffix in parentheses to a model name parses back into the
  name and the suffix, and a budget printed as the suffix is read as that budget.
\<close>

theorem suffix_roundtrip:
  assumes "CHR ''('' \<notin> set raw"
  shows "parse_suffix (m @ ''('' @ raw @ '')'') = \<lparr>sr_model_name = m, sr_has_suffix = True, sr_raw_suffix = raw\<rparr> \<and>
    (\<forall>b. 0 \<le> b \<longrightarrow> b \<le> int64_max \<longrightarrow> raw = format_int64 b \<longrightarrow> parse_numeric_suffix raw = Some b)"
  using parse_suffix_compose [OF assms, of m] parse_format_int64
  by (auto simp: parse_numeric_suffix_def in_int64_def int64_min_def)

theorem suffix_roundtrip_witness:
  "parse_suffix ''gpt(8192)'' = \<lparr>sr_model_name = ''gpt'', sr_has_suffix = True, sr_raw_suffix = ''8192''\<rparr> \<and>
   parse_numeric_suffix ''8192'' = Some 8192"
proof -
  have f: "format_int64 8192 = ''8192''" by (simp add: format_int64_def nat_digits.simps digit_char_def char_of_def bit_Suc_0_iff)
  have n: "CHR ''('' \<notin> set ''8192''" by simp
  note r = suffix_roundtrip [OF n, of "''gpt''"]
  have "parse_suffix (''gpt'' @ ''('' @ ''8192'' @ '')'') =
      \<lparr>sr_model_name = ''gpt'', sr_has_suffix = True, sr_raw_suffix = ''8192''\<rparr>"
    using r by (rule conjunct1)
  moreover have "parse_numeric_suffix ''8192'' = Some 8192"
    by (rule r [THEN conjunct2, THEN spec, THEN mp, THEN mp, THEN mp, OF _ _ f [symmetric]])
      (simp_all add: int64_max_def)
  ultimately show ?thesis by simp
qed

section \<open>Weights\<close>

definition metadata_wf :: "auth \<Rightarrow> bool" where
  "metadata_wf a \<longleftrightarrow> (case a_metadata a ''weight'' of None \<Rightarrow> True | Some v \<Rightarrow> any_wf v)"

text \<open>
  A weight is always in range, whatever the attributes and the metadata of a credential hold:
  0 for an invalid value, 1 for none.
\<close>

theorem auth_weight_range:
  assumes "case ao of None \<Rightarrow> True | Some a \<Rightarrow> metadata_wf a"
  shows "0 \<le> auth_weight ao \<and> auth_weight ao \<le> weight_max"
  using assms weight_parse_string_range weight_parse_value_range
  by (auto simp: auth_weight_def auth_metadata_weight_def metadata_wf_def weight_default_def weight_max_def
      split: option.splits sum.splits)

theorem auth_weight_range_witness:
  "0 \<le> auth_weight (Some ((new_auth ''a'' ''p'')\<lparr>a_attributes := [''weight'' \<mapsto> ''-7'']\<rparr>)) \<and>
   auth_weight (Some ((new_auth ''a'' ''p'')\<lparr>a_attributes := [''weight'' \<mapsto> ''-7'']\<rparr>)) \<le> weight_max"
  by (rule auth_weight_range) (simp add: metadata_wf_def new_auth_def)

text \<open>
  A weight set from a credential's source metadata is the weight that is read back: after
  \<open>ApplyAuthWeightMetadata\<close> succeeds with a weight in the metadata, \<open>authWeight\<close> is its value.
\<close>

theorem applied_weight_reads_back:
  assumes "apply_auth_weight_metadata (Some a) (Some md) = Inr r" "md ''weight'' = Some v" "any_wf v"
  shows "\<exists>b w. r = Some b \<and> weight_parse_value v = Inr w \<and> auth_weight (Some b) = w"
proof -
  obtain w where w: "weight_parse_value v = Inr w"
    and r: "r = Some (a\<lparr>a_attributes := (a_attributes a)(''weight'' \<mapsto> format_int64 w)\<rparr>)"
    using assms(1,2) by (auto simp: apply_auth_weight_metadata_def split: option.splits sum.splits)
  have "0 \<le> w" "w \<le> weight_max" using weight_parse_value_range [OF assms(3) w] by auto
  then have "weight_parse_string (format_int64 w) = Inr w" by (rule weight_parse_format)
  then show ?thesis using w r by (simp add: auth_weight_def)
qed

theorem applied_weight_reads_back_witness:
  "\<exists>b. apply_auth_weight_metadata (Some (new_auth ''a'' ''p'')) (Some [''weight'' \<mapsto> AnyString ''12'']) = Inr (Some b) \<and>
     auth_weight (Some b) = 12"
proof -
  define v where "v = AnyString ''12''"
  let ?a = "new_auth ''a'' ''p''" and ?md = "[''weight'' \<mapsto> v]"
  have p: "weight_parse_value v = Inr 12" and w: "any_wf v" by (simp_all add: v_def) code_simp+
  have e: "apply_auth_weight_metadata (Some ?a) (Some ?md) =
      Inr (Some (?a\<lparr>a_attributes := (a_attributes ?a)(''weight'' \<mapsto> format_int64 12)\<rparr>))"
    using p by (simp add: apply_auth_weight_metadata_def validate_auth_weight_def new_auth_def)
  from applied_weight_reads_back [OF e _ w] p e show ?thesis by (simp add: v_def)
qed

section \<open>Recent requests\<close>

text \<open>
  C40 The ring of twenty buckets is a sliding window over the history: for requests recorded in
  the order of their buckets, the snapshot shows for each of the last twenty intervals exactly
  the successes and failures of the history in it.
\<close>

theorem snapshot_counts_history:
  assumes "sorted (map (\<lambda>x. recent_bucket_id (fst x)) h)" "a_recent a = ring_empty"
    and "\<forall>x \<in> set h. recent_bucket_id (fst x) \<le> recent_bucket_id now"
  shows "recent_requests_snapshot label (Some (record_history a h)) now =
    map (\<lambda>i. let b = recent_bucket_id now - int i in
           (label b, history_count h b True, history_count h b False)) (rev [0..<bucket_count])"
proof -
  have "ring_refines (a_recent (record_history a h)) ([] @ h)"
    by (rule ring_refines_history) (use assms ring_refines_empty in simp_all)
  then show ?thesis using ring_refines_snapshot assms(3) by simp
qed

theorem snapshot_counts_history_witness:
  "last (recent_requests_snapshot (\<lambda>b. []) (Some (record_history ((new_auth ''a'' ''p'')\<lparr>a_recent := ring_empty\<rparr>)
     [(5, True), (6, False), (7, True)])) 8) = ([], 2, 1)"
proof -
  let ?h = "[(5, True), (6, False), (7, True)] :: request_history"
  have s: "sorted (map (\<lambda>x. recent_bucket_id (fst x)) ?h)" "\<forall>x \<in> set ?h. recent_bucket_id (fst x) \<le> recent_bucket_id 8"
    "bucket_count \<noteq> 0" "history_count ?h (recent_bucket_id 8) True = 2" "history_count ?h (recent_bucket_id 8) False = 1"
    by code_simp+
  have "last (map f (rev [0..<bucket_count])) = f 0" for f :: "nat \<Rightarrow> string \<times> int \<times> int"
    using s(3) by (simp add: last_map last_rev)
  then show ?thesis
    using snapshot_counts_history [OF s(1) _ s(2), of "(new_auth ''a'' ''p'')\<lparr>a_recent := ring_empty\<rparr>" "\<lambda>b. []"]
    by (simp add: s(4,5))
qed

end
