(* ===== verification/Registry.thy ===== *)
theory Registry
  imports Thinking "HOL-Library.Product_Lexorder"
begin

text \<open>
  The model registry (\<open>internal/registry/model_registry.go\<close>): which client serves which model,
  with a reference count per model and provider, the marks of exhausted quotas and suspended
  clients, and the cached listings. A map of Go is an association list with distinct keys; pointers
  into the maps are updated in place by \<open>update_model\<close>. Copies of model records are the records
  themselves, values being immutable here.
\<close>

section \<open>State\<close>

record model_info =
  mi_id :: string
  mi_object :: string
  mi_created :: int
  mi_owned_by :: string
  mi_type :: string
  mi_display_name :: string
  mi_name :: string
  mi_version :: string
  mi_description :: string
  mi_input_limit :: int
  mi_output_limit :: int
  mi_generation_methods :: "string list"
  mi_context_length :: int
  mi_max_context_length :: int
  mi_max_completion_tokens :: int
  mi_parameters :: "string list"
  mi_input_modalities :: "string list"
  mi_output_modalities :: "string list"
  mi_web_search :: bool
  mi_thinking :: "thinking_support option"
  mi_override_headers :: "(string \<times> string) list option"
  mi_user_defined :: bool
  mi_compat :: bool

text \<open>The keys of the three client maps are client identifiers, those of the providers' maps providers.\<close>

record model_registration =
  rn_info :: model_info
  rn_by_provider :: "(string \<times> model_info) list"
  rn_count :: int
  rn_updated :: gotime
  rn_quota :: "(string \<times> gotime) list"
  rn_providers :: "(string \<times> int) list"
  rn_suspended :: "(string \<times> string) list"

text \<open>The values of a listing: the entries of a \<open>map[string]any\<close>.\<close>

datatype model_value = MvString string | MvInt64 int | MvInt int | MvStrings "string list"

type_synonym model_map = "(string \<times> model_value) list"

record model_registry =
  rg_models :: "(string \<times> model_registration) list"
  rg_client_models :: "(string \<times> string list) list"
  rg_client_infos :: "(string \<times> (string \<times> model_info) list) list"
  rg_client_providers :: "(string \<times> string) list"
  rg_cache :: "(string \<times> (model_map list \<times> gotime)) list"
  rg_hook :: bool

text \<open>The calls of the hook, which run on goroutines of their own.\<close>

datatype registry_event =
    ModelsRegistered string string "model_info list"
  | ModelsUnregistered string string

definition new_registry :: model_registry where
  "new_registry = \<lparr>rg_models = [], rg_client_models = [], rg_client_infos = [],
     rg_client_providers = [], rg_cache = [], rg_hook = False\<rparr>"

definition set_hook :: "bool \<Rightarrow> model_registry \<Rightarrow> model_registry" where
  "set_hook h r = r\<lparr>rg_hook := h\<rparr>"

definition quota_exceeded_window :: duration where "quota_exceeded_window = 5 * minute"

definition invalidate_cache :: "model_registry \<Rightarrow> model_registry" where
  "invalidate_cache r = r\<lparr>rg_cache := []\<rparr>"

text \<open>A model's registration is read, changed and written back, or deleted.\<close>

definition registration_at :: "model_registry \<Rightarrow> string \<Rightarrow> model_registration option" where
  "registration_at r m = map_of (rg_models r) m"

definition update_model ::
  "string \<Rightarrow> (model_registration option \<Rightarrow> model_registration option) \<Rightarrow> model_registry \<Rightarrow> model_registry" where
  "update_model m f r =
     r\<lparr>rg_models := (case f (registration_at r m) of
                        None \<Rightarrow> AList.delete m (rg_models r)
                      | Some reg \<Rightarrow> AList.update m reg (rg_models r))\<rparr>"

section \<open>Registrations\<close>

definition add_registration :: "string \<Rightarrow> model_info \<Rightarrow> gotime \<Rightarrow> model_registration option \<Rightarrow> model_registration option" where
  "add_registration provider info now ro =
     (case ro of
        Some reg \<Rightarrow>
          let reg1 = reg\<lparr>rn_count := rn_count reg + 1, rn_updated := now, rn_info := info\<rparr>
          in Some (if provider \<noteq> []
                   then reg1\<lparr>rn_providers := AList.update provider
                               ((case map_of (rn_providers reg) provider of None \<Rightarrow> 0 | Some n \<Rightarrow> n) + 1)
                               (rn_providers reg),
                             rn_by_provider := AList.update provider info (rn_by_provider reg)\<rparr>
                   else reg1)
      | None \<Rightarrow>
          Some \<lparr>rn_info = info, rn_by_provider = (if provider \<noteq> [] then [(provider, info)] else []),
                rn_count = 1, rn_updated = now, rn_quota = [],
                rn_providers = (if provider \<noteq> [] then [(provider, 1)] else []), rn_suspended = []\<rparr>)"

definition add_model_registration ::
  "string \<Rightarrow> string \<Rightarrow> model_info \<Rightarrow> gotime \<Rightarrow> model_registry \<Rightarrow> model_registry" where
  "add_model_registration m provider info now r =
     (if m = [] then r else update_model m (add_registration provider info now) r)"

text \<open>One supply of a provider less; the provider goes when it was the last.\<close>

definition release_provider :: "string \<Rightarrow> int \<Rightarrow> model_registration \<Rightarrow> model_registration" where
  "release_provider provider k reg =
     (case map_of (rn_providers reg) provider of
        None \<Rightarrow> reg
      | Some n \<Rightarrow>
          (if n \<le> k
           then reg\<lparr>rn_providers := AList.delete provider (rn_providers reg),
                    rn_by_provider := AList.delete provider (rn_by_provider reg)\<rparr>
           else reg\<lparr>rn_providers := AList.update provider (n - k) (rn_providers reg)\<rparr>))"

definition forget_client :: "string \<Rightarrow> model_registration \<Rightarrow> model_registration" where
  "forget_client client reg =
     reg\<lparr>rn_quota := AList.delete client (rn_quota reg), rn_suspended := AList.delete client (rn_suspended reg)\<rparr>"

definition remove_registration ::
  "string \<Rightarrow> string \<Rightarrow> gotime \<Rightarrow> model_registration option \<Rightarrow> model_registration option" where
  "remove_registration client provider now ro =
     (case ro of
        None \<Rightarrow> None
      | Some reg \<Rightarrow>
          let n = (if rn_count reg - 1 < 0 then 0 else rn_count reg - 1);
              reg1 = (forget_client client reg)\<lparr>rn_count := n, rn_updated := now\<rparr>;
              reg2 = (if provider \<noteq> [] then release_provider provider 1 reg1 else reg1)
          in if rn_count reg2 \<le> 0 then None else Some reg2)"

definition remove_model_registration ::
  "string \<Rightarrow> string \<Rightarrow> string \<Rightarrow> gotime \<Rightarrow> model_registry \<Rightarrow> model_registry" where
  "remove_model_registration client m provider now r =
     update_model m (remove_registration client provider now) r"

section \<open>Unregistering\<close>

definition drop_supply ::
  "string \<Rightarrow> string option \<Rightarrow> gotime \<Rightarrow> model_registration option \<Rightarrow> model_registration option" where
  "drop_supply client provider now ro =
     (case ro of
        None \<Rightarrow> None
      | Some reg \<Rightarrow>
          let reg1 = (forget_client client reg)\<lparr>rn_count := rn_count reg - 1, rn_updated := now\<rparr>;
              reg2 = (case provider of None \<Rightarrow> reg1 | Some p \<Rightarrow> release_provider p 1 reg1)
          in if rn_count reg2 \<le> 0 then None else Some reg2)"

definition unregister_client_internal ::
  "gotime \<Rightarrow> string \<Rightarrow> model_registry \<Rightarrow> model_registry \<times> registry_event list" where
  "unregister_client_internal now client r =
     (let provider = map_of (rg_client_providers r) client in
      case map_of (rg_client_models r) client of
        None \<Rightarrow> (r\<lparr>rg_client_providers := AList.delete client (rg_client_providers r)\<rparr>, [])
      | Some ms \<Rightarrow>
          let r1 = fold (\<lambda>m. update_model m (drop_supply client provider now)) ms r
          in (r1\<lparr>rg_client_models := AList.delete client (rg_client_models r1),
                 rg_client_infos := AList.delete client (rg_client_infos r1),
                 rg_client_providers := AList.delete client (rg_client_providers r1)\<rparr>,
              if rg_hook r
              then [ModelsUnregistered (case provider of None \<Rightarrow> [] | Some p \<Rightarrow> p) client] else []))"

definition unregister_client :: "gotime \<Rightarrow> string \<Rightarrow> model_registry \<Rightarrow> model_registry \<times> registry_event list" where
  "unregister_client now client r =
     (case unregister_client_internal now client r of (r1, es) \<Rightarrow> (invalidate_cache r1, es))"

section \<open>Registering\<close>

text \<open>
  The first loop over the models: the raw identifiers in order, and the first model of each
  identifier; \<open>uniqueModelIDs\<close> are the keys of the second, in their order of insertion, and the
  count of an identifier is the number of its occurrences in the first.
\<close>

fun scan_models ::
  "model_info option list \<Rightarrow> string list \<Rightarrow> (string \<times> model_info) list \<Rightarrow>
   string list \<times> (string \<times> model_info) list" where
  "scan_models [] raw new = (raw, new)"
| "scan_models (None # ms) raw new = scan_models ms raw new"
| "scan_models (Some i # ms) raw new =
     (if mi_id i = [] then scan_models ms raw new
      else scan_models ms (raw @ [mi_id i])
             (case map_of new (mi_id i) of None \<Rightarrow> new @ [(mi_id i, i)] | Some _ \<Rightarrow> new))"

fun clone_infos_unique :: "model_info option list \<Rightarrow> string list \<Rightarrow> model_info list" where
  "clone_infos_unique [] seen = []"
| "clone_infos_unique (None # ms) seen = clone_infos_unique ms seen"
| "clone_infos_unique (Some i # ms) seen =
     (if mi_id i = [] \<or> mi_id i \<in> set seen then clone_infos_unique ms seen
      else i # clone_infos_unique ms (mi_id i # seen))"

text \<open>The overlapping models of a client whose provider changed leave the old provider.\<close>

definition release_overlap :: "string \<Rightarrow> nat \<Rightarrow> nat \<Rightarrow> model_registration option \<Rightarrow> model_registration option" where
  "release_overlap old_provider new_count old_count ro =
     (if new_count = 0 \<or> old_count = 0 then ro
      else map_option (release_provider old_provider (int (min new_count old_count))) ro)"

text \<open>
  The metadata of a model that remains: the marks of the client are dropped, and with a new
  provider the listings that were there before count for it.
\<close>

definition refresh_binding ::
  "string \<Rightarrow> string \<Rightarrow> bool \<Rightarrow> gotime \<Rightarrow> nat \<Rightarrow> nat \<Rightarrow> model_info \<Rightarrow>
   model_registration option \<Rightarrow> model_registration option" where
  "refresh_binding client provider changed now new_count old_count info ro =
     (case ro of
        None \<Rightarrow> None
      | Some reg \<Rightarrow>
          let reg1 = reg\<lparr>rn_info := info,
                         rn_by_provider := (if provider \<noteq> [] then AList.update provider info (rn_by_provider reg)
                                            else rn_by_provider reg),
                         rn_updated := now\<rparr>;
              reg2 = forget_client client reg1;
              overlap = (if old_count < new_count then old_count else new_count)
          in Some (if changed \<and> provider \<noteq> [] \<and> old_count \<noteq> 0 \<and> overlap > 0
                   then reg2\<lparr>rn_providers := AList.update provider
                          ((case map_of (rn_providers reg2) provider of None \<Rightarrow> 0 | Some n \<Rightarrow> n) + int overlap)
                          (rn_providers reg2)\<rparr>
                   else reg2))"

definition set_client_provider :: "string \<Rightarrow> string \<Rightarrow> model_registry \<Rightarrow> model_registry" where
  "set_client_provider client provider r =
     r\<lparr>rg_client_providers := (if provider \<noteq> [] then AList.update client provider (rg_client_providers r)
                               else AList.delete client (rg_client_providers r))\<rparr>"

definition reconcile_models ::
  "gotime \<Rightarrow> string \<Rightarrow> string \<Rightarrow> string \<Rightarrow> string list \<Rightarrow> string list \<Rightarrow> (string \<times> model_info) list \<Rightarrow>
   model_registry \<Rightarrow> model_registry" where
  "reconcile_models now client old_provider provider old raw new r =
     (let changed = (old_provider \<noteq> provider);
          old_ids = remdups old;
          old_count = (\<lambda>m. count_list old m);
          new_count = (\<lambda>m. count_list raw m);
          r1 = (if changed \<and> old_provider \<noteq> []
                then fold (\<lambda>(m, _). update_model m (release_overlap old_provider (new_count m) (old_count m))) new r
                else r);
          r2 = fold (\<lambda>m. remove_model_registration client m old_provider now ^^ old_count m)
                 (filter (\<lambda>m. new_count m = 0) old_ids) r1;
          r3 = fold (\<lambda>m. if new_count m = 0 \<or> old_count m \<le> new_count m then id
                          else remove_model_registration client m old_provider now ^^ (old_count m - new_count m))
                 old_ids r2;
          r4 = fold (\<lambda>(m, i). if new_count m \<le> old_count m then id
                               else add_model_registration m provider i now ^^ (new_count m - old_count m))
                 new r3
      in fold (\<lambda>(m, i). update_model m
                 (refresh_binding client provider changed now (new_count m) (old_count m) i)) new r4)"

definition register_client ::
  "gotime \<Rightarrow> string \<Rightarrow> string \<Rightarrow> model_info option list \<Rightarrow> model_registry \<Rightarrow>
   model_registry \<times> registry_event list" where
  "register_client now client client_provider models r =
     (let provider = to_lower client_provider in
      case scan_models models [] [] of
        (raw, new) \<Rightarrow>
          if new = [] then
            (case unregister_client_internal now client r of
               (r1, es) \<Rightarrow>
                 (invalidate_cache
                    (r1\<lparr>rg_client_models := AList.delete client (rg_client_models r1),
                        rg_client_infos := AList.delete client (rg_client_infos r1),
                        rg_client_providers := AList.delete client (rg_client_providers r1)\<rparr>), es))
          else
            let r1 = (case map_of (rg_client_models r) client of
                        None \<Rightarrow> fold (\<lambda>m. add_model_registration m provider (the (map_of new m)) now) raw r
                      | Some old \<Rightarrow>
                          reconcile_models now client
                            (case map_of (rg_client_providers r) client of None \<Rightarrow> [] | Some p \<Rightarrow> p)
                            provider old raw new r);
                r2 = r1\<lparr>rg_client_models := AList.update client raw (rg_client_models r1),
                        rg_client_infos := AList.update client new (rg_client_infos r1)\<rparr>
            in (invalidate_cache (set_client_provider client provider r2),
                if rg_hook r then [ModelsRegistered provider client (clone_infos_unique models [])] else []))"

section \<open>Marks\<close>

definition set_model_quota_exceeded :: "gotime \<Rightarrow> string \<Rightarrow> string \<Rightarrow> model_registry \<Rightarrow> model_registry" where
  "set_model_quota_exceeded now client m r =
     (case registration_at r m of
        None \<Rightarrow> r
      | Some reg \<Rightarrow>
          invalidate_cache (update_model m
            (\<lambda>_. Some (reg\<lparr>rn_quota := AList.update client now (rn_quota reg)\<rparr>)) r))"

definition clear_model_quota_exceeded :: "string \<Rightarrow> string \<Rightarrow> model_registry \<Rightarrow> model_registry" where
  "clear_model_quota_exceeded client m r =
     (case registration_at r m of
        None \<Rightarrow> r
      | Some reg \<Rightarrow>
          invalidate_cache (update_model m
            (\<lambda>_. Some (reg\<lparr>rn_quota := AList.delete client (rn_quota reg)\<rparr>)) r))"

definition suspend_client_model :: "gotime \<Rightarrow> string \<Rightarrow> string \<Rightarrow> string \<Rightarrow> model_registry \<Rightarrow> model_registry" where
  "suspend_client_model now client m reason r =
     (if client = [] \<or> m = [] then r
      else (case registration_at r m of
              None \<Rightarrow> r
            | Some reg \<Rightarrow>
                (if map_of (rn_suspended reg) client \<noteq> None then r
                 else invalidate_cache (update_model m
                   (\<lambda>_. Some (reg\<lparr>rn_suspended := AList.update client reason (rn_suspended reg),
                                     rn_updated := now\<rparr>)) r))))"

definition resume_client_model :: "gotime \<Rightarrow> string \<Rightarrow> string \<Rightarrow> model_registry \<Rightarrow> model_registry" where
  "resume_client_model now client m r =
     (if client = [] \<or> m = [] then r
      else (case registration_at r m of
              None \<Rightarrow> r
            | Some reg \<Rightarrow>
                (if map_of (rn_suspended reg) client = None then r
                 else invalidate_cache (update_model m
                   (\<lambda>_. Some (reg\<lparr>rn_suspended := AList.delete client (rn_suspended reg),
                                     rn_updated := now\<rparr>)) r))))"

text \<open>\<open>CleanupExpiredQuotas\<close>.\<close>

definition expired_mark :: "gotime \<Rightarrow> gotime \<Rightarrow> bool" where
  "expired_mark now q \<longleftrightarrow> time_sub now q \<ge> quota_exceeded_window"

definition cleanup_expired_quotas :: "gotime \<Rightarrow> model_registry \<Rightarrow> model_registry" where
  "cleanup_expired_quotas now r =
     (let r1 = r\<lparr>rg_models := map (\<lambda>(m, reg).
                 (m, reg\<lparr>rn_quota := filter (\<lambda>(c, q). \<not> expired_mark now q) (rn_quota reg)\<rparr>)) (rg_models r)\<rparr>
      in if \<exists>(m, reg) \<in> set (rg_models r). \<exists>(c, q) \<in> set (rn_quota reg). expired_mark now q
         then invalidate_cache r1 else r1)"

section \<open>Availability\<close>

text \<open>The loop over the quota marks: how many still hold, and when the first of them ends.\<close>

definition quota_step :: "gotime \<Rightarrow> string \<times> gotime \<Rightarrow> int \<times> gotime \<Rightarrow> int \<times> gotime" where
  "quota_step now = (\<lambda>(c, q) (n, expires).
     let recovery = q + quota_exceeded_window in
     if before now recovery
     then (n + 1, if is_zero expires \<or> before recovery expires then recovery else expires)
     else (n, expires))"

definition registration_availability :: "model_registration \<Rightarrow> gotime \<Rightarrow> bool \<times> gotime" where
  "registration_availability reg now =
     (case fold (quota_step now) (rn_quota reg) (0, 0) of
        (expired, expires) \<Rightarrow>
          let cooling = int (length (filter (\<lambda>(c, why). equal_fold why ''quota'') (rn_suspended reg)));
              other = int (length (filter (\<lambda>(c, why). \<not> equal_fold why ''quota'') (rn_suspended reg)));
              effective = (let e = rn_count reg - expired - other in if e < 0 then 0 else e)
          in (effective > 0 \<or> (rn_count reg > 0 \<and> (expired > 0 \<or> cooling > 0) \<and> other = 0), expires))"

definition get_model_count :: "gotime \<Rightarrow> string \<Rightarrow> model_registry \<Rightarrow> int" where
  "get_model_count now m r =
     (case registration_at r m of
        None \<Rightarrow> 0
      | Some reg \<Rightarrow>
          let expired = int (length (filter (\<lambda>(c, q). \<not> expired_mark now q) (rn_quota reg)));
              result = rn_count reg - expired - int (length (rn_suspended reg))
          in if result < 0 then 0 else result)"

definition get_available_model_infos :: "gotime \<Rightarrow> model_registry \<Rightarrow> model_info list" where
  "get_available_model_infos now r =
     sort_key (\<lambda>i. trim_space (mi_id i))
       (map (\<lambda>(m, reg). rn_info reg)
          (filter (\<lambda>(m, reg). fst (registration_availability reg now)) (rg_models r)))"

definition get_model_providers :: "string \<Rightarrow> model_registry \<Rightarrow> string list" where
  "get_model_providers m r =
     (case registration_at r m of
        None \<Rightarrow> []
      | Some reg \<Rightarrow>
          map fst (sort_key (\<lambda>(p, n). (- n, p)) (filter (\<lambda>(p, n). n > 0) (rn_providers reg))))"

definition get_model_info :: "string \<Rightarrow> string \<Rightarrow> model_registry \<Rightarrow> model_info option" where
  "get_model_info m provider r =
     (case registration_at r m of
        None \<Rightarrow> None
      | Some reg \<Rightarrow>
          (case (if provider = [] then None else map_of (rn_providers reg) provider) of
             None \<Rightarrow> Some (rn_info reg)
           | Some n \<Rightarrow>
               (if n > 0 then (case map_of (rn_by_provider reg) provider of
                                 None \<Rightarrow> Some (rn_info reg) | Some i \<Rightarrow> Some i)
                else Some (rn_info reg))))"

section \<open>Listings\<close>

text \<open>
  \<open>time.Unix(s, 0).UTC().Format(time.RFC3339)\<close> for the years Go prints with four digits or more:
  the civil date of a day of the proleptic Gregorian calendar, counted from 1970-01-01.
\<close>

definition civil_of_days :: "int \<Rightarrow> int \<times> int \<times> int" where
  "civil_of_days days =
     (let z = days + 719468;
          era = z div 146097;
          doe = z mod 146097;
          yoe = (doe - doe div 1460 + doe div 36524 - doe div 146096) div 365;
          doy = doe - (365 * yoe + yoe div 4 - yoe div 100);
          mp = (5 * doy + 2) div 153;
          d = doy - (153 * mp + 2) div 5 + 1;
          m = (if mp < 10 then mp + 3 else mp - 9)
      in (yoe + era * 400 + (if m \<le> 2 then 1 else 0), m, d))"

definition padded :: "nat \<Rightarrow> int \<Rightarrow> string" where
  "padded w i = (let ds = nat_digits (nat i) in replicate (w - length ds) (CHR ''0'') @ ds)"

definition rfc3339 :: "int \<Rightarrow> string" where
  "rfc3339 secs =
     (case civil_of_days (secs div 86400) of
        (y, m, d) \<Rightarrow>
          let t = secs mod 86400 in
          padded 4 y @ ''-'' @ padded 2 m @ ''-'' @ padded 2 d @ ''T'' @
          padded 2 (t div 3600) @ '':'' @ padded 2 (t div 60 mod 60) @ '':'' @ padded 2 (t mod 60) @ ''Z'')"

definition optional_field :: "bool \<Rightarrow> string \<Rightarrow> model_value \<Rightarrow> model_map" where
  "optional_field present key v = (if present then [(key, v)] else [])"

definition default_claude_max_input :: int where "default_claude_max_input = 200000"

definition default_claude_max_output :: int where "default_claude_max_output = 64000"

definition openai_map :: "model_info \<Rightarrow> model_map" where
  "openai_map i =
     [(''id'', MvString (mi_id i)), (''object'', MvString ''model''), (''owned_by'', MvString (mi_owned_by i))] @
     optional_field (mi_created i > 0) ''created'' (MvInt64 (mi_created i)) @
     optional_field (mi_type i \<noteq> []) ''type'' (MvString (mi_type i)) @
     optional_field (mi_display_name i \<noteq> []) ''display_name'' (MvString (mi_display_name i)) @
     optional_field (mi_version i \<noteq> []) ''version'' (MvString (mi_version i)) @
     optional_field (mi_description i \<noteq> []) ''description'' (MvString (mi_description i)) @
     optional_field (mi_context_length i > 0) ''context_length'' (MvInt (mi_context_length i)) @
     optional_field (mi_max_context_length i > 0) ''max_context_length'' (MvInt (mi_max_context_length i)) @
     optional_field (mi_max_completion_tokens i > 0) ''max_completion_tokens'' (MvInt (mi_max_completion_tokens i)) @
     optional_field (mi_parameters i \<noteq> []) ''supported_parameters'' (MvStrings (mi_parameters i))"

definition claude_map :: "model_info \<Rightarrow> model_map" where
  "claude_map i =
     [(''id'', MvString (mi_id i)), (''object'', MvString ''model''), (''owned_by'', MvString (mi_owned_by i))] @
     optional_field (mi_created i > 0) ''created_at'' (MvString (rfc3339 (mi_created i))) @
     [(''type'', MvString ''model''),
      (''display_name'', MvString (if mi_display_name i \<noteq> [] then mi_display_name i else mi_id i)),
      (''max_input_tokens'', MvInt (if mi_context_length i \<le> 0 then default_claude_max_input
                                  else mi_context_length i)),
      (''max_tokens'', MvInt (if mi_max_completion_tokens i \<le> 0 then default_claude_max_output
                            else mi_max_completion_tokens i))]"

definition gemini_map :: "model_info \<Rightarrow> model_map" where
  "gemini_map i =
     [(''name'', MvString (if mi_name i \<noteq> [] then mi_name i else mi_id i))] @
     optional_field (mi_version i \<noteq> []) ''version'' (MvString (mi_version i)) @
     optional_field (mi_display_name i \<noteq> []) ''displayName'' (MvString (mi_display_name i)) @
     optional_field (mi_description i \<noteq> []) ''description'' (MvString (mi_description i)) @
     optional_field (mi_input_limit i > 0) ''inputTokenLimit'' (MvInt (mi_input_limit i)) @
     optional_field (mi_output_limit i > 0) ''outputTokenLimit'' (MvInt (mi_output_limit i)) @
     optional_field (mi_generation_methods i \<noteq> []) ''supportedGenerationMethods''
       (MvStrings (mi_generation_methods i)) @
     optional_field (mi_input_modalities i \<noteq> []) ''supportedInputModalities''
       (MvStrings (mi_input_modalities i)) @
     optional_field (mi_output_modalities i \<noteq> []) ''supportedOutputModalities''
       (MvStrings (mi_output_modalities i))"

definition generic_map :: "model_info \<Rightarrow> model_map" where
  "generic_map i =
     [(''id'', MvString (mi_id i)), (''object'', MvString ''model'')] @
     optional_field (mi_owned_by i \<noteq> []) ''owned_by'' (MvString (mi_owned_by i)) @
     optional_field (mi_type i \<noteq> []) ''type'' (MvString (mi_type i)) @
     optional_field (mi_created i \<noteq> 0) ''created'' (MvInt64 (mi_created i))"

definition convert_model_to_map :: "string \<Rightarrow> model_info \<Rightarrow> model_map" where
  "convert_model_to_map handler i =
     (if handler = ''openai'' then openai_map i
      else if handler = ''claude'' then claude_map i
      else if handler = ''gemini'' then gemini_map i
      else generic_map i)"

definition earlier_expiry :: "gotime \<Rightarrow> gotime \<Rightarrow> gotime" where
  "earlier_expiry e expires =
     (if \<not> is_zero e \<and> (is_zero expires \<or> before e expires) then e else expires)"

definition build_available_models :: "string \<Rightarrow> gotime \<Rightarrow> model_registry \<Rightarrow> model_map list \<times> gotime" where
  "build_available_models handler now r =
     (map (\<lambda>(m, reg). convert_model_to_map handler (rn_info reg))
        (filter (\<lambda>(m, reg). fst (registration_availability reg now)) (rg_models r)),
      fold (\<lambda>(m, reg). earlier_expiry (snd (registration_availability reg now))) (rg_models r) 0)"

definition fresh_listing :: "gotime \<Rightarrow> model_map list \<times> gotime \<Rightarrow> bool" where
  "fresh_listing now c \<longleftrightarrow> is_zero (snd c) \<or> before now (snd c)"

definition get_available_models :: "gotime \<Rightarrow> string \<Rightarrow> model_registry \<Rightarrow> model_map list \<times> model_registry" where
  "get_available_models now handler r =
     (case map_of (rg_cache r) handler of
        Some c \<Rightarrow>
          (if fresh_listing now c then (fst c, r)
           else (let b = build_available_models handler now r
                 in (fst b, r\<lparr>rg_cache := AList.update handler b (rg_cache r)\<rparr>)))
      | None \<Rightarrow>
          (let b = build_available_models handler now r
           in (fst b, r\<lparr>rg_cache := AList.update handler b (rg_cache r)\<rparr>)))"

section \<open>Queries by provider and client\<close>

text \<open>The count and the model record collected for a model of the provider.\<close>

type_synonym provider_models = "(string \<times> (int \<times> model_info option)) list"

definition supply_info ::
  "(string \<times> model_info) list option \<Rightarrow> string \<Rightarrow> model_registry \<Rightarrow> model_info option" where
  "supply_info infos m r =
     (case Option.bind infos (\<lambda>is. map_of is m) of
        Some i \<Rightarrow> Some i
      | None \<Rightarrow> map_option rn_info (registration_at r m))"

definition note_supply ::
  "model_registry \<Rightarrow> (string \<times> model_info) list option \<Rightarrow> string \<Rightarrow> provider_models \<Rightarrow> provider_models" where
  "note_supply r infos m0 pm =
     (let m = trim_space m0 in
      if m = [] then pm
      else (case (case map_of pm m of None \<Rightarrow> (0, None) | Some e \<Rightarrow> e) of
              (n, info) \<Rightarrow>
                AList.update m (n + 1, if info = None then supply_info infos m r else info) pm))"

definition provider_supplies :: "string \<Rightarrow> model_registry \<Rightarrow> provider_models" where
  "provider_supplies provider r =
     fold (\<lambda>(c, p) pm.
        if p \<noteq> provider then pm
        else fold (note_supply r (map_of (rg_client_infos r) c))
               (case map_of (rg_client_models r) c of None \<Rightarrow> [] | Some ms \<Rightarrow> ms) pm)
       (rg_client_providers r) []"

definition provider_model_available ::
  "gotime \<Rightarrow> string \<Rightarrow> model_registry \<Rightarrow> string \<Rightarrow> int \<Rightarrow> bool" where
  "provider_model_available now provider r m available =
     (let own = (\<lambda>c. c \<noteq> [] \<and> map_of (rg_client_providers r) c = Some provider);
          quota = (case registration_at r m of None \<Rightarrow> [] | Some reg \<Rightarrow> rn_quota reg);
          suspended = (case registration_at r m of None \<Rightarrow> [] | Some reg \<Rightarrow> rn_suspended reg);
          expired = int (length (filter (\<lambda>(c, q). own c \<and> time_sub now q < quota_exceeded_window) quota));
          cooling = int (length (filter (\<lambda>(c, why). own c \<and> equal_fold why ''quota'') suspended));
          other = int (length (filter (\<lambda>(c, why). own c \<and> \<not> equal_fold why ''quota'') suspended));
          effective = (if available - expired - other < 0 then 0 else available - expired - other)
      in effective > 0 \<or> (available > 0 \<and> (expired > 0 \<or> cooling > 0) \<and> other = 0))"

definition get_available_models_by_provider ::
  "gotime \<Rightarrow> string \<Rightarrow> model_registry \<Rightarrow> model_info list" where
  "get_available_models_by_provider now provider0 r =
     (let provider = to_lower (trim_space provider0) in
      if provider = [] then []
      else
        concat (map (\<lambda>(m, n, info).
          if n > 0 \<and> provider_model_available now provider r m n
          then (case info of
                  Some i \<Rightarrow> [i]
                | None \<Rightarrow> (case registration_at r m of None \<Rightarrow> [] | Some reg \<Rightarrow> [rn_info reg]))
          else []) (provider_supplies provider r)))"

definition client_supports_model :: "string \<Rightarrow> string \<Rightarrow> model_registry \<Rightarrow> bool" where
  "client_supports_model client0 m0 r =
     (let client = trim_space client0; m = trim_space m0 in
      client \<noteq> [] \<and> m \<noteq> [] \<and>
      (case map_of (rg_client_models r) client of
         None \<Rightarrow> False
       | Some ms \<Rightarrow> (\<exists>i \<in> set ms. equal_fold (trim_space i) m)))"

fun models_for_loop ::
  "(string \<times> model_info) list option \<Rightarrow> model_registry \<Rightarrow> string list \<Rightarrow> string list \<Rightarrow> model_info list" where
  "models_for_loop infos r [] seen = []"
| "models_for_loop infos r (m # ms) seen =
     (if m \<in> set seen then models_for_loop infos r ms seen
      else (case supply_info infos m r of
              Some i \<Rightarrow> i # models_for_loop infos r ms (m # seen)
            | None \<Rightarrow> models_for_loop infos r ms (m # seen)))"

definition get_models_for_client :: "string \<Rightarrow> model_registry \<Rightarrow> model_info list" where
  "get_models_for_client client r =
     (case map_of (rg_client_models r) client of
        None \<Rightarrow> []
      | Some ms \<Rightarrow> models_for_loop (map_of (rg_client_infos r) client) r ms [])"

text \<open>\<open>static\<close> is \<open>LookupStaticModelInfo\<close>, a search in the model tables embedded in the binary.\<close>

definition lookup_model_info ::
  "(string \<Rightarrow> model_info option) \<Rightarrow> string \<Rightarrow> string list \<Rightarrow> model_registry \<Rightarrow> model_info option" where
  "lookup_model_info static m0 providers r =
     (let m = trim_space m0 in
      if m = [] then None
      else
        let p = (case providers of [] \<Rightarrow> [] | p # _ \<Rightarrow> to_lower (trim_space p))
        in (case get_model_info m p r of Some i \<Rightarrow> Some i | None \<Rightarrow> static m))"

definition model_override_headers ::
  "(string \<Rightarrow> model_info option) \<Rightarrow> string \<Rightarrow> string list \<Rightarrow> model_registry \<Rightarrow> (string \<times> string) list" where
  "model_override_headers static m providers r =
     (case Option.bind (lookup_model_info static m providers r) mi_override_headers of
        None \<Rightarrow> []
      | Some hs \<Rightarrow>
          fold (\<lambda>(k, v) out. let key = trim_space k in if key = [] then out else AList.update key v out) hs [])"

end
