(* ===== verification/Effects.thy ===== *)
theory Effects
  imports Manager Registry
begin

text \<open>The manager's calls into the registry, carried out on it.\<close>

fun apply_effect :: "gotime \<Rightarrow> effect \<Rightarrow> model_registry \<Rightarrow> model_registry" where
  "apply_effect now (ClearModelQuota c m) r = clear_model_quota_exceeded c m r"
| "apply_effect now (SetModelQuota c m) r = set_model_quota_exceeded now c m r"
| "apply_effect now (ResumeModel c m) r = resume_client_model now c m r"
| "apply_effect now (SuspendModel c m why) r = suspend_client_model now c m why r"
| "apply_effect now _ r = r"

end
