(* ===== verification/RegistryProps.thy ===== *)
theory RegistryProps
  imports Registry
begin

text \<open>
  Lemmas on the registry: what its folds do to the registration of one model, the exactness of
  the reference counts and the provider counts after every operation, and the effect of
  registering and unregistering a client.
\<close>

named_theorems registry_simps

section \<open>Operations on one model at a time\<close>

lemma registration_at_update [simp]:
  "registration_at (update_model m f r) k = (if k = m then f (registration_at r m) else registration_at r k)"
  by (auto simp: registration_at_def update_model_def split: option.splits)

text \<open>\<open>r'\<close> is \<open>r\<close> with each model's registration changed by \<open>F\<close>, and nothing else changed.\<close>

definition acts ::
  "(string \<Rightarrow> model_registration option \<Rightarrow> model_registration option) \<Rightarrow> model_registry \<Rightarrow> model_registry \<Rightarrow> bool" where
  "acts F r r' \<longleftrightarrow>
     (\<forall>k. registration_at r' k = F k (registration_at r k)) \<and>
     (keys_distinct (rg_models r) \<longrightarrow> keys_distinct (rg_models r')) \<and>
     rg_client_models r' = rg_client_models r \<and> rg_client_infos r' = rg_client_infos r \<and>
     rg_client_providers r' = rg_client_providers r \<and> rg_cache r' = rg_cache r \<and> rg_hook r' = rg_hook r"

definition at_model :: "string \<Rightarrow> ('a \<Rightarrow> 'a) \<Rightarrow> string \<Rightarrow> 'a \<Rightarrow> 'a" where
  "at_model m f k = (if k = m then f else id)"

lemma acts_id [intro, simp]: "acts (\<lambda>_. id) r r"
  by (simp add: acts_def)

lemma acts_comp: "acts F r r1 \<Longrightarrow> acts G r1 r2 \<Longrightarrow> acts (\<lambda>k. G k \<circ> F k) r r2"
  by (simp add: acts_def)

lemma acts_update [intro, simp]: "acts (at_model m f) r (update_model m f r)"
  by (auto simp: acts_def at_model_def) (auto simp: update_model_def split: option.splits)

lemma acts_funpow:
  assumes "\<And>r. acts F r (g r)"
  shows "acts (\<lambda>k. F k ^^ n) r ((g ^^ n) r)"
proof (induction n arbitrary: r)
  case (Suc n)
  show ?case using acts_comp [OF Suc assms] by (simp add: comp_def)
qed (simp add: acts_def)

lemma acts_fold:
  assumes "\<And>x r. x \<in> set xs \<Longrightarrow> acts (F x) r (g x r)"
  shows "acts (\<lambda>k. fold (\<lambda>x. F x k) xs) r (fold g xs r)"
  using assms
proof (induction xs arbitrary: r)
  case (Cons x xs)
  have "acts (\<lambda>k. fold (\<lambda>x. F x k) xs \<circ> F x k) r (fold g xs (g x r))"
    by (rule acts_comp [OF Cons.prems Cons.IH]) (use Cons.prems in simp_all)
  then show ?case by (simp add: comp_def)
qed (simp add: acts_def)

lemma fold_at_model_id: "(\<And>x. x \<in> set xs \<Longrightarrow> sel x \<noteq> k) \<Longrightarrow> fold (\<lambda>x. at_model (sel x) (f x) k) xs = id"
  by (induction xs) (auto simp: at_model_def)

lemma fold_at_model_once:
  assumes sel: "sel x = k" and "distinct (map sel xs)" "x \<in> set xs"
  shows "fold (\<lambda>x. at_model (sel x) (f x) k) xs = f x"
  using assms(2,3)
proof (induction xs)
  case (Cons y ys)
  show ?case
  proof (cases "y = x")
    case True
    have "sel z \<noteq> k" if "z \<in> set ys" for z
      using Cons.prems(1) True that sel by (metis distinct.simps(2) image_eqI list.map(2) set_map)
    then have "fold (\<lambda>x. at_model (sel x) (f x) k) ys = id" by (rule fold_at_model_id)
    then show ?thesis using True sel by (simp add: at_model_def)
  next
    case False
    then have x: "x \<in> set ys" using Cons.prems(2) by simp
    then have "sel y \<noteq> k"
      using Cons.prems(1) sel by (metis distinct.simps(2) image_eqI list.map(2) set_map)
    then show ?thesis using Cons x by (simp add: at_model_def)
  qed
qed simp

lemma fold_at_model_count: "fold (\<lambda>m. at_model m (f m) k) ms = f k ^^ count_list ms k"
  by (induction ms) (auto simp: at_model_def funpow_swap1 fun_eq_iff funpow_Suc_right simp del: funpow.simps)

lemma at_model_funpow: "at_model m f k ^^ n = at_model m (f ^^ n) k"
  by (cases "k = m") (simp_all add: at_model_def id_funpow)

section \<open>Counts of one registration\<close>

text \<open>
  The registration of a model counts \<open>n\<close> listings, \<open>ps p\<close> of them by clients of the provider
  \<open>p\<close>; a model without listings has no registration.
\<close>

definition reg_counts :: "model_registration option \<Rightarrow> nat \<Rightarrow> (string \<Rightarrow> nat) \<Rightarrow> bool" where
  "reg_counts ro n ps \<longleftrightarrow>
     (case ro of
        None \<Rightarrow> n = 0
      | Some reg \<Rightarrow>
          0 < n \<and> rn_count reg = int n \<and>
          (\<forall>p. map_of (rn_providers reg) p = (if 0 < ps p then Some (int (ps p)) else None)) \<and>
          (\<forall>p. map_of (rn_by_provider reg) p \<noteq> None \<longleftrightarrow> 0 < ps p) \<and>
          keys_distinct (rn_providers reg) \<and> keys_distinct (rn_quota reg) \<and> keys_distinct (rn_suspended reg))"

lemma reg_counts_None [simp]: "reg_counts None n ps \<longleftrightarrow> n = 0"
  by (simp add: reg_counts_def)

lemma reg_counts_SomeD:
  assumes "reg_counts (Some reg) n ps"
  shows "0 < n" "rn_count reg = int n" "map_of (rn_providers reg) p = (if 0 < ps p then Some (int (ps p)) else None)"
    "map_of (rn_by_provider reg) p \<noteq> None \<longleftrightarrow> 0 < ps p" "keys_distinct (rn_providers reg)"
    "keys_distinct (rn_quota reg)" "keys_distinct (rn_suspended reg)"
  using assms by (simp_all add: reg_counts_def)

text \<open>What the provider counts say, apart from the number of listings.\<close>

definition provider_counts :: "model_registration \<Rightarrow> (string \<Rightarrow> nat) \<Rightarrow> bool" where
  "provider_counts reg ps \<longleftrightarrow>
     (\<forall>p. map_of (rn_providers reg) p = (if 0 < ps p then Some (int (ps p)) else None)) \<and>
     (\<forall>p. map_of (rn_by_provider reg) p \<noteq> None \<longleftrightarrow> 0 < ps p) \<and>
     keys_distinct (rn_providers reg) \<and> keys_distinct (rn_quota reg) \<and> keys_distinct (rn_suspended reg)"

lemma reg_counts_Some: "reg_counts (Some reg) n ps \<longleftrightarrow> 0 < n \<and> rn_count reg = int n \<and> provider_counts reg ps"
  by (simp add: reg_counts_def provider_counts_def)

lemma release_provider_count [simp]: "rn_count (release_provider p k reg) = rn_count reg"
  by (simp add: release_provider_def split: option.splits)

lemma release_provider_counts:
  assumes "provider_counts reg ps"
  shows "provider_counts (release_provider p (int k) reg) (ps(p := ps p - k))"
proof (cases "0 < ps p")
  case False
  then have "map_of (rn_providers reg) p = None" using assms by (simp add: provider_counts_def)
  then have "release_provider p (int k) reg = reg" by (simp add: release_provider_def)
  moreover have "ps(p := ps p - k) = ps" using False by auto
  ultimately show ?thesis using assms by simp
next
  case True
  then have m: "map_of (rn_providers reg) p = Some (int (ps p))" using assms by (simp add: provider_counts_def)
  show ?thesis
  proof (cases "ps p \<le> k")
    case le: True
    then show ?thesis using assms by (simp add: release_provider_def m provider_counts_def)
  next
    case False
    then show ?thesis using assms True by (simp add: release_provider_def m provider_counts_def of_nat_diff)
  qed
qed

lemma forget_client_counts:
  "provider_counts reg ps \<Longrightarrow> provider_counts ((forget_client c reg)\<lparr>rn_count := n, rn_updated := t\<rparr>) ps"
  "provider_counts reg ps \<Longrightarrow> provider_counts (forget_client c reg) ps"
  by (simp_all add: provider_counts_def forget_client_def)

definition release_count :: "string \<Rightarrow> nat \<Rightarrow> (string \<Rightarrow> nat) \<Rightarrow> string \<Rightarrow> nat" where
  "release_count p k ps = (if p \<noteq> [] then ps(p := ps p - k) else ps)"

definition gain_count :: "string \<Rightarrow> nat \<Rightarrow> (string \<Rightarrow> nat) \<Rightarrow> string \<Rightarrow> nat" where
  "gain_count p k ps = (if p \<noteq> [] then ps(p := ps p + k) else ps)"

lemma remove_registration_counts:
  assumes c: "reg_counts ro n ps" and n: "0 < n"
  shows "reg_counts (remove_registration client p now ro) (n - 1) (release_count p 1 ps)"
proof -
  obtain reg where ro: "ro = Some reg" using c n by (cases ro) auto
  then have reg: "rn_count reg = int n" "provider_counts reg ps" using c by (simp_all add: reg_counts_Some)
  let ?r1 = "(forget_client client reg)\<lparr>rn_count := int (n - 1), rn_updated := now\<rparr>"
  let ?r2 = "if p \<noteq> [] then release_provider p 1 ?r1 else ?r1"
  have "provider_counts ?r2 (release_count p 1 ps)"
    using forget_client_counts(1) [OF reg(2)] release_provider_counts [where k = 1 and p = p]
    by (auto simp: release_count_def)
  moreover have "remove_registration client p now ro = (if int (n - 1) \<le> 0 then None else Some ?r2)"
    using n by (simp add: remove_registration_def ro reg(1) Let_def of_nat_diff)
  moreover have "rn_count ?r2 = int (n - 1)" by simp
  ultimately show ?thesis by (simp add: reg_counts_Some)
qed

lemma drop_supply_counts:
  assumes c: "reg_counts ro n ps" and n: "0 < n" and po: "po \<noteq> Some []"
  shows "reg_counts (drop_supply client po now ro) (n - 1) (release_count (case po of None \<Rightarrow> [] | Some p \<Rightarrow> p) 1 ps)"
proof -
  have "drop_supply client po now ro = remove_registration client (case po of None \<Rightarrow> [] | Some p \<Rightarrow> p) now ro"
    using c n po by (auto simp: drop_supply_def remove_registration_def reg_counts_Some Let_def split: option.splits)
  then show ?thesis using remove_registration_counts [OF c n] by simp
qed

lemma release_count_add: "release_count p (Suc 0) (release_count p k ps) = release_count p (Suc k) ps"
  by (auto simp: release_count_def)

lemma remove_registration_pow:
  "reg_counts ro n ps \<Longrightarrow> k \<le> n \<Longrightarrow>
   reg_counts ((remove_registration client p now ^^ k) ro) (n - k) (release_count p k ps)"
proof (induction k)
  case 0
  then show ?case by (simp add: release_count_def)
next
  case (Suc k)
  have "reg_counts (remove_registration client p now ((remove_registration client p now ^^ k) ro)) (n - k - 1)
      (release_count p 1 (release_count p k ps))"
    by (rule remove_registration_counts) (use Suc in simp_all)
  then show ?case by (simp add: release_count_add)
qed

lemma drop_supply_pow:
  "reg_counts ro n ps \<Longrightarrow> k \<le> n \<Longrightarrow> po \<noteq> Some [] \<Longrightarrow>
   reg_counts ((drop_supply client po now ^^ k) ro) (n - k) (release_count (case po of None \<Rightarrow> [] | Some p \<Rightarrow> p) k ps)"
proof (induction k)
  case 0
  then show ?case by (simp add: release_count_def)
next
  case (Suc k)
  have "reg_counts (drop_supply client po now ((drop_supply client po now ^^ k) ro)) (n - k - 1)
      (release_count (case po of None \<Rightarrow> [] | Some p \<Rightarrow> p) 1 (release_count (case po of None \<Rightarrow> [] | Some p \<Rightarrow> p) k ps))"
    by (rule drop_supply_counts) (use Suc in simp_all)
  then show ?case by (simp add: release_count_add)
qed

lemma add_registration_counts:
  assumes c: "reg_counts ro n ps" and z: "n = 0 \<Longrightarrow> ps = (\<lambda>_. 0)"
  shows "reg_counts (add_registration p i now ro) (n + 1) (gain_count p 1 ps)"
proof (cases ro)
  case None
  then have "n = 0" "ps = (\<lambda>_. 0)" using c z by auto
  then show ?thesis
    by (auto simp: add_registration_def None reg_counts_Some provider_counts_def gain_count_def)
next
  case (Some reg)
  then have "rn_count reg = int n" "provider_counts reg ps" using c by (simp_all add: reg_counts_Some)
  then show ?thesis
    by (auto simp: add_registration_def Some reg_counts_Some provider_counts_def gain_count_def Let_def)
qed

lemma gain_count_add: "gain_count p (Suc 0) (gain_count p k ps) = gain_count p (Suc k) ps"
  by (auto simp: gain_count_def)

lemma gain_count_0 [simp]: "gain_count p 0 ps = ps" "release_count p 0 ps = ps"
  by (simp_all add: gain_count_def release_count_def)

lemma add_registration_pow:
  assumes "reg_counts ro n ps" "n = 0 \<Longrightarrow> ps = (\<lambda>_. 0)"
  shows "reg_counts ((add_registration p i now ^^ k) ro) (n + k) (gain_count p k ps)"
proof (induction k)
  case (Suc k)
  have "reg_counts (add_registration p i now ((add_registration p i now ^^ k) ro)) (n + k + 1)
      (gain_count p 1 (gain_count p k ps))"
    by (rule add_registration_counts [OF Suc]) (use assms(2) in simp)
  then show ?case by (simp add: gain_count_add)
qed (simp add: assms)

lemma refresh_binding_counts:
  assumes c: "reg_counts ro n ps" and o: "min new old = k"
    and p: "p \<noteq> [] \<Longrightarrow> ro \<noteq> None \<Longrightarrow> (changed \<and> 0 < k) \<or> 0 < ps p"
  shows "reg_counts (refresh_binding client p changed now new old i ro) n
    (if changed then gain_count p k ps else ps)"
proof (cases ro)
  case None
  then show ?thesis using c by (simp add: refresh_binding_def)
next
  case (Some reg)
  then have "rn_count reg = int n" "provider_counts reg ps" "0 < n" using c by (simp_all add: reg_counts_Some)
  moreover have "(if old < new then old else new) = k" using o by (simp add: min_def split: if_splits)
  moreover have "0 < k \<Longrightarrow> old \<noteq> 0" using o by (simp add: min_def split: if_splits)
  ultimately show ?thesis
    using p Some
    by (auto simp: refresh_binding_def reg_counts_Some provider_counts_def gain_count_def Let_def forget_client_def)
qed

section \<open>The counts of the whole registry\<close>

definition listed :: "model_registry \<Rightarrow> string \<Rightarrow> nat" where
  "listed r m = sum_list (map (\<lambda>(c, ms). count_list ms m) (rg_client_models r))"

definition supplied :: "model_registry \<Rightarrow> string \<Rightarrow> string \<Rightarrow> nat" where
  "supplied r m p =
     sum_list (map (\<lambda>(c, ms). if map_of (rg_client_providers r) c = Some p then count_list ms m else 0)
       (rg_client_models r))"

definition counts_ok :: "model_registry \<Rightarrow> bool" where
  "counts_ok r \<longleftrightarrow> (\<forall>m. reg_counts (registration_at r m) (listed r m) (supplied r m))"

text \<open>What a client lists, and the model records kept for it.\<close>

fun client_entry_ok :: "string list option \<Rightarrow> (string \<times> model_info) list option \<Rightarrow> bool" where
  "client_entry_ok None infos \<longleftrightarrow> infos = None"
| "client_entry_ok (Some ms) None \<longleftrightarrow> False"
| "client_entry_ok (Some ms) (Some is) \<longleftrightarrow>
     ms \<noteq> [] \<and> [] \<notin> set ms \<and> (\<forall>m. map_of is m \<noteq> None \<longleftrightarrow> m \<in> set ms) \<and> (\<forall>m i. map_of is m = Some i \<longrightarrow> mi_id i = m)"

definition clients_ok :: "model_registry \<Rightarrow> bool" where
  "clients_ok r \<longleftrightarrow>
     keys_distinct (rg_models r) \<and> keys_distinct (rg_client_models r) \<and>
     keys_distinct (rg_client_infos r) \<and> keys_distinct (rg_client_providers r) \<and>
     (\<forall>c p. map_of (rg_client_providers r) c = Some p \<longrightarrow> p \<noteq> [] \<and> map_of (rg_client_models r) c \<noteq> None) \<and>
     (\<forall>c. client_entry_ok (map_of (rg_client_models r) c) (map_of (rg_client_infos r) c))"

lemma delete_absent: "map_of xs k = None \<Longrightarrow> AList.delete k xs = xs"
  by (simp add: delete_idem map_of_eq_None_iff)

text \<open>A sum over an association list splits off the entry of a key.\<close>

lemma sum_list_split:
  fixes g :: "'k \<times> 'v \<Rightarrow> nat"
  assumes "keys_distinct xs"
  shows "sum_list (map g xs) =
    (case map_of xs k of None \<Rightarrow> 0 | Some v \<Rightarrow> g (k, v)) + sum_list (map g (AList.delete k xs))"
  using assms
proof (induction xs)
  case (Cons x xs)
  obtain a v where x: "x = (a, v)" by (cases x)
  show ?case
  proof (cases "a = k")
    case True
    then have "map_of xs k = None" using Cons.prems by (auto simp: x map_of_eq_None_iff)
    then have "AList.delete k xs = xs" by (rule delete_absent)
    then show ?thesis using True by (simp add: x)
  next
    case False
    then show ?thesis using Cons by (simp add: x)
  qed
qed simp

lemma delete_delete_same: "AList.delete k (AList.delete k xs) = AList.delete k xs"
  by (induction xs) auto

lemma delete_update_same: "AList.delete k (AList.update k v xs) = AList.delete k xs"
  by (induction xs) auto

definition rest_listed :: "model_registry \<Rightarrow> string \<Rightarrow> string \<Rightarrow> nat" where
  "rest_listed r c m = sum_list (map (\<lambda>(d, ms). count_list ms m) (AList.delete c (rg_client_models r)))"

definition rest_supplied :: "model_registry \<Rightarrow> string \<Rightarrow> string \<Rightarrow> string \<Rightarrow> nat" where
  "rest_supplied r c m p =
     sum_list (map (\<lambda>(d, ms). if map_of (rg_client_providers r) d = Some p then count_list ms m else 0)
       (AList.delete c (rg_client_models r)))"

definition client_listing :: "model_registry \<Rightarrow> string \<Rightarrow> string list" where
  "client_listing r c = (case map_of (rg_client_models r) c of None \<Rightarrow> [] | Some ms \<Rightarrow> ms)"

definition client_provider :: "model_registry \<Rightarrow> string \<Rightarrow> string" where
  "client_provider r c = (case map_of (rg_client_providers r) c of None \<Rightarrow> [] | Some p \<Rightarrow> p)"

lemma listed_split:
  assumes "keys_distinct (rg_client_models r)"
  shows "listed r m = count_list (client_listing r c) m + rest_listed r c m"
  using sum_list_split [OF assms, of "\<lambda>(d, ms). count_list ms m" c]
  by (simp add: listed_def rest_listed_def client_listing_def split: option.splits)

lemma supplied_split:
  assumes "keys_distinct (rg_client_models r)" "map_of (rg_client_providers r) c \<noteq> Some []"
  shows "supplied r m = gain_count (client_provider r c) (count_list (client_listing r c) m) (rest_supplied r c m)"
proof (rule ext)
  fix p
  have "supplied r m p =
      (if map_of (rg_client_providers r) c = Some p then count_list (client_listing r c) m else 0) + rest_supplied r c m p"
    using sum_list_split [OF assms(1), of "\<lambda>(d, ms). if map_of (rg_client_providers r) d = Some p then count_list ms m else 0" c]
    by (simp add: supplied_def rest_supplied_def client_listing_def split: option.splits)
  then show "supplied r m p =
      gain_count (client_provider r c) (count_list (client_listing r c) m) (rest_supplied r c m) p"
    using assms(2) by (auto simp: gain_count_def client_provider_def split: option.splits)
qed

lemma rest_cong:
  assumes "AList.delete c (rg_client_models r') = AList.delete c (rg_client_models r)"
    and "\<And>d. d \<noteq> c \<Longrightarrow> map_of (rg_client_providers r') d = map_of (rg_client_providers r) d"
  shows "rest_listed r' c = rest_listed r c" "rest_supplied r' c = rest_supplied r c"
proof -
  show "rest_listed r' c = rest_listed r c" by (rule ext) (simp add: rest_listed_def assms(1))
  have "fst x \<noteq> c" if "x \<in> set (AList.delete c (rg_client_models r))" for x
    using that by (auto simp: AList.delete_eq)
  then show "rest_supplied r' c = rest_supplied r c"
    unfolding rest_supplied_def assms(1)
    by (intro ext arg_cong [of _ _ sum_list] map_cong refl) (auto simp: assms(2))
qed

lemma rest_supplied_le: "rest_supplied r c m p \<le> rest_listed r c m"
  unfolding rest_supplied_def rest_listed_def by (rule sum_list_mono) auto

lemma rest_zero: "rest_listed r c m = 0 \<Longrightarrow> rest_supplied r c m = (\<lambda>_. 0)"
  using rest_supplied_le [of r c m] by (auto simp: fun_eq_iff)

lemma release_gain: "release_count p k (gain_count p k ps) = ps"
  by (auto simp: release_count_def gain_count_def)

lemma clients_okD:
  assumes "clients_ok r"
  shows "keys_distinct (rg_models r)" "keys_distinct (rg_client_models r)" "keys_distinct (rg_client_infos r)"
    "keys_distinct (rg_client_providers r)" "map_of (rg_client_providers r) c \<noteq> Some []"
    "map_of (rg_client_models r) c = None \<Longrightarrow> map_of (rg_client_providers r) c = None"
    "map_of (rg_client_models r) c = None \<Longrightarrow> map_of (rg_client_infos r) c = None"
proof -
  note ok = assms [unfolded clients_ok_def]
  show "keys_distinct (rg_models r)" "keys_distinct (rg_client_models r)" "keys_distinct (rg_client_infos r)"
    "keys_distinct (rg_client_providers r)" using ok by simp_all
  have p: "map_of (rg_client_providers r) c = Some p \<Longrightarrow> p \<noteq> [] \<and> map_of (rg_client_models r) c \<noteq> None" for p
    using ok by blast
  show "map_of (rg_client_providers r) c \<noteq> Some []" using p by blast
  show "map_of (rg_client_providers r) c = None" if "map_of (rg_client_models r) c = None"
    using p that by (cases "map_of (rg_client_providers r) c") auto
  have "client_entry_ok (map_of (rg_client_models r) c) (map_of (rg_client_infos r) c)" using ok by blast
  then show "map_of (rg_client_infos r) c = None" if "map_of (rg_client_models r) c = None"
    unfolding that by simp
qed

section \<open>Unregistering keeps the counts exact\<close>

definition registry_ok :: "model_registry \<Rightarrow> bool" where
  "registry_ok r \<longleftrightarrow> clients_ok r \<and> counts_ok r"

lemma fold_update_acts: "acts (\<lambda>k. f k ^^ count_list ms k) r (fold (\<lambda>m. update_model m (f m)) ms r)"
proof -
  have "acts (\<lambda>k. fold (\<lambda>m. at_model m (f m) k) ms) r (fold (\<lambda>m. update_model m (f m)) ms r)"
    by (rule acts_fold) simp
  then show ?thesis by (simp only: fold_at_model_count)
qed

lemma actsD:
  assumes "acts F r r'"
  shows "registration_at r' k = F k (registration_at r k)"
    and "rg_client_models r' = rg_client_models r" "rg_client_infos r' = rg_client_infos r"
    and "rg_client_providers r' = rg_client_providers r" "rg_cache r' = rg_cache r" "rg_hook r' = rg_hook r"
    and "keys_distinct (rg_models r) \<Longrightarrow> keys_distinct (rg_models r')"
  using assms by (simp_all add: acts_def)

lemma unregister_internal_ok:
  fixes c :: string and now :: gotime
  assumes ok: "registry_ok r"
  defines "r' \<equiv> fst (unregister_client_internal now c r)"
  shows "registry_ok r'"
    and "map_of (rg_client_models r') = (map_of (rg_client_models r))(c := None)"
    and "map_of (rg_client_providers r') = (map_of (rg_client_providers r))(c := None)"
    and "rest_listed r' c = rest_listed r c" "rest_supplied r' c = rest_supplied r c"
proof -
  have cl: "clients_ok r" and cn: "counts_ok r" using ok by (simp_all add: registry_ok_def)
  note d = clients_okD [OF cl]
  let ?po = "map_of (rg_client_providers r) c" and ?ms = "client_listing r c"
  define r1 where "r1 = fold (\<lambda>m. update_model m (drop_supply c ?po now)) ?ms r"
  have a: "acts (\<lambda>k. drop_supply c ?po now ^^ count_list ?ms k) r r1" unfolding r1_def by (rule fold_update_acts)
  have r': "r' = r1\<lparr>rg_client_models := AList.delete c (rg_client_models r),
      rg_client_infos := AList.delete c (rg_client_infos r),
      rg_client_providers := AList.delete c (rg_client_providers r)\<rparr>"
  proof (cases "map_of (rg_client_models r) c")
    case None
    then have "AList.delete c (rg_client_models r) = rg_client_models r" "AList.delete c (rg_client_infos r) = rg_client_infos r"
      using d(7) [OF None] by (simp_all add: delete_absent)
    then show ?thesis by (simp add: r'_def unregister_client_internal_def None r1_def client_listing_def)
  next
    case (Some ms)
    then show ?thesis using actsD(2-4) [OF a]
      by (simp add: r'_def unregister_client_internal_def Let_def r1_def client_listing_def)
  qed
  show m: "map_of (rg_client_models r') = (map_of (rg_client_models r))(c := None)"
    and p: "map_of (rg_client_providers r') = (map_of (rg_client_providers r))(c := None)"
    by (simp_all add: r')
  have i: "map_of (rg_client_infos r') = (map_of (rg_client_infos r))(c := None)" by (simp add: r')
  have "clients_ok r'"
    using cl actsD(7) [OF a] unfolding clients_ok_def m p i
    by (auto simp: r' simp del: map_of_eq_Some_iff)
  show rest: "rest_listed r' c = rest_listed r c" "rest_supplied r' c = rest_supplied r c"
    by (rule rest_cong; simp add: r' delete_delete_same)+
  have "counts_ok r'"
    unfolding counts_ok_def
  proof
    fix k
    have "keys_distinct (rg_client_models r')" "map_of (rg_client_providers r') c \<noteq> Some []"
      using d(2) by (simp_all add: r')
    from listed_split [OF this(1), of k c] supplied_split [OF this, of k]
    have new: "listed r' k = rest_listed r c k" "supplied r' k = rest_supplied r c k"
      by (simp_all add: rest client_listing_def m p client_provider_def)
    have "reg_counts (registration_at r k) (count_list ?ms k + rest_listed r c k)
        (gain_count (client_provider r c) (count_list ?ms k) (rest_supplied r c k))"
      using cn listed_split [OF d(2)] supplied_split [OF d(2,5)] by (simp add: counts_ok_def)
    from drop_supply_pow [OF this _ d(5) [of c], where k = "count_list ?ms k" and client = c and now = now]
    show "reg_counts (registration_at r' k) (listed r' k) (supplied r' k)"
      unfolding new using actsD(1) [OF a, of k]
      by (simp add: r' registration_at_def release_gain flip: client_provider_def)
  qed
  then show "registry_ok r'" using \<open>clients_ok r'\<close> by (simp add: registry_ok_def)
qed

section \<open>Registering keeps the counts exact\<close>

definition listed_ids :: "model_info option list \<Rightarrow> string list" where
  "listed_ids models =
     concat (map (\<lambda>mo. case mo of None \<Rightarrow> [] | Some i \<Rightarrow> if mi_id i = [] then [] else [mi_id i]) models)"

definition scan_ok :: "string list \<Rightarrow> (string \<times> model_info) list \<Rightarrow> bool" where
  "scan_ok raw new \<longleftrightarrow>
     keys_distinct new \<and> set raw = fst ` set new \<and> (\<forall>x \<in> set new. mi_id (snd x) = fst x)"

lemma scan_ok_snoc:
  assumes "scan_ok raw new"
  shows "scan_ok (raw @ [mi_id i]) (case map_of new (mi_id i) of None \<Rightarrow> new @ [(mi_id i, i)] | Some _ \<Rightarrow> new)"
proof (cases "map_of new (mi_id i)")
  case None
  then have "mi_id i \<notin> fst ` set new" by (simp add: map_of_eq_None_iff)
  then show ?thesis unfolding None option.case using assms by (auto simp: scan_ok_def)
next
  case (Some j)
  then have "mi_id i \<in> fst ` set new" by (metis map_of_eq_None_iff option.distinct(1))
  then show ?thesis unfolding Some option.case using assms by (auto simp: scan_ok_def)
qed

lemma scan_models_spec:
  "scan_ok raw0 new0 \<Longrightarrow> scan_models models raw0 new0 = (raw, new) \<Longrightarrow>
   scan_ok raw new \<and> raw = raw0 @ listed_ids models"
proof (induction models raw0 new0 rule: scan_models.induct)
  case (3 i ms raw0 new0)
  show ?case
  proof (cases "mi_id i = []")
    case True
    then show ?thesis using 3 by (auto simp: listed_ids_def)
  next
    case False
    then show ?thesis using 3 scan_ok_snoc [OF 3(3), of i] by (auto simp: listed_ids_def)
  qed
qed (auto simp: listed_ids_def)

lemma scan_models_ok:
  assumes "scan_models models [] [] = (raw, new)"
  shows "raw = listed_ids models" "keys_distinct new" "set (map fst new) = set raw"
    "map_of new m = Some i \<Longrightarrow> mi_id i = m" "map_of new m \<noteq> None \<longleftrightarrow> m \<in> set raw" "new = [] \<longleftrightarrow> raw = []"
proof -
  have "scan_ok [] []" by (simp add: scan_ok_def)
  from scan_models_spec [OF this assms] have s: "scan_ok raw new" and r: "raw = listed_ids models" by auto
  show "raw = listed_ids models" by (rule r)
  show "keys_distinct new" "set (map fst new) = set raw" using s by (simp_all add: scan_ok_def)
  then show "map_of new m \<noteq> None \<longleftrightarrow> m \<in> set raw" by (metis list.set_map map_of_eq_None_iff)
  show "map_of new m = Some i \<Longrightarrow> mi_id i = m" using s map_of_SomeD by (fastforce simp: scan_ok_def)
  show "new = [] \<longleftrightarrow> raw = []" using s unfolding scan_ok_def by (metis image_is_empty set_empty)
qed

lemma listed_ids_nonempty [simp]: "[] \<notin> set (listed_ids models)"
  by (auto simp: listed_ids_def split: option.splits)

text \<open>The loops of the reconciliation, model by model.\<close>

lemma fold_pairs_acts:
  assumes d: "keys_distinct new" and g: "\<And>m i r. (m, i) \<in> set new \<Longrightarrow> acts (at_model m (f m i)) r (g m i r)"
  shows "acts (\<lambda>k. case map_of new k of None \<Rightarrow> id | Some i \<Rightarrow> f k i) r (fold (\<lambda>(m, i). g m i) new r)"
proof -
  have a: "acts (\<lambda>k. fold (\<lambda>x. at_model (fst x) (f (fst x) (snd x)) k) new) r (fold (\<lambda>(m, i). g m i) new r)"
    by (rule acts_fold) (use g in \<open>auto simp: case_prod_unfold\<close>)
  have "fold (\<lambda>x. at_model (fst x) (f (fst x) (snd x)) k) new = (case map_of new k of None \<Rightarrow> id | Some i \<Rightarrow> f k i)" for k
  proof (cases "map_of new k")
    case None
    then show ?thesis by (simp, intro fold_at_model_id) (auto simp: map_of_eq_None_iff)
  next
    case (Some i)
    then have "(k, i) \<in> set new" by (rule map_of_SomeD)
    from fold_at_model_once [where sel = fst and k = k and f = "\<lambda>x. f (fst x) (snd x)", OF _ d this]
    show ?thesis unfolding Some option.case by simp
  qed
  then show ?thesis using a by simp
qed

lemma fold_ids_acts:
  assumes d: "distinct ms" and g: "\<And>m r. m \<in> set ms \<Longrightarrow> acts (at_model m (f m)) r (g m r)"
  shows "acts (\<lambda>k. if k \<in> set ms then f k else id) r (fold g ms r)"
proof -
  have a: "acts (\<lambda>k. fold (\<lambda>m. at_model m (f m) k) ms) r (fold g ms r)"
    by (rule acts_fold) (rule g)
  have "fold (\<lambda>m. at_model m (f m) k) ms = (if k \<in> set ms then f k else id)" for k
    using fold_at_model_once [where sel = id and xs = ms and k = k] fold_at_model_id [where sel = id and xs = ms and k = k] d
    by auto
  then show ?thesis using a by simp
qed

lemma remove_pow_acts:
  "acts (at_model m (remove_registration c p now ^^ n)) r ((remove_model_registration c m p now ^^ n) r)"
proof -
  have "acts (\<lambda>k. at_model m (remove_registration c p now) k ^^ n) r ((remove_model_registration c m p now ^^ n) r)"
    by (rule acts_funpow) (simp add: remove_model_registration_def)
  then show ?thesis by (simp only: at_model_funpow)
qed

lemma add_pow_acts:
  assumes "m \<noteq> []"
  shows "acts (at_model m (add_registration p i now ^^ n)) r ((add_model_registration m p i now ^^ n) r)"
proof -
  have "acts (\<lambda>k. at_model m (add_registration p i now) k ^^ n) r ((add_model_registration m p i now ^^ n) r)"
    by (rule acts_funpow) (simp add: add_model_registration_def assms)
  then show ?thesis by (simp only: at_model_funpow)
qed

lemma at_model_skip: "at_model m id = (\<lambda>_. id)"
  by (simp add: at_model_def fun_eq_iff)

text \<open>What the reconciliation does to one model: \<open>o\<close> and \<open>n\<close> are its old and new numbers of listings.\<close>

definition reconciled ::
  "gotime \<Rightarrow> string \<Rightarrow> string \<Rightarrow> string \<Rightarrow> nat \<Rightarrow> nat \<Rightarrow> model_info option \<Rightarrow>
   model_registration option \<Rightarrow> model_registration option" where
  "reconciled now c oldp p ocount ncount io ro =
     (case io of
        None \<Rightarrow> (remove_registration c oldp now ^^ ocount) ro
      | Some i \<Rightarrow>
          refresh_binding c p (oldp \<noteq> p) now ncount ocount i
            ((add_registration p i now ^^ (ncount - ocount))
              ((remove_registration c oldp now ^^ (ocount - ncount))
                (if oldp \<noteq> p \<and> oldp \<noteq> [] then release_overlap oldp ncount ocount ro else ro))))"

lemma reconcile_acts:
  assumes d: "keys_distinct new" and raw: "set (map fst new) = set raw" "[] \<notin> set raw"
  shows "acts (\<lambda>k. reconciled now c oldp p (count_list old k) (count_list raw k) (map_of new k)) r
    (reconcile_models now c oldp p old raw new r)"
proof -
  let ?o = "count_list old" and ?n = "count_list raw"
  have n0: "?n m = 0 \<longleftrightarrow> map_of new m = None" for m
    using raw(1) by (metis count_list_0_iff list.set_map map_of_eq_None_iff)
  define F1 where "F1 = (\<lambda>k. if oldp \<noteq> p \<and> oldp \<noteq> []
      then (case map_of new k of None \<Rightarrow> id | Some _ \<Rightarrow> release_overlap oldp (?n k) (?o k)) else id)"
  define r1 where "r1 = (if oldp \<noteq> p \<and> oldp \<noteq> []
      then fold (\<lambda>(m, _). update_model m (release_overlap oldp (?n m) (?o m))) new r else r)"
  have a1: "acts F1 r r1"
    using fold_pairs_acts [OF d, of "\<lambda>m _. release_overlap oldp (?n m) (?o m)"
        "\<lambda>m _. update_model m (release_overlap oldp (?n m) (?o m))"]
    by (simp add: F1_def r1_def)
  define F2 where "F2 = (\<lambda>k. if k \<in> set (filter (\<lambda>m. ?n m = 0) (remdups old))
      then remove_registration c oldp now ^^ ?o k else id)"
  define r2 where "r2 = fold (\<lambda>m. remove_model_registration c m oldp now ^^ ?o m)
      (filter (\<lambda>m. ?n m = 0) (remdups old)) r1"
  have a2: "acts F2 r1 r2"
    unfolding F2_def r2_def by (rule fold_ids_acts) (simp_all add: remove_pow_acts)
  define f3 where "f3 = (\<lambda>m. if ?n m = 0 \<or> ?o m \<le> ?n m then id else remove_registration c oldp now ^^ (?o m - ?n m))"
  define F3 where "F3 = (\<lambda>k. if k \<in> set (remdups old) then f3 k else id)"
  define r3 where "r3 = fold (\<lambda>m. if ?n m = 0 \<or> ?o m \<le> ?n m then id
      else remove_model_registration c m oldp now ^^ (?o m - ?n m)) (remdups old) r2"
  have a3: "acts F3 r2 r3"
    unfolding F3_def r3_def by (rule fold_ids_acts) (simp_all add: remove_pow_acts f3_def at_model_skip)
  define f4 where "f4 = (\<lambda>m i. if ?n m \<le> ?o m then id else add_registration p i now ^^ (?n m - ?o m))"
  define F4 where "F4 = (\<lambda>k. case map_of new k of None \<Rightarrow> id | Some i \<Rightarrow> f4 k i)"
  define r4 where "r4 = fold (\<lambda>(m, i). if ?n m \<le> ?o m then id
      else add_model_registration m p i now ^^ (?n m - ?o m)) new r3"
  have ne: "(m, i) \<in> set new \<Longrightarrow> m \<noteq> []" for m i using raw by force
  have a4: "acts F4 r3 r4"
    unfolding F4_def r4_def
    by (rule fold_pairs_acts [OF d]) (auto simp: f4_def at_model_skip dest: ne intro: add_pow_acts)
  define F5 where "F5 = (\<lambda>k. case map_of new k of None \<Rightarrow> id
      | Some i \<Rightarrow> refresh_binding c p (oldp \<noteq> p) now (?n k) (?o k) i)"
  have a5: "acts F5 r4 (reconcile_models now c oldp p old raw new r)"
    unfolding F5_def reconcile_models_def Let_def
    unfolding r1_def [symmetric] r2_def [symmetric] r3_def [symmetric] r4_def [symmetric]
    by (rule fold_pairs_acts [OF d]) simp
  have "reconciled now c oldp p (?o k) (?n k) (map_of new k) = F5 k \<circ> (F4 k \<circ> (F3 k \<circ> (F2 k \<circ> F1 k)))" for k
  proof (cases "map_of new k")
    case None
    then have "?n k = 0" using n0 by simp
    moreover have "k \<notin> set old \<Longrightarrow> ?o k = 0" by (simp add: count_list_0_iff)
    ultimately show ?thesis
      by (auto simp: reconciled_def None F1_def F2_def F3_def f3_def F4_def F5_def fun_eq_iff)
  next
    case (Some i)
    then have "?n k \<noteq> 0" using n0 by simp
    moreover have "k \<notin> set old \<Longrightarrow> ?o k = 0" by (simp add: count_list_0_iff)
    ultimately show ?thesis
      by (auto simp: reconciled_def Some F1_def F2_def F3_def f3_def F4_def f4_def F5_def fun_eq_iff)
  qed
  moreover have "acts (\<lambda>k. F5 k \<circ> (F4 k \<circ> (F3 k \<circ> (F2 k \<circ> F1 k)))) r (reconcile_models now c oldp p old raw new r)"
    by (intro acts_comp [OF acts_comp [OF acts_comp [OF acts_comp [OF a1 a2] a3] a4] a5])
  ultimately show ?thesis by simp
qed

lemma reconciled_counts:
  assumes c: "reg_counts ro (ocount + rest) (gain_count oldp ocount ps)"
    and ps: "rest = 0 \<Longrightarrow> ps = (\<lambda>_. 0)" and io: "ncount = 0 \<longleftrightarrow> io = None"
  shows "reg_counts (reconciled now client oldp p ocount ncount io ro) (ncount + rest) (gain_count p ncount ps)"
proof (cases io)
  case None
  then show ?thesis
    using remove_registration_pow [OF c, of ocount client oldp now] io by (simp add: reconciled_def release_gain)
next
  case (Some i)
  then have n: "0 < ncount" using io by simp
  let ?k = "min ncount ocount" and ?ch = "oldp \<noteq> p"
  define r1 where "r1 = (if ?ch \<and> oldp \<noteq> [] then release_overlap oldp ncount ocount ro else ro)"
  define ps1 where "ps1 = (if ?ch then release_count oldp ?k (gain_count oldp ocount ps) else gain_count oldp ocount ps)"
  have c1: "reg_counts r1 (ocount + rest) ps1"
  proof (cases "?ch \<and> oldp \<noteq> [] \<and> ocount \<noteq> 0 \<and> ro \<noteq> None")
    case True
    then obtain reg where ro: "ro = Some reg" by blast
    have "provider_counts (release_provider oldp (int ?k) reg) ((gain_count oldp ocount ps)(oldp := gain_count oldp ocount ps oldp - ?k))"
      by (rule release_provider_counts) (use c ro in \<open>simp add: reg_counts_Some\<close>)
    then show ?thesis
      using c True n by (simp add: r1_def ps1_def ro release_overlap_def reg_counts_Some release_count_def)
  next
    case False
    then show ?thesis
      using c n by (auto simp: r1_def ps1_def release_overlap_def release_count_def split: if_splits)
  qed
  have k: "ocount - ncount \<le> ocount + rest" by simp
  note c2 = remove_registration_pow [OF c1 k, of client oldp now]
  define ps2 where "ps2 = release_count oldp (ocount - ncount) ps1"
  have z: "ocount + rest - (ocount - ncount) = 0 \<Longrightarrow> ps2 = (\<lambda>_. 0)"
  proof -
    assume "ocount + rest - (ocount - ncount) = 0"
    then have "ocount = 0" "rest = 0" using n by linarith+
    then show ?thesis using ps by (auto simp: ps2_def ps1_def release_count_def gain_count_def)
  qed
  note c3 = add_registration_pow [OF c2 [folded ps2_def] z, where p = p and i = i and now = now and k = "ncount - ocount"]
  have e: "ocount + rest - (ocount - ncount) + (ncount - ocount) = ncount + rest" by simp
  note c4 = refresh_binding_counts [where new = ncount and old = ocount and k = "?k" and p = p and changed = "?ch"
      and client = client and now = now and i = i, OF c3 [unfolded e] refl]
  have "reg_counts (reconciled now client oldp p ocount ncount io ro) (ncount + rest)
      (if ?ch then gain_count p ?k (gain_count p (ncount - ocount) ps2) else gain_count p (ncount - ocount) ps2)"
    unfolding reconciled_def Some option.case r1_def [symmetric]
    by (rule c4) (use n in \<open>auto simp: ps2_def ps1_def release_count_def gain_count_def\<close>)
  moreover have "(if ?ch then gain_count p ?k (gain_count p (ncount - ocount) ps2) else gain_count p (ncount - ocount) ps2) =
      gain_count p ncount ps"
    by (auto simp: ps2_def ps1_def release_count_def gain_count_def fun_eq_iff min_def)
  ultimately show ?thesis by simp
qed

text \<open>A client's entries set to a listing, its model records and its provider.\<close>

definition set_client ::
  "string \<Rightarrow> string \<Rightarrow> string list \<Rightarrow> (string \<times> model_info) list \<Rightarrow> model_registry \<Rightarrow> model_registry" where
  "set_client c p raw new r =
     invalidate_cache (set_client_provider c p
       (r\<lparr>rg_client_models := AList.update c raw (rg_client_models r),
          rg_client_infos := AList.update c new (rg_client_infos r)\<rparr>))"

lemma set_client_fields [simp]:
  "registration_at (set_client c p raw new r) m = registration_at r m"
  "rg_models (set_client c p raw new r) = rg_models r"
  "rg_client_models (set_client c p raw new r) = AList.update c raw (rg_client_models r)"
  "rg_client_infos (set_client c p raw new r) = AList.update c new (rg_client_infos r)"
  "map_of (rg_client_providers (set_client c p raw new r)) =
     (map_of (rg_client_providers r))(c := if p = [] then None else Some p)"
  "keys_distinct (rg_client_providers r) \<Longrightarrow> keys_distinct (rg_client_providers (set_client c p raw new r))"
  by (simp_all add: set_client_def set_client_provider_def invalidate_cache_def registration_at_def)

text \<open>The registrations after a client has been given a new listing, whichever path was taken.\<close>

lemma set_client_ok:
  assumes ok: "registry_ok r" and raw: "raw \<noteq> []" "[] \<notin> set raw"
    and new: "set (map fst new) = set raw" "\<And>m i. map_of new m = Some i \<Longrightarrow> mi_id i = m"
    and a: "acts F r r1"
    and F: "\<And>k. reg_counts (registration_at r k)
        (count_list (client_listing r c) k + rest_listed r c k)
        (gain_count (client_provider r c) (count_list (client_listing r c) k) (rest_supplied r c k)) \<Longrightarrow>
      reg_counts (F k (registration_at r k)) (count_list raw k + rest_listed r c k)
        (gain_count p (count_list raw k) (rest_supplied r c k))"
  shows "registry_ok (set_client c p raw new r1)"
proof -
  have cl: "clients_ok r" and cn: "counts_ok r" using ok by (simp_all add: registry_ok_def)
  note d = clients_okD [OF cl]
  let ?r' = "set_client c p raw new r1"
  note f = actsD(2-4) [OF a]
  have kd: "keys_distinct (rg_client_models ?r')" using d(2) by (simp add: f)
  have mn: "map_of new m \<noteq> None \<longleftrightarrow> m \<in> set raw" for m
    using new(1) by (metis list.set_map map_of_eq_None_iff)
  have "clients_ok ?r'"
    unfolding clients_ok_def
  proof (intro conjI allI impI)
    show "keys_distinct (rg_models ?r')" using actsD(7) [OF a] d(1) by simp
    show "keys_distinct (rg_client_models ?r')" by (rule kd)
    show "keys_distinct (rg_client_infos ?r')" using d(3) by (simp add: f)
    show "keys_distinct (rg_client_providers ?r')" using d(4) by (simp add: f)
    fix e q
    assume q: "map_of (rg_client_providers ?r') e = Some q"
    show "q \<noteq> []" using q d(5) [of e] by (auto simp: f simp del: map_of_eq_Some_iff split: if_splits)
    show "map_of (rg_client_models ?r') e \<noteq> None"
      using q d(6) [of e] by (auto simp: f simp del: map_of_eq_Some_iff split: if_splits)
  next
    fix e
    show "client_entry_ok (map_of (rg_client_models ?r') e) (map_of (rg_client_infos ?r') e)"
      using cl raw new(2) mn by (simp add: f clients_ok_def del: map_of_eq_Some_iff)
  qed
  moreover have "counts_ok ?r'"
    unfolding counts_ok_def
  proof
    fix k
    have rest: "rest_listed ?r' c = rest_listed r c" "rest_supplied ?r' c = rest_supplied r c"
      by (rule rest_cong; simp add: f delete_update_same)+
    have p: "map_of (rg_client_providers ?r') c \<noteq> Some []" by (simp add: f)
    have cs: "client_listing ?r' c = raw" "client_provider ?r' c = p"
      by (simp_all add: client_listing_def client_provider_def)
    have "listed ?r' k = count_list raw k + rest_listed r c k"
      using listed_split [OF kd, of k c] by (simp only: rest cs)
    moreover have "supplied ?r' k = gain_count p (count_list raw k) (rest_supplied r c k)"
      using supplied_split [OF kd p, of k] by (simp only: rest cs)
    moreover have "reg_counts (registration_at r k)
        (count_list (client_listing r c) k + rest_listed r c k)
        (gain_count (client_provider r c) (count_list (client_listing r c) k) (rest_supplied r c k))"
      using cn [unfolded counts_ok_def, THEN spec, of k]
      unfolding listed_split [OF d(2), of k c] supplied_split [OF d(2) d(5) [of c], of k] .
    ultimately show "reg_counts (registration_at ?r' k) (listed ?r' k) (supplied ?r' k)"
      using F actsD(1) [OF a, of k] by simp
  qed
  ultimately show ?thesis by (simp add: registry_ok_def)
qed

text \<open>What the paths of \<open>RegisterClient\<close> do to each registration.\<close>

definition registered ::
  "gotime \<Rightarrow> string \<Rightarrow> string \<Rightarrow> string list \<Rightarrow> (string \<times> model_info) list \<Rightarrow> model_registry \<Rightarrow> string \<Rightarrow>
   model_registration option \<Rightarrow> model_registration option" where
  "registered now c p raw new r k =
     (case map_of (rg_client_models r) c of
        None \<Rightarrow> add_registration p (the (map_of new k)) now ^^ count_list raw k
      | Some old \<Rightarrow> reconciled now c (client_provider r c) p (count_list old k) (count_list raw k) (map_of new k))"

lemma register_client_eq:
  assumes sc: "scan_models models [] [] = (raw, new)" and ne: "new \<noteq> []"
  shows "\<exists>r1. acts (registered now c (to_lower cp) raw new r) r r1 \<and>
    fst (register_client now c cp models r) = set_client c (to_lower cp) raw new r1"
proof -
  note s = scan_models_ok [OF sc]
  let ?p = "to_lower cp"
  have raw: "[] \<notin> set raw" using s(1) by simp
  define r1 where "r1 = (case map_of (rg_client_models r) c of
      None \<Rightarrow> fold (\<lambda>m. add_model_registration m ?p (the (map_of new m)) now) raw r
    | Some old \<Rightarrow> reconcile_models now c (client_provider r c) ?p old raw new r)"
  have "acts (registered now c ?p raw new r) r r1"
  proof (cases "map_of (rg_client_models r) c")
    case None
    have "fold (\<lambda>m. add_model_registration m ?p (the (map_of new m)) now) ms =
        fold (\<lambda>m. update_model m (add_registration ?p (the (map_of new m)) now)) ms" if "[] \<notin> set ms" for ms
      using that by (induction ms) (auto simp: add_model_registration_def fun_eq_iff)
    then have "r1 = fold (\<lambda>m. update_model m (add_registration ?p (the (map_of new m)) now)) raw r"
      using raw by (simp add: r1_def None)
    then show ?thesis
      using fold_update_acts [where f = "\<lambda>m. add_registration ?p (the (map_of new m)) now" and ms = raw and r = r]
      by (simp add: registered_def [abs_def] None)
  next
    case (Some old)
    then show ?thesis
      using reconcile_acts [OF s(2,3) raw, of now c "client_provider r c" ?p old r]
      by (simp add: registered_def [abs_def] r1_def)
  qed
  moreover have "fst (register_client now c cp models r) = set_client c ?p raw new r1"
    using ne by (simp add: register_client_def sc Let_def set_client_def r1_def client_provider_def cong: option.case_cong)
  ultimately show ?thesis by blast
qed

lemma registered_counts:
  assumes sc: "scan_models models [] [] = (raw, new)" and cl: "clients_ok r"
    and c: "reg_counts ro (count_list (client_listing r c) k + rest_listed r c k)
        (gain_count (client_provider r c) (count_list (client_listing r c) k) (rest_supplied r c k))"
  shows "reg_counts (registered now c p raw new r k ro) (count_list raw k + rest_listed r c k)
        (gain_count p (count_list raw k) (rest_supplied r c k))"
proof (cases "map_of (rg_client_models r) c")
  case None
  then have e: "client_listing r c = []" by (simp add: client_listing_def)
  have c0: "reg_counts ro (rest_listed r c k) (rest_supplied r c k)" using c by (simp add: e)
  show ?thesis
    using add_registration_pow [OF c0 rest_zero, where p = p and i = "the (map_of new k)" and now = now and k = "count_list raw k"]
    by (simp add: registered_def None add.commute)
next
  case (Some old)
  then have e: "client_listing r c = old" by (simp add: client_listing_def)
  have n: "count_list raw k = 0 \<longleftrightarrow> map_of new k = None"
    using scan_models_ok(5) [OF sc, of k] by (metis count_list_0_iff)
  from reconciled_counts [OF c [unfolded e] rest_zero n] show ?thesis by (simp add: registered_def Some)
qed

lemma invalidate_cache_fields [simp]:
  "registration_at (invalidate_cache r) m = registration_at r m"
  "rg_models (invalidate_cache r) = rg_models r"
  "rg_client_models (invalidate_cache r) = rg_client_models r"
  "rg_client_infos (invalidate_cache r) = rg_client_infos r"
  "rg_client_providers (invalidate_cache r) = rg_client_providers r"
  "rg_cache (invalidate_cache r) = []"
  by (simp_all add: invalidate_cache_def registration_at_def)

lemma invalidate_cache_ok [simp]: "registry_ok (invalidate_cache r) = registry_ok r"
  by (simp add: invalidate_cache_def registry_ok_def clients_ok_def counts_ok_def registration_at_def
      listed_def supplied_def [abs_def])

lemma register_client_ok:
  fixes models :: "model_info option list" and r :: model_registry and c cp :: string and now :: gotime
  assumes ok: "registry_ok r"
  defines "raw \<equiv> listed_ids models" and "r' \<equiv> fst (register_client now c cp models r)"
  shows "registry_ok r' \<and>
    map_of (rg_client_models r') = (map_of (rg_client_models r))(c := if raw = [] then None else Some raw) \<and>
    map_of (rg_client_providers r') = (map_of (rg_client_providers r))
      (c := if raw = [] \<or> to_lower cp = [] then None else Some (to_lower cp))"
proof -
  obtain raw0 new where sc: "scan_models models [] [] = (raw0, new)" by (cases "scan_models models [] []")
  note s = scan_models_ok [OF sc]
  have raw: "raw0 = raw" using s(1) by (simp add: raw_def)
  have cl: "clients_ok r" using ok by (simp add: registry_ok_def)
  consider (none) "raw = []" | (some) "raw \<noteq> []" by blast
  then show ?thesis
  proof cases
    case none
    note u = unregister_internal_ok [OF ok, of now c]
    let ?u = "fst (unregister_client_internal now c r)"
    have gone: "AList.delete c (rg_client_models ?u) = rg_client_models ?u"
      "AList.delete c (rg_client_infos ?u) = rg_client_infos ?u"
      "AList.delete c (rg_client_providers ?u) = rg_client_providers ?u"
    proof -
      have cu: "clients_ok ?u" using u(1) by (simp add: registry_ok_def)
      show "AList.delete c (rg_client_models ?u) = rg_client_models ?u"
        using u(2) by (simp add: delete_absent)
      show "AList.delete c (rg_client_infos ?u) = rg_client_infos ?u"
        using clients_okD(7) [OF cu, of c] u(2) by (simp add: delete_absent)
      show "AList.delete c (rg_client_providers ?u) = rg_client_providers ?u"
        using u(3) by (simp add: delete_absent)
    qed
    have "new = []" using s(6) none raw by simp
    then have r': "r' = invalidate_cache ?u"
      using gone by (simp add: r'_def register_client_def sc Let_def case_prod_unfold)
    then show ?thesis using u(1-3) none by simp
  next
    case some
    then have ne: "new \<noteq> []" using s(6) raw by simp
    obtain r1 where a: "acts (registered now c (to_lower cp) raw new r) r r1"
      and r': "r' = set_client c (to_lower cp) raw new r1"
      using register_client_eq [OF sc ne, of now c cp r] unfolding raw r'_def by blast
    have "registry_ok r'"
      unfolding r'
      by (rule set_client_ok [OF ok some _ _ _ a])
        (use s(3,4) registered_counts [OF sc cl, where c = c, unfolded raw] in \<open>auto simp: raw raw_def\<close>)
    then show ?thesis using some actsD(2,4) [OF a] by (simp add: r')
  qed
qed

end
