(* ===== verification/RegistryState.thy ===== *)
theory RegistryState
  imports RegistryProps
begin

text \<open>
  The registry as a state machine: every operation keeps the reference counts exact, and a cached
  listing is what a fresh build would give for as long as it is used.
\<close>

section \<open>Marks leave the counts alone\<close>

lemma acts_registry_ok:
  assumes ok: "registry_ok r" and a: "acts F r r1"
    and keep: "\<And>k n ps. reg_counts (registration_at r k) n ps \<Longrightarrow> reg_counts (F k (registration_at r k)) n ps"
  shows "registry_ok r1"
proof -
  note f = actsD(2-4) [OF a]
  have "clients_ok r1" using ok actsD(7) [OF a] by (simp add: registry_ok_def clients_ok_def f del: map_of_eq_Some_iff)
  moreover have "listed r1 = listed r" "supplied r1 = supplied r"
    by (simp_all add: listed_def [abs_def] supplied_def [abs_def] f)
  then have "counts_ok r1"
    using ok keep actsD(1) [OF a] by (simp add: registry_ok_def counts_ok_def)
  ultimately show ?thesis by (simp add: registry_ok_def)
qed

text \<open>A change of the marks of one model.\<close>

lemma mark_ok:
  assumes "registry_ok r" "registration_at r m = Some reg"
    and "\<And>n ps. reg_counts (Some reg) n ps \<Longrightarrow> reg_counts (Some reg') n ps"
  shows "registry_ok (update_model m (\<lambda>_. Some reg') r)"
  by (rule acts_registry_ok [OF assms(1) acts_update]) (use assms(2,3) in \<open>auto simp: at_model_def\<close>)

lemma marks_counts:
  "reg_counts (Some reg) n ps \<Longrightarrow> keys_distinct q \<Longrightarrow> reg_counts (Some (reg\<lparr>rn_quota := q\<rparr>)) n ps"
  "reg_counts (Some reg) n ps \<Longrightarrow> keys_distinct u \<Longrightarrow>
    reg_counts (Some (reg\<lparr>rn_suspended := u, rn_updated := t\<rparr>)) n ps"
  by (simp_all add: reg_counts_Some provider_counts_def)

lemma set_quota_ok [intro]: "registry_ok r \<Longrightarrow> registry_ok (set_model_quota_exceeded now c m r)"
  by (auto simp: set_model_quota_exceeded_def intro!: mark_ok marks_counts dest: reg_counts_SomeD(6) split: option.split)

lemma clear_quota_ok [intro]: "registry_ok r \<Longrightarrow> registry_ok (clear_model_quota_exceeded c m r)"
  by (auto simp: clear_model_quota_exceeded_def intro!: mark_ok marks_counts dest: reg_counts_SomeD(6) split: option.split)

lemma suspend_ok [intro]: "registry_ok r \<Longrightarrow> registry_ok (suspend_client_model now c m why r)"
  by (auto simp: suspend_client_model_def intro!: mark_ok marks_counts dest: reg_counts_SomeD(7) split: option.split)

lemma resume_ok [intro]: "registry_ok r \<Longrightarrow> registry_ok (resume_client_model now c m r)"
  by (auto simp: resume_client_model_def intro!: mark_ok marks_counts dest: reg_counts_SomeD(7) split: option.split)

lemma registry_ok_cache [simp]:
  "registry_ok (r\<lparr>rg_cache := x\<rparr>) = registry_ok r" "registry_ok (r\<lparr>rg_hook := h\<rparr>) = registry_ok r"
  by (simp_all add: registry_ok_def clients_ok_def counts_ok_def registration_at_def listed_def
      supplied_def [abs_def] del: map_of_eq_Some_iff)

definition without_expired :: "gotime \<Rightarrow> model_registration \<Rightarrow> model_registration" where
  "without_expired now reg = reg\<lparr>rn_quota := filter (\<lambda>(c, q). \<not> expired_mark now q) (rn_quota reg)\<rparr>"

lemma cleanup_models:
  "rg_models (cleanup_expired_quotas now r) = map (\<lambda>(m, reg). (m, without_expired now reg)) (rg_models r)"
  by (simp add: cleanup_expired_quotas_def without_expired_def Let_def)

lemma map_of_map_snd: "map_of (map (\<lambda>(k, v). (k, f v)) xs) k = map_option f (map_of xs k)"
  by (induction xs) auto

lemma registration_at_cleanup:
  "registration_at (cleanup_expired_quotas now r) m = map_option (without_expired now) (registration_at r m)"
  unfolding registration_at_def cleanup_models by (rule map_of_map_snd)

lemma cleanup_ok [intro]:
  assumes "registry_ok r"
  shows "registry_ok (cleanup_expired_quotas now r)"
proof -
  let ?r1 = "(cleanup_expired_quotas now r)\<lparr>rg_cache := rg_cache r\<rparr>"
  have "acts (\<lambda>k. map_option (without_expired now)) r ?r1"
    using registration_at_cleanup [of now r] cleanup_models [of now r]
    by (auto simp: acts_def registration_at_def cleanup_expired_quotas_def invalidate_cache_def Let_def comp_def case_prod_unfold)
  then have "registry_ok ?r1"
  proof (rule acts_registry_ok [OF assms])
    fix k n ps
    assume "reg_counts (registration_at r k) n ps"
    then show "reg_counts (map_option (without_expired now) (registration_at r k)) n ps"
      by (cases "registration_at r k")
        (auto simp: reg_counts_Some provider_counts_def without_expired_def distinct_map_filter)
  qed
  then show ?thesis by simp
qed

section \<open>Availability over time\<close>

definition unexpired :: "gotime \<Rightarrow> string \<times> gotime \<Rightarrow> bool" where
  "unexpired now x \<longleftrightarrow> now < snd x + quota_exceeded_window"

text \<open>The count and the first expiry after the loop over \<open>qs\<close> that started with \<open>n\<close> and \<open>e0\<close>.\<close>

definition expiry_of :: "gotime \<Rightarrow> (string \<times> gotime) list \<Rightarrow> gotime \<Rightarrow> gotime \<Rightarrow> bool" where
  "expiry_of now qs e0 e \<longleftrightarrow>
     0 \<le> e \<and> (e = 0 \<longleftrightarrow> e0 = 0 \<and> filter (unexpired now) qs = []) \<and> (e0 \<noteq> 0 \<longrightarrow> e \<le> e0) \<and>
     (\<forall>x \<in> set qs. unexpired now x \<longrightarrow> e \<le> snd x + quota_exceeded_window)"

lemma quota_fold:
  assumes "0 \<le> now" "0 \<le> e0"
  shows "\<exists>e. fold (quota_step now) qs (n, e0) = (n + int (length (filter (unexpired now) qs)), e) \<and> expiry_of now qs e0 e"
  using assms(2)
proof (induction qs arbitrary: n e0)
  case (Cons x qs)
  obtain c q where x: "x = (c, q)" by (cases x)
  show ?case
  proof (cases "unexpired now x")
    case True
    define e1 where "e1 = (if e0 = 0 \<or> q + quota_exceeded_window < e0 then q + quota_exceeded_window else e0)"
    have st: "quota_step now x (n, e0) = (n + 1, e1)"
      using True by (simp add: x quota_step_def unexpired_def e1_def before_def is_zero_def Let_def)
    have e1: "0 < e1" "e1 \<le> q + quota_exceeded_window" "e0 \<noteq> 0 \<longrightarrow> e1 \<le> e0"
      using True assms(1) Cons.prems by (auto simp: e1_def unexpired_def x)
    obtain e where e: "fold (quota_step now) qs (n + 1, e1) = (n + 1 + int (length (filter (unexpired now) qs)), e)"
      "expiry_of now qs e1 e"
      using Cons.IH [of e1 "n + 1"] e1(1) by auto
    have "expiry_of now (x # qs) e0 e" using e(2) e1 True by (auto simp: expiry_of_def x)
    then show ?thesis using e(1) True by (simp add: st)
  next
    case False
    then have st: "quota_step now x (n, e0) = (n, e0)"
      by (simp add: x quota_step_def unexpired_def before_def Let_def)
    obtain e where e: "fold (quota_step now) qs (n, e0) = (n + int (length (filter (unexpired now) qs)), e)"
      "expiry_of now qs e0 e"
      using Cons.IH [OF Cons.prems] by blast
    have "expiry_of now (x # qs) e0 e" using e(2) False by (auto simp: expiry_of_def)
    then show ?thesis using e(1) False by (simp add: st)
  qed
qed (simp add: expiry_of_def)

text \<open>Availability as a function of the number of marks that hold.\<close>

definition cooling_count :: "model_registration \<Rightarrow> int" where
  "cooling_count reg = int (length (filter (\<lambda>(c, why). equal_fold why ''quota'') (rn_suspended reg)))"

definition stopped_count :: "model_registration \<Rightarrow> int" where
  "stopped_count reg = int (length (filter (\<lambda>(c, why). \<not> equal_fold why ''quota'') (rn_suspended reg)))"

definition exhausted_count :: "gotime \<Rightarrow> model_registration \<Rightarrow> int" where
  "exhausted_count now reg = int (length (filter (unexpired now) (rn_quota reg)))"

lemma availability_eq:
  assumes "0 \<le> now"
  shows "fst (registration_availability reg now) \<longleftrightarrow>
      0 < rn_count reg - exhausted_count now reg - stopped_count reg \<or>
      0 < rn_count reg \<and> (0 < exhausted_count now reg \<or> 0 < cooling_count reg) \<and> stopped_count reg = 0"
    and "expiry_of now (rn_quota reg) 0 (snd (registration_availability reg now))"
proof -
  obtain e where e: "fold (quota_step now) (rn_quota reg) (0, 0) = (exhausted_count now reg, e)"
    "expiry_of now (rn_quota reg) 0 e"
    using quota_fold [OF assms, of 0 "rn_quota reg" 0] by (auto simp: exhausted_count_def)
  show "fst (registration_availability reg now) \<longleftrightarrow>
      0 < rn_count reg - exhausted_count now reg - stopped_count reg \<or>
      0 < rn_count reg \<and> (0 < exhausted_count now reg \<or> 0 < cooling_count reg) \<and> stopped_count reg = 0"
    by (simp add: registration_availability_def e(1) Let_def cooling_count_def stopped_count_def)
  show "expiry_of now (rn_quota reg) 0 (snd (registration_availability reg now))"
    using e by (simp add: registration_availability_def Let_def)
qed

lemma availability_until_expiry:
  assumes "0 \<le> t" "t \<le> t'" "expiry_of t (rn_quota reg) 0 e" "e = 0 \<or> t' < e"
  shows "fst (registration_availability reg t') = fst (registration_availability reg t)"
proof -
  have "filter (unexpired t') (rn_quota reg) = filter (unexpired t) (rn_quota reg)"
  proof (rule filter_cong [OF refl])
    fix x assume x: "x \<in> set (rn_quota reg)"
    show "unexpired t' x = unexpired t x"
    proof
      assume "unexpired t' x" then show "unexpired t x" using assms(2) by (simp add: unexpired_def)
    next
      assume u: "unexpired t x"
      then have "e \<noteq> 0" using assms(3) x by (auto simp: expiry_of_def filter_empty_conv)
      then show "unexpired t' x" using assms(3,4) x u by (fastforce simp: expiry_of_def unexpired_def)
    qed
  qed
  then have "exhausted_count t' reg = exhausted_count t reg" by (simp add: exhausted_count_def)
  then show ?thesis using availability_eq(1) [of t reg] availability_eq(1) [of t' reg] assms(1,2) by simp
qed

lemma earliest_expiry:
  assumes "0 \<le> start" "\<And>m reg. (m, reg) \<in> set xs \<Longrightarrow> 0 \<le> f reg"
  shows "0 \<le> fold (\<lambda>(m, reg). earlier_expiry (f reg)) xs start \<and>
    (fold (\<lambda>(m, reg). earlier_expiry (f reg)) xs start = 0 \<longrightarrow> start = 0 \<and> (\<forall>(m, reg) \<in> set xs. f reg = 0)) \<and>
    (start \<noteq> 0 \<longrightarrow> fold (\<lambda>(m, reg). earlier_expiry (f reg)) xs start \<le> start) \<and>
    (\<forall>(m, reg) \<in> set xs. f reg \<noteq> 0 \<longrightarrow> fold (\<lambda>(m, reg). earlier_expiry (f reg)) xs start \<le> f reg)"
  using assms
proof (induction xs arbitrary: start)
  case (Cons x xs)
  obtain m reg where x: "x = (m, reg)" by (cases x)
  define e1 where "e1 = earlier_expiry (f reg) start"
  have f0: "0 \<le> f reg" by (rule Cons.prems(2) [of m]) (simp add: x)
  have e1: "0 \<le> e1" "e1 = 0 \<longrightarrow> start = 0 \<and> f reg = 0" "start \<noteq> 0 \<longrightarrow> e1 \<le> start" "f reg \<noteq> 0 \<longrightarrow> e1 \<le> f reg" "e1 \<noteq> 0 \<longleftrightarrow> start \<noteq> 0 \<or> f reg \<noteq> 0"
    using Cons.prems(1) f0 by (auto simp: e1_def earlier_expiry_def before_def is_zero_def)
  define F where "F = fold (\<lambda>(m, reg). earlier_expiry (f reg)) xs e1"
  have F: "fold (\<lambda>(m, reg). earlier_expiry (f reg)) (x # xs) start = F" by (simp add: x F_def e1_def)
  have IH: "0 \<le> F" "F = 0 \<longrightarrow> e1 = 0 \<and> (\<forall>(m, reg) \<in> set xs. f reg = 0)" "e1 \<noteq> 0 \<longrightarrow> F \<le> e1"
    "\<forall>(m, reg) \<in> set xs. f reg \<noteq> 0 \<longrightarrow> F \<le> f reg"
    using Cons.IH [OF e1(1)] Cons.prems(2) unfolding F_def by auto
  show ?case unfolding F using IH e1 by (auto simp: x)
qed auto

section \<open>Cached listings\<close>

lemma build_until_expiry:
  assumes t: "0 \<le> t" "t \<le> t'" and fresh: "fresh_listing t' (build_available_models h t r)"
  shows "fst (build_available_models h t' r) = fst (build_available_models h t r)"
proof -
  have av: "fst (registration_availability reg t') = fst (registration_availability reg t)"
    if m: "(m, reg) \<in> set (rg_models r)" for m reg
  proof (rule availability_until_expiry [OF t availability_eq(2) [OF t(1)]])
    have nonneg: "0 \<le> snd (registration_availability reg t)" for reg
      using availability_eq(2) [OF t(1), of reg] by (simp add: expiry_of_def)
    note e = earliest_expiry [where xs = "rg_models r" and f = "\<lambda>reg. snd (registration_availability reg t)" and start = 0,
        OF order_refl nonneg]
    show "snd (registration_availability reg t) = 0 \<or> t' < snd (registration_availability reg t)"
      using fresh e m by (fastforce simp: fresh_listing_def build_available_models_def is_zero_def before_def)
  qed
  have "filter (\<lambda>(m, reg). fst (registration_availability reg t')) (rg_models r) =
      filter (\<lambda>(m, reg). fst (registration_availability reg t)) (rg_models r)"
    using av by (intro filter_cong) auto
  then show ?thesis by (simp add: build_available_models_def)
qed

definition cache_ok :: "gotime \<Rightarrow> model_registry \<Rightarrow> bool" where
  "cache_ok t r \<longleftrightarrow>
     (\<forall>h c. map_of (rg_cache r) h = Some c \<longrightarrow>
        (\<forall>t' \<ge> t. fresh_listing t' c \<longrightarrow> fst (build_available_models h t' r) = fst c))"

lemma cache_ok_empty [simp]: "rg_cache r = [] \<Longrightarrow> cache_ok t r"
  by (simp add: cache_ok_def)

lemma cache_ok_mono: "cache_ok t r \<Longrightarrow> t \<le> t' \<Longrightarrow> cache_ok t' r"
  unfolding cache_ok_def by (meson order_trans)

lemma build_cache [simp]: "build_available_models h t (r\<lparr>rg_cache := x\<rparr>) = build_available_models h t r"
  by (simp add: build_available_models_def)

lemma get_available_models_ok:
  assumes "cache_ok t r" "0 \<le> t" "t \<le> now"
  shows "fst (get_available_models now h r) = fst (build_available_models h now r)"
    and "cache_ok now (snd (get_available_models now h r))"
    and "\<exists>x. snd (get_available_models now h r) = r\<lparr>rg_cache := x\<rparr>"
proof -
  let ?b = "build_available_models h now r"
  consider (hit) c where "map_of (rg_cache r) h = Some c" "fresh_listing now c"
      "get_available_models now h r = (fst c, r)"
    | (miss) "get_available_models now h r = (fst ?b, r\<lparr>rg_cache := AList.update h ?b (rg_cache r)\<rparr>)"
    by (cases "map_of (rg_cache r) h"; cases "fresh_listing now (the (map_of (rg_cache r) h))")
      (auto simp: get_available_models_def Let_def simp del: map_of_eq_Some_iff)
  then have "fst (get_available_models now h r) = fst ?b \<and> cache_ok now (snd (get_available_models now h r)) \<and>
    (\<exists>x. snd (get_available_models now h r) = r\<lparr>rg_cache := x\<rparr>)"
  proof cases
    case hit
    have "r = r\<lparr>rg_cache := rg_cache r\<rparr>" by simp
    moreover have "fst ?b = fst c" using assms hit(1,2) unfolding cache_ok_def by blast
    ultimately show ?thesis using hit(3) cache_ok_mono [OF assms(1,3)] by (metis fst_conv snd_conv)
  next
    case miss
    have "cache_ok now (r\<lparr>rg_cache := AList.update h ?b (rg_cache r)\<rparr>)"
      using cache_ok_mono [OF assms(1,3)] build_until_expiry [of now _ h r] assms(2,3)
      by (auto simp: cache_ok_def simp del: map_of_eq_Some_iff split: if_splits)
    then show ?thesis using miss by auto
  qed
  then show "fst (get_available_models now h r) = fst ?b" "cache_ok now (snd (get_available_models now h r))"
    "\<exists>x. snd (get_available_models now h r) = r\<lparr>rg_cache := x\<rparr>" by blast+
qed

section \<open>The registry's life\<close>

datatype registry_op =
    RegisterOp string string "model_info option list"
  | UnregisterOp string
  | QuotaOp string string
  | ClearOp string string
  | SuspendOp string string string
  | ResumeOp string string
  | CleanupOp
  | ListOp string
  | HookOp bool

fun registry_step :: "gotime \<Rightarrow> registry_op \<Rightarrow> model_registry \<Rightarrow> model_registry" where
  "registry_step now (RegisterOp c p ms) r = fst (register_client now c p ms r)"
| "registry_step now (UnregisterOp c) r = fst (unregister_client now c r)"
| "registry_step now (QuotaOp c m) r = set_model_quota_exceeded now c m r"
| "registry_step now (ClearOp c m) r = clear_model_quota_exceeded c m r"
| "registry_step now (SuspendOp c m why) r = suspend_client_model now c m why r"
| "registry_step now (ResumeOp c m) r = resume_client_model now c m r"
| "registry_step now CleanupOp r = cleanup_expired_quotas now r"
| "registry_step now (ListOp h) r = snd (get_available_models now h r)"
| "registry_step now (HookOp b) r = set_hook b r"

inductive registry_reaches :: "gotime \<Rightarrow> model_registry \<Rightarrow> bool" where
  registry_start: "registry_reaches 0 new_registry"
| registry_next: "registry_reaches t r \<Longrightarrow> t \<le> now \<Longrightarrow> registry_reaches now (registry_step now op r)"

text \<open>An operation that changes a registration drops the cache, or changes nothing.\<close>

lemma register_drops_cache: "rg_cache (fst (register_client now c p ms r)) = []"
  by (simp add: register_client_def Let_def case_prod_unfold set_client_provider_def invalidate_cache_def)

lemma cleanup_cache: "cleanup_expired_quotas now r = r \<or> rg_cache (cleanup_expired_quotas now r) = []"
proof (cases "\<exists>(m, reg) \<in> set (rg_models r). \<exists>(c, q) \<in> set (rn_quota reg). expired_mark now q")
  case True
  then show ?thesis by (simp add: cleanup_expired_quotas_def Let_def)
next
  case False
  have "map (\<lambda>(m, reg). (m, reg\<lparr>rn_quota := filter (\<lambda>(c, q). \<not> expired_mark now q) (rn_quota reg)\<rparr>)) (rg_models r) =
      map id (rg_models r)"
  proof (rule map_cong [OF refl])
    fix x assume x: "x \<in> set (rg_models r)"
    obtain m reg where mr: "x = (m, reg)" by (cases x)
    have "filter (\<lambda>(c, q). \<not> expired_mark now q) (rn_quota reg) = rn_quota reg"
      using False x mr by (intro filter_True) auto
    then show "(case x of (m, reg) \<Rightarrow> (m, reg\<lparr>rn_quota := filter (\<lambda>(c, q). \<not> expired_mark now q) (rn_quota reg)\<rparr>)) = id x"
      by (simp add: mr)
  qed
  then have "cleanup_expired_quotas now r = r" using False by (simp add: cleanup_expired_quotas_def Let_def)
  then show ?thesis by blast
qed

lemma mark_ops_cache:
  "set_model_quota_exceeded now c m r = r \<or> rg_cache (set_model_quota_exceeded now c m r) = []"
  "clear_model_quota_exceeded c m r = r \<or> rg_cache (clear_model_quota_exceeded c m r) = []"
  "suspend_client_model now c m why r = r \<or> rg_cache (suspend_client_model now c m why r) = []"
  "resume_client_model now c m r = r \<or> rg_cache (resume_client_model now c m r) = []"
  by (simp_all add: set_model_quota_exceeded_def clear_model_quota_exceeded_def suspend_client_model_def
      resume_client_model_def split: option.splits)

lemma new_registry_ok: "registry_ok new_registry"
  by (auto simp: registry_ok_def clients_ok_def counts_ok_def new_registry_def registration_at_def listed_def)

lemma unregister_client_ok: "registry_ok r \<Longrightarrow> registry_ok (fst (unregister_client now c r))"
  using unregister_internal_ok(1) [of r now c] by (simp add: unregister_client_def case_prod_unfold)

lemma registry_step_ok:
  assumes "registry_ok r" "cache_ok t r" "0 \<le> t" "t \<le> now"
  shows "registry_ok (registry_step now op r) \<and> cache_ok now (registry_step now op r)"
proof (cases op)
  case (RegisterOp c p ms)
  then show ?thesis using register_client_ok [OF assms(1), of now c p ms] register_drops_cache by simp
next
  case (UnregisterOp c)
  then show ?thesis
    using unregister_client_ok [OF assms(1)] by (simp add: unregister_client_def case_prod_unfold)
next
  case (ListOp h)
  obtain x where "snd (get_available_models now h r) = r\<lparr>rg_cache := x\<rparr>"
    using get_available_models_ok(3) [OF assms(2-4)] by blast
  then show ?thesis using ListOp get_available_models_ok(2) [OF assms(2-4), of h] assms(1) by simp
next
  case (HookOp b)
  then show ?thesis
    using assms(1) cache_ok_mono [OF assms(2,4)]
    by (simp add: set_hook_def cache_ok_def build_available_models_def)
next
  case (QuotaOp c m)
  then show ?thesis using mark_ops_cache(1) [of now c m r] set_quota_ok [OF assms(1)] cache_ok_mono [OF assms(2,4)] by auto
next
  case (ClearOp c m)
  then show ?thesis using mark_ops_cache(2) [of c m r] clear_quota_ok [OF assms(1)] cache_ok_mono [OF assms(2,4)] by auto
next
  case (SuspendOp c m why)
  then show ?thesis using mark_ops_cache(3) [of now c m why r] suspend_ok [OF assms(1)] cache_ok_mono [OF assms(2,4)] by auto
next
  case (ResumeOp c m)
  then show ?thesis using mark_ops_cache(4) [of now c m r] resume_ok [OF assms(1)] cache_ok_mono [OF assms(2,4)] by auto
next
  case CleanupOp
  then show ?thesis using cleanup_cache [of now r] cleanup_ok [OF assms(1)] cache_ok_mono [OF assms(2,4)] by auto
qed

lemma registry_reaches_ok: "registry_reaches t r \<Longrightarrow> registry_ok r \<and> cache_ok t r \<and> 0 \<le> t"
proof (induction rule: registry_reaches.induct)
  case registry_start
  then show ?case using new_registry_ok by (simp add: new_registry_def)
next
  case (registry_next t r now op)
  then show ?case using registry_step_ok [of r t now op] by auto
qed

end
