(* ===== verification/RegistryProperties.thy ===== *)
theory RegistryProperties
  imports Effects RegistryState
begin

text \<open>
  Properties of the model registry in every reachable state, and of the registry together with
  the manager's results, with witnesses on small registries.
\<close>

section \<open>Reference counts\<close>

text \<open>
  C21 The reference counts of the registry are exact in every reachable state: a model is registered
  exactly while a client lists it, its count is the number of listings, and its provider counts are
  the numbers of listings by clients of that provider.
\<close>

theorem registry_counts_exact:
  assumes "registry_reaches t r"
  shows "case registration_at r m of
     None \<Rightarrow> listed r m = 0
   | Some reg \<Rightarrow> 0 < listed r m \<and> rn_count reg = int (listed r m) \<and>
       (\<forall>p. map_of (rn_providers reg) p = (if supplied r m p = 0 then None else Some (int (supplied r m p))))"
proof -
  have "reg_counts (registration_at r m) (listed r m) (supplied r m)"
    using registry_reaches_ok [OF assms] unfolding registry_ok_def counts_ok_def by blast
  then show ?thesis by (auto simp: reg_counts_def split: option.splits)
qed

definition demo_model :: "string \<Rightarrow> model_info" where
  "demo_model i = \<lparr>mi_id = i, mi_object = ''model'', mi_created = 1, mi_owned_by = ''o'', mi_type = ''t'',
     mi_display_name = [], mi_name = [], mi_version = [], mi_description = [], mi_input_limit = 0,
     mi_output_limit = 0, mi_generation_methods = [], mi_context_length = 0, mi_max_context_length = 0,
     mi_max_completion_tokens = 0, mi_parameters = [], mi_input_modalities = [], mi_output_modalities = [],
     mi_web_search = False, mi_thinking = None, mi_override_headers = None, mi_user_defined = False,
     mi_compat = False\<rparr>"

definition demo_registry :: model_registry where
  "demo_registry = registry_step 20 (RegisterOp ''b'' ''Codex'' [Some (demo_model ''m''), None])
     (registry_step 10 (RegisterOp ''a'' ''claude'' [Some (demo_model ''m''), Some (demo_model ''n'')]) new_registry)"

lemma demo_registry_reaches: "registry_reaches 20 demo_registry"
  unfolding demo_registry_def
  by (rule registry_next [OF registry_next [OF registry_start]]) simp_all

theorem registry_counts_exact_witness:
  "\<exists>reg. registration_at demo_registry ''m'' = Some reg \<and> rn_count reg = 2 \<and> map_of (rn_providers reg) ''codex'' = Some 1"
proof -
  have "registration_at demo_registry ''m'' \<noteq> None" "listed demo_registry ''m'' = 2" "supplied demo_registry ''m'' ''codex'' = 1"
    by code_simp+
  then show ?thesis
    using registry_counts_exact [OF demo_registry_reaches, of "''m''"] by (auto simp del: map_of_eq_Some_iff)
qed

lemma sum_over_keys:
  assumes "keys_distinct xs"
  shows "sum_list (map g xs) = (\<Sum>k \<in> dom (map_of xs). g (k, the (map_of xs k)))"
proof -
  have "sum_list (map g xs) = (\<Sum>x \<in> set xs. g x)"
    using assms distinct_map by (metis sum_list_distinct_conv_sum_set)
  also have "... = (\<Sum>k \<in> fst ` set xs. g (k, the (map_of xs k)))"
    using assms by (subst sum.reindex) (auto simp: distinct_map intro!: sum.cong)
  finally show ?thesis by (simp add: dom_map_of_conv_image_fst)
qed

lemma counts_depend_on_maps:
  assumes "keys_distinct (rg_client_models r)" "keys_distinct (rg_client_models r')"
    and "map_of (rg_client_models r) = map_of (rg_client_models r')"
    and "map_of (rg_client_providers r) = map_of (rg_client_providers r')"
  shows "listed r = listed r'" "supplied r = supplied r'"
proof -
  show "listed r = listed r'"
    by (rule ext) (simp add: listed_def sum_over_keys assms del: map_of_eq_Some_iff)
  show "supplied r = supplied r'"
    by (intro ext) (simp add: supplied_def sum_over_keys assms del: map_of_eq_Some_iff)
qed

text \<open>
  C23 Registering a client again gives the counts of registering it afresh: the incremental
  reconciliation, also over a change of provider, leaves each model with the same count and the same
  provider counts as removing the client and adding it.
\<close>

theorem reregistration_like_fresh:
  assumes "registry_reaches t r"
    and "a = fst (register_client t1 c p models r)"
    and "b = fst (register_client t2 c p models (fst (unregister_client t3 c r)))"
  shows "map_option rn_count (registration_at a m) = map_option rn_count (registration_at b m) \<and>
    Option.bind (registration_at a m) (\<lambda>reg. map_of (rn_providers reg) q) =
    Option.bind (registration_at b m) (\<lambda>reg. map_of (rn_providers reg) q)"
proof -
  have ok: "registry_ok r" using registry_reaches_ok [OF assms(1)] by blast
  note u = unregister_internal_ok [OF ok, of t3 c]
  have un: "fst (unregister_client t3 c r) = invalidate_cache (fst (unregister_client_internal t3 c r))"
    by (simp add: unregister_client_def case_prod_unfold)
  note ra = register_client_ok [OF ok, of t1 c p models, folded assms(2)]
  have "registry_ok (fst (unregister_client t3 c r))" using u(1) by (simp add: un)
  note rb = register_client_ok [OF this, of t2 c p models, folded assms(3)]
  have "keys_distinct (rg_client_models a)" "keys_distinct (rg_client_models b)"
    using ra rb clients_okD(2) by (auto simp: registry_ok_def)
  moreover have "map_of (rg_client_models a) = map_of (rg_client_models b)"
    "map_of (rg_client_providers a) = map_of (rg_client_providers b)"
    using ra rb u(2,3) by (auto simp: un fun_upd_upd)
  ultimately have eq: "listed a = listed b" "supplied a = supplied b"
    using counts_depend_on_maps by blast+
  have "reg_counts (registration_at a m) (listed a m) (supplied a m)" "reg_counts (registration_at b m) (listed a m) (supplied a m)"
    using ra rb eq by (auto simp: registry_ok_def counts_ok_def)
  then show ?thesis by (auto simp: reg_counts_def split: option.splits)
qed

theorem reregistration_like_fresh_witness:
  "map_option rn_count (registration_at (fst (register_client 30 ''a'' ''codex'' [Some (demo_model ''m'')] demo_registry)) ''m'') = Some 2 \<and>
   Option.bind (registration_at (fst (register_client 30 ''a'' ''codex'' [Some (demo_model ''m'')] demo_registry)) ''m'')
     (\<lambda>reg. map_of (rn_providers reg) ''codex'') = Some 2"
proof -
  let ?b = "fst (register_client 40 ''a'' ''codex'' [Some (demo_model ''m'')] (fst (unregister_client 35 ''a'' demo_registry)))"
  have "map_option rn_count (registration_at ?b ''m'') = Some 2"
    "Option.bind (registration_at ?b ''m'') (\<lambda>reg. map_of (rn_providers reg) ''codex'') = Some 2" by code_simp+
  then show ?thesis using reregistration_like_fresh [OF demo_registry_reaches refl refl] by metis
qed

text \<open>
  The providers reported for a model are exactly those with a client that lists it, each once, in
  the order of falling supply and, for equal supply, of their names.
\<close>

theorem model_providers_ranked:
  fixes m :: string
  assumes "registry_reaches t r"
  defines "ps \<equiv> get_model_providers m r"
  shows "set ps = {p. 0 < supplied r m p} \<and> distinct ps \<and>
    sorted_wrt (\<lambda>p q. supplied r m p > supplied r m q \<or> supplied r m p = supplied r m q \<and> p < q) ps"
proof (cases "registration_at r m")
  case None
  have "reg_counts (registration_at r m) (listed r m) (supplied r m)" "clients_ok r"
    using registry_reaches_ok [OF assms(1)] unfolding registry_ok_def counts_ok_def by blast+
  then have "listed r m = 0" and kd: "keys_distinct (rg_client_models r)"
    using None clients_okD(2) by auto
  then have "supplied r m p = 0" for p
    unfolding listed_def supplied_def by (auto simp: sum_list_eq_0_iff split: prod.splits)
  then show ?thesis by (simp add: ps_def get_model_providers_def None)
next
  case (Some reg)
  have c: "reg_counts (Some reg) (listed r m) (supplied r m)"
    using registry_reaches_ok [OF assms(1)] Some unfolding registry_ok_def counts_ok_def by metis
  note pr = reg_counts_SomeD(3) [OF c] and kd = reg_counts_SomeD(5) [OF c]
  define xs where "xs = sort_key (\<lambda>(p, n :: int). (- n, p)) (filter (\<lambda>(p, n). n > 0) (rn_providers reg))"
  have ps: "ps = map fst xs" by (simp add: ps_def get_model_providers_def Some xs_def)
  have mem: "(p, n) \<in> set xs \<longleftrightarrow> 0 < n \<and> n = int (supplied r m p)" for p n
  proof -
    have "(p, n) \<in> set (rn_providers reg) \<longleftrightarrow> map_of (rn_providers reg) p = Some n"
      using kd by simp
    then show ?thesis unfolding xs_def set_sort set_filter pr by (auto split: if_splits)
  qed
  have d: "distinct ps"
    unfolding ps xs_def using distinct_map_filter [OF kd, of "\<lambda>(p, n). n > 0"] by (simp add: distinct_map)
  have srt: "sorted (map (\<lambda>(p, n). (- n, p)) xs)" unfolding xs_def by (rule sorted_sort_key)
  have "supplied r m (ps ! i) > supplied r m (ps ! j) \<or> supplied r m (ps ! i) = supplied r m (ps ! j) \<and> ps ! i < ps ! j"
    if ij: "i < j" "j < length ps" for i j
  proof -
    have l: "i < length xs" "j < length xs" using ij by (simp_all add: ps)
    have "(\<lambda>(p, n). (- n, p)) (xs ! i) \<le> (\<lambda>(p, n). (- n, p)) (xs ! j)"
      using srt ij l by (simp add: sorted_iff_nth_mono)
    moreover have "ps ! i \<noteq> ps ! j" using d ij by (simp add: nth_eq_iff_index_eq)
    moreover have "snd (xs ! k) = int (supplied r m (fst (xs ! k)))" if "k < length xs" for k
      using mem [of "fst (xs ! k)" "snd (xs ! k)"] nth_mem [OF that] by simp
    ultimately show ?thesis
      using l by (auto simp: ps case_prod_unfold less_eq_prod_def)
  qed
  then have "sorted_wrt (\<lambda>p q. supplied r m p > supplied r m q \<or> supplied r m p = supplied r m q \<and> p < q) ps"
    by (simp add: sorted_wrt_iff_nth_less)
  moreover have "set ps = {p. 0 < supplied r m p}"
    unfolding ps using mem by force
  ultimately show ?thesis using d by blast
qed

theorem model_providers_ranked_witness:
  "set (get_model_providers ''m'' demo_registry) = {p. 0 < supplied demo_registry ''m'' p} \<and>
   0 < supplied demo_registry ''m'' ''codex''"
proof -
  have "0 < supplied demo_registry ''m'' ''codex''" by code_simp
  then show ?thesis using model_providers_ranked [OF demo_registry_reaches, of "''m''"] by blast
qed

section \<open>Listings\<close>

text \<open>
  C22 A cached listing is never stale: in every reachable state and at every later time
  \<open>GetAvailableModels\<close> returns what building the listing from the registrations would give, also
  where a quota window of five minutes ends between two calls.
\<close>

theorem listing_never_stale:
  assumes "registry_reaches t r" "t \<le> now"
  shows "fst (get_available_models now h r) =
    map (\<lambda>(m, reg). convert_model_to_map h (rn_info reg))
      (filter (\<lambda>(m, reg). fst (registration_availability reg now)) (rg_models r))"
  using registry_reaches_ok [OF assms(1)] get_available_models_ok(1) [of t r now h] assms(2)
  by (simp add: build_available_models_def)

definition listed_demo :: model_registry where
  "listed_demo = registry_step 50 (ListOp ''openai'') (registry_step 40 (SuspendOp ''b'' ''m'' ''quota'')
     (registry_step 30 (QuotaOp ''b'' ''m'') demo_registry))"

lemma listed_demo_reaches: "registry_reaches 50 listed_demo"
  unfolding listed_demo_def
  by (rule registry_next [OF registry_next [OF registry_next [OF demo_registry_reaches]]]) simp_all

theorem listing_never_stale_witness:
  "length (fst (get_available_models 60 ''openai'' listed_demo)) = 2"
proof -
  have "length (map (\<lambda>(m, reg). convert_model_to_map ''openai'' (rn_info reg))
      (filter (\<lambda>(m, reg). fst (registration_availability reg 60)) (rg_models listed_demo))) = 2" by code_simp
  then show ?thesis using listing_never_stale [OF listed_demo_reaches, of 60 "''openai''"] by simp
qed

text \<open>
  C5 The cleanup of expired quota marks is invisible: at every later time it changes neither which
  models are available nor the number of clients reported for a model.
\<close>

lemma expired_iff: "expired_mark now q \<longleftrightarrow> now - q \<ge> quota_exceeded_window"
  by (auto simp: expired_mark_def time_sub_def quota_exceeded_window_def minute_def second_def int64_max_def int64_min_def)

theorem cleanup_invisible:
  assumes "registration_at r m = Some reg" "0 \<le> now" "now \<le> t"
  shows "\<exists>reg'. registration_at (cleanup_expired_quotas now r) m = Some reg' \<and>
      fst (registration_availability reg' t) = fst (registration_availability reg t) \<and>
      get_model_count t m (cleanup_expired_quotas now r) = get_model_count t m r"
proof -
  let ?reg = "without_expired now reg"
  have at: "registration_at (cleanup_expired_quotas now r) m = Some ?reg"
    using assms(1) by (simp add: registration_at_cleanup)
  have "filter (unexpired t) (rn_quota ?reg) = filter (unexpired t) (rn_quota reg)"
    using assms(3) by (auto simp: without_expired_def expired_iff unexpired_def intro!: filter_cong)
  then have ex: "exhausted_count t ?reg = exhausted_count t reg" by (simp add: exhausted_count_def)
  have "fst (registration_availability ?reg t) = fst (registration_availability reg t)"
    using availability_eq(1) [of t ?reg] availability_eq(1) [of t reg] assms(2,3) ex
    by (simp add: stopped_count_def cooling_count_def without_expired_def)
  moreover have "filter (\<lambda>(c, q). \<not> expired_mark t q) (rn_quota ?reg) = filter (\<lambda>(c, q). \<not> expired_mark t q) (rn_quota reg)"
    using assms(3) by (auto simp: without_expired_def expired_iff intro!: filter_cong)
  then have "get_model_count t m (cleanup_expired_quotas now r) = get_model_count t m r"
    using at assms(1) by (simp add: get_model_count_def without_expired_def)
  ultimately show ?thesis using at by blast
qed

theorem cleanup_invisible_witness:
  "get_model_count (1000 * second) ''m'' (cleanup_expired_quotas (900 * second) listed_demo) = get_model_count (1000 * second) ''m'' listed_demo"
proof -
  have "registration_at listed_demo ''m'' \<noteq> None" by code_simp
  then obtain reg where "registration_at listed_demo ''m'' = Some reg" by blast
  from cleanup_invisible [OF this, of "900 * second" "1000 * second"] show ?thesis by (auto simp: second_def)
qed

section \<open>Results and the registry\<close>

text \<open>Nothing but the marks of the client \<open>c\<close> for the model \<open>m\<close> changes.\<close>

definition same_but_marks :: "string \<Rightarrow> string \<Rightarrow> model_registry \<Rightarrow> model_registry \<Rightarrow> bool" where
  "same_but_marks c m r r' \<longleftrightarrow>
     rg_client_models r' = rg_client_models r \<and> rg_client_providers r' = rg_client_providers r \<and>
     (\<forall>k. k \<noteq> m \<longrightarrow> registration_at r' k = registration_at r k) \<and>
     (case registration_at r m of
        None \<Rightarrow> registration_at r' m = None
      | Some a \<Rightarrow> (\<exists>b. registration_at r' m = Some b \<and>
          rn_info b = rn_info a \<and> rn_count b = rn_count a \<and> rn_providers b = rn_providers a \<and>
          rn_by_provider b = rn_by_provider a \<and>
          (\<forall>d. d \<noteq> c \<longrightarrow> map_of (rn_quota b) d = map_of (rn_quota a) d \<and>
             map_of (rn_suspended b) d = map_of (rn_suspended a) d)))"

lemma same_but_marks_refl [simp]: "same_but_marks c m r r"
  by (simp add: same_but_marks_def split: option.split)

lemma same_but_marks_trans:
  "same_but_marks c m r s \<Longrightarrow> same_but_marks c m s u \<Longrightarrow> same_but_marks c m r u"
  unfolding same_but_marks_def by (cases "registration_at r m") fastforce+

lemma update_model_other [simp]:
  "rg_client_models (update_model m f r) = rg_client_models r"
  "rg_client_providers (update_model m f r) = rg_client_providers r"
  by (simp_all add: update_model_def)

lemma mark_ops_same:
  "same_but_marks c m r (set_model_quota_exceeded now c m r)"
  "same_but_marks c m r (clear_model_quota_exceeded c m r)"
  "same_but_marks c m r (suspend_client_model now c m why r)"
  "same_but_marks c m r (resume_client_model now c m r)"
  by (cases "registration_at r m";
      simp add: same_but_marks_def set_model_quota_exceeded_def clear_model_quota_exceeded_def
        suspend_client_model_def resume_client_model_def)+

lemma fold_effects_same:
  assumes "\<And>e s. e \<in> set es \<Longrightarrow> same_but_marks c m s (apply_effect now e s)"
  shows "same_but_marks c m r (fold (apply_effect now) es r)"
  using assms
proof (induction es arbitrary: r)
  case (Cons e es)
  have "same_but_marks c m r (apply_effect now e r)" using Cons.prems by simp
  moreover have "same_but_marks c m (apply_effect now e r) (fold (apply_effect now) es (apply_effect now e r))"
    by (rule Cons.IH) (use Cons.prems in simp)
  ultimately show ?case using same_but_marks_trans by simp
qed simp

lemma lifted_marks:
  assumes "c \<noteq> []" "m \<noteq> []" "registration_at (resume_client_model now c m (clear_model_quota_exceeded c m r)) m = Some b"
  shows "map_of (rn_quota b) c = None \<and> map_of (rn_suspended b) c = None"
  using assms
  by (cases "registration_at r m")
    (auto simp: clear_model_quota_exceeded_def resume_client_model_def simp del: map_of_eq_Some_iff split: if_splits)

text \<open>
  C24 The manager's results keep the registry's marks honest: whatever the result, recording it
  touches in the registry only the marks of its own credential for its own model, never a count, a
  provider or another credential; and after a success no mark of the credential for the model is left.
\<close>

theorem results_touch_own_marks:
  fixes now :: gotime and r :: model_registry
  assumes "er_auth_id res \<noteq> []" "lookup_auth mg (er_auth_id res) = Some a"
  defines "k \<equiv> canonical_model_key (er_model res)" and "r' \<equiv> fold (apply_effect now) (snd (mark_result now res mg)) r"
  shows "same_but_marks (er_auth_id res) k r r' \<and>
    (er_success res \<longrightarrow> k \<noteq> [] \<longrightarrow>
       (case registration_at r' k of
          None \<Rightarrow> registration_at r k = None
        | Some b \<Rightarrow> map_of (rn_quota b) (er_auth_id res) = None \<and> map_of (rn_suspended b) (er_auth_id res) = None))"
proof -
  let ?i = "er_auth_id res"
  obtain a' suspend quota where ma: "mark_auth (mg_transient mg) (cooldown_disabled_for_auth mg a) res now a = (a', suspend, quota)"
    by (metis prod_cases3)
  let ?es = "snd (mark_result now res mg)"
  have es: "set ?es \<subseteq> {ClearModelQuota ?i k, SetModelQuota ?i k, ResumeModel ?i k} \<union> range (SuspendModel ?i k) \<union>
      {e. \<forall>s. apply_effect now e s = s}"
    using assms(1,2) by (auto simp: mark_result_def ma Let_def k_def split: if_splits option.splits)
  have same: "same_but_marks ?i k r r'"
    unfolding r'_def
  proof (rule fold_effects_same)
    fix e s
    assume "e \<in> set ?es"
    then show "same_but_marks ?i k s (apply_effect now e s)" using es by (auto simp: mark_ops_same)
  qed
  moreover have "map_of (rn_quota b) ?i = None \<and> map_of (rn_suspended b) ?i = None"
    if "er_success res" "k \<noteq> []" "registration_at r' k = Some b" for b
  proof -
    have "\<not> quota" using ma that(1) by (auto simp: mark_auth_def Let_def)
    then have "r' = resume_client_model now ?i k (clear_model_quota_exceeded ?i k r)"
      using assms(1,2) that(1,2) by (simp add: r'_def mark_result_def ma Let_def k_def)
    then show ?thesis using lifted_marks [OF assms(1) that(2)] that(3) by simp
  qed
  moreover have "registration_at r k = None" if "registration_at r' k = None"
    using same that by (auto simp: same_but_marks_def split: option.splits)
  ultimately show ?thesis by (auto split: option.splits)
qed

definition shop :: manager where
  "shop = \<lparr>mg_auths = [(''b'', Some (new_auth ''b'' ''codex''))], mg_config = None, mg_quota_off = False,
     mg_transient = 0, mg_store = False, mg_scheduler = False\<rparr>"

definition ok_result :: exec_result where
  "ok_result = \<lparr>er_auth_id = ''b'', er_model = ''m'', er_success = True, er_retry_after = None, er_error = None\<rparr>"

theorem results_touch_own_marks_witness:
  "\<exists>b. registration_at (fold (apply_effect 60) (snd (mark_result 60 ok_result shop)) listed_demo) ''m'' = Some b \<and>
     map_of (rn_quota b) ''b'' = None \<and> map_of (rn_suspended b) ''b'' = None"
proof -
  have k: "canonical_model_key (er_model ok_result) = ''m''" "er_auth_id ok_result = ''b''" "er_success ok_result"
    unfolding ok_result_def by code_simp+
  have a: "lookup_auth shop (er_auth_id ok_result) = Some (new_auth ''b'' ''codex'')"
    by (simp add: lookup_auth_def shop_def ok_result_def)
  have "registration_at listed_demo ''m'' \<noteq> None" by code_simp
  then show ?thesis
    using results_touch_own_marks [OF _ a, where now = 60 and r = listed_demo] k
    by (auto simp del: map_of_eq_Some_iff split: option.splits)
qed

section \<open>Clients and their models\<close>

text \<open>The first model record of each identifier, as an association list.\<close>

definition first_models :: "model_info option list \<Rightarrow> (string \<times> model_info) list" where
  "first_models models = concat (map (\<lambda>mo. case mo of None \<Rightarrow> []
     | Some i \<Rightarrow> if mi_id i = [] then [] else [(mi_id i, i)]) models)"

lemma scan_models_map:
  "scan_models models raw new = (raw', new') \<Longrightarrow> map_of new' m = map_of (new @ first_models models) m"
proof (induction models raw new rule: scan_models.induct)
  case (3 i ms raw new)
  then show ?case
    by (auto simp: first_models_def map_add_def simp del: map_of_eq_Some_iff split: if_splits option.splits)
qed (auto simp: first_models_def)

lemma models_for_loop_first:
  assumes "\<And>m. m \<notin> set seen \<Longrightarrow> map_of new m = map_of (first_models models) m"
  shows "models_for_loop (Some new) r (listed_ids models) seen = clone_infos_unique models seen"
  using assms
proof (induction models arbitrary: seen)
  case (Cons mo models)
  show ?case
  proof (cases mo)
    case None
    then show ?thesis using Cons by (simp add: listed_ids_def first_models_def)
  next
    case (Some i)
    show ?thesis
    proof (cases "mi_id i = [] \<or> mi_id i \<in> set seen")
      case True
      have "models_for_loop (Some new) r (listed_ids models) seen = clone_infos_unique models seen"
        by (rule Cons.IH) (use Cons.prems True Some in \<open>auto simp: first_models_def\<close>)
      then show ?thesis using True Some by (auto simp: listed_ids_def)
    next
      case False
      have "models_for_loop (Some new) r (listed_ids models) (mi_id i # seen) = clone_infos_unique models (mi_id i # seen)"
        by (rule Cons.IH) (use Cons.prems False Some in \<open>auto simp: first_models_def\<close>)
      moreover have "map_of new (mi_id i) = Some i"
        using Cons.prems [of "mi_id i"] False Some by (simp add: first_models_def)
      ultimately show ?thesis using False Some by (simp add: listed_ids_def supply_info_def)
    qed
  qed
qed (simp add: listed_ids_def)

lemma models_for_loop_infos:
  "\<forall>m \<in> set ms. map_of is m \<noteq> None \<Longrightarrow>
   models_for_loop (Some is) r ms seen = models_for_loop (Some is) r' ms seen"
  by (induction ms arbitrary: seen) (auto simp: supply_info_def split: option.splits)

lemma register_client_infos:
  assumes "registry_ok r" "scan_models models [] [] = (raw, new)"
  shows "map_of (rg_client_infos (fst (register_client now c p models r))) =
    (map_of (rg_client_infos r))(c := if raw = [] then None else Some new)"
proof (cases "new = []")
  case True
  have "map_of (rg_client_infos (fst (unregister_client_internal now c r))) c = None"
  proof -
    note u = unregister_internal_ok [OF assms(1), of now c]
    have "clients_ok (fst (unregister_client_internal now c r))" using u(1) by (simp add: registry_ok_def)
    from clients_okD(7) [OF this, of c] show ?thesis using u(2) by simp
  qed
  moreover have "rg_client_infos (fold (\<lambda>m. update_model m (drop_supply c po now)) ms r) = rg_client_infos r" for po ms
    using actsD(3) [OF fold_update_acts [where f = "\<lambda>_. drop_supply c po now" and ms = ms and r = r]] .
  ultimately show ?thesis
    using True scan_models_ok(6) [OF assms(2)]
    by (auto simp: register_client_def assms(2) Let_def case_prod_unfold unregister_client_internal_def
        simp del: map_of_eq_Some_iff split: option.splits)
next
  case False
  obtain r1 where a: "acts (registered now c (to_lower p) raw new r) r r1"
    and r': "fst (register_client now c p models r) = set_client c (to_lower p) raw new r1"
    using register_client_eq [OF assms(2) False] by blast
  show ?thesis using False scan_models_ok(6) [OF assms(2)] actsD(3) [OF a] by (simp add: r')
qed

lemma clone_infos_unique_none: "listed_ids models = [] \<Longrightarrow> clone_infos_unique models seen = []"
  by (induction models seen rule: clone_infos_unique.induct) (auto simp: listed_ids_def split: if_splits)

text \<open>
  What is registered is what is reported: after \<open>RegisterClient\<close> the models of the client are
  exactly the given ones, each identifier once with the first record given for it, and the
  models of every other client are as before; registering no model removes the client.
\<close>

theorem registered_models_reported:
  fixes c p :: string and now :: gotime and models :: "model_info option list"
  assumes "registry_reaches t r"
  defines "r' \<equiv> fst (register_client now c p models r)"
  shows "get_models_for_client d r' =
    (if d = c then clone_infos_unique models [] else get_models_for_client d r)"
proof -
  have ok: "registry_ok r" using registry_reaches_ok [OF assms(1)] by blast
  obtain raw new where sc: "scan_models models [] [] = (raw, new)" by (cases "scan_models models [] []")
  note s = scan_models_ok [OF sc]
  note rc = register_client_ok [OF ok, of now c p models, folded r'_def]
  note inf = register_client_infos [OF ok sc, of now c p, folded r'_def]
  show ?thesis
  proof (cases "d = c")
    case True
    then show ?thesis
    proof (cases "raw = []")
      case empty: True
      then show ?thesis using True rc s(1) clone_infos_unique_none [of models "[]"]
        by (simp add: get_models_for_client_def del: map_of_eq_Some_iff)
    next
      case False
      have "models_for_loop (Some new) r' (listed_ids models) [] = clone_infos_unique models []"
        by (rule models_for_loop_first) (use scan_models_map [OF sc] in simp)
      then show ?thesis using True False rc inf s(1)
        by (simp add: get_models_for_client_def del: map_of_eq_Some_iff)
    qed
  next
    case False
    have e: "client_entry_ok (map_of (rg_client_models r) d) (map_of (rg_client_infos r) d)"
      using ok by (simp add: registry_ok_def clients_ok_def)
    show ?thesis
    proof (cases "map_of (rg_client_models r) d")
      case None
      then show ?thesis using False rc by (simp add: get_models_for_client_def del: map_of_eq_Some_iff)
    next
      case (Some ms)
      then obtain xs where i: "map_of (rg_client_infos r) d = Some xs" "\<forall>m \<in> set ms. map_of xs m \<noteq> None"
        using e by (cases "map_of (rg_client_infos r) d") auto
      then show ?thesis
        using Some False rc inf models_for_loop_infos [of ms xs r' "[]" r]
        by (simp add: get_models_for_client_def del: map_of_eq_Some_iff)
    qed
  qed
qed

theorem registered_models_reported_witness:
  "get_models_for_client ''b'' (fst (register_client 30 ''a'' ''claude'' [] demo_registry)) = [demo_model ''m''] \<and>
   get_models_for_client ''a'' (fst (register_client 30 ''a'' ''claude'' [] demo_registry)) = []"
proof -
  have "get_models_for_client ''b'' demo_registry = [demo_model ''m'']" by code_simp
  then show ?thesis using registered_models_reported [OF demo_registry_reaches, where models = "[]"] by simp
qed

section \<open>Marks that count twice or outlive their client\<close>

text \<open>
  A credential that ran into its quota carries a quota mark and a suspension, and
  \<open>GetModelCount\<close> subtracts both: with two credentials of which one is exhausted the
  count is zero although the other one serves the model.
\<close>

lemma exhausted_client_counts_twice:
  "get_model_count 50 ''m'' listed_demo = 0 \<and> listed listed_demo ''m'' = 2 \<and>
   (\<forall>reg. registration_at listed_demo ''m'' = Some reg \<longrightarrow>
      map_of (rn_quota reg) ''a'' = None \<and> map_of (rn_suspended reg) ''a'' = None)"
proof -
  have "get_model_count 50 ''m'' listed_demo = 0 \<and> listed listed_demo ''m'' = 2 \<and>
    (case registration_at listed_demo ''m'' of None \<Rightarrow> False
     | Some reg \<Rightarrow> map_of (rn_quota reg) ''a'' = None \<and> map_of (rn_suspended reg) ''a'' = None)" by code_simp
  then show ?thesis by (simp del: map_of_eq_Some_iff split: option.splits)
qed

text \<open>
  A suspension that arrives after its client has been removed stays, and hides the model from the
  listings although the remaining client serves it.
\<close>

definition haunted :: model_registry where
  "haunted = registry_step 40 (SuspendOp ''b'' ''m'' ''unauthorized'') (registry_step 30 (UnregisterOp ''b'') demo_registry)"

lemma late_suspension_hides_model:
  "registry_reaches 40 haunted \<and> listed haunted ''m'' = 1 \<and> get_models_for_client ''b'' haunted = [] \<and>
   length (fst (get_available_models 50 ''openai'' haunted)) = 1 \<and>
   length (fst (get_available_models 50 ''openai'' (registry_step 30 (UnregisterOp ''b'') demo_registry))) = 2"
proof -
  have "registry_reaches 40 haunted"
    unfolding haunted_def by (rule registry_next [OF registry_next [OF demo_registry_reaches]]) simp_all
  moreover have "listed haunted ''m'' = 1 \<and> get_models_for_client ''b'' haunted = [] \<and>
    length (fst (get_available_models 50 ''openai'' haunted)) = 1 \<and>
    length (fst (get_available_models 50 ''openai'' (registry_step 30 (UnregisterOp ''b'') demo_registry))) = 2" by code_simp
  ultimately show ?thesis by blast
qed

end
