(* ===== verification/ModelAliases.thy ===== *)
theory ModelAliases
  imports Scheduler RuntimeConfig
begin

text \<open>
  Model aliases (\<open>sdk/cliproxy/auth/oauth_model_alias.go\<close>, \<open>conductor_models.go\<close>): from the
  model a request names to the upstream models one credential is asked for. Aliases come from
  three places: the per-channel table of OAuth aliases, the aliases stored on a credential,
  and the model lists of configured keys, compiled into a table per credential. Decoding and
  encoding the JSON attribute of a credential are the parameters \<open>decode\<close> and \<open>encode\<close>
  (\<open>encoding/json\<close> on a list of alias structures).
\<close>

section \<open>Alias data\<close>

record oauth_alias = model_entry +
  oa_fork :: bool
  oa_display :: string

record oauth_entry =
  oe_upstream :: string
  oe_alias :: string
  oe_force :: bool

type_synonym oauth_table = "(string \<times> (string \<times> oauth_entry) list) list"

record alias_result =
  ar_upstream :: string
  ar_force :: bool
  ar_original :: string

definition no_alias :: alias_result where
  "no_alias = \<lparr>ar_upstream = [], ar_force = False, ar_original = []\<rparr>"

text \<open>\<open>rs_aliases\<close> maps a credential to its compiled alias table.\<close>

record routing_snapshot =
  rs_config :: runtime_config
  rs_aliases :: "(string \<times> (string \<times> string) list) list"

text \<open>What the manager keeps for routing: both tables and the offsets of the model pools.\<close>

record alias_state =
  as_table :: oauth_table
  as_routing :: routing_snapshot
  as_offsets :: "(string \<times> int) list"

section \<open>Names and suffixes\<close>

definition model_alias_lookup_candidates :: "string \<Rightarrow> suffix_result \<times> string list" where
  "model_alias_lookup_candidates requested0 =
     (let requested = trim_space requested0 in
      if requested = []
      then (\<lparr>sr_model_name = [], sr_has_suffix = False, sr_raw_suffix = []\<rparr>, [])
      else
        let request_result = parse_suffix requested;
            base = (if sr_model_name request_result = [] then requested
                    else sr_model_name request_result)
        in (request_result, requested # (if base \<noteq> requested then [base] else [])))"

definition preserve_resolved_model_suffix :: "string \<Rightarrow> suffix_result \<Rightarrow> string" where
  "preserve_resolved_model_suffix resolved0 request_result =
     (let resolved = trim_space resolved0 in
      if resolved = [] then []
      else if sr_has_suffix (parse_suffix resolved) then resolved
      else if sr_has_suffix request_result \<and> sr_raw_suffix request_result \<noteq> []
      then resolved @ ''('' @ sr_raw_suffix request_result @ '')''
      else resolved)"

definition preserve_requested_model_suffix :: "string \<Rightarrow> string \<Rightarrow> string" where
  "preserve_requested_model_suffix requested resolved =
     preserve_resolved_model_suffix resolved (parse_suffix requested)"

section \<open>Configured model lists\<close>

text \<open>The models an alias names, each once up to case, in configuration order.\<close>

fun pool_scan :: "suffix_result \<Rightarrow> string \<Rightarrow> model_entry list \<Rightarrow> string list \<Rightarrow> string list" where
  "pool_scan rr candidate [] seen = []"
| "pool_scan rr candidate (e # es) seen =
     (let name = trim_space (me_name e); alias = trim_space (me_alias e) in
      if candidate = [] \<or> alias = [] \<or> \<not> equal_fold alias candidate
      then pool_scan rr candidate es seen
      else
        let resolved = preserve_resolved_model_suffix (if name \<noteq> [] then name else candidate) rr;
            key = to_lower (trim_space resolved)
        in if key = [] \<or> key \<in> set seen then pool_scan rr candidate es seen
           else resolved # pool_scan rr candidate es (key # seen))"

fun first_pool :: "suffix_result \<Rightarrow> model_entry list \<Rightarrow> string list \<Rightarrow> string list" where
  "first_pool rr models [] = []"
| "first_pool rr models (candidate # cs) =
     (if pool_scan rr candidate models [] \<noteq> [] then pool_scan rr candidate models []
      else first_pool rr models cs)"

fun first_direct :: "suffix_result \<Rightarrow> model_entry list \<Rightarrow> string list \<Rightarrow> string list" where
  "first_direct rr models [] = []"
| "first_direct rr models (candidate # cs) =
     (case find (\<lambda>e. candidate \<noteq> [] \<and> trim_space (me_name e) \<noteq> [] \<and>
                     equal_fold (trim_space (me_name e)) candidate) models of
        Some e \<Rightarrow> [preserve_resolved_model_suffix (trim_space (me_name e)) rr]
      | None \<Rightarrow> first_direct rr models cs)"

definition resolve_model_alias_pool_from_config_models :: "string \<Rightarrow> model_entry list \<Rightarrow> string list" where
  "resolve_model_alias_pool_from_config_models requested0 models =
     (let requested = trim_space requested0 in
      if requested = [] \<or> models = [] then []
      else (case model_alias_lookup_candidates requested of
              (rr, candidates) \<Rightarrow>
                if first_pool rr models candidates \<noteq> [] then first_pool rr models candidates
                else first_direct rr models candidates))"

definition resolve_model_alias_from_config_models :: "string \<Rightarrow> model_entry list \<Rightarrow> string" where
  "resolve_model_alias_from_config_models requested models =
     (case resolve_model_alias_pool_from_config_models requested models of [] \<Rightarrow> [] | m # _ \<Rightarrow> m)"

section \<open>Scanning a list of aliases\<close>

text \<open>
  What one matching entry gives: nothing when it names the requested model itself and does not
  force its alias; else the upstream model and the name responses carry.
\<close>

definition alias_hit :: "suffix_result \<Rightarrow> string \<Rightarrow> string \<Rightarrow> string \<Rightarrow> string \<Rightarrow> bool \<Rightarrow> alias_result" where
  "alias_hit rr base requested original alias force =
     (if equal_fold original base then
        (if \<not> force then no_alias
         else \<lparr>ar_upstream = preserve_resolved_model_suffix original rr, ar_force = force,
               ar_original = trim_space alias\<rparr>)
      else \<lparr>ar_upstream = preserve_resolved_model_suffix original rr, ar_force = force,
            ar_original = (if force then trim_space alias else requested)\<rparr>)"

definition alias_matches :: "string \<Rightarrow> 'a model_entry_scheme \<Rightarrow> bool" where
  "alias_matches key e =
     (trim_space (me_name e) \<noteq> [] \<and> trim_space (me_alias e) \<noteq> [] \<and>
      equal_fold (trim_space (me_alias e)) key)"

fun alias_scan ::
  "suffix_result \<Rightarrow> string \<Rightarrow> string \<Rightarrow> 'a model_entry_scheme list \<Rightarrow> string list \<Rightarrow> alias_result" where
  "alias_scan rr base requested es [] = no_alias"
| "alias_scan rr base requested es (candidate # cs) =
     (if trim_space candidate = [] then alias_scan rr base requested es cs
      else (case find (alias_matches (trim_space candidate)) es of
              None \<Rightarrow> alias_scan rr base requested es cs
            | Some e \<Rightarrow>
                alias_hit rr base requested (trim_space (me_name e)) (trim_space (me_alias e)) (me_force e)))"

definition resolve_model_alias_result_from_config_models :: "string \<Rightarrow> model_entry list \<Rightarrow> alias_result" where
  "resolve_model_alias_result_from_config_models requested0 models =
     (let requested = trim_space requested0 in
      if requested = [] \<or> models = [] then no_alias
      else (case model_alias_lookup_candidates requested of
              (rr, candidates) \<Rightarrow>
                alias_scan rr (if sr_model_name rr = [] then requested else sr_model_name rr)
                  requested models candidates))"

definition resolve_upstream_model_from_aliases :: "oauth_alias list \<Rightarrow> string \<Rightarrow> alias_result" where
  "resolve_upstream_model_from_aliases aliases requested =
     (if aliases = [] then no_alias
      else (case model_alias_lookup_candidates requested of
              (rr, candidates) \<Rightarrow>
                if candidates = [] then no_alias
                else alias_scan rr
                       (if sr_model_name rr = [] then trim_space requested else sr_model_name rr)
                       requested aliases candidates))"

section \<open>The table of OAuth aliases\<close>

fun compile_channel :: "'a model_entry_scheme list \<Rightarrow> (string \<times> oauth_entry) list \<Rightarrow>
    (string \<times> oauth_entry) list" where
  "compile_channel [] rev0 = rev0"
| "compile_channel (e # es) rev0 =
     (let name = trim_space (me_name e); alias = trim_space (me_alias e) in
      if name = [] \<or> alias = [] then compile_channel es rev0
      else if equal_fold name alias then compile_channel es rev0
      else if map_of rev0 (to_lower alias) \<noteq> None then compile_channel es rev0
      else compile_channel es
             (AList.update (to_lower alias)
                \<lparr>oe_upstream = name, oe_alias = alias, oe_force = me_force e\<rparr> rev0))"

fun compile_loop :: "(string \<times> oauth_alias list) list \<Rightarrow> oauth_table \<Rightarrow> oauth_table" where
  "compile_loop [] out = out"
| "compile_loop ((raw_channel, entries) # as) out =
     (let channel = to_lower (trim_space raw_channel); rev0 = compile_channel entries [] in
      if channel = [] \<or> entries = [] then compile_loop as out
      else if rev0 \<noteq> [] then compile_loop as (AList.update channel rev0 out)
      else compile_loop as out)"

definition compile_oauth_model_alias_table :: "(string \<times> oauth_alias list) list \<Rightarrow> oauth_table" where
  "compile_oauth_model_alias_table aliases = compile_loop aliases []"

definition set_oauth_model_alias :: "(string \<times> oauth_alias list) list \<Rightarrow> alias_state \<Rightarrow> alias_state" where
  "set_oauth_model_alias aliases st = st\<lparr>as_table := compile_oauth_model_alias_table aliases\<rparr>"

fun table_scan ::
  "suffix_result \<Rightarrow> string \<Rightarrow> (string \<times> oauth_entry) list \<Rightarrow> string list \<Rightarrow> alias_result" where
  "table_scan rr requested rev0 [] = no_alias"
| "table_scan rr requested rev0 (candidate # cs) =
     (let key = to_lower (trim_space candidate) in
      if key = [] then table_scan rr requested rev0 cs
      else (case map_of rev0 key of
              None \<Rightarrow> table_scan rr requested rev0 cs
            | Some e \<Rightarrow>
                let target = oe_upstream e in
                if target = [] then table_scan rr requested rev0 cs
                else if equal_fold target (sr_model_name rr) then
                  (if \<not> oe_force e then no_alias
                   else \<lparr>ar_upstream = preserve_resolved_model_suffix target rr, ar_force = oe_force e,
                         ar_original = trim_space (oe_alias e)\<rparr>)
                else
                  \<lparr>ar_upstream =
                     (if sr_has_suffix (parse_suffix target) then target
                      else if sr_has_suffix rr \<and> sr_raw_suffix rr \<noteq> []
                      then target @ ''('' @ sr_raw_suffix rr @ '')''
                      else target),
                   ar_force = oe_force e,
                   ar_original = (if oe_force e then trim_space (oe_alias e) else requested)\<rparr>))"

definition resolve_upstream_model_from_alias_table ::
  "oauth_table \<Rightarrow> auth option \<Rightarrow> string \<Rightarrow> string \<Rightarrow> alias_result" where
  "resolve_upstream_model_from_alias_table table ao requested channel =
     (if ao = None \<or> channel = [] then no_alias
      else (case model_alias_lookup_candidates requested of
              (rr, candidates) \<Rightarrow>
                (case map_of table channel of
                   None \<Rightarrow> no_alias
                 | Some rev0 \<Rightarrow> table_scan rr requested rev0 candidates)))"

section \<open>Sanitizing aliases (internal/config/config_normalization.go)\<close>

fun sanitize_channel :: "oauth_alias list \<Rightarrow> string list \<Rightarrow> oauth_alias list" where
  "sanitize_channel [] seen = []"
| "sanitize_channel (e # es) seen =
     (let name = trim_space (me_name e); alias = trim_space (me_alias e) in
      if name = [] \<or> alias = [] then sanitize_channel es seen
      else if equal_fold name alias then sanitize_channel es seen
      else if to_lower alias \<in> set seen then sanitize_channel es seen
      else \<lparr>me_name = name, me_alias = alias, me_force = me_force e, oa_fork = oa_fork e,
            oa_display = trim_space (oa_display e)\<rparr> # sanitize_channel es (to_lower alias # seen))"

fun sanitize_loop ::
  "(string \<times> oauth_alias list) list \<Rightarrow> (string \<times> oauth_alias list) list \<Rightarrow> (string \<times> oauth_alias list) list" where
  "sanitize_loop [] out = out"
| "sanitize_loop ((raw_channel, aliases) # as) out =
     (let channel = to_lower (trim_space raw_channel); clean = sanitize_channel aliases [] in
      if channel = [] \<or> aliases = [] then sanitize_loop as out
      else if clean \<noteq> [] then sanitize_loop as (AList.update channel clean out)
      else sanitize_loop as out)"

definition sanitize_oauth_model_alias :: "(string \<times> oauth_alias list) list \<Rightarrow> (string \<times> oauth_alias list) list" where
  "sanitize_oauth_model_alias aliases = (if aliases = [] then [] else sanitize_loop aliases [])"

definition sanitize_oauth_model_aliases :: "oauth_alias list \<Rightarrow> oauth_alias list" where
  "sanitize_oauth_model_aliases aliases =
     (if aliases = [] then []
      else (case map_of (sanitize_oauth_model_alias [(''auth'', aliases)]) ''auth'' of
              None \<Rightarrow> [] | Some clean \<Rightarrow> clean))"

section \<open>Aliases of a credential\<close>

definition set_oauth_model_aliases_attribute ::
  "(oauth_alias list \<Rightarrow> string option) \<Rightarrow> oauth_alias list \<Rightarrow> auth \<Rightarrow> auth" where
  "set_oauth_model_aliases_attribute encode aliases a =
     (let clean = sanitize_oauth_model_aliases aliases in
      if clean = [] then a
      else (case encode clean of
              None \<Rightarrow> a
            | Some data \<Rightarrow> a\<lparr>a_attributes := (a_attributes a)(''model_aliases'' \<mapsto> data)\<rparr>))"

definition oauth_model_aliases_from_attributes ::
  "(string \<Rightarrow> oauth_alias list option) \<Rightarrow> auth option \<Rightarrow> oauth_alias list" where
  "oauth_model_aliases_from_attributes decode ao =
     (case ao of
        None \<Rightarrow> []
      | Some a \<Rightarrow>
          let raw = auth_attribute a ''model_aliases'' in
          if raw = [] then []
          else (case decode raw of None \<Rightarrow> [] | Some aliases \<Rightarrow> sanitize_oauth_model_aliases aliases))"

definition normalize_oauth_model_alias_auth_kind :: "string \<Rightarrow> string" where
  "normalize_oauth_model_alias_auth_kind kind =
     (let k = to_lower (trim_space kind) in
      if k \<in> set [''api_key'', ''api-key''] then ''apikey'' else k)"

text \<open>The named channels of the switch are the provider itself, as is the default.\<close>

definition oauth_model_alias_channel :: "string \<Rightarrow> string \<Rightarrow> string" where
  "oauth_model_alias_channel provider0 auth_kind0 =
     (let provider = to_lower (trim_space provider0) in
      if normalize_oauth_model_alias_auth_kind auth_kind0 = ''apikey'' then []
      else if provider = ''gemini'' then []
      else provider)"

definition model_alias_channel :: "auth option \<Rightarrow> string" where
  "model_alias_channel ao =
     (case ao of
        None \<Rightarrow> []
      | Some a \<Rightarrow> oauth_model_alias_channel (to_lower (trim_space (a_provider a))) (auth_kind ao))"

definition resolve_oauth_model_alias_with_result ::
  "(string \<Rightarrow> oauth_alias list option) \<Rightarrow> oauth_table \<Rightarrow> auth option \<Rightarrow> string \<Rightarrow> alias_result" where
  "resolve_oauth_model_alias_with_result decode table ao requested =
     (let channel = model_alias_channel ao in
      if channel = [] then no_alias
      else
        let result = resolve_upstream_model_from_aliases
                       (oauth_model_aliases_from_attributes decode ao) requested
        in if ar_upstream result \<noteq> [] then result
           else resolve_upstream_model_from_alias_table table ao requested channel)"

definition apply_oauth_model_alias ::
  "(string \<Rightarrow> oauth_alias list option) \<Rightarrow> oauth_table \<Rightarrow> auth option \<Rightarrow> string \<Rightarrow> string" where
  "apply_oauth_model_alias decode table ao requested =
     (let upstream = ar_upstream (resolve_oauth_model_alias_with_result decode table ao requested)
      in if upstream = [] then requested else upstream)"

definition apply_oauth_model_alias_with_result ::
  "(string \<Rightarrow> oauth_alias list option) \<Rightarrow> oauth_table \<Rightarrow> auth option \<Rightarrow> string \<Rightarrow> alias_result" where
  "apply_oauth_model_alias_with_result decode table ao requested =
     (let result = resolve_oauth_model_alias_with_result decode table ao requested
      in if ar_upstream result = []
         then \<lparr>ar_upstream = requested, ar_force = False, ar_original = []\<rparr> else result)"

section \<open>The alias tables of configured keys\<close>

definition is_configured_model_routing_auth :: "auth option \<Rightarrow> bool" where
  "is_configured_model_routing_auth ao =
     (case ao of
        None \<Rightarrow> False
      | Some a \<Rightarrow>
          if auth_kind ao = ''apikey'' then True
          else if auth_source_kind ao \<noteq> ''config'' then False
          else auth_attribute a ''compat_name'' \<noteq> [])"

definition is_configured_openai_compat_auth :: "auth option \<Rightarrow> bool" where
  "is_configured_openai_compat_auth ao =
     (case ao of
        None \<Rightarrow> False
      | Some a \<Rightarrow>
          if \<not> is_configured_model_routing_auth ao then False
          else if equal_fold (trim_space (a_provider a)) ''openai-compatibility'' then True
          else auth_attribute a ''compat_name'' \<noteq> [])"

definition add_alias :: "string \<Rightarrow> string \<Rightarrow> (string \<times> string) list \<Rightarrow> (string \<times> string) list" where
  "add_alias key0 name out =
     (let key = to_lower (trim_space key0) in
      if key = [] then out
      else if map_of out key = None then AList.update key name out else out)"

fun compile_api_key_model_alias_for_models ::
  "model_entry list \<Rightarrow> (string \<times> string) list \<Rightarrow> (string \<times> string) list" where
  "compile_api_key_model_alias_for_models [] out = out"
| "compile_api_key_model_alias_for_models (e # es) out =
     (let alias = trim_space (me_alias e); name = trim_space (me_name e) in
      if alias = [] \<or> name = [] then compile_api_key_model_alias_for_models es out
      else compile_api_key_model_alias_for_models es
             (add_alias (sr_model_name (parse_suffix name)) name
               (add_alias name name
                 (add_alias (sr_model_name (parse_suffix alias)) name (add_alias alias name out)))))"

fun rebuild_aliases ::
  "runtime_config \<Rightarrow> (string \<times> auth option) list \<Rightarrow> (string \<times> (string \<times> string) list) list \<Rightarrow>
   (string \<times> (string \<times> string) list) list" where
  "rebuild_aliases cfg [] out = out"
| "rebuild_aliases cfg ((i, ao) # as) out =
     (case ao of
        None \<Rightarrow> rebuild_aliases cfg as out
      | Some a \<Rightarrow>
          if trim_space (a_id a) = [] \<or> \<not> is_configured_model_routing_auth ao
          then rebuild_aliases cfg as out
          else
            let by_alias = compile_api_key_model_alias_for_models
                             (configured_model_alias_entries (Some cfg) ao) []
            in rebuild_aliases cfg as
                 (if by_alias \<noteq> [] then AList.update (a_id a) by_alias out else out))"

definition rebuild_api_key_model_alias ::
  "runtime_config \<Rightarrow> (string \<times> auth option) list \<Rightarrow> alias_state \<Rightarrow> alias_state" where
  "rebuild_api_key_model_alias cfg auths st =
     st\<lparr>as_routing := \<lparr>rs_config = cfg, rs_aliases = rebuild_aliases cfg auths []\<rparr>\<rparr>"

fun first_alias :: "(string \<times> string) list \<Rightarrow> string \<Rightarrow> string list \<Rightarrow> string" where
  "first_alias by_alias requested [] = []"
| "first_alias by_alias requested (key # ks) =
     (let resolved = trim_space (case map_of by_alias key of None \<Rightarrow> [] | Some v \<Rightarrow> v) in
      if resolved \<noteq> [] then preserve_requested_model_suffix requested resolved
      else first_alias by_alias requested ks)"

definition lookup_api_key_upstream_model :: "routing_snapshot \<Rightarrow> string \<Rightarrow> string \<Rightarrow> string" where
  "lookup_api_key_upstream_model routing auth_id0 requested0 =
     (let auth_id = trim_space auth_id0; requested = trim_space requested0;
          by_alias = (case map_of (rs_aliases routing) auth_id of None \<Rightarrow> [] | Some m \<Rightarrow> m);
          base_key = to_lower (trim_space (sr_model_name (parse_suffix requested)))
      in if auth_id = [] \<or> requested = [] \<or> by_alias = [] then []
         else first_alias by_alias requested
                (to_lower requested #
                 (if base_key \<noteq> [] \<and> base_key \<noteq> to_lower requested then [base_key] else [])))"

text \<open>One search per provider in the source, each over the models of the matching entry.\<close>

definition resolve_upstream_model_for_key :: "runtime_config \<Rightarrow> auth option \<Rightarrow> string \<Rightarrow> string" where
  "resolve_upstream_model_for_key cfg ao requested =
     resolve_model_alias_from_config_models requested (configured_model_alias_entries (Some cfg) ao)"

definition apply_api_key_model_alias_with_routing ::
  "routing_snapshot \<Rightarrow> auth option \<Rightarrow> string \<Rightarrow> string" where
  "apply_api_key_model_alias_with_routing routing ao requested0 =
     (case ao of
        None \<Rightarrow> requested0
      | Some a \<Rightarrow>
          if auth_kind ao \<noteq> ''apikey'' then requested0
          else
            let requested = trim_space requested0;
                fast = lookup_api_key_upstream_model routing (a_id a) requested;
                slow = resolve_upstream_model_for_key (rs_config routing) ao requested
            in if requested = [] then requested
               else if fast \<noteq> [] then fast
               else if slow \<noteq> [] then slow
               else requested)"

definition resolve_api_key_model_alias_with_result ::
  "runtime_config \<Rightarrow> auth option \<Rightarrow> string \<Rightarrow> alias_result" where
  "resolve_api_key_model_alias_with_result cfg ao requested0 =
     (let requested = trim_space requested0; models = configured_model_alias_entries (Some cfg) ao;
          result = resolve_model_alias_result_from_config_models requested models;
          plain = \<lparr>ar_upstream = requested, ar_force = False, ar_original = []\<rparr>
      in if ao = None \<or> requested = [] then no_alias
         else if models = [] then plain
         else if trim_space (ar_upstream result) = [] then plain
         else result)"

definition resolve_model_alias_result_for_upstream ::
  "runtime_config \<Rightarrow> auth option \<Rightarrow> string \<Rightarrow> string \<Rightarrow> alias_result" where
  "resolve_model_alias_result_for_upstream cfg ao requested0 upstream0 =
     (let requested = trim_space requested0; upstream = trim_space upstream0;
          filtered = filter (\<lambda>e. trim_space (me_name e) \<noteq> [] \<and>
              equal_fold (preserve_resolved_model_suffix (trim_space (me_name e)) (parse_suffix requested))
                upstream) (configured_model_alias_entries (Some cfg) ao)
      in if requested = [] \<or> upstream = [] \<or> filtered = [] then no_alias
         else resolve_model_alias_result_from_config_models requested filtered)"

end
