(* ===== verification/ExecutionModels.thy ===== *)
theory ExecutionModels
  imports ModelAliases ErrorClass
begin

text \<open>
  From a route model to the upstream models of one credential
  (\<open>sdk/cliproxy/auth/conductor_models.go\<close>): the prefix of the credential, its aliases, the
  rotation through the pool of models one alias names, the filter that drops models in
  cooldown, and the model a result is recorded under.
\<close>

section \<open>Prefix and pool\<close>

definition rewrite_model_for_auth :: "string \<Rightarrow> auth option \<Rightarrow> string" where
  "rewrite_model_for_auth model ao =
     (case ao of
        None \<Rightarrow> model
      | Some a \<Rightarrow>
          let prefix = trim_space (a_prefix a); needle = prefix @ ''/'' in
          if model = [] \<or> prefix = [] then model
          else if \<not> has_prefix model needle then model
          else trim_prefix model needle)"

definition openai_compat_provider_key :: "auth \<Rightarrow> string" where
  "openai_compat_provider_key a =
     (if auth_attribute a ''provider_key'' \<noteq> []
      then openai_compatible_provider_key (auth_attribute a ''provider_key'')
      else if auth_attribute a ''compat_name'' \<noteq> []
      then openai_compatible_provider_key (auth_attribute a ''compat_name'')
      else openai_compatible_provider_key (a_provider a))"

definition openai_compat_model_pool_key :: "auth \<Rightarrow> string \<Rightarrow> string" where
  "openai_compat_model_pool_key a requested =
     (let b0 = trim_space (sr_model_name (parse_suffix requested));
          base = (if b0 = [] then trim_space requested else b0)
      in to_lower (trim_space (a_id a)) @ ''|'' @ openai_compat_provider_key a @ ''|'' @ to_lower base)"

definition pool_offset_limit :: int where
  "pool_offset_limit = 2147483640"

definition next_model_pool_offset ::
  "string \<Rightarrow> int \<Rightarrow> (string \<times> int) list \<Rightarrow> int \<times> (string \<times> int) list" where
  "next_model_pool_offset key0 slots offsets =
     (let key = trim_space key0 in
      if slots \<le> 1 then (0, offsets)
      else if key = [] then (0, offsets)
      else
        let o0 = (case map_of offsets key of None \<Rightarrow> 0 | Some v \<Rightarrow> v);
            offset = (if o0 \<ge> pool_offset_limit then 0 else o0)
        in (go_rem offset slots, AList.update key (offset + 1) offsets))"

definition rotate_strings :: "string list \<Rightarrow> int \<Rightarrow> string list" where
  "rotate_strings values offset0 =
     (if length values \<le> 1 then values
      else if offset0 \<le> 0 then values
      else let offset = nat (go_rem offset0 (int (length values)))
           in drop offset values @ take offset values)"

definition resolve_openai_compat_upstream_model_pool ::
  "runtime_config \<Rightarrow> auth option \<Rightarrow> string \<Rightarrow> string list" where
  "resolve_openai_compat_upstream_model_pool cfg ao requested0 =
     (case ao of
        None \<Rightarrow> []
      | Some a \<Rightarrow>
          let requested = trim_space requested0 in
          if \<not> is_configured_openai_compat_auth ao \<or> requested = [] then []
          else (case resolve_openai_compat_config_for_auth (Some cfg) ao
                       (auth_attribute a ''provider_key'') (auth_attribute a ''compat_name'') of
                  None \<Rightarrow> []
                | Some e \<Rightarrow> resolve_model_alias_pool_from_config_models requested (cc_models e)))"

section \<open>The alias forced by the control plane\<close>

fun valid_utf8 :: "string \<Rightarrow> bool" where
  "valid_utf8 [] = True"
| "valid_utf8 (c # cs) =
     (let n = (of_char c :: nat); cont = (\<lambda>lo hi x. let k = (of_char x :: nat) in lo \<le> k \<and> k \<le> hi) in
      if n < 0x80 then valid_utf8 cs
      else if 0xC2 \<le> n \<and> n \<le> 0xDF then
        (case cs of a # r \<Rightarrow> cont 0x80 0xBF a \<and> valid_utf8 r | _ \<Rightarrow> False)
      else if 0xE0 \<le> n \<and> n \<le> 0xEF then
        (case cs of
           a # b # r \<Rightarrow>
             cont (if n = 0xE0 then 0xA0 else 0x80) (if n = 0xED then 0x9F else 0xBF) a \<and>
             cont 0x80 0xBF b \<and> valid_utf8 r
         | _ \<Rightarrow> False)
      else if 0xF0 \<le> n \<and> n \<le> 0xF4 then
        (case cs of
           a # b # d # r \<Rightarrow>
             cont (if n = 0xF0 then 0x90 else 0x80) (if n = 0xF4 then 0x8F else 0xBF) a \<and>
             cont 0x80 0xBF b \<and> cont 0x80 0xBF d \<and> valid_utf8 r
         | _ \<Rightarrow> False)
      else False)"

text \<open>The loop over the digits of a budget; it stops as soon as the value leaves 31 bits.\<close>

fun budget_digits :: "int \<Rightarrow> string \<Rightarrow> bool" where
  "budget_digits parsed [] = True"
| "budget_digits parsed (c # cs) =
     (if \<not> is_digit c then False
      else let p = parsed * 10 + int (digit_val c) in
           if p > 2147483647 then False else budget_digits p cs)"

definition recognized_home_concurrency_suffix :: "string \<Rightarrow> bool" where
  "recognized_home_concurrency_suffix v =
     (if v = ''-1'' then True
      else if to_lower v \<in> set [''none'', ''auto'', ''minimal'', ''low'', ''medium'', ''high'', ''xhigh'', ''max'']
      then True
      else if v = [] \<or> length v > 10 then False
      else budget_digits 0 v)"

text \<open>The ASCII white space the function trims is that of \<open>is_space\<close>.\<close>

definition canonical_home_concurrency_model_key :: "string \<Rightarrow> string" where
  "canonical_home_concurrency_model_key model =
     (let trimmed = to_lower (trim_space model) in
      if \<not> valid_utf8 model then []
      else if \<not> has_suffix trimmed '')'' then trimmed
      else (case last_index trimmed (CHR ''('') of
              None \<Rightarrow> trimmed
            | Some i \<Rightarrow>
                let suffix = drop (i + 1) (take (length trimmed - 1) trimmed);
                    base = trim_space (take i trimmed)
                in if \<not> recognized_home_concurrency_suffix suffix then trimmed
                   else if base = [] then trimmed
                   else base))"

definition home_force_mapping_alias_result :: "auth option \<Rightarrow> string \<Rightarrow> alias_result" where
  "home_force_mapping_alias_result ao requested =
     (case ao of
        None \<Rightarrow> no_alias
      | Some a \<Rightarrow>
          if \<not> equal_fold (auth_attribute a ''home_force_mapping'') ''true'' then no_alias
          else
            let original = auth_attribute a ''home_original_alias'';
                canonical_original = canonical_home_concurrency_model_key
                  (case a_attributes a ''home_original_alias'' of None \<Rightarrow> [] | Some v \<Rightarrow> v);
                up = auth_attribute a ''home_upstream_model''
            in if canonical_original = [] \<or>
                  canonical_original \<noteq> canonical_home_concurrency_model_key requested
               then no_alias
               else \<lparr>ar_upstream = (if up = [] then trim_space requested else up),
                     ar_force = True, ar_original = original\<rparr>)"

section \<open>The models of one execution\<close>

text \<open>\<open>decode\<close> reads the alias attribute of a credential (see \<open>ModelAliases\<close>).\<close>

definition selection_model_for_auth ::
  "(string \<Rightarrow> oauth_alias list option) \<Rightarrow> oauth_table \<Rightarrow> auth option \<Rightarrow> string \<Rightarrow> string" where
  "selection_model_for_auth decode table ao route_model =
     (let r0 = rewrite_model_for_auth route_model ao;
          requested = (if trim_space r0 = [] then trim_space route_model else r0);
          resolved = apply_oauth_model_alias decode table ao requested
      in if trim_space resolved = [] then requested else resolved)"

definition selection_model_key_for_auth ::
  "(string \<Rightarrow> oauth_alias list option) \<Rightarrow> oauth_table \<Rightarrow> auth option \<Rightarrow> string \<Rightarrow> string" where
  "selection_model_key_for_auth decode table ao route_model =
     canonical_model_key (selection_model_for_auth decode table ao route_model)"

definition execution_result_model :: "string \<Rightarrow> string \<Rightarrow> bool \<Rightarrow> string" where
  "execution_result_model route_model upstream pooled =
     (if pooled \<and> trim_space upstream \<noteq> [] then trim_space upstream
      else if trim_space route_model \<noteq> [] then trim_space route_model
      else trim_space upstream)"

definition home_model :: "auth option \<Rightarrow> string" where
  "home_model ao = (case ao of None \<Rightarrow> [] | Some a \<Rightarrow> auth_attribute a ''home_upstream_model'')"

definition state_model_for_execution ::
  "(string \<Rightarrow> oauth_alias list option) \<Rightarrow> oauth_table \<Rightarrow> auth option \<Rightarrow> string \<Rightarrow> string \<Rightarrow> bool \<Rightarrow> string" where
  "state_model_for_execution decode table ao route_model upstream pooled =
     (if home_model ao \<noteq> []
      then (if trim_space upstream \<noteq> [] then trim_space upstream else home_model ao)
      else
        let selection = selection_model_for_auth decode table ao route_model in
        if canonical_model_key selection = canonical_model_key upstream \<and> trim_space selection \<noteq> []
        then trim_space upstream
        else execution_result_model route_model upstream pooled)"

definition filter_execution_models ::
  "(string \<Rightarrow> oauth_alias list option) \<Rightarrow> oauth_table \<Rightarrow> gotime \<Rightarrow> auth option \<Rightarrow> string \<Rightarrow>
   string list \<Rightarrow> bool \<Rightarrow> string list" where
  "filter_execution_models decode table now ao route_model candidates pooled =
     filter (\<lambda>upstream. \<not> blocked ao
        (state_model_for_execution decode table ao route_model upstream pooled) now) candidates"

definition resolve_execution_alias_result_for_requested ::
  "(string \<Rightarrow> oauth_alias list option) \<Rightarrow> alias_state \<Rightarrow> auth option \<Rightarrow> string \<Rightarrow> alias_result" where
  "resolve_execution_alias_result_for_requested decode st ao requested =
     (let home = home_force_mapping_alias_result ao requested in
      if ar_force home then home
      else if is_configured_model_routing_auth ao
      then resolve_api_key_model_alias_with_result (rs_config (as_routing st)) ao requested
      else apply_oauth_model_alias_with_result decode (as_table st) ao requested)"

definition execution_alias_pool_model :: "auth option \<Rightarrow> string \<Rightarrow> alias_result \<Rightarrow> string" where
  "execution_alias_pool_model ao requested result =
     (if is_configured_model_routing_auth ao \<and> trim_space requested \<noteq> [] then requested
      else if trim_space (ar_upstream result) \<noteq> [] then ar_upstream result
      else requested)"

text \<open>The pool of the model and the offset it starts at, or the alias of the key.\<close>

definition pool_or_alias_candidates ::
  "alias_state \<Rightarrow> auth option \<Rightarrow> string \<Rightarrow> string list \<times> alias_state" where
  "pool_or_alias_candidates st ao upstream =
     (let pool = resolve_openai_compat_upstream_model_pool (rs_config (as_routing st)) ao upstream;
          resolved = apply_api_key_model_alias_with_routing (as_routing st) ao upstream
      in case ao of
           None \<Rightarrow> ([if trim_space resolved = [] then upstream else resolved], st)
         | Some a \<Rightarrow>
             if length pool > 0 then
               (if length pool = 1 then (pool, st)
                else (case next_model_pool_offset (openai_compat_model_pool_key a upstream)
                             (int (length pool)) (as_offsets st) of
                        (offset, offsets) \<Rightarrow>
                          (rotate_strings pool offset, st\<lparr>as_offsets := offsets\<rparr>)))
             else ([if trim_space resolved = [] then upstream else resolved], st))"

definition execution_model_candidates ::
  "(string \<Rightarrow> oauth_alias list option) \<Rightarrow> alias_state \<Rightarrow> auth option \<Rightarrow> string \<Rightarrow>
   string list \<times> alias_state" where
  "execution_model_candidates decode st ao route_model =
     (if home_model ao \<noteq> [] then ([home_model ao], st)
      else pool_or_alias_candidates st ao
             (apply_oauth_model_alias decode (as_table st) ao (rewrite_model_for_auth route_model ao)))"

definition execution_model_candidates_with_alias ::
  "(string \<Rightarrow> oauth_alias list option) \<Rightarrow> alias_state \<Rightarrow> auth option \<Rightarrow> string \<Rightarrow>
   (string list \<times> bool \<times> alias_result) \<times> alias_state" where
  "execution_model_candidates_with_alias decode st ao route_model =
     (let requested = rewrite_model_for_auth route_model ao;
          r0 = resolve_execution_alias_result_for_requested decode st ao requested;
          forced = (case ao of None \<Rightarrow> False
                             | Some a \<Rightarrow> equal_fold (auth_attribute a ''home_force_mapping'') ''true'');
          result = (if ar_force r0 \<and> forced then r0\<lparr>ar_original := trim_space route_model\<rparr> else r0);
          upstream = execution_alias_pool_model ao requested result
      in case (if home_model ao \<noteq> [] then ([home_model ao], st)
               else pool_or_alias_candidates st ao upstream) of
           (candidates, st') \<Rightarrow> ((candidates, length candidates > 1, result), st'))"

definition prepared_execution_models_with_alias ::
  "(string \<Rightarrow> oauth_alias list option) \<Rightarrow> gotime \<Rightarrow> alias_state \<Rightarrow> auth option \<Rightarrow> string \<Rightarrow>
   (string list \<times> bool \<times> alias_result) \<times> alias_state" where
  "prepared_execution_models_with_alias decode now st ao route_model =
     (case execution_model_candidates_with_alias decode st ao route_model of
        ((candidates, pooled, result), st') \<Rightarrow>
          ((filter_execution_models decode (as_table st') now ao route_model candidates pooled,
            pooled, result), st'))"

definition resolve_attempt_alias_result ::
  "routing_snapshot \<Rightarrow> auth option \<Rightarrow> string \<Rightarrow> string \<Rightarrow> alias_result \<Rightarrow> alias_result" where
  "resolve_attempt_alias_result routing ao route_model upstream fallback =
     (let result = resolve_model_alias_result_for_upstream (rs_config routing) ao
                     (rewrite_model_for_auth route_model ao) upstream
      in if \<not> is_configured_model_routing_auth ao then fallback
         else if trim_space (ar_upstream result) = [] then fallback
         else if ar_force result \<and> ar_force fallback \<and> trim_space (ar_original fallback) \<noteq> []
         then result\<lparr>ar_original := ar_original fallback\<rparr>
         else result)"

end
