(* ===== verification/AliasProps.thy ===== *)
theory AliasProps
  imports ExecutionModels
begin

text \<open>
  Lemmas about model aliases: the compiled table of a channel and the sanitized list read the
  same entry, what the suffix of a resolved model is, and how the pool of one alias rotates.
\<close>

named_theorems go_alias \<open>unfolding of alias results\<close>

section \<open>Trimming\<close>

lemma to_lower_eq_equal_fold: "equal_fold a b \<longleftrightarrow> to_lower a = to_lower b"
  by (simp add: equal_fold_def)

lemma equal_fold_Nil [simp]: "equal_fold [] s \<longleftrightarrow> s = []" "equal_fold s [] \<longleftrightarrow> s = []"
  by (auto simp: equal_fold_def) (metis to_lower_Nil_iff)+

lemma equal_fold_trans: "equal_fold a b \<Longrightarrow> equal_fold b c \<Longrightarrow> equal_fold a c"
  by (simp add: equal_fold_def)

section \<open>Tables and lists\<close>

text \<open>The entries that count, the key they are found under, and their stored forms.\<close>

definition usable :: "'a model_entry_scheme \<Rightarrow> bool" where
  "usable e = (trim_space (me_name e) \<noteq> [] \<and> trim_space (me_alias e) \<noteq> [] \<and>
     \<not> equal_fold (trim_space (me_name e)) (trim_space (me_alias e)))"

definition usable_for :: "string \<Rightarrow> 'a model_entry_scheme \<Rightarrow> bool" where
  "usable_for k e = (usable e \<and> to_lower (trim_space (me_alias e)) = k)"

definition table_entry :: "'a model_entry_scheme \<Rightarrow> oauth_entry" where
  "table_entry e =
     \<lparr>oe_upstream = trim_space (me_name e), oe_alias = trim_space (me_alias e), oe_force = me_force e\<rparr>"

definition clean_entry :: "oauth_alias \<Rightarrow> oauth_alias" where
  "clean_entry e =
     \<lparr>me_name = trim_space (me_name e), me_alias = trim_space (me_alias e), me_force = me_force e,
      oa_fork = oa_fork e, oa_display = trim_space (oa_display e)\<rparr>"

lemma clean_entry_fields [simp]:
  "me_name (clean_entry e) = trim_space (me_name e)" "me_alias (clean_entry e) = trim_space (me_alias e)"
  "me_force (clean_entry e) = me_force e" "oa_fork (clean_entry e) = oa_fork e"
  "oa_display (clean_entry e) = trim_space (oa_display e)"
  by (simp_all add: clean_entry_def)

lemma clean_entry_idem [simp]: "clean_entry (clean_entry e) = clean_entry e"
  by (simp add: clean_entry_def)

lemma usable_clean [simp]: "usable (clean_entry e) = usable e"
  by (simp add: usable_def)

lemma compile_channel_lookup:
  "map_of (compile_channel es rev0) k =
     (case map_of rev0 k of
        Some x \<Rightarrow> Some x | None \<Rightarrow> map_option table_entry (find (usable_for k) es))"
proof (induction es arbitrary: rev0)
  case (Cons e es)
  show ?case
    by (auto simp: Cons.IH Let_def usable_for_def usable_def table_entry_def
        simp del: compile_channel.simps(1) split: option.splits)
qed (simp split: option.split)

lemma sanitize_channel_find:
  "find (alias_matches key) (sanitize_channel es seen) =
     (if to_lower key \<in> set seen then None
      else map_option clean_entry (find (usable_for (to_lower key)) es))"
proof (induction es arbitrary: seen)
  case (Cons e es)
  show ?case
    by (simp add: Cons.IH Let_def)
      (auto simp: usable_for_def usable_def alias_matches_def equal_fold_def clean_entry_def)
qed simp

lemma sanitize_channel_usable: "e \<in> set (sanitize_channel es seen) \<Longrightarrow>
    \<exists>x\<in>set es. usable x \<and> e = clean_entry x \<and> to_lower (trim_space (me_alias x)) \<notin> set seen"
  by (induction es seen rule: sanitize_channel.induct)
    (auto simp: Let_def usable_def clean_entry_def split: if_splits)

lemma sanitize_channel_distinct:
  "distinct (map (\<lambda>e. to_lower (trim_space (me_alias e))) (sanitize_channel es seen))"
  by (induction es seen rule: sanitize_channel.induct)
    (auto simp: Let_def dest!: sanitize_channel_usable split: if_splits)

lemma sanitize_channel_id:
  assumes "\<forall>e\<in>set es. usable e \<and> clean_entry e = e"
    and "distinct (map (\<lambda>e. to_lower (trim_space (me_alias e))) es)"
    and "\<forall>e\<in>set es. to_lower (trim_space (me_alias e)) \<notin> set seen"
  shows "sanitize_channel es seen = es"
  using assms
proof (induction es arbitrary: seen)
  case (Cons e es)
  have "sanitize_channel es (to_lower (trim_space (me_alias e)) # seen) = es"
    using Cons.prems by (intro Cons.IH) (auto simp: image_iff dest!: bspec)
  moreover have "clean_entry e = e" "usable e" "to_lower (trim_space (me_alias e)) \<notin> set seen"
    using Cons.prems by auto
  ultimately show ?case
    by (simp add: Let_def usable_def clean_entry_def)
qed simp

lemma trim_space_auth [simp]: "trim_space ''auth'' = ''auth''" "to_lower ''auth'' = ''auth''"
  by code_simp+

lemma sanitize_aliases_channel: "sanitize_oauth_model_aliases es = sanitize_channel es []"
  by (simp add: sanitize_oauth_model_aliases_def sanitize_oauth_model_alias_def Let_def)

lemma sanitize_aliases_idem:
  "sanitize_oauth_model_aliases (sanitize_oauth_model_aliases es) = sanitize_oauth_model_aliases es"
  unfolding sanitize_aliases_channel
  by (rule sanitize_channel_id)
    (auto intro: sanitize_channel_distinct dest: sanitize_channel_usable)

text \<open>The compiled table has, at a channel, the compiled entries of its last configuration.\<close>

definition channel_key :: "string \<times> 'e \<Rightarrow> string" where
  "channel_key p = to_lower (trim_space (fst p))"

lemma compile_channel_Nil_iff: "compile_channel es [] = [] \<longleftrightarrow> (\<forall>k. find (usable_for k) es = None)"
proof
  assume "compile_channel es [] = []"
  then have "map_of (compile_channel es []) k = None" for k by simp
  then show "\<forall>k. find (usable_for k) es = None" by (simp add: compile_channel_lookup)
next
  assume "\<forall>k. find (usable_for k) es = None"
  then have "\<And>k. map_of (compile_channel es []) k = None" by (simp add: compile_channel_lookup)
  then show "compile_channel es [] = []" by (metis map_of_eq_empty_iff)
qed

lemma compile_loop_other:
  "ch \<notin> channel_key ` set as \<Longrightarrow> map_of (compile_loop as out) ch = map_of out ch"
  by (induction as out rule: compile_loop.induct)
    (auto simp: channel_key_def Let_def)

lemma compile_loop_lookup:
  assumes "distinct (map channel_key as)" "(raw, es) \<in> set as" "channel_key (raw, es) = ch" "ch \<noteq> []"
    and "map_of out ch = None"
  shows "map_of (compile_loop as out) ch =
    (if compile_channel es [] = [] then None else Some (compile_channel es []))"
  using assms
proof (induction as arbitrary: out)
  case (Cons p as)
  obtain r es' where p: "p = (r, es')" by (cases p)
  show ?case
  proof (cases "p = (raw, es)")
    case True
    have "ch \<notin> channel_key ` set as" using Cons.prems(1,3) True by auto
    then show ?thesis
      using Cons.prems True by (auto simp: compile_loop_other channel_key_def Let_def)
  next
    case False
    then have m: "(raw, es) \<in> set as" using Cons.prems(2) by simp
    then have ne: "channel_key p \<noteq> ch" using Cons.prems(1,3) by force
    have "map_of (compile_loop as out') ch =
        (if compile_channel es [] = [] then None else Some (compile_channel es []))"
      if "map_of out' ch = None" for out'
      using Cons.prems m that by (intro Cons.IH) auto
    then show ?thesis
      using Cons.prems(5) ne by (auto simp: p channel_key_def Let_def)
  qed
qed simp

section \<open>Both scans agree\<close>

lemma find_member: "find P xs = Some x \<Longrightarrow> x \<in> set xs \<and> P x"
  by (auto simp: find_Some_iff)

lemma trim_resolved:
  "trim_space t = t \<Longrightarrow> t \<noteq> [] \<Longrightarrow> preserve_resolved_model_suffix t rr =
    (if sr_has_suffix (parse_suffix t) then t
     else if sr_has_suffix rr \<and> sr_raw_suffix rr \<noteq> [] then t @ ''('' @ sr_raw_suffix rr @ '')'' else t)"
  by (simp add: preserve_resolved_model_suffix_def)

lemma find_usable: "find (usable_for k) es = Some e \<Longrightarrow> usable e \<and> to_lower (trim_space (me_alias e)) = k"
  by (simp add: find_Some_iff usable_for_def) blast

lemma table_scan_list:
  assumes "\<And>e c. e \<in> set es \<Longrightarrow> usable e \<Longrightarrow> c \<in> set cs \<Longrightarrow>
      to_lower (trim_space (me_alias e)) = to_lower (trim_space c) \<Longrightarrow>
      equal_fold (trim_space (me_name e)) base = equal_fold (trim_space (me_name e)) (sr_model_name rr)"
  shows "table_scan rr requested (compile_channel es []) cs = alias_scan rr base requested (sanitize_channel es []) cs"
  using assms
proof (induction cs)
  case (Cons c cs)
  have rest: "table_scan rr requested (compile_channel es []) cs = alias_scan rr base requested (sanitize_channel es []) cs"
    using Cons.prems by (intro Cons.IH) auto
  show ?case
  proof (cases "find (usable_for (to_lower (trim_space c))) es")
    case None
    then show ?thesis using rest by (simp add: Let_def compile_channel_lookup sanitize_channel_find)
  next
    case (Some e)
    note u = find_usable [OF Some]
    have "e \<in> set es" using Some by (simp add: find_member)
    then have b: "equal_fold (trim_space (me_name e)) base = equal_fold (trim_space (me_name e)) (sr_model_name rr)"
      using Cons.prems u by auto
    have "map_of (compile_channel es []) (to_lower (trim_space c)) = Some (table_entry e)"
      "find (alias_matches (trim_space c)) (sanitize_channel es []) = Some (clean_entry e)"
      using Some by (simp_all add: compile_channel_lookup sanitize_channel_find)
    then show ?thesis
      using u b rest
      by (simp add: Let_def alias_hit_def table_entry_def usable_def trim_resolved)
  qed
qed simp

lemma lookup_candidates_cases:
  assumes "model_alias_lookup_candidates requested = (rr, cs)"
  obtains (empty) "trim_space requested = []" "cs = []"
    | (whole) "trim_space requested \<noteq> []" "rr = parse_suffix (trim_space requested)" "sr_model_name rr = []"
        "cs = [trim_space requested]"
    | (base) "trim_space requested \<noteq> []" "rr = parse_suffix (trim_space requested)" "sr_model_name rr \<noteq> []"
        "set cs = {trim_space requested, sr_model_name rr}"
  using assms by (auto simp: model_alias_lookup_candidates_def Let_def split: if_splits)

lemma table_scan_sanitized:
  assumes "model_alias_lookup_candidates requested = (rr, cs)"
  shows "table_scan rr requested (compile_channel es []) cs =
    alias_scan rr (if sr_model_name rr = [] then trim_space requested else sr_model_name rr) requested
      (sanitize_channel es []) cs"
proof (rule table_scan_list)
  fix e c
  assume u: "usable e" and c: "c \<in> set cs"
    and k: "to_lower (trim_space (me_alias e)) = to_lower (trim_space c)"
  show "equal_fold (trim_space (me_name e))
      (if sr_model_name rr = [] then trim_space requested else sr_model_name rr) =
    equal_fold (trim_space (me_name e)) (sr_model_name rr)"
    using assms
  proof (cases rule: lookup_candidates_cases)
    case whole
    then have "c = trim_space requested" using c by simp
    then show ?thesis using u k whole by (auto simp: usable_def equal_fold_def)
  qed (use c in auto)
qed

lemma scan_Nil: "alias_scan rr base requested [] cs = no_alias"
  by (induction cs) auto

section \<open>The suffix of a resolved model\<close>

lemma raw_suffix_no_open: "CHR ''('' \<notin> set (sr_raw_suffix (parse_suffix m))"
proof (cases "last_index m CHR ''(''")
  case (Some i)
  then have "CHR ''('' \<notin> set (drop (Suc i) m)" using last_index_Some [OF Some] by simp
  then have "CHR ''('' \<notin> set (drop (Suc i) (take (length m - 1) m))"
    by (auto simp: drop_take dest: in_set_takeD)
  then show ?thesis using Some by (simp add: parse_suffix_def)
qed (simp add: parse_suffix_def)

lemma parse_no_suffix: "\<not> sr_has_suffix (parse_suffix m) \<Longrightarrow>
    sr_model_name (parse_suffix m) = m \<and> sr_raw_suffix (parse_suffix m) = []"
  by (auto simp: parse_suffix_def split: option.splits if_splits)

text \<open>\<open>carries n rr up\<close>: \<open>up\<close> is the configured name \<open>n\<close> with its own suffix, else with the request's.\<close>

definition carries :: "string \<Rightarrow> suffix_result \<Rightarrow> string \<Rightarrow> bool" where
  "carries n rr up =
     (sr_model_name (parse_suffix up) = sr_model_name (parse_suffix n) \<and>
      sr_raw_suffix (parse_suffix up) =
        (if sr_has_suffix (parse_suffix n) then sr_raw_suffix (parse_suffix n)
         else if sr_has_suffix rr then sr_raw_suffix rr else []))"

lemma preserve_carries:
  assumes "trim_space n = n" "n \<noteq> []" and rr: "CHR ''('' \<notin> set (sr_raw_suffix rr)"
  shows "carries n rr (preserve_resolved_model_suffix n rr)"
  using assms parse_no_suffix [of n] parse_suffix_compose [OF rr, of n]
  by (auto simp: trim_resolved carries_def)

lemma lookup_raw: "model_alias_lookup_candidates requested = (rr, cs) \<Longrightarrow> CHR ''('' \<notin> set (sr_raw_suffix rr)"
  using raw_suffix_no_open by (auto simp: model_alias_lookup_candidates_def Let_def split: if_splits)

lemma alias_scan_entry:
  assumes "ar_upstream (alias_scan rr base requested es cs) \<noteq> []"
  shows "\<exists>e\<in>set es. trim_space (me_name e) \<noteq> [] \<and>
    ar_upstream (alias_scan rr base requested es cs) = preserve_resolved_model_suffix (trim_space (me_name e)) rr"
  using assms
proof (induction cs)
  case (Cons c cs)
  show ?case
  proof (cases "find (alias_matches (trim_space c)) es")
    case None
    then show ?thesis using Cons by (simp split: if_splits)
  next
    case (Some e)
    then have "e \<in> set es" "alias_matches (trim_space c) e"
      by (simp_all add: find_member)
    then show ?thesis
      using Some Cons by (auto simp: alias_hit_def no_alias_def alias_matches_def split: if_splits)
  qed
qed (simp add: no_alias_def)

section \<open>The rotation of a pool\<close>

lemma trim_space_keeps: "c \<in> set s \<Longrightarrow> \<not> is_space c \<Longrightarrow> trim_space s \<noteq> []"
proof
  assume c: "c \<in> set s" "\<not> is_space c" and e: "trim_space s = []"
  have "trim_left s \<noteq> []" using c by (auto simp: trim_left_def dropWhile_eq_Nil_conv)
  then have "\<not> is_space (hd (trim_left s))" by (metis list.collapse trim_left_hd)
  moreover have "\<forall>x\<in>set (trim_left s). is_space x"
    using e by (auto simp: trim_space_def trim_right_def dropWhile_eq_Nil_conv)
  ultimately show False using \<open>trim_left s \<noteq> []\<close> by simp
qed

lemma trim_pool_key: "trim_space (openai_compat_model_pool_key a m) \<noteq> []"
proof -
  have "CHR ''|'' \<in> set (openai_compat_model_pool_key a m)" "\<not> is_space CHR ''|''"
    by (simp_all add: openai_compat_model_pool_key_def Let_def is_space_def)
  then show ?thesis by (rule trim_space_keeps)
qed

lemma rotate_strings_rotate: "0 \<le> i \<Longrightarrow> rotate_strings xs i = rotate (nat i) xs"
proof -
  assume i: "0 \<le> i"
  consider "length xs \<le> 1" | "1 < length xs" "i = 0" | "1 < length xs" "0 < i"
    using i by linarith
  then show ?thesis
  proof cases
    case 1
    then have "xs = [] \<or> (\<exists>x. xs = [x])" by (cases xs) auto
    then show ?thesis by (auto simp: rotate_strings_def)
  next
    case 3
    then have "nat (go_rem i (int (length xs))) = nat i mod length xs"
      using go_rem_nonneg [of i "int (length xs)"] nat_mod_distrib [of i "int (length xs)"]
      by (cases "xs = []") auto
    then show ?thesis using 3 by (simp add: rotate_strings_def rotate_drop_take Let_def)
  qed (simp add: rotate_strings_def)
qed

lemma rotate_mset: "mset (rotate n xs) = mset xs"
proof (induction n)
  case (Suc n)
  have "mset (rotate1 ys) = mset ys" for ys :: "'a list" by (cases ys) auto
  then show ?case by (simp add: Suc.IH)
qed simp

lemma mset_rotated_heads:
  "xs \<noteq> [] \<Longrightarrow> mset (map (\<lambda>i. hd (rotate (m + i) xs)) [0..<length xs]) = mset xs"
proof -
  assume "xs \<noteq> []"
  then have "map (\<lambda>i. hd (rotate (m + i) xs)) [0..<length xs] = map ((!) (rotate m xs)) [0..<length (rotate m xs)]"
    by (auto simp: hd_rotate_conv_nth nth_rotate ac_simps)
  also have "\<dots> = rotate m xs" by (rule map_nth)
  finally have "mset (map (\<lambda>i. hd (rotate (m + i) xs)) [0..<length xs]) = mset (rotate m xs)" by (rule arg_cong)
  then show ?thesis by (simp add: rotate_mset)
qed

text \<open>The offset a pool key has reached.\<close>

definition pool_offset :: "alias_state \<Rightarrow> string \<Rightarrow> int" where
  "pool_offset st key = (case map_of (as_offsets st) (trim_space key) of None \<Rightarrow> 0 | Some v \<Rightarrow> v)"

text \<open>The candidates of \<open>k\<close> consecutive executions with one credential.\<close>

fun candidate_runs ::
  "(string \<Rightarrow> oauth_alias list option) \<Rightarrow> auth option \<Rightarrow> string \<Rightarrow> nat \<Rightarrow> alias_state \<Rightarrow> string list list" where
  "candidate_runs decode ao route_model 0 st = []"
| "candidate_runs decode ao route_model (Suc k) st =
     (case execution_model_candidates_with_alias decode st ao route_model of
        ((candidates, pooled, result), st') \<Rightarrow> candidates # candidate_runs decode ao route_model k st')"

lemma pool_configured:
  "resolve_openai_compat_upstream_model_pool cfg (Some a) m \<noteq> [] \<Longrightarrow>
   is_configured_model_routing_auth (Some a) \<and> trim_space m \<noteq> []"
  by (auto simp: resolve_openai_compat_upstream_model_pool_def is_configured_openai_compat_auth_def
      Let_def split: if_splits)

lemma pool_step:
  fixes st :: alias_state
  assumes home: "home_model (Some a) = []"
    and req: "requested = rewrite_model_for_auth route (Some a)"
    and pool: "pool = resolve_openai_compat_upstream_model_pool (rs_config (as_routing st)) (Some a) requested"
    and two: "2 \<le> length pool"
    and off: "0 \<le> pool_offset st (openai_compat_model_pool_key a requested)"
      "pool_offset st (openai_compat_model_pool_key a requested) < pool_offset_limit"
  obtains result st' where
    "execution_model_candidates_with_alias decode st (Some a) route =
      ((rotate (nat (pool_offset st (openai_compat_model_pool_key a requested))) pool, True, result), st')"
    "as_routing st' = as_routing st"
    "pool_offset st' (openai_compat_model_pool_key a requested) =
      pool_offset st (openai_compat_model_pool_key a requested) + 1"
proof -
  let ?key = "openai_compat_model_pool_key a requested"
  let ?o = "pool_offset st ?key"
  have ne: "pool \<noteq> []" using two by auto
  note c = pool_configured [OF ne [unfolded pool]]
  have up: "execution_alias_pool_model (Some a) requested r = requested" for r
    using c by (simp add: execution_alias_pool_model_def)
  have rem: "rotate_strings pool (go_rem ?o (int (length pool))) = rotate (nat ?o) pool"
  proof -
    have "0 \<le> ?o mod int (length pool)" using two by (intro pos_mod_sign) linarith
    moreover have "go_rem ?o (int (length pool)) = ?o mod int (length pool)"
      using off(1) two by (intro go_rem_nonneg) linarith+
    moreover have "nat (?o mod int (length pool)) = nat ?o mod length pool"
      using off(1) nat_mod_distrib [of ?o "int (length pool)"] by simp
    ultimately show ?thesis
      by (simp only: rotate_strings_rotate) (metis rotate_conv_mod)
  qed
  have cand: "pool_or_alias_candidates st (Some a) requested =
      (rotate (nat ?o) pool, st\<lparr>as_offsets := AList.update (trim_space ?key) (?o + 1) (as_offsets st)\<rparr>)"
    using two off rem trim_pool_key [of a requested] ne
    by (simp add: pool_or_alias_candidates_def pool [symmetric] next_model_pool_offset_def Let_def
        pool_offset_def [symmetric])
  show thesis
  proof (rule that)
    show "as_routing (st\<lparr>as_offsets := AList.update (trim_space ?key) (?o + 1) (as_offsets st)\<rparr>) = as_routing st"
      by simp
    show "pool_offset (st\<lparr>as_offsets := AList.update (trim_space ?key) (?o + 1) (as_offsets st)\<rparr>) ?key = ?o + 1"
      by (simp add: pool_offset_def)
  qed (use home cand two in \<open>simp add: execution_model_candidates_with_alias_def Let_def up flip: req\<close>)
qed

lemma pool_runs:
  fixes st :: alias_state
  assumes home: "home_model (Some a) = []"
    and req: "requested = rewrite_model_for_auth route (Some a)"
    and pool: "pool = resolve_openai_compat_upstream_model_pool (rs_config (as_routing st)) (Some a) requested"
    and two: "2 \<le> length pool"
    and off: "0 \<le> pool_offset st (openai_compat_model_pool_key a requested)"
      "pool_offset st (openai_compat_model_pool_key a requested) + int k \<le> pool_offset_limit"
  shows "candidate_runs decode (Some a) route k st =
    map (\<lambda>i. rotate (nat (pool_offset st (openai_compat_model_pool_key a requested)) + i) pool) [0..<k]"
  using pool off
proof (induction k arbitrary: st)
  case (Suc k)
  let ?key = "openai_compat_model_pool_key a requested"
  have lt: "pool_offset st ?key < pool_offset_limit" using Suc.prems(3) by simp
  obtain result st' where s:
    "execution_model_candidates_with_alias decode st (Some a) route =
      ((rotate (nat (pool_offset st ?key)) pool, True, result), st')"
    "as_routing st' = as_routing st" "pool_offset st' ?key = pool_offset st ?key + 1"
    by (rule pool_step [OF home req Suc.prems(1) two Suc.prems(2) lt])
  have n: "nat (pool_offset st ?key + 1) = Suc (nat (pool_offset st ?key))"
    using Suc.prems(2) by simp
  have "candidate_runs decode (Some a) route k st' =
      map (\<lambda>i. rotate (Suc (nat (pool_offset st ?key)) + i) pool) [0..<k]"
    using Suc.IH [of st'] Suc.prems s(2,3) n by simp
  then show ?case
    by (simp add: s(1) upt_conv_Cons map_Suc_upt [symmetric] del: upt_Suc)
qed simp

end
