(* ===== verification/AliasProperties.thy ===== *)
theory AliasProperties
  imports AliasProps
begin

text \<open>
  The properties of model aliases: the compiled table means what the configured list means,
  the suffix of a request survives the resolution, the models of a pool take turns, and a
  result is recorded where the next selection looks.
\<close>

section \<open>Sample values\<close>

definition demo_alias :: "string \<Rightarrow> string \<Rightarrow> bool \<Rightarrow> oauth_alias" where
  "demo_alias name alias force =
     \<lparr>me_name = name, me_alias = alias, me_force = force, oa_fork = False, oa_display = []\<rparr>"

definition demo_aliases :: "oauth_alias list" where
  "demo_aliases = [demo_alias '' up-1 '' ''Fast'' False, demo_alias ''up-2'' ''fast'' True,
     demo_alias ''up-3(low)'' ''slow'' True]"

definition demo_oauth :: auth where
  "demo_oauth = (new_auth ''o'' '' Claude '')\<lparr>a_status := StatusActive\<rparr>"




section \<open>The compiled table\<close>

text \<open>
  C17 The OAuth alias table answers as a scan of the configured list does: when the channels of a
  configuration differ, looking a request up in the compiled table of a channel gives the same
  upstream model, forcing and response name as going through the sanitized aliases of that
  channel in order.
\<close>

theorem alias_table_equals_scan:
  assumes "distinct (map channel_key aliases)" "(raw, es) \<in> set aliases"
    and "channel_key (raw, es) = ch" "ch \<noteq> []"
  shows "resolve_upstream_model_from_alias_table (compile_oauth_model_alias_table aliases) (Some a) requested ch =
    resolve_upstream_model_from_aliases (sanitize_oauth_model_aliases es) requested"
proof -
  obtain rr cs where rc: "model_alias_lookup_candidates requested = (rr, cs)" by fastforce
  note lk = compile_loop_lookup [OF assms, of "[]", simplified]
  show ?thesis
  proof (cases "compile_channel es [] = []")
    case True
    have "sanitize_channel es [] = []"
    proof (rule ccontr)
      assume "sanitize_channel es [] \<noteq> []"
      then obtain x where "x \<in> set es" "usable x"
        using sanitize_channel_usable list.set_sel(1) by blast
      then have "find (usable_for (to_lower (trim_space (me_alias x)))) es \<noteq> None"
        by (auto simp: find_None_iff usable_for_def)
      then show False using True by (simp add: compile_channel_Nil_iff)
    qed
    then show ?thesis using lk True
      by (simp add: resolve_upstream_model_from_alias_table_def compile_oauth_model_alias_table_def
          resolve_upstream_model_from_aliases_def sanitize_aliases_channel rc)
  next
    case False
    have "cs = [] \<Longrightarrow> table_scan rr requested (compile_channel es []) cs = no_alias" by simp
    then show ?thesis
      using lk False assms(4) table_scan_sanitized [OF rc, of es]
      by (auto simp: resolve_upstream_model_from_alias_table_def compile_oauth_model_alias_table_def
          resolve_upstream_model_from_aliases_def sanitize_aliases_channel rc scan_Nil)
  qed
qed

theorem alias_table_equals_scan_witness:
  "resolve_upstream_model_from_alias_table (compile_oauth_model_alias_table [('' Claude '', demo_aliases)])
      (Some demo_oauth) ''FAST(high)'' ''claude'' =
    \<lparr>ar_upstream = ''up-1(high)'', ar_force = False, ar_original = ''FAST(high)''\<rparr>"
proof -
  have "resolve_upstream_model_from_alias_table (compile_oauth_model_alias_table [('' Claude '', demo_aliases)])
      (Some demo_oauth) ''FAST(high)'' ''claude'' =
    resolve_upstream_model_from_aliases (sanitize_oauth_model_aliases demo_aliases) ''FAST(high)''"
    by (rule alias_table_equals_scan [where raw = "'' Claude ''"]) (simp_all, code_simp)
  also have "\<dots> = \<lparr>ar_upstream = ''up-1(high)'', ar_force = False, ar_original = ''FAST(high)''\<rparr>"
    by code_simp
  finally show ?thesis .
qed

section \<open>The suffix\<close>

text \<open>
  The thinking suffix survives the resolution of an OAuth alias: the upstream model of a
  request is the configured name of an alias of the credential or of its channel, and the
  suffix it carries is the one of the configuration when it has one, else the one the client
  wrote.
\<close>

theorem alias_keeps_suffix:
  assumes "ar_upstream (resolve_upstream_model_from_aliases aliases requested) \<noteq> []"
  shows "\<exists>e\<in>set aliases.
    (let n = trim_space (me_name e); up = ar_upstream (resolve_upstream_model_from_aliases aliases requested);
         asked = parse_suffix (trim_space requested)
     in n \<noteq> [] \<and> sr_model_name (parse_suffix up) = sr_model_name (parse_suffix n) \<and>
        sr_raw_suffix (parse_suffix up) =
          (if sr_has_suffix (parse_suffix n) then sr_raw_suffix (parse_suffix n) else sr_raw_suffix asked))"
proof -
  obtain rr cs where rc: "model_alias_lookup_candidates requested = (rr, cs)" by fastforce
  have scan: "cs \<noteq> []" "\<exists>base. resolve_upstream_model_from_aliases aliases requested =
      alias_scan rr base requested aliases cs"
    using assms by (auto simp: resolve_upstream_model_from_aliases_def rc no_alias_def split: if_splits)
  then obtain e where e: "e \<in> set aliases" "trim_space (me_name e) \<noteq> []"
    "ar_upstream (resolve_upstream_model_from_aliases aliases requested) =
       preserve_resolved_model_suffix (trim_space (me_name e)) rr"
    using assms alias_scan_entry by metis
  have rr: "rr = parse_suffix (trim_space requested)" using rc
    by (rule lookup_candidates_cases) (use scan(1) in auto)
  have "carries (trim_space (me_name e)) rr (preserve_resolved_model_suffix (trim_space (me_name e)) rr)"
    by (rule preserve_carries) (use e lookup_raw [OF rc] in auto)
  then show ?thesis
    using e rr parse_no_suffix [of "trim_space requested"]
    by (intro bexI [OF _ e(1)]) (auto simp: Let_def carries_def)
qed

theorem alias_keeps_suffix_witness:
  "ar_upstream (resolve_upstream_model_from_aliases demo_aliases ''slow(high)'') = ''up-3(low)'' \<and>
   (\<exists>e\<in>set demo_aliases.
    (let n = trim_space (me_name e);
         up = ar_upstream (resolve_upstream_model_from_aliases demo_aliases ''fast(high)'');
         asked = parse_suffix (trim_space ''fast(high)'')
     in n \<noteq> [] \<and> sr_model_name (parse_suffix up) = sr_model_name (parse_suffix n) \<and>
        sr_raw_suffix (parse_suffix up) =
          (if sr_has_suffix (parse_suffix n) then sr_raw_suffix (parse_suffix n) else sr_raw_suffix asked)))"
  by (intro conjI alias_keeps_suffix) code_simp+

section \<open>Pools\<close>



section \<open>Where a result is recorded\<close>



text \<open>
  For a configured key with a prefix and an alias the two differ: the cooldown of
  \<open>team/fast\<close> is recorded under the route model, the selection looks at \<open>fast\<close>. The credential
  is offered while it cools down, and only the filter of the execution drops it.
\<close>

definition demo_key_config :: runtime_config where
  "demo_key_config = empty_config\<lparr>rc_claude :=
     [\<lparr>kc_api_key = ''sk'', kc_base_url = [], kc_prefix = ''team'', kc_proxy_url = [],
       kc_models = [\<lparr>me_name = ''real'', me_alias = ''fast'', me_force = False\<rparr>]\<rparr>]\<rparr>"

definition demo_key :: auth where
  "demo_key = (new_auth ''k'' ''claude'')\<lparr>a_status := StatusActive, a_prefix := ''team'',
     a_attributes := [''api_key'' \<mapsto> ''sk'']\<rparr>"

definition demo_key_state :: alias_state where
  "demo_key_state =
     rebuild_api_key_model_alias demo_key_config [(''k'', Some demo_key)]
       \<lparr>as_table = [], as_routing = \<lparr>rs_config = empty_config, rs_aliases = []\<rparr>, as_offsets = []\<rparr>"

lemma prefixed_key_checked_elsewhere:
  "fst (fst (execution_model_candidates_with_alias (\<lambda>_. None) demo_key_state (Some demo_key) ''team/fast'')) = [''real'']"
  "state_model_for_execution (\<lambda>_. None) [] (Some demo_key) ''team/fast'' ''real'' False = ''team/fast''"
  "selection_model_for_auth (\<lambda>_. None) [] (Some demo_key) ''team/fast'' = ''fast''"
  by code_simp+

text \<open>
  The table of a key prefers the upstream name of an earlier entry to the alias of a later one;
  the scan of the same list prefers the alias.
\<close>

lemma key_table_and_scan_differ:
  fixes models :: "model_entry list"
  defines "models \<equiv> [\<lparr>me_name = ''y'', me_alias = ''z'', me_force = False\<rparr>,
                     \<lparr>me_name = ''x'', me_alias = ''y'', me_force = True\<rparr>]"
  shows "first_alias (compile_api_key_model_alias_for_models models []) ''y'' [''y''] = ''y''"
    and "resolve_model_alias_from_config_models ''y'' models = ''x''"
    and "ar_upstream (resolve_model_alias_result_from_config_models ''y'' models) = ''x''"
  unfolding models_def by code_simp+

section \<open>Aliases stored on a credential\<close>



end
