(* ===== verification/ExecLoop.thy ===== *)
theory ExecLoop
  imports Manager ModelAliases
begin

text \<open>
  One request through the credentials (\<open>sdk/cliproxy/auth/conductor_execution.go\<close>):
  \<open>executeMixedOnce\<close> and \<open>executeCountMixedOnce\<close>, which pick a credential, ask it for each of
  its models, record every outcome and go on to the next credential, and the retry loops of
  \<open>Execute\<close> and \<open>ExecuteCount\<close> around them. The methods and interface calls the loops make are
  the fields of \<open>exec_ops\<close>, over a state \<open>'s\<close> that also holds the clock and the outside world;
  \<open>Conductor\<close> supplies them for the model's manager. The Home control plane is off.
\<close>

section \<open>Errors, requests and the calls of the loop\<close>

text \<open>
  \<open>ee_view\<close> answers the questions of \<open>ErrorClass\<close>. \<open>ee_chain\<close> lists, along the unwrapping of the
  error, the code when the error is the package's own and its message when that is JSON.
\<close>

record exec_error =
  ee_view :: go_error
  ee_retry_after :: "duration option"
  ee_canceled :: bool
  ee_terminated :: bool
  ee_home_busy :: bool
  ee_chain :: "(string option \<times> json option) list"

record 'p exec_request =
  rq_model :: string
  rq_metadata :: "string \<rightharpoonup> goany"
  rq_payload :: 'p

text \<open>An error of the package itself, and the errors of the selectors.\<close>

definition package_error :: "string \<Rightarrow> string \<Rightarrow> int \<Rightarrow> exec_error" where
  "package_error code msg status =
     (let e = \<lparr>err_code = code, err_message = msg, err_retryable = False, err_http = status\<rparr> in
      \<lparr>ee_view =
         \<lparr>ge_text = error_text (Some e), ge_status = status, ge_close = None, ge_canceled_or_eof = False,
          ge_request_scoped = is_request_scoped (Some e), ge_auth = Some e, ge_body = None\<rparr>,
       ee_retry_after = None, ee_canceled = False, ee_terminated = False, ee_home_busy = False,
       ee_chain = [(Some code, None)]\<rparr>)"

definition auth_not_found :: exec_error where
  "auth_not_found = package_error ''auth_not_found'' ''no auth available'' 0"

text \<open>The text of a cooldown error is a parameter: it prints durations.\<close>

definition exec_error_of_select :: "(select_error \<Rightarrow> string) \<Rightarrow> select_error \<Rightarrow> exec_error" where
  "exec_error_of_select show_error se =
     (case se of
        CodedError code msg \<Rightarrow> package_error code msg 0
      | ModelCooldown model provider reset_in \<Rightarrow>
          \<lparr>ee_view =
             \<lparr>ge_text = show_error se, ge_status = 429, ge_close = None, ge_canceled_or_eof = False,
              ge_request_scoped = False, ge_auth = None, ge_body = None\<rparr>,
           ee_retry_after = None, ee_canceled = False, ee_terminated = False, ee_home_busy = False,
           ee_chain = []\<rparr>)"

definition status_code_from_error :: "exec_error \<Rightarrow> int" where
  "status_code_from_error e = ge_status (ee_view e)"

definition invalid_request :: "exec_error \<Rightarrow> bool" where
  "invalid_request e = is_request_invalid_error (Some (ee_view e))"

definition is_explicit_model_not_found_error :: "exec_error \<Rightarrow> string \<Rightarrow> bool" where
  "is_explicit_model_not_found_error e model =
     list_ex (\<lambda>(code, body).
        (case code of Some c \<Rightarrow> is_model_not_found_identifier c | None \<Rightarrow> False) \<or>
        (case body of Some j \<Rightarrow> contains_structured_model_not_found j model | None \<Rightarrow> False)) (ee_chain e)"

definition is_count_tokens_endpoint_not_found_error :: "exec_error \<Rightarrow> string \<Rightarrow> bool" where
  "is_count_tokens_endpoint_not_found_error e model =
     (status_code_from_error e = 404 \<and>
      \<not> is_explicit_model_not_found_error e (sr_model_name (parse_suffix model)))"

text \<open>
  The calls: picking, the models of a credential with the alias and the routing they come from, preparing and refreshing a credential, the
  model a result is recorded under, the interceptor, the executor, the context, recording,
  rewriting a response, the decision to retry and the wait, the credits fallback.
\<close>

record ('s, 'p, 'r) exec_ops =
  xo_pick :: "string list \<Rightarrow> 's \<Rightarrow> (exec_error + auth \<times> string) \<times> 's"
  xo_models :: "auth \<Rightarrow> string \<Rightarrow> 's \<Rightarrow> (string list \<times> bool \<times> alias_result \<times> routing_snapshot) \<times> 's"
  xo_prepare :: "string \<Rightarrow> auth \<Rightarrow> 's \<Rightarrow> (auth \<times> exec_error option) \<times> 's"
  xo_state_model :: "auth \<Rightarrow> string \<Rightarrow> string \<Rightarrow> bool \<Rightarrow> 's \<Rightarrow> string"
  xo_intercept :: "string \<Rightarrow> 'p exec_request \<Rightarrow> 's \<Rightarrow> (exec_error option \<times> 'p exec_request) \<times> 's"
  xo_execute :: "string \<Rightarrow> auth \<Rightarrow> 'p exec_request \<Rightarrow> 's \<Rightarrow> (exec_error + 'r) \<times> 's"
  xo_refresh :: "auth \<Rightarrow> exec_error \<Rightarrow> bool \<Rightarrow> 's \<Rightarrow> (auth \<times> bool) \<times> 's"
  xo_context :: "'s \<Rightarrow> exec_error option"
  xo_mark :: "exec_result \<Rightarrow> 's \<Rightarrow> 's"
  xo_mark_neutral :: "exec_result \<Rightarrow> 's \<Rightarrow> 's"
  xo_rewrite :: "auth \<Rightarrow> string \<Rightarrow> string \<Rightarrow> alias_result \<times> routing_snapshot \<Rightarrow> 'r \<Rightarrow> 's \<Rightarrow> 'r"
  xo_should_retry :: "exec_error \<Rightarrow> nat \<Rightarrow> string \<Rightarrow> 's \<Rightarrow> duration option \<times> 's"
  xo_wait :: "duration \<Rightarrow> 's \<Rightarrow> exec_error option \<times> 's"
  xo_credits :: "exec_error \<Rightarrow> 's \<Rightarrow> (exec_error + 'r) option \<times> 's"

text \<open>What a request did, in order.\<close>

datatype exec_event =
    Picked string
  | Attempted string
  | Called string string
  | Recorded exec_result

section \<open>The model of a request\<close>

definition string_or_bytes :: "goany option \<Rightarrow> string" where
  "string_or_bytes v =
     (case v of Some (AnyString s) \<Rightarrow> trim_space s | Some (AnyBytes s) \<Rightarrow> trim_space s | _ \<Rightarrow> [])"

definition auth_selection_model_from_options :: "(string \<rightharpoonup> goany) \<Rightarrow> string \<Rightarrow> string" where
  "auth_selection_model_from_options meta fallback =
     (let v = string_or_bytes (meta ''auth_selection_model'')
      in if v \<noteq> [] then v else trim_space fallback)"

definition execution_model_for_auth_selection :: "(string \<rightharpoonup> goany) \<Rightarrow> string \<Rightarrow> string option" where
  "execution_model_for_auth_selection meta model0 =
     (let model = trim_space model0 in
      if model = [] then None
      else if auth_selection_model_from_options meta model = model then None
      else Some model)"

definition has_requested_model_metadata :: "(string \<rightharpoonup> goany) \<Rightarrow> bool" where
  "has_requested_model_metadata meta = (string_or_bytes (meta ''requested_model'') \<noteq> [])"

definition ensure_requested_model_metadata :: "string \<Rightarrow> (string \<rightharpoonup> goany) \<Rightarrow> (string \<rightharpoonup> goany)" where
  "ensure_requested_model_metadata requested0 meta =
     (let requested = trim_space requested0 in
      if requested = [] then meta
      else if has_requested_model_metadata meta then meta
      else meta(''requested_model'' \<mapsto> AnyString requested))"

definition claude_oauth_request_cancellation ::
  "exec_error option \<Rightarrow> auth \<Rightarrow> exec_error option \<Rightarrow> exec_error option" where
  "claude_oauth_request_cancellation ctx_err a err =
     (if \<not> equal_fold (trim_space (a_provider a)) ''claude'' \<or>
         \<not> equal_fold (auth_attribute a ''auth_kind'') ''oauth'' then None
      else (case ctx_err of
              Some c \<Rightarrow> if ee_canceled c then Some c
                        else (case err of Some e \<Rightarrow> if ee_canceled e then Some e else None | None \<Rightarrow> None)
            | None \<Rightarrow> (case err of Some e \<Rightarrow> if ee_canceled e then Some e else None | None \<Rightarrow> None)))"

section \<open>One model of one credential\<close>

text \<open>
  An attempt stops the request or goes on with the error of this model, the credential (which a
  refresh may have replaced) and whether it was refreshed.
\<close>

datatype 'r attempt =
    Stop "exec_error + 'r"
  | GoOn exec_error auth bool

text \<open>A 401 is retried once with refreshed credentials; a done context stops the request.\<close>

definition call_with_refresh ::
  "('s, 'p, 'r) exec_ops \<Rightarrow> string \<Rightarrow> auth \<Rightarrow> bool \<Rightarrow> 'p exec_request \<Rightarrow> exec_event list \<Rightarrow> 's \<Rightarrow>
   (exec_error + (exec_error + 'r) \<times> auth \<times> bool) \<times> exec_event list \<times> 's" where
  "call_with_refresh ops provider a did req evs s =
     (case xo_execute ops provider a req s of
        (Inr r, s1) \<Rightarrow> (Inr (Inr r, a, did), evs @ [Called (a_id a) (rq_model req)], s1)
      | (Inl e, s1) \<Rightarrow>
          let evs1 = evs @ [Called (a_id a) (rq_model req)] in
          (case xo_context ops s1 of
             Some c \<Rightarrow> (Inl c, evs1, s1)
           | None \<Rightarrow>
               (case xo_refresh ops a e did s1 of
                  ((b, False), s2) \<Rightarrow> (Inr (Inl e, a, did), evs1, s2)
                | ((b, True), s2) \<Rightarrow>
                    let evs2 = evs1 @ [Called (a_id b) (rq_model req)] in
                    (case xo_execute ops provider b req s2 of
                       (Inr r, s3) \<Rightarrow> (Inr (Inr r, b, True), evs2, s3)
                     | (Inl e2, s3) \<Rightarrow>
                         (case xo_context ops s3 of
                            Some c \<Rightarrow> (Inl c, evs2, s3)
                          | None \<Rightarrow> (Inr (Inl e2, b, True), evs2, s3))))))"

definition failure_result :: "auth \<Rightarrow> string \<Rightarrow> exec_error \<Rightarrow> exec_result" where
  "failure_result a model e =
     \<lparr>er_auth_id = a_id a, er_model = model, er_success = False, er_retry_after = ee_retry_after e,
      er_error = result_error_from_error (Some (ee_view e))\<rparr>"

definition success_result :: "auth \<Rightarrow> string \<Rightarrow> exec_result" where
  "success_result a model =
     \<lparr>er_auth_id = a_id a, er_model = model, er_success = True, er_retry_after = None, er_error = None\<rparr>"

text \<open>\<open>counting\<close> is the mode of \<open>executeCountMixedOnce\<close>; \<open>restore\<close> the model a request keeps.\<close>

definition attempt_model ::
  "('s, 'p, 'r) exec_ops \<Rightarrow> bool \<Rightarrow> string \<Rightarrow> string \<Rightarrow> string option \<Rightarrow> 'p exec_request \<Rightarrow> bool \<Rightarrow>
   alias_result \<times> routing_snapshot \<Rightarrow> string \<Rightarrow> auth \<Rightarrow> bool \<Rightarrow> exec_event list \<Rightarrow> 's \<Rightarrow> 'r attempt \<times> exec_event list \<times> 's" where
  "attempt_model ops counting provider route restore req pooled alias upstream a did evs s =
     (let result_model = xo_state_model ops a route upstream pooled s;
          exec_req = req\<lparr>rq_model := (case restore of None \<Rightarrow> upstream | Some m \<Rightarrow> m)\<rparr>
      in case xo_intercept ops provider exec_req s of
           ((Some e, _), s1) \<Rightarrow> (Stop (Inl e), evs, s1)
         | ((None, req1), s1) \<Rightarrow>
             (case call_with_refresh ops provider a did req1 evs s1 of
                (Inl c, evs2, s2) \<Rightarrow> (Stop (Inl c), evs2, s2)
              | (Inr (outcome, b, did'), evs2, s2) \<Rightarrow>
                  (case claude_oauth_request_cancellation (xo_context ops s2) b
                          (case outcome of Inl e \<Rightarrow> Some e | Inr _ \<Rightarrow> None) of
                     Some c \<Rightarrow> (Stop (Inl c), evs2, s2)
                   | None \<Rightarrow>
                       (case outcome of
                          Inr r \<Rightarrow>
                            (let res = success_result b result_model; s3 = xo_mark ops res s2
                             in (Stop (Inr (xo_rewrite ops b route upstream alias r s3)),
                                 evs2 @ [Recorded res], s3))
                        | Inl e \<Rightarrow>
                            (let res = failure_result b result_model e;
                                 s3 = (if counting \<and> is_count_tokens_endpoint_not_found_error e (rq_model req1)
                                       then xo_mark_neutral ops res s2 else xo_mark ops res s2)
                             in (if invalid_request e then Stop (Inl e) else GoOn e b did',
                                 evs2 @ [Recorded res], s3))))))"

fun attempt_models ::
  "('s, 'p, 'r) exec_ops \<Rightarrow> bool \<Rightarrow> string \<Rightarrow> string \<Rightarrow> string option \<Rightarrow> 'p exec_request \<Rightarrow> bool \<Rightarrow>
   alias_result \<times> routing_snapshot \<Rightarrow> string list \<Rightarrow> auth \<Rightarrow> bool \<Rightarrow> exec_error option \<Rightarrow> exec_event list \<Rightarrow> 's \<Rightarrow>
   ((exec_error + 'r) + exec_error option) \<times> exec_event list \<times> 's" where
  "attempt_models ops counting provider route restore req pooled alias [] a did auth_err evs s =
     (Inr auth_err, evs, s)"
| "attempt_models ops counting provider route restore req pooled alias (m # ms) a did auth_err evs s =
     (case attempt_model ops counting provider route restore req pooled alias m a did evs s of
        (Stop out, evs', s') \<Rightarrow> (Inl out, evs', s')
      | (GoOn e b did', evs', s') \<Rightarrow>
          attempt_models ops counting provider route restore req pooled alias ms b did' (Some e) evs' s')"

section \<open>Credential after credential\<close>

text \<open>
  \<open>fuel\<close> bounds the rounds; \<open>None\<close> means it ran out. \<open>tried\<close> and \<open>attempted\<close> are the sets of the
  code, as lists.
\<close>

fun execute_loop ::
  "('s, 'p, 'r) exec_ops \<Rightarrow> bool \<Rightarrow> int \<Rightarrow> string \<Rightarrow> string option \<Rightarrow> 'p exec_request \<Rightarrow> nat \<Rightarrow>
   string list \<Rightarrow> string list \<Rightarrow> exec_error option \<Rightarrow> exec_event list \<Rightarrow> 's \<Rightarrow>
   ((exec_error + 'r) \<times> exec_event list \<times> 's) option" where
  "execute_loop ops counting max_credentials route restore req 0 tried attempted last_err evs s = None"
| "execute_loop ops counting max_credentials route restore req (Suc fuel) tried attempted last_err evs s =
     (if max_credentials > 0 \<and> int (length attempted) \<ge> max_credentials
      then Some (Inl (case last_err of Some e \<Rightarrow> e | None \<Rightarrow> auth_not_found), evs, s)
      else (case xo_pick ops tried s of
              (Inl e, s1) \<Rightarrow> Some (Inl (case last_err of Some l \<Rightarrow> l | None \<Rightarrow> e), evs, s1)
            | (Inr (a, provider), s1) \<Rightarrow>
                let tried' = List.insert (a_id a) tried; evs1 = evs @ [Picked (a_id a)] in
                (case xo_models ops a route s1 of
                   (([], _, _), s2) \<Rightarrow>
                     execute_loop ops counting max_credentials route restore req fuel tried' attempted last_err evs1 s2
                 | ((m # ms, pooled, alias), s2) \<Rightarrow>
                     let attempted' = List.insert (a_id a) attempted; evs2 = evs1 @ [Attempted (a_id a)] in
                     (case xo_prepare ops provider a s2 of
                        ((b, Some e), s3) \<Rightarrow>
                          (case claude_oauth_request_cancellation (xo_context ops s3) b (Some e) of
                             Some c \<Rightarrow> Some (Inl c, evs2, s3)
                           | None \<Rightarrow>
                               let res = (failure_result b route e)\<lparr>er_retry_after := None\<rparr> in
                               execute_loop ops counting max_credentials route restore req fuel tried' attempted'
                                 (Some e) (evs2 @ [Recorded res]) (xo_mark ops res s3))
                      | ((b, None), s3) \<Rightarrow>
                          (case attempt_models ops counting provider route restore req pooled alias (m # ms)
                                  b False None evs2 s3 of
                             (Inl out, evs3, s4) \<Rightarrow> Some (out, evs3, s4)
                           | (Inr None, evs3, s4) \<Rightarrow>
                               execute_loop ops counting max_credentials route restore req fuel tried' attempted'
                                 last_err evs3 s4
                           | (Inr (Some e), evs3, s4) \<Rightarrow>
                               (if invalid_request e then Some (Inl e, evs3, s4)
                                else execute_loop ops counting max_credentials route restore req fuel tried'
                                       attempted' (Some e) evs3 s4))))))"

definition execute_mixed_once ::
  "('s, 'p, 'r) exec_ops \<Rightarrow> bool \<Rightarrow> int \<Rightarrow> string list \<Rightarrow> 'p exec_request \<Rightarrow> nat \<Rightarrow> 's \<Rightarrow>
   ((exec_error + 'r) \<times> exec_event list \<times> 's) option" where
  "execute_mixed_once ops counting max_credentials providers req fuel s =
     (if providers = [] then Some (Inl (package_error ''provider_not_found'' ''no provider supplied'' 0), [], s)
      else
        let route = auth_selection_model_from_options (rq_metadata req) (rq_model req);
            restore = execution_model_for_auth_selection (rq_metadata req) (rq_model req);
            req1 = req\<lparr>rq_metadata := ensure_requested_model_metadata route (rq_metadata req)\<rparr>
        in execute_loop ops counting max_credentials route restore req1 fuel [] [] None [] s)"

section \<open>Retries\<close>

definition has_antigravity_provider :: "string list \<Rightarrow> bool" where
  "has_antigravity_provider providers =
     list_ex (\<lambda>p. equal_fold (trim_space p) ''antigravity'') providers"

text \<open>
  \<open>rounds\<close> bounds the retries, \<open>fuel\<close> the credentials of one round. The log keeps the rounds
  apart. Only \<open>Execute\<close> has the credits fallback.
\<close>

fun retry_loop ::
  "('s, 'p, 'r) exec_ops \<Rightarrow> bool \<Rightarrow> int \<Rightarrow> string list \<Rightarrow> 'p exec_request \<Rightarrow> nat \<Rightarrow> nat \<Rightarrow> nat \<Rightarrow>
   exec_event list list \<Rightarrow> 's \<Rightarrow> ((exec_error + 'r) \<times> exec_event list list \<times> 's) option" where
  "retry_loop ops counting max_credentials providers req fuel 0 attempt logs s = None"
| "retry_loop ops counting max_credentials providers req fuel (Suc rounds) attempt logs s =
     (case execute_mixed_once ops counting max_credentials providers req fuel s of
        None \<Rightarrow> None
      | Some (Inr r, evs, s1) \<Rightarrow> Some (Inr r, logs @ [evs], s1)
      | Some (Inl e, evs, s1) \<Rightarrow>
          if ee_terminated e then Some (Inl e, logs @ [evs], s1)
          else (case xo_should_retry ops e attempt
                       (auth_selection_model_from_options (rq_metadata req) (rq_model req)) s1 of
                  (Some wait, s2) \<Rightarrow>
                    (case xo_wait ops wait s2 of
                       (Some c, s3) \<Rightarrow> Some (Inl c, logs @ [evs], s3)
                     | (None, s3) \<Rightarrow>
                         retry_loop ops counting max_credentials providers req fuel rounds (Suc attempt)
                           (logs @ [evs]) s3)
                | (None, s2) \<Rightarrow>
                    if \<not> counting \<and> has_antigravity_provider providers then
                      (case xo_credits ops e s2 of
                         (Some out, s3) \<Rightarrow> Some (out, logs @ [evs], s3)
                       | (None, s3) \<Rightarrow> Some (Inl e, logs @ [evs], s3))
                    else Some (Inl e, logs @ [evs], s2)))"

text \<open>\<open>normalizeProviders\<close>, and the two entry points.\<close>

definition execute_request ::
  "('s, 'p, 'r) exec_ops \<Rightarrow> bool \<Rightarrow> int \<Rightarrow> string list \<Rightarrow> 'p exec_request \<Rightarrow> nat \<Rightarrow> nat \<Rightarrow> 's \<Rightarrow>
   ((exec_error + 'r) \<times> exec_event list list \<times> 's) option" where
  "execute_request ops counting max_credentials providers req fuel rounds s =
     (let normalized = normalize_provider_keys providers in
      if normalized = []
      then Some (Inl (package_error ''provider_not_found'' ''no provider supplied'' 0), [], s)
      else retry_loop ops counting max_credentials normalized req fuel rounds 0 [] s)"

end
