(* ===== verification/Conductor.thy ===== *)
theory Conductor
  imports Effects ExecLoop ExecutionModels SessionAffinity
begin

text \<open>
  The conductor (\<open>sdk/cliproxy/auth/conductor_selection.go\<close>): the manager with its scheduler,
  its selector, its executors and the model registry it reads, and the selection of a credential
  for one round of a request. Selection goes through the scheduler when the selector is built in
  and no candidate is checked under a model of its own; otherwise it goes through the selector
  (the legacy path). The index of a credential, plugin schedulers and the Home control plane are
  left out; a selector of an embedding program is too.
\<close>

section \<open>State\<close>

datatype built_in = RoundRobin rr_state | FillFirst | Weighted wrr_state

datatype conductor_selector = BuiltIn built_in | Affinity built_in session_cache

text \<open>
  \<open>co_now\<close> is the last reading of the clock and \<open>co_world\<close> all that is outside: it decides how
  much time passes between two readings. \<open>co_out\<close> collects the calls that leave the model.
\<close>

record 'w conductor =
  co_manager :: manager
  co_alias :: alias_state
  co_sched :: auth_sched
  co_registry :: model_registry
  co_selector :: conductor_selector
  co_executors :: "string list"
  co_retry :: int
  co_max_credentials :: int
  co_max_interval :: duration
  co_now :: gotime
  co_world :: 'w
  co_out :: "effect list"

text \<open>What the context and the options of a request say.\<close>

record pick_context =
  px_ws :: bool
  px_kind :: string
  px_policy :: string
  px_session :: string
  px_fallback_session :: string
  px_metadata :: "string \<rightharpoonup> goany"

definition read_clock :: "('w \<Rightarrow> nat \<times> 'w) \<Rightarrow> 'w conductor \<Rightarrow> gotime \<times> 'w conductor" where
  "read_clock elapsed c =
     (case elapsed (co_world c) of
        (d, w) \<Rightarrow> (co_now c + int d, c\<lparr>co_now := co_now c + int d, co_world := w\<rparr>))"

definition models_for :: "'w conductor \<Rightarrow> string \<Rightarrow> string list" where
  "models_for c i = map mi_id (get_models_for_client i (co_registry c))"

definition auths_of :: "'w conductor \<Rightarrow> auth option list" where
  "auths_of c = map snd (mg_auths (co_manager c))"

definition auth_list :: "'w conductor \<Rightarrow> auth list" where
  "auth_list c = List.map_filter id (auths_of c)"

section \<open>Scheduler maintenance\<close>

definition is_built_in_selector :: "conductor_selector \<Rightarrow> bool" where
  "is_built_in_selector s = (case s of BuiltIn _ \<Rightarrow> True | Affinity _ _ \<Rightarrow> False)"

definition selector_strategy :: "conductor_selector \<Rightarrow> strategy" where
  "selector_strategy s =
     (case s of
        BuiltIn (RoundRobin _) \<Rightarrow> StratRoundRobin
      | BuiltIn FillFirst \<Rightarrow> StratFillFirst
      | BuiltIn (Weighted _) \<Rightarrow> StratWeighted
      | Affinity _ _ \<Rightarrow> StratCustom)"

definition sync_scheduler :: "('w \<Rightarrow> nat \<times> 'w) \<Rightarrow> 'w conductor \<Rightarrow> 'w conductor" where
  "sync_scheduler elapsed c =
     (case read_clock elapsed c of
        (now, c1) \<Rightarrow> c1\<lparr>co_sched := sched_rebuild (models_for c1) now (auths_of c1) (co_sched c1)\<rparr>)"

definition upsert_scheduler :: "('w \<Rightarrow> nat \<times> 'w) \<Rightarrow> auth \<Rightarrow> 'w conductor \<Rightarrow> 'w conductor" where
  "upsert_scheduler elapsed a c =
     (case read_clock elapsed c of
        (now, c1) \<Rightarrow> c1\<lparr>co_sched := sched_upsert_auth (models_for c1) now (Some a) (co_sched c1)\<rparr>)"

definition refresh_scheduler_entry :: "('w \<Rightarrow> nat \<times> 'w) \<Rightarrow> string \<Rightarrow> 'w conductor \<Rightarrow> 'w conductor" where
  "refresh_scheduler_entry elapsed i c =
     (if i = [] then c
      else (case lookup_auth (co_manager c) i of None \<Rightarrow> c | Some a \<Rightarrow> upsert_scheduler elapsed a c))"

definition refresh_scheduler_all :: "('w \<Rightarrow> nat \<times> 'w) \<Rightarrow> 'w conductor \<Rightarrow> 'w conductor" where
  "refresh_scheduler_all elapsed c =
     fold (refresh_scheduler_entry elapsed) (map fst (mg_auths (co_manager c))) c"

definition set_conductor_selector ::
  "('w \<Rightarrow> nat \<times> 'w) \<Rightarrow> conductor_selector option \<Rightarrow> 'w conductor \<Rightarrow> 'w conductor" where
  "set_conductor_selector elapsed so c =
     (let s = (case so of None \<Rightarrow> BuiltIn (RoundRobin \<lparr>rr_cursors = [], rr_max_keys = 0\<rparr>) | Some s \<Rightarrow> s)
      in sync_scheduler elapsed
           (c\<lparr>co_selector := s, co_sched := set_selector (selector_strategy s) (co_sched c)\<rparr>))"

text \<open>
  Carrying out an effect: the scheduler and the registry are part of the state, the rest leaves
  the model.
\<close>

definition run_effect :: "('w \<Rightarrow> nat \<times> 'w) \<Rightarrow> effect \<Rightarrow> 'w conductor \<Rightarrow> 'w conductor" where
  "run_effect elapsed e c =
     (case e of
        UpsertAuth a \<Rightarrow> upsert_scheduler elapsed a c
      | ClearModelQuota _ _ \<Rightarrow> c\<lparr>co_registry := apply_effect (co_now c) e (co_registry c)\<rparr>
      | SetModelQuota _ _ \<Rightarrow>
          (case read_clock elapsed c of (now, c1) \<Rightarrow> c1\<lparr>co_registry := apply_effect now e (co_registry c1)\<rparr>)
      | ResumeModel _ _ \<Rightarrow>
          (case read_clock elapsed c of (now, c1) \<Rightarrow> c1\<lparr>co_registry := apply_effect now e (co_registry c1)\<rparr>)
      | SuspendModel _ _ _ \<Rightarrow>
          (case read_clock elapsed c of (now, c1) \<Rightarrow> c1\<lparr>co_registry := apply_effect now e (co_registry c1)\<rparr>)
      | _ \<Rightarrow> c\<lparr>co_out := co_out c @ [e]\<rparr>)"

text \<open>An operation of the manager, then its effects in order.\<close>

definition on_manager ::
  "('w \<Rightarrow> nat \<times> 'w) \<Rightarrow> (gotime \<Rightarrow> manager \<Rightarrow> manager \<times> effect list) \<Rightarrow> 'w conductor \<Rightarrow> 'w conductor" where
  "on_manager elapsed f c =
     (case read_clock elapsed c of
        (now, c1) \<Rightarrow>
          (case f now (co_manager c1) of
             (m, es) \<Rightarrow> fold (run_effect elapsed) es (c1\<lparr>co_manager := m\<rparr>)))"

definition conductor_mark_result :: "('w \<Rightarrow> nat \<times> 'w) \<Rightarrow> exec_result \<Rightarrow> 'w conductor \<Rightarrow> 'w conductor" where
  "conductor_mark_result elapsed r = on_manager elapsed (\<lambda>now. mark_result now r)"

definition conductor_mark_neutral :: "('w \<Rightarrow> nat \<times> 'w) \<Rightarrow> exec_result \<Rightarrow> 'w conductor \<Rightarrow> 'w conductor" where
  "conductor_mark_neutral elapsed r =
     on_manager elapsed (\<lambda>now. record_availability_neutral_result now r)"

section \<open>Reconciling with the registry\<close>

definition supported_keys :: "model_info list \<Rightarrow> string list" where
  "supported_keys infos = filter (\<lambda>k. k \<noteq> []) (map (\<lambda>i. canonical_model_key (mi_id i)) infos)"

text \<open>The states of models the registry no longer lists go, the others are reset.\<close>

fun reconcile_states :: "string list \<Rightarrow> gotime \<Rightarrow> state_map \<Rightarrow> state_map \<times> bool" where
  "reconcile_states supported now [] = ([], False)"
| "reconcile_states supported now ((k, so) # ms) =
     (case reconcile_states supported now ms of
        (ms', changed) \<Rightarrow>
          let b0 = canonical_model_key k; base = (if b0 = [] then trim_space k else b0) in
          if base \<notin> set supported then (ms', True)
          else (case so of
                  None \<Rightarrow> ((k, None) # ms', changed)
                | Some st \<Rightarrow>
                    if model_state_is_clean so then ((k, so) # ms', changed)
                    else ((k, Some (reset_model_state now st)) # ms', True)))"

definition reconcile_auth :: "string list \<Rightarrow> gotime \<Rightarrow> auth \<Rightarrow> auth \<times> bool" where
  "reconcile_auth supported now a =
     (case reconcile_states supported now (a_model_states a) of
        (ms, changed) \<Rightarrow>
          let a1 = a\<lparr>a_model_states := ms\<rparr> in
          if \<not> changed then (a1, False)
          else
            let a2 = update_aggregated_availability now a1;
                a3 = (if \<not> has_model_error a2 now
                      then a2\<lparr>a_last_error := None, a_status_message := [], a_status := StatusActive\<rparr>
                      else a2)
            in (a3\<lparr>a_updated := now\<rparr>, True))"

definition reconcile_registry_model_states ::
  "('w \<Rightarrow> nat \<times> 'w) \<Rightarrow> string \<Rightarrow> 'w conductor \<Rightarrow> 'w conductor" where
  "reconcile_registry_model_states elapsed i c =
     (if i = [] then c
      else
        let supported = supported_keys (get_models_for_client i (co_registry c)) in
        (case read_clock elapsed c of
           (now, c1) \<Rightarrow>
             (case lookup_auth (co_manager c1) i of
                None \<Rightarrow> c1
              | Some a \<Rightarrow>
                  if a_model_states a = [] then c1
                  else (case reconcile_auth supported now a of
                          (a', False) \<Rightarrow> c1\<lparr>co_manager := store_auth i a' (co_manager c1)\<rparr>
                        | (a', True) \<Rightarrow>
                            fold (run_effect elapsed) [SaveAuth a', UpsertAuth a']
                              (c1\<lparr>co_manager := store_auth i a' (co_manager c1)\<rparr>)))))"

section \<open>Candidates\<close>

definition selection_model :: "(string \<Rightarrow> oauth_alias list option) \<Rightarrow> 'w conductor \<Rightarrow> auth option \<Rightarrow> string \<Rightarrow> string" where
  "selection_model decode c ao route = selection_model_for_auth decode (as_table (co_alias c)) ao route"

definition selection_model_key :: "(string \<Rightarrow> oauth_alias list option) \<Rightarrow> 'w conductor \<Rightarrow> auth option \<Rightarrow> string \<Rightarrow> string" where
  "selection_model_key decode c ao route =
     selection_model_key_for_auth decode (as_table (co_alias c)) ao route"

fun available_route_loop ::
  "(auth \<Rightarrow> string) \<Rightarrow> gotime \<Rightarrow> auth list \<Rightarrow> buckets \<times> nat \<times> gotime \<Rightarrow> buckets \<times> nat \<times> gotime" where
  "available_route_loop check now [] acc = acc"
| "available_route_loop check now (a # as) (available, cooldown_count, earliest) =
     (case is_auth_blocked_for_model (Some a) (check a) now of (blk, reason, nxt) \<Rightarrow>
        (if \<not> blk then
           available_route_loop check now as
             (bucket_add (auth_priority (Some a)) a available, cooldown_count, earliest)
         else if reason = BlockCooldown then
           available_route_loop check now as
             (available, cooldown_count + 1,
              if \<not> is_zero nxt \<and> (is_zero earliest \<or> before nxt earliest) then nxt else earliest)
         else available_route_loop check now as (available, cooldown_count, earliest)))"

definition available_auths_for_route_model ::
  "(auth \<Rightarrow> string) \<Rightarrow> auth list \<Rightarrow> string \<Rightarrow> string \<Rightarrow> gotime \<Rightarrow> bool \<Rightarrow> select_error + auth list" where
  "available_auths_for_route_model check auths provider route now all_priorities =
     (if auths = [] then Inl (CodedError ''auth_not_found'' ''no auth candidates'')
      else (case available_route_loop check now auths ([], 0, 0) of
              (available, cooldown_count, earliest) \<Rightarrow>
                (if available = [] then
                   (if cooldown_count = length auths \<and> \<not> is_zero earliest then
                      let reset_in = time_sub earliest now
                      in Inl (new_model_cooldown_error route (if provider = ''mixed'' then [] else provider)
                                (if reset_in < 0 then 0 else reset_in))
                    else Inl (CodedError ''auth_unavailable'' ''no auth available''))
                 else Inr (available_auths_from_priority_buckets available all_priorities))))"

text \<open>The candidates handed to the selector: with session affinity those of all priorities.\<close>

definition available_auths_for_selector ::
  "(auth \<Rightarrow> string) \<Rightarrow> conductor_selector \<Rightarrow> auth list \<Rightarrow> string \<Rightarrow> string \<Rightarrow> gotime \<Rightarrow>
   select_error + auth list" where
  "available_auths_for_selector check sel auths provider route now =
     available_auths_for_route_model check auths provider route now (\<not> is_built_in_selector sel)"

definition selection_arg_for_selector :: "conductor_selector \<Rightarrow> string \<Rightarrow> string" where
  "selection_arg_for_selector sel route = (if is_built_in_selector sel then [] else route)"

definition auth_supports_route_model ::
  "(string \<Rightarrow> oauth_alias list option) \<Rightarrow> 'w conductor \<Rightarrow> auth \<Rightarrow> string \<Rightarrow> bool" where
  "auth_supports_route_model decode c a route =
     (let route_key = canonical_model_key route; r = co_registry c in
      if route_key = [] then True
      else if client_supports_model (a_id a) route_key r then True
      else
        let key = selection_model_key decode c (Some a) route
        in key \<noteq> [] \<and> key \<noteq> route_key \<and> client_supports_model (a_id a) key r)"

definition auth_selection_eligibility :: "pick_context \<Rightarrow> eligibility" where
  "auth_selection_eligibility px =
     \<lparr>el_required_kind = px_kind px, el_policy = px_policy px,
      el_disallow_free = disallow_free_auth_from_metadata (px_metadata px)\<rparr>"

definition route_aware_selection_required ::
  "(string \<Rightarrow> oauth_alias list option) \<Rightarrow> 'w conductor \<Rightarrow> auth \<Rightarrow> string \<Rightarrow> bool" where
  "route_aware_selection_required decode c a route =
     (if trim_space route = [] then False
      else selection_model_key decode c (Some a) route \<noteq> canonical_model_key route)"

text \<open>\<open>Executor\<close>, and the plain lookup of the legacy path.\<close>

definition has_executor :: "'w conductor \<Rightarrow> string \<Rightarrow> bool" where
  "has_executor c provider0 =
     (let provider = trim_space provider0 in
      if provider = [] then False
      else provider \<in> set (co_executors c) \<or> to_lower provider \<in> set (co_executors c))"

definition model_lookup_key :: "string \<Rightarrow> string" where
  "model_lookup_key model =
     (let k = trim_space model; n = sr_model_name (parse_suffix k)
      in if k \<noteq> [] \<and> n \<noteq> [] then trim_space n else k)"

definition pick_request_of :: "pick_context \<Rightarrow> string list \<Rightarrow> pick_request" where
  "pick_request_of px tried =
     \<lparr>pr_ws = px_ws px, pr_eligibility = auth_selection_eligibility px, pr_metadata = px_metadata px,
      pr_tried = tried\<rparr>"

section \<open>The selectors\<close>

definition built_in_pick ::
  "bool \<Rightarrow> string option \<Rightarrow> gotime \<Rightarrow> string \<Rightarrow> string \<Rightarrow> auth option list \<Rightarrow> built_in \<Rightarrow>
   (select_error + auth) \<times> built_in" where
  "built_in_pick ws route now provider model auths b =
     (case b of
        RoundRobin s \<Rightarrow> (case round_robin_pick ws now provider model auths s of (r, s') \<Rightarrow> (r, RoundRobin s'))
      | FillFirst \<Rightarrow> (fill_first_pick ws now provider model auths, FillFirst)
      | Weighted s \<Rightarrow> (case weighted_pick ws route now provider model auths s of (r, s') \<Rightarrow> (r, Weighted s')))"

definition is_weighted :: "built_in \<Rightarrow> bool" where
  "is_weighted b = (case b of Weighted _ \<Rightarrow> True | _ \<Rightarrow> False)"

definition read_pick_clock :: "('w \<Rightarrow> nat \<times> 'w) \<Rightarrow> 'w conductor \<Rightarrow> pick_clock \<times> 'w conductor" where
  "read_pick_clock elapsed c =
     (case read_clock elapsed c of (t1, c1) \<Rightarrow> case read_clock elapsed c1 of (t2, c2) \<Rightarrow>
      case read_clock elapsed c2 of (t3, c3) \<Rightarrow> case read_clock elapsed c3 of (t4, c4) \<Rightarrow>
      case read_clock elapsed c4 of (t5, c5) \<Rightarrow> case read_clock elapsed c5 of (t6, c6) \<Rightarrow>
        (\<lparr>pc_now = t1, pc_refresh = t2, pc_get = t3, pc_get2 = t4, pc_fallback = t5, pc_bind = t6\<rparr>, c6))"

text \<open>The route model reaches the weighted selector through the context, and only that one.\<close>

definition selector_pick ::
  "('w \<Rightarrow> nat \<times> 'w) \<Rightarrow> pick_context \<Rightarrow> string \<Rightarrow> string \<Rightarrow> auth list \<Rightarrow> 'w conductor \<Rightarrow>
   (select_error + auth) \<times> 'w conductor" where
  "selector_pick elapsed px provider route auths c =
     (let arg = selection_arg_for_selector (co_selector c) route in
      case co_selector c of
        BuiltIn b \<Rightarrow>
          (case read_clock elapsed c of
             (now, c1) \<Rightarrow>
               (case built_in_pick (px_ws px) (if trim_space route = [] then None else Some route)
                       now provider arg (map Some auths) b of
                  (r, b') \<Rightarrow> (r, c1\<lparr>co_selector := BuiltIn b'\<rparr>)))
      | Affinity b cache \<Rightarrow>
          (case read_pick_clock elapsed c of
             (clk, c1) \<Rightarrow>
               (case session_affinity_pick (built_in_pick (px_ws px) None) (is_weighted b) (px_session px)
                       (px_fallback_session px) clk provider arg (map Some auths) cache b of
                  (r, cache', b') \<Rightarrow> (r, c1\<lparr>co_selector := Affinity b' cache'\<rparr>))))"

section \<open>The legacy path\<close>

definition legacy_candidate ::
  "(string \<Rightarrow> oauth_alias list option) \<Rightarrow> pick_context \<Rightarrow> string list \<Rightarrow> string \<Rightarrow> 'w conductor \<Rightarrow> auth \<Rightarrow> bool" where
  "legacy_candidate decode px tried route c a =
     (let pinned = pinned_auth_id_from_metadata (px_metadata px) in
      if a_disabled a then False
      else if pinned \<noteq> [] \<and> a_id a \<noteq> pinned then False
      else if \<not> eligibility_allows (auth_selection_eligibility px) (Some a) then False
      else if a_id a \<in> set tried then False
      else if model_lookup_key route \<noteq> [] \<and> \<not> auth_supports_route_model decode c a route then False
      else True)"

text \<open>What follows the collection of the candidates.\<close>

definition pick_among ::
  "('w \<Rightarrow> nat \<times> 'w) \<Rightarrow> (string \<Rightarrow> oauth_alias list option) \<Rightarrow> pick_context \<Rightarrow> string \<Rightarrow> string \<Rightarrow>
   auth list \<Rightarrow> 'w conductor \<Rightarrow> (select_error + auth) \<times> 'w conductor" where
  "pick_among elapsed decode px provider route candidates c =
     (if candidates = [] then (Inl (CodedError ''auth_not_found'' ''no auth available''), c)
      else
        (case read_clock elapsed c of
           (now, c1) \<Rightarrow>
             (case available_auths_for_selector (\<lambda>a. selection_model decode c1 (Some a) route)
                     (co_selector c1) candidates provider route now of
                Inl e \<Rightarrow> (Inl e, c1)
              | Inr auths \<Rightarrow> selector_pick elapsed px provider route auths c1)))"

definition pick_next_legacy ::
  "('w \<Rightarrow> nat \<times> 'w) \<Rightarrow> (string \<Rightarrow> oauth_alias list option) \<Rightarrow> pick_context \<Rightarrow> string list \<Rightarrow> string \<Rightarrow>
   string \<Rightarrow> 'w conductor \<Rightarrow> (select_error + auth) \<times> 'w conductor" where
  "pick_next_legacy elapsed decode px tried provider route c =
     (if provider \<notin> set (co_executors c)
      then (Inl (CodedError ''executor_not_found'' ''executor not registered''), c)
      else pick_among elapsed decode px provider route
             (filter (\<lambda>a. executor_key_from_auth (Some a) = provider \<and> legacy_candidate decode px tried route c a)
                (auth_list c)) c)"

definition pick_next_mixed_legacy ::
  "('w \<Rightarrow> nat \<times> 'w) \<Rightarrow> (string \<Rightarrow> oauth_alias list option) \<Rightarrow> pick_context \<Rightarrow> string list \<Rightarrow> string list \<Rightarrow>
   string \<Rightarrow> 'w conductor \<Rightarrow> (select_error + auth \<times> string) \<times> 'w conductor" where
  "pick_next_mixed_legacy elapsed decode px tried providers route c =
     (let ps = filter (\<lambda>p. p \<noteq> []) (map (\<lambda>p. trim_space (to_lower p)) providers) in
      if ps = [] then (Inl (CodedError ''provider_not_found'' ''no provider supplied''), c)
      else
        (case pick_among elapsed decode px ''mixed'' route
                (filter (\<lambda>a. let k = executor_key_from_auth (Some a) in
                          k \<noteq> [] \<and> k \<in> set ps \<and> k \<in> set (co_executors c) \<and> legacy_candidate decode px tried route c a)
                   (auth_list c)) c of
           (Inl e, c1) \<Rightarrow> (Inl e, c1)
         | (Inr a, c1) \<Rightarrow>
             let k = executor_key_from_auth (Some a) in
             if \<not> has_executor c1 k then (Inl (CodedError ''executor_not_found'' ''executor not registered''), c1)
             else (Inr (a, k), c1)))"

section \<open>The fast path\<close>

definition should_retry_scheduler_pick :: "select_error \<Rightarrow> bool" where
  "should_retry_scheduler_pick e =
     (case e of
        ModelCooldown _ _ _ \<Rightarrow> True
      | CodedError code _ \<Rightarrow> code = ''auth_not_found'' \<or> code = ''auth_unavailable'')"

text \<open>A pick of the scheduler, repeated once after a rebuild when it found nothing.\<close>

definition scheduler_pick ::
  "('w \<Rightarrow> nat \<times> 'w) \<Rightarrow>
   (gotime \<Rightarrow> gotime \<Rightarrow> gotime \<Rightarrow> auth_sched \<Rightarrow> (select_error + 'a) \<times> auth_sched) \<Rightarrow>
   'w conductor \<Rightarrow> (select_error + 'a) \<times> 'w conductor" where
  "scheduler_pick elapsed pick c =
     (case read_clock elapsed c of (t1, c1) \<Rightarrow> case read_clock elapsed c1 of (t2, c2) \<Rightarrow>
      case read_clock elapsed c2 of (t3, c3) \<Rightarrow>
        (case pick t1 t2 t3 (co_sched c3) of (r, s) \<Rightarrow> (r, c3\<lparr>co_sched := s\<rparr>)))"

definition pick_with_resync ::
  "('w \<Rightarrow> nat \<times> 'w) \<Rightarrow> string \<Rightarrow>
   (gotime \<Rightarrow> gotime \<Rightarrow> gotime \<Rightarrow> auth_sched \<Rightarrow> (select_error + 'a) \<times> auth_sched) \<Rightarrow>
   'w conductor \<Rightarrow> (select_error + 'a) \<times> 'w conductor" where
  "pick_with_resync elapsed model pick c =
     (case scheduler_pick elapsed pick c of
        (Inl e, c1) \<Rightarrow>
          if model \<noteq> [] \<and> should_retry_scheduler_pick e
          then scheduler_pick elapsed pick (sync_scheduler elapsed c1)
          else (Inl e, c1)
      | (Inr x, c1) \<Rightarrow> (Inr x, c1))"

definition fast_candidate :: "pick_context \<Rightarrow> string list \<Rightarrow> auth \<Rightarrow> bool" where
  "fast_candidate px tried a =
     (\<not> a_disabled a \<and> eligibility_allows (auth_selection_eligibility px) (Some a) \<and> a_id a \<notin> set tried)"

text \<open>Some candidate of the providers is checked under a model of its own.\<close>

definition needs_route_awareness ::
  "(string \<Rightarrow> oauth_alias list option) \<Rightarrow> pick_context \<Rightarrow> string list \<Rightarrow> string list \<Rightarrow> string \<Rightarrow>
   'w conductor \<Rightarrow> bool" where
  "needs_route_awareness decode px tried ps route c =
     (trim_space route \<noteq> [] \<and>
      list_ex (\<lambda>a. executor_key_from_auth (Some a) \<in> set ps \<and> fast_candidate px tried a \<and>
                   route_aware_selection_required decode c a route) (auth_list c))"

definition pick_next ::
  "('w \<Rightarrow> nat \<times> 'w) \<Rightarrow> (string \<Rightarrow> oauth_alias list option) \<Rightarrow> pick_context \<Rightarrow> string list \<Rightarrow> string \<Rightarrow>
   string \<Rightarrow> 'w conductor \<Rightarrow> (select_error + auth) \<times> 'w conductor" where
  "pick_next elapsed decode px tried provider route c =
     (if \<not> is_built_in_selector (co_selector c) \<or> needs_route_awareness decode px tried [provider] route c
      then pick_next_legacy elapsed decode px tried provider route c
      else if \<not> has_executor c provider
      then (Inl (CodedError ''executor_not_found'' ''executor not registered''), c)
      else pick_with_resync elapsed route
             (\<lambda>t1 t2 t3. pick_single t1 t2 t3 StratCurrent (pick_request_of px tried) provider route) c)"

text \<open>The providers of a mixed pick: normalized, without repetition, with an executor.\<close>

fun eligible_providers :: "'w conductor \<Rightarrow> string list \<Rightarrow> string list \<Rightarrow> string list" where
  "eligible_providers c [] seen = []"
| "eligible_providers c (p # ps) seen =
     (let k = trim_space (to_lower p) in
      if k = [] \<or> k \<in> set seen \<or> \<not> has_executor c k then eligible_providers c ps seen
      else k # eligible_providers c ps (k # seen))"

definition pick_next_mixed ::
  "('w \<Rightarrow> nat \<times> 'w) \<Rightarrow> (string \<Rightarrow> oauth_alias list option) \<Rightarrow> pick_context \<Rightarrow> string list \<Rightarrow> string list \<Rightarrow>
   string \<Rightarrow> 'w conductor \<Rightarrow> (select_error + auth \<times> string) \<times> 'w conductor" where
  "pick_next_mixed elapsed decode px tried providers route c =
     (if \<not> is_built_in_selector (co_selector c)
      then pick_next_mixed_legacy elapsed decode px tried providers route c
      else
        let ps = eligible_providers c providers [] in
        if ps = [] then (Inl (CodedError ''auth_not_found'' ''no auth available''), c)
        else if needs_route_awareness decode px tried ps route c
        then pick_next_mixed_legacy elapsed decode px tried providers route c
        else
          (case pick_with_resync elapsed route
                  (\<lambda>t1 t2 t3. pick_mixed t1 t2 t3 StratCurrent (pick_request_of px tried) ps route) c of
             (Inl e, c1) \<Rightarrow> (Inl e, c1)
           | (Inr (a, k), c1) \<Rightarrow>
               if \<not> has_executor c1 k
               then (Inl (CodedError ''executor_not_found'' ''executor not registered''), c1)
               else (Inr (a, k), c1)))"

section \<open>Selecting without executing\<close>

definition select_auth ::
  "('w \<Rightarrow> nat \<times> 'w) \<Rightarrow> (string \<Rightarrow> oauth_alias list option) \<Rightarrow> pick_context \<Rightarrow> string \<Rightarrow> string \<Rightarrow>
   'w conductor \<Rightarrow> (select_error + auth) \<times> 'w conductor" where
  "select_auth elapsed decode px provider model c = pick_next_legacy elapsed decode px [] provider model c"

definition select_auth_by_kind ::
  "('w \<Rightarrow> nat \<times> 'w) \<Rightarrow> (string \<Rightarrow> oauth_alias list option) \<Rightarrow> pick_context \<Rightarrow> string \<Rightarrow> string \<Rightarrow> string \<Rightarrow>
   'w conductor \<Rightarrow> (select_error + auth) \<times> 'w conductor" where
  "select_auth_by_kind elapsed decode px provider model kind0 c =
     (let kind = normalize_auth_kind kind0 in
      if kind = [] then (Inl (CodedError ''invalid_auth_kind'' ''required auth kind is invalid''), c)
      else pick_next_legacy elapsed decode (px\<lparr>px_kind := kind\<rparr>) [] provider model c)"

definition select_auth_with_credential_policy ::
  "('w \<Rightarrow> nat \<times> 'w) \<Rightarrow> (string \<Rightarrow> oauth_alias list option) \<Rightarrow> pick_context \<Rightarrow> string \<Rightarrow> string \<Rightarrow> string \<Rightarrow>
   'w conductor \<Rightarrow> (select_error + auth) \<times> 'w conductor" where
  "select_auth_with_credential_policy elapsed decode px provider model policy0 c =
     (let policy = normalize_credential_policy policy0 in
      if policy = []
      then (Inl (CodedError ''invalid_credential_policy'' ''credential policy is invalid''), c)
      else (case pick_next_legacy elapsed decode (px\<lparr>px_policy := policy\<rparr>) [] provider model c of
              (Inl e, c1) \<Rightarrow> (Inl e, c1)
            | (Inr a, c1) \<Rightarrow>
                if credential_policy_allows policy (Some a) then (Inr a, c1)
                else (Inl (CodedError ''auth_not_found'' ''selector returned no eligible auth''), c1)))"

section \<open>What is registered\<close>

definition auth_active :: "auth \<Rightarrow> bool" where
  "auth_active a = (\<not> a_disabled a \<and> a_status a \<noteq> StatusDisabled)"

definition available_providers :: "'w conductor \<Rightarrow> string list" where
  "available_providers c =
     sort_key id (remdups (filter (\<lambda>p. p \<noteq> [])
       (map (\<lambda>a. to_lower (trim_space (a_provider a))) (filter auth_active (auth_list c)))))"

definition has_provider_auth :: "string \<Rightarrow> 'w conductor \<Rightarrow> bool" where
  "has_provider_auth provider0 c =
     (let provider = to_lower (trim_space provider0) in
      provider \<noteq> [] \<and>
      list_ex (\<lambda>a. auth_active a \<and> to_lower (trim_space (a_provider a)) = provider) (auth_list c))"

section \<open>Whether to try again\<close>

text \<open>\<open>oob\<close> is what converting a float outside the range of \<open>int64\<close> gives.\<close>

definition effective_retry :: "(gofloat \<Rightarrow> int) \<Rightarrow> int \<Rightarrow> auth \<Rightarrow> int" where
  "effective_retry oob default_retry a =
     (let r = (case request_retry_override oob (Some a) of Some n \<Rightarrow> n | None \<Rightarrow> max 0 default_retry)
      in if r < 0 then 0 else r)"

definition provider_set :: "string list \<Rightarrow> string list" where
  "provider_set providers = filter (\<lambda>k. k \<noteq> []) (map (\<lambda>p. trim_space (to_lower p)) providers)"

text \<open>The wait one credential asks for; \<open>None\<close> when it does not count.\<close>

definition cooldown_wait_of ::
  "(string \<Rightarrow> oauth_alias list option) \<Rightarrow> gotime \<Rightarrow> string \<Rightarrow> 'w conductor \<Rightarrow> auth \<Rightarrow> duration option" where
  "cooldown_wait_of decode now model c a =
     (let check = (if trim_space model \<noteq> [] then selection_model decode c (Some a) model else model)
      in case is_auth_blocked_for_model (Some a) check now of (blk, reason, nxt) \<Rightarrow>
           (if \<not> blk \<or> is_zero nxt \<or> reason = BlockDisabled then None
            else let wait = time_sub nxt now in if wait < 0 then None else Some wait))"

definition nearer :: "duration option \<Rightarrow> duration option \<Rightarrow> duration option" where
  "nearer best w =
     (case w of
        None \<Rightarrow> best
      | Some d \<Rightarrow> (case best of None \<Rightarrow> Some d | Some b \<Rightarrow> if d < b then Some d else best))"

definition closest_cooldown_wait ::
  "(gofloat \<Rightarrow> int) \<Rightarrow> (string \<Rightarrow> oauth_alias list option) \<Rightarrow> gotime \<Rightarrow> string list \<Rightarrow> string \<Rightarrow> int \<Rightarrow> 'w conductor \<Rightarrow>
   duration option" where
  "closest_cooldown_wait oob decode now providers model attempt c =
     fold (\<lambda>a best.
        if executor_key_from_auth (Some a) \<notin> set (provider_set providers) then best
        else if attempt \<ge> effective_retry oob (co_retry c) a then best
        else nearer best (cooldown_wait_of decode now model c a)) (auth_list c) None"

definition retry_allowed :: "(gofloat \<Rightarrow> int) \<Rightarrow> int \<Rightarrow> string list \<Rightarrow> 'w conductor \<Rightarrow> bool" where
  "retry_allowed oob attempt providers c =
     (attempt \<ge> 0 \<and>
      list_ex (\<lambda>a. executor_key_from_auth (Some a) \<in> set (provider_set providers) \<and>
                   attempt < effective_retry oob (co_retry c) a) (auth_list c))"

definition should_retry_after_error ::
  "(gofloat \<Rightarrow> int) \<Rightarrow> (string \<Rightarrow> oauth_alias list option) \<Rightarrow> gotime \<Rightarrow> exec_error \<Rightarrow> int \<Rightarrow> string list \<Rightarrow> string \<Rightarrow>
   duration \<Rightarrow> 'w conductor \<Rightarrow> duration option" where
  "should_retry_after_error oob decode now e attempt providers model max_wait c =
     (if ee_home_busy e then None
      else if max_wait \<le> 0 then None
      else if status_code_from_error e = 200 then None
      else if invalid_request e then None
      else (case closest_cooldown_wait oob decode now providers model attempt c of
              Some wait \<Rightarrow> if wait > max_wait then None else Some wait
            | None \<Rightarrow>
                if status_code_from_error e \<noteq> 429 then None
                else if \<not> retry_allowed oob attempt providers c then None
                else (case ee_retry_after e of
                        None \<Rightarrow> None
                      | Some d \<Rightarrow> if d \<le> 0 \<or> d > max_wait then None else Some d)))"

text \<open>\<open>random\<close> is \<open>rand.N\<close>: a value below its positive argument.\<close>

definition cooldown_wait_jitter_cap :: duration where "cooldown_wait_jitter_cap = 2 * second"

definition jittered_cooldown_wait :: "(duration \<Rightarrow> duration) \<Rightarrow> duration \<Rightarrow> duration \<Rightarrow> duration" where
  "jittered_cooldown_wait random wait max_wait =
     (if wait \<le> 0 then wait
      else
        let r0 = go_quot wait 4;
            r1 = (if r0 > cooldown_wait_jitter_cap then cooldown_wait_jitter_cap else r0);
            r2 = (if max_wait > 0 \<and> r1 > max_wait - wait then max_wait - wait else r1)
        in if r2 \<le> 0 then wait else wait + random r2)"

end
