(* ===== verification/Lifecycle.thy ===== *)
theory Lifecycle
  imports Conductor
begin

text \<open>
  The life of credentials, executors and settings in the conductor
  (\<open>sdk/cliproxy/auth/conductor_lifecycle.go\<close>, \<open>SetConfig\<close> of \<open>conductor_cooldown.go\<close>): register,
  update, remove, load, and what the scheduler, the alias tables and the sessions are told.
  Saving a credential is one effect, which stands for \<open>persist\<close>. The identifier given to a credential
  that has none is the parameter \<open>fresh\<close> (\<open>uuid.NewString\<close>), and \<open>postpone\<close> is the flag of the context
  that puts the rebuild of the alias tables off.
\<close>

section \<open>A new manager\<close>

text \<open>The registry and the two settings of the package live outside the manager and are found as they are.\<close>

definition new_manager ::
  "conductor_selector option \<Rightarrow> bool \<Rightarrow> int \<Rightarrow> model_registry \<Rightarrow> gotime \<Rightarrow> 'w \<Rightarrow> 'w conductor" where
  "new_manager so quota_off transient registry now w =
     (let s = (case so of None \<Rightarrow> BuiltIn (RoundRobin \<lparr>rr_cursors = [], rr_max_keys = 0\<rparr>) | Some s \<Rightarrow> s)
      in \<lparr>co_manager = \<lparr>mg_auths = [], mg_config = Some empty_config, mg_quota_off = quota_off,
            mg_transient = transient, mg_store = False, mg_scheduler = True\<rparr>,
          co_alias = \<lparr>as_table = [], as_routing = \<lparr>rs_config = empty_config, rs_aliases = []\<rparr>, as_offsets = []\<rparr>,
          co_sched = new_auth_scheduler (selector_strategy s), co_registry = registry, co_selector = s,
          co_executors = [], co_retry = 0, co_max_credentials = 0, co_max_interval = 0,
          co_now = now, co_world = w, co_out = []\<rparr>)"

definition set_quota_cooldown_disabled :: "bool \<Rightarrow> 'w conductor \<Rightarrow> 'w conductor" where
  "set_quota_cooldown_disabled b c = c\<lparr>co_manager := (co_manager c)\<lparr>mg_quota_off := b\<rparr>\<rparr>"

definition set_transient_error_cooldown_seconds :: "int \<Rightarrow> 'w conductor \<Rightarrow> 'w conductor" where
  "set_transient_error_cooldown_seconds n c = c\<lparr>co_manager := (co_manager c)\<lparr>mg_transient := n\<rparr>\<rparr>"

text \<open>Whether there is a store for cooldown records.\<close>

definition set_cooldown_state_store :: "bool \<Rightarrow> 'w conductor \<Rightarrow> 'w conductor" where
  "set_cooldown_state_store b c = c\<lparr>co_manager := (co_manager c)\<lparr>mg_store := b\<rparr>\<rparr>"

section \<open>Settings and executors\<close>

text \<open>Go's conversion to \<open>int32\<close>.\<close>

definition wrap32 :: "int \<Rightarrow> int" where
  "wrap32 n = (n + 2 ^ 31) mod 2 ^ 32 - 2 ^ 31"

definition set_retry_config :: "int \<Rightarrow> duration \<Rightarrow> int \<Rightarrow> 'w conductor \<Rightarrow> 'w conductor" where
  "set_retry_config retry max_interval max_credentials c =
     c\<lparr>co_retry := wrap32 (if retry < 0 then 0 else retry),
       co_max_credentials := wrap32 (if max_credentials < 0 then 0 else max_credentials),
       co_max_interval := (if max_interval < 0 then 0 else max_interval)\<rparr>"

text \<open>\<open>same\<close>: the executor registered under the key before is the very same object.\<close>

definition register_executor :: "bool \<Rightarrow> string \<Rightarrow> 'w conductor \<Rightarrow> 'w conductor" where
  "register_executor same identifier c =
     (let provider = trim_space identifier in
      if provider = [] then c
      else
        let c1 = c\<lparr>co_executors := List.insert provider (co_executors c)\<rparr> in
        if provider \<notin> set (co_executors c) \<or> same then c1
        else c1\<lparr>co_out := co_out c1 @ [CloseSessions provider]\<rparr>)"

definition unregister_executor :: "string \<Rightarrow> 'w conductor \<Rightarrow> 'w conductor" where
  "unregister_executor provider0 c =
     (let provider = to_lower (trim_space provider0) in
      if provider = [] then c
      else c\<lparr>co_executors := filter (\<lambda>k. k \<noteq> provider) (co_executors c)\<rparr>)"

definition rebuild_aliases_from_config :: "'w conductor \<Rightarrow> 'w conductor" where
  "rebuild_aliases_from_config c =
     (let cfg = (case mg_config (co_manager c) of Some cfg \<Rightarrow> cfg | None \<Rightarrow> empty_config)
      in c\<lparr>co_alias := rebuild_api_key_model_alias cfg (mg_auths (co_manager c)) (co_alias c)\<rparr>)"

definition set_config_snapshot ::
  "('w \<Rightarrow> nat \<times> 'w) \<Rightarrow> runtime_config option \<Rightarrow> 'w conductor \<Rightarrow> 'w conductor \<times> bool" where
  "set_config_snapshot elapsed cfg0 c =
     (let cfg = (case cfg0 of Some cfg \<Rightarrow> cfg | None \<Rightarrow> empty_config);
          c0 = c\<lparr>co_manager := (co_manager c)\<lparr>mg_config := Some cfg\<rparr>\<rparr>
      in case read_clock elapsed c0 of
           (now, c1) \<Rightarrow>
             (case clear_disabled_cooldown_states now (Some cfg) (co_manager c1) of
                (m, es, cleared) \<Rightarrow>
                  (rebuild_aliases_from_config (fold (run_effect elapsed) es (c1\<lparr>co_manager := m\<rparr>)), cleared)))"

definition set_config :: "('w \<Rightarrow> nat \<times> 'w) \<Rightarrow> runtime_config option \<Rightarrow> 'w conductor \<Rightarrow> 'w conductor" where
  "set_config elapsed cfg c =
     (case set_config_snapshot elapsed cfg c of
        (c1, cleared) \<Rightarrow> if cleared then run_effect elapsed PersistCooldowns c1 else c1)"

section \<open>Credentials\<close>

text \<open>What registering and updating do to the credential itself.\<close>

definition admit_auth :: "manager \<Rightarrow> gotime \<Rightarrow> auth \<Rightarrow> auth \<times> bool" where
  "admit_auth m now a =
     (case normalize_model_states a of
        (a1, changed) \<Rightarrow>
          if cooldown_disabled_for_auth m a1 \<or> a_disabled a1 \<or> a_status a1 = StatusDisabled
          then (case clear_cooldown_state_for_auth now a1 of (a2, cleared) \<Rightarrow> (a2, cleared \<or> changed))
          else (a1, changed))"

text \<open>Storing the credential and telling everyone.\<close>

definition publish_auth ::
  "('w \<Rightarrow> nat \<times> 'w) \<Rightarrow> bool \<Rightarrow> effect \<Rightarrow> bool \<Rightarrow> auth \<Rightarrow> 'w conductor \<Rightarrow> 'w conductor" where
  "publish_auth elapsed postpone hook changed a c =
     (let c1 = c\<lparr>co_manager := store_auth (a_id a) a (co_manager c)\<rparr>;
          c2 = (if postpone then c1 else rebuild_aliases_from_config c1)
      in fold (run_effect elapsed)
           ([UpsertAuth a, Reschedule (a_id a), SaveAuth a, hook] @ (if changed then [PersistCooldowns] else [])) c2)"

definition register_auth ::
  "('w \<Rightarrow> nat \<times> 'w) \<Rightarrow> bool \<Rightarrow> string \<Rightarrow> auth option \<Rightarrow> 'w conductor \<Rightarrow>
   (weight_site_error + auth option) \<times> 'w conductor" where
  "register_auth elapsed postpone fresh ao c =
     (case ao of
        None \<Rightarrow> (Inr None, c)
      | Some a0 \<Rightarrow>
          (case validate_auth_weight (Some a0) of
             Some e \<Rightarrow> (Inl e, c)
           | None \<Rightarrow>
               let a1 = (if a_id a0 = [] then a0\<lparr>a_id := fresh\<rparr> else a0) in
               (case read_clock elapsed c of
                  (now, c1) \<Rightarrow>
                    (case admit_auth (co_manager c1) now a1 of
                       (a, changed) \<Rightarrow>
                         (Inr (Some a), publish_auth elapsed postpone (AuthRegistered a) changed a c1)))))"

text \<open>The counters and the ring of requests stay those of the credential that is replaced.\<close>

definition inherit_auth :: "auth \<Rightarrow> auth \<Rightarrow> auth" where
  "inherit_auth existing a =
     (let a1 = a\<lparr>a_success := a_success existing, a_failed := a_failed existing, a_recent := a_recent existing\<rparr>
      in if auth_active existing \<and> auth_active a1 \<and> a_model_states a1 = [] \<and> a_model_states existing \<noteq> []
         then a1\<lparr>a_model_states := a_model_states existing\<rparr> else a1)"

definition update_auth ::
  "('w \<Rightarrow> nat \<times> 'w) \<Rightarrow> bool \<Rightarrow> auth option \<Rightarrow> 'w conductor \<Rightarrow>
   (weight_site_error + auth option) \<times> 'w conductor" where
  "update_auth elapsed postpone ao c =
     (case ao of
        None \<Rightarrow> (Inr None, c)
      | Some a0 \<Rightarrow>
          if a_id a0 = [] then (Inr None, c)
          else
            (case validate_auth_weight (Some a0) of
               Some e \<Rightarrow> (Inl e, c)
             | None \<Rightarrow>
                 (case lookup_auth (co_manager c) (a_id a0) of
                    None \<Rightarrow> (Inr None, c)
                  | Some existing \<Rightarrow>
                      (case read_clock elapsed c of
                         (now, c1) \<Rightarrow>
                           (case admit_auth (co_manager c1) now (inherit_auth existing a0) of
                              (a, changed) \<Rightarrow>
                                (Inr (Some a), publish_auth elapsed postpone (AuthUpdated a) changed a c1))))))"

definition invalidate_session_affinity :: "string \<Rightarrow> 'w conductor \<Rightarrow> 'w conductor" where
  "invalidate_session_affinity i c =
     (if i = [] then c
      else (case co_selector c of
              BuiltIn _ \<Rightarrow> c
            | Affinity b cache \<Rightarrow> c\<lparr>co_selector := Affinity b (session_invalidate_auth i cache)\<rparr>))"

definition remove_auth :: "('w \<Rightarrow> nat \<times> 'w) \<Rightarrow> bool \<Rightarrow> string \<Rightarrow> 'w conductor \<Rightarrow> 'w conductor" where
  "remove_auth elapsed postpone i0 c =
     (let i = trim_space i0 in
      if i = [] then c
      else (case lookup_auth (co_manager c) i of
              None \<Rightarrow> c
            | Some existing \<Rightarrow>
                let provider = trim_space (a_provider existing);
                    c1 = c\<lparr>co_manager := (co_manager c)\<lparr>mg_auths := AList.delete i (mg_auths (co_manager c))\<rparr>,
                           co_alias := (co_alias c)\<lparr>as_offsets := AList.delete i (as_offsets (co_alias c))\<rparr>\<rparr>;
                    c2 = (if postpone then c1 else rebuild_aliases_from_config c1);
                    c3 = c2\<lparr>co_sched := sched_remove_auth i (co_sched c2)\<rparr>;
                    c4 = invalidate_session_affinity i (run_effect elapsed (Unschedule i) c3)
                in fold (run_effect elapsed)
                     ((if provider \<noteq> [] \<and> has_executor c4 provider then [CloseSessions provider] else []) @
                      [PersistCooldowns]) c4))"

text \<open>\<open>items\<close> is what the store lists.\<close>

definition load_item :: "auth option \<Rightarrow> (string \<times> auth option) list \<Rightarrow> (string \<times> auth option) list" where
  "load_item ao m =
     (case ao of
        None \<Rightarrow> m
      | Some a \<Rightarrow>
          if a_id a = [] \<or> validate_auth_weight (Some a) \<noteq> None then m
          else AList.update (a_id a) (Some a) m)"

definition load_items :: "auth option list \<Rightarrow> (string \<times> auth option) list" where
  "load_items items = fold load_item items []"

definition load_auths :: "('w \<Rightarrow> nat \<times> 'w) \<Rightarrow> auth option list \<Rightarrow> 'w conductor \<Rightarrow> 'w conductor" where
  "load_auths elapsed items c =
     sync_scheduler elapsed (rebuild_aliases_from_config
       (c\<lparr>co_manager := (co_manager c)\<lparr>mg_auths := load_items items\<rparr>\<rparr>))"

section \<open>Cooldowns\<close>

definition models_for_registered_auth :: "string \<Rightarrow> 'w conductor \<Rightarrow> string list" where
  "models_for_registered_auth i c =
     map canonical_model_key (filter (\<lambda>m. trim_space m \<noteq> []) (models_for c i))"

text \<open>\<open>saved\<close>: the store took the credential.\<close>

definition conductor_reset_quota ::
  "('w \<Rightarrow> nat \<times> 'w) \<Rightarrow> bool \<Rightarrow> string \<Rightarrow> 'w conductor \<Rightarrow> reset_outcome \<times> 'w conductor" where
  "conductor_reset_quota elapsed saved i c =
     (case read_clock elapsed c of
        (now, c1) \<Rightarrow>
          (case reset_quota now (models_for_registered_auth (trim_space i) c1) saved i (co_manager c1) of
             (out, m, es) \<Rightarrow> (out, fold (run_effect elapsed) es (c1\<lparr>co_manager := m\<rparr>))))"

definition conductor_restore_cooldowns ::
  "('w \<Rightarrow> nat \<times> 'w) \<Rightarrow> cooldown_record list \<Rightarrow> 'w conductor \<Rightarrow> 'w conductor" where
  "conductor_restore_cooldowns elapsed records = on_manager elapsed (\<lambda>now. restore_cooldown_states now records)"

end
