(* ===== verification/Refresh.thy ===== *)
theory Refresh
  imports Lifecycle
begin

text \<open>
  Refreshing credentials (\<open>sdk/cliproxy/auth/conductor_refresh.go\<close>, the time readers of
  \<open>types.go\<close>, \<open>nextRefreshCheckAt\<close> of \<open>auto_refresh_loop.go\<close>): when a credential is due, the
  refresh itself with its effect on the credential, and the refresh after a 401. The parsers of
  the standard library, the conversion of a float and the runtime object of a credential are
  parameters.
\<close>

section \<open>Times and durations in metadata\<close>

text \<open>
  \<open>rf_oob\<close> converts a float outside the range of \<open>int64\<close>, \<open>rf_float_seconds\<close> multiplies a float by
  a second, \<open>rf_parse_time\<close> tries the layouts of \<open>parseTimeValue\<close>; \<open>rf_runtime_lead\<close> and
  \<open>rf_evaluator\<close> ask the runtime object, when it answers.
\<close>

record refresh_env =
  rf_oob :: "gofloat \<Rightarrow> int"
  rf_float_seconds :: "gofloat \<Rightarrow> duration"
  rf_parse_float :: "string \<Rightarrow> gofloat option"
  rf_parse_time :: "string \<Rightarrow> gotime option"
  rf_parse_duration :: "string \<Rightarrow> duration option"
  rf_runtime_lead :: "auth \<Rightarrow> duration option"
  rf_evaluator :: "auth \<Rightarrow> (gotime \<Rightarrow> bool) option"

definition normalise_unix :: "int \<Rightarrow> gotime" where
  "normalise_unix raw =
     (if raw \<le> 0 then 0 else if raw > 1000000000000 then raw * 1000000 else raw * second)"

definition parse_time_value :: "refresh_env \<Rightarrow> goany \<Rightarrow> gotime option" where
  "parse_time_value rf v =
     (case v of
        AnyString value \<Rightarrow>
          let s = trim_space value in
          if s = [] then None
          else (case rf_parse_time rf s of
                  Some t \<Rightarrow> Some t
                | None \<Rightarrow> map_option normalise_unix (parse_int64 s))
      | AnyFloat64 f \<Rightarrow> Some (normalise_unix (float_to_int (rf_oob rf) f))
      | AnyInt64 i \<Rightarrow> Some (normalise_unix i)
      | AnyNumber n \<Rightarrow>
          (case parse_int64 n of
             Some i \<Rightarrow> Some (normalise_unix i)
           | None \<Rightarrow> map_option (\<lambda>f. normalise_unix (float_to_int (rf_oob rf) f)) (rf_parse_float rf n))
      | _ \<Rightarrow> None)"

text \<open>The first key, in order, whose value reads as a time.\<close>

fun first_time :: "refresh_env \<Rightarrow> (string \<rightharpoonup> goany) \<Rightarrow> string list \<Rightarrow> gotime option" where
  "first_time rf meta [] = None"
| "first_time rf meta (k # ks) =
     (case Option.bind (meta k) (parse_time_value rf) of
        Some t \<Rightarrow> Some t
      | None \<Rightarrow> first_time rf meta ks)"

definition expire_keys :: "string list" where
  "expire_keys = [''expired'', ''expire'', ''expires_at'', ''expiresAt'', ''expiry'', ''expires'']"

lemma map_of_size [termination_simp]:
  "map_of m k = Some v \<Longrightarrow> size v < Suc (size_list (\<lambda>x. Suc (size (snd x))) m)"
  by (induction m) (auto split: if_splits)

fun expiration_nested :: "refresh_env \<Rightarrow> goany \<Rightarrow> gotime option" where
  "expiration_nested rf (AnyMap m) =
     (case first_time rf (map_of m) expire_keys of
        Some t \<Rightarrow> Some t
      | None \<Rightarrow>
          (case (case map_of m ''token'' of None \<Rightarrow> None | Some v \<Rightarrow> expiration_nested rf v) of
             Some t \<Rightarrow> Some t
           | None \<Rightarrow> (case map_of m ''Token'' of None \<Rightarrow> None | Some v \<Rightarrow> expiration_nested rf v)))"
| "expiration_nested rf _ = None"

definition expiration_time :: "refresh_env \<Rightarrow> auth \<Rightarrow> gotime option" where
  "expiration_time rf a =
     (case first_time rf (a_metadata a) expire_keys of
        Some t \<Rightarrow> Some t
      | None \<Rightarrow>
          (case Option.bind (a_metadata a ''token'') (expiration_nested rf) of
             Some t \<Rightarrow> Some t
           | None \<Rightarrow> Option.bind (a_metadata a ''Token'') (expiration_nested rf)))"

definition seconds_of :: "int \<Rightarrow> duration" where
  "seconds_of v = (if v \<le> 0 then 0 else wrap64 (wrap64 v * second))"

definition float_not_positive :: "gofloat \<Rightarrow> bool" where
  "float_not_positive f = (case f of FFin q \<Rightarrow> q \<le> 0 | FInf negative \<Rightarrow> negative | FNaN \<Rightarrow> False)"

definition float_positive :: "gofloat \<Rightarrow> bool" where
  "float_positive f = (case f of FFin q \<Rightarrow> q > 0 | FInf negative \<Rightarrow> \<not> negative | FNaN \<Rightarrow> False)"

definition parse_duration_string :: "refresh_env \<Rightarrow> string \<Rightarrow> duration" where
  "parse_duration_string rf raw =
     (let s = trim_space raw in
      if s = [] then 0
      else (case rf_parse_duration rf s of
              Some d \<Rightarrow>
                if d > 0 then d
                else (case rf_parse_float rf s of
                        Some f \<Rightarrow> if float_positive f then rf_float_seconds rf f else 0
                      | None \<Rightarrow> 0)
            | None \<Rightarrow>
                (case rf_parse_float rf s of
                   Some f \<Rightarrow> if float_positive f then rf_float_seconds rf f else 0
                 | None \<Rightarrow> 0)))"

definition parse_duration_value :: "refresh_env \<Rightarrow> goany \<Rightarrow> duration" where
  "parse_duration_value rf v =
     (case v of
        AnyInt i \<Rightarrow> seconds_of i
      | AnyInt32 i \<Rightarrow> seconds_of i
      | AnyInt64 i \<Rightarrow> seconds_of i
      | AnyUint i \<Rightarrow> seconds_of i
      | AnyUint32 i \<Rightarrow> seconds_of i
      | AnyUint64 i \<Rightarrow> seconds_of i
      | AnyFloat32 f \<Rightarrow> if float_not_positive f then 0 else rf_float_seconds rf f
      | AnyFloat64 f \<Rightarrow> if float_not_positive f then 0 else rf_float_seconds rf f
      | AnyNumber n \<Rightarrow>
          (case parse_int64 n of
             Some i \<Rightarrow> seconds_of i
           | None \<Rightarrow>
               (case rf_parse_float rf n of
                  Some f \<Rightarrow> if float_positive f then rf_float_seconds rf f else 0
                | None \<Rightarrow> 0))
      | AnyString s \<Rightarrow> parse_duration_string rf s
      | _ \<Rightarrow> 0)"

fun first_duration :: "(string \<Rightarrow> duration option) \<Rightarrow> string list \<Rightarrow> duration" where
  "first_duration get [] = 0"
| "first_duration get (k # ks) =
     (case get k of
        Some d \<Rightarrow> if d > 0 then d else first_duration get ks
      | None \<Rightarrow> first_duration get ks)"

definition interval_keys :: "string list" where
  "interval_keys =
     [''refresh_interval_seconds'', ''refreshIntervalSeconds'', ''refresh_interval'', ''refreshInterval'']"

definition auth_preferred_interval :: "refresh_env \<Rightarrow> auth \<Rightarrow> duration" where
  "auth_preferred_interval rf a =
     (let d = first_duration (\<lambda>k. map_option (parse_duration_value rf) (a_metadata a k)) interval_keys in
      if d > 0 then d
      else
        let d2 = first_duration (\<lambda>k. map_option (parse_duration_string rf) (a_attributes a k)) interval_keys in
        if d2 > 0 then d2 else 0)"

definition last_refresh_keys :: "string list" where
  "last_refresh_keys = [''last_refresh'', ''lastRefresh'', ''last_refreshed_at'', ''lastRefreshedAt'']"

definition auth_last_refresh_timestamp :: "refresh_env \<Rightarrow> auth \<Rightarrow> gotime option" where
  "auth_last_refresh_timestamp rf a =
     (case first_time rf (a_metadata a) last_refresh_keys of
        Some t \<Rightarrow> Some t
      | None \<Rightarrow>
          first_time rf
            (\<lambda>k. if auth_attribute a k = [] then None else Some (AnyString (auth_attribute a k)))
            last_refresh_keys)"

text \<open>The lead times the authenticators of \<open>sdk/auth\<close> register (\<open>refresh_registry.go\<close>).\<close>

definition registered_lead :: "string \<Rightarrow> duration option" where
  "registered_lead provider =
     (if provider = ''codex'' then Some (120 * hour)
      else if provider = ''claude'' then Some (4 * hour)
      else if provider = ''antigravity'' then Some (5 * minute)
      else if provider = ''kimi'' then Some (5 * minute)
      else if provider = ''xai'' then Some (5 * minute)
      else None)"

definition provider_refresh_lead :: "refresh_env \<Rightarrow> string \<Rightarrow> auth \<Rightarrow> duration option" where
  "provider_refresh_lead rf provider0 a =
     (let provider = to_lower (trim_space provider0);
          registered = (case registered_lead provider of
                          Some lead \<Rightarrow> if lead > 0 then Some lead else None | None \<Rightarrow> None)
      in case rf_runtime_lead rf a of
           Some lead \<Rightarrow> if lead > 0 then Some lead else registered
         | None \<Rightarrow> registered)"

section \<open>When a credential is due\<close>

definition refresh_check_interval :: duration where "refresh_check_interval = 5 * second"

definition refresh_pending_backoff :: duration where "refresh_pending_backoff = minute"

definition refresh_failure_backoff :: duration where "refresh_failure_backoff = 5 * minute"

definition refresh_ineffective_backoff :: duration where "refresh_ineffective_backoff = 30 * second"

definition last_refresh :: "refresh_env \<Rightarrow> auth \<Rightarrow> gotime" where
  "last_refresh rf a =
     (if is_zero (a_last_refreshed a)
      then (case auth_last_refresh_timestamp rf a of Some t \<Rightarrow> t | None \<Rightarrow> 0)
      else a_last_refreshed a)"

text \<open>The expiration time when there is one that is not the zero time.\<close>

definition expiry_of :: "refresh_env \<Rightarrow> auth \<Rightarrow> gotime option" where
  "expiry_of rf a =
     (case expiration_time rf a of Some t \<Rightarrow> if is_zero t then None else Some t | None \<Rightarrow> None)"

text \<open>\<open>later\<close> is the second reading of the clock, by \<open>time.Until\<close>.\<close>

definition should_refresh :: "refresh_env \<Rightarrow> gotime \<Rightarrow> gotime \<Rightarrow> auth option \<Rightarrow> bool" where
  "should_refresh rf now later ao =
     (case ao of
        None \<Rightarrow> False
      | Some a \<Rightarrow>
          if has_unauthorized_auth_failure ao then False
          else if \<not> is_zero (a_next_refresh a) \<and> before now (a_next_refresh a) then False
          else (case rf_evaluator rf a of
                  Some decide \<Rightarrow> decide now
                | None \<Rightarrow>
                    let last = last_refresh rf a; expiry = expiry_of rf a;
                        interval = auth_preferred_interval rf a
                    in if interval > 0 then
                         (if (case expiry of
                                Some e \<Rightarrow> \<not> after e now \<or> time_sub e now \<le> interval | None \<Rightarrow> False) then True
                          else if is_zero last then True
                          else time_sub now last \<ge> interval)
                       else
                         (case provider_refresh_lead rf (to_lower (a_provider a)) a of
                            None \<Rightarrow> False
                          | Some lead \<Rightarrow>
                              if lead \<le> 0 then (case expiry of Some e \<Rightarrow> after now e | None \<Rightarrow> False)
                              else (case expiry of
                                      Some e \<Rightarrow> time_sub e later \<le> lead
                                    | None \<Rightarrow>
                                        if \<not> is_zero last then time_sub now last \<ge> lead else True))))"

definition next_refresh_check_at ::
  "refresh_env \<Rightarrow> gotime \<Rightarrow> auth option \<Rightarrow> duration \<Rightarrow> gotime option" where
  "next_refresh_check_at rf now ao interval0 =
     (case ao of
        None \<Rightarrow> None
      | Some a \<Rightarrow>
          if has_unauthorized_auth_failure ao then None
          else if auth_kind ao = ''apikey'' then None
          else if \<not> is_zero (a_next_refresh a) \<and> before now (a_next_refresh a) then Some (a_next_refresh a)
          else if rf_evaluator rf a \<noteq> None
          then Some (now + (if interval0 \<le> 0 then refresh_check_interval else interval0))
          else
            let last = last_refresh rf a; expiry = expiry_of rf a; pref = auth_preferred_interval rf a in
            if pref > 0 then
              (if (case expiry of Some e \<Rightarrow> \<not> after e now \<or> time_sub e now \<le> pref | None \<Rightarrow> False)
               then Some now
               else if is_zero last then Some now
               else
                 let due = (case expiry of
                              Some e \<Rightarrow> if before (last + pref) (e - pref) then last + pref else e - pref
                            | None \<Rightarrow> last + pref)
                 in if \<not> after due now then Some now else Some due)
            else
              (case provider_refresh_lead rf (to_lower (a_provider a)) a of
                 None \<Rightarrow> None
               | Some lead \<Rightarrow>
                   (case expiry of
                      Some e \<Rightarrow> if \<not> after (e - lead) now then Some now else Some (e - lead)
                    | None \<Rightarrow>
                        if \<not> is_zero last
                        then (if \<not> after (last + lead) now then Some now else Some (last + lead))
                        else Some now)))"

section \<open>The refresh\<close>

definition auth_access_token :: "auth \<Rightarrow> string" where
  "auth_access_token a =
     (let t = auth_metadata_string a ''access_token'' in
      if t \<noteq> [] then t else auth_metadata_string a ''accessToken'')"

definition auth_has_refresh_credential :: "auth \<Rightarrow> bool" where
  "auth_has_refresh_credential a =
     (auth_metadata_string a ''refresh_token'' \<noteq> [] \<or> auth_metadata_string a ''refreshToken'' \<noteq> [])"

definition unauthorized_state :: "model_state option \<Rightarrow> bool" where
  "unauthorized_state so =
     (case so of
        None \<Rightarrow> False
      | Some st \<Rightarrow>
          (case ms_last_error st of
             None \<Rightarrow> False
           | Some e \<Rightarrow> error_status_code (Some e) = 401 \<or> equal_fold (err_code e) ''unauthorized''))"

text \<open>The models whose state was reset, and the credential after it.\<close>

definition clear_unauthorized_model_states :: "gotime \<Rightarrow> auth \<Rightarrow> string list \<times> auth" where
  "clear_unauthorized_model_states now a =
     (let resumed = map fst (filter (\<lambda>(m, so). unauthorized_state so) (a_model_states a));
          a1 = a\<lparr>a_model_states := map (\<lambda>(m, so).
                  (m, if unauthorized_state so then map_option (reset_model_state now) so else so))
                  (a_model_states a)\<rparr>
      in (resumed, if resumed \<noteq> [] then update_aggregated_availability now a1 else a1))"

definition fail_refresh :: "gotime \<Rightarrow> exec_error \<Rightarrow> auth \<Rightarrow> auth" where
  "fail_refresh now e a =
     (let a1 = a\<lparr>a_last_error := refresh_error_from_error (Some (ee_view e))\<rparr> in
      if is_unauthorized_error (Some (ee_view e))
      then a1\<lparr>a_next_refresh := 0, a_unavailable := True, a_status := StatusError,
              a_status_message := ''unauthorized''\<rparr>
      else a1\<lparr>a_next_refresh := now + refresh_failure_backoff\<rparr>)"

definition refreshed_auth :: "refresh_env \<Rightarrow> gotime \<Rightarrow> gotime \<Rightarrow> auth \<Rightarrow> string list \<times> auth" where
  "refreshed_auth rf now later a =
     (let a1 = a\<lparr>a_last_refreshed := now, a_next_refresh := 0, a_last_error := None, a_status_message := [],
                 a_unavailable := False,
                 a_status := (if a_status a = StatusError then StatusActive else a_status a),
                 a_updated := now\<rparr>
      in case clear_unauthorized_model_states now a1 of
           (resumed, a2) \<Rightarrow>
             (resumed, if should_refresh rf now later (Some a2)
                       then a2\<lparr>a_next_refresh := now + refresh_ineffective_backoff\<rparr> else a2))"

text \<open>
  \<open>refreshAuthForRequest\<close>: \<open>do_refresh\<close> is the call of the executor, \<open>None\<close> is an error, of which
  the callers only use that there is one.
\<close>

definition refresh_auth_for_request ::
  "('w \<Rightarrow> nat \<times> 'w) \<Rightarrow> refresh_env \<Rightarrow> (string \<Rightarrow> auth \<Rightarrow> 'w \<Rightarrow> (exec_error + auth option) \<times> 'w) \<Rightarrow> bool \<Rightarrow>
   string \<Rightarrow> string \<Rightarrow> 'w conductor \<Rightarrow> auth option \<times> 'w conductor" where
  "refresh_auth_for_request elapsed rf do_refresh postpone id0 failed_token c =
     (let i = trim_space id0 in
      if i = [] then (None, c)
      else (case lookup_auth (co_manager c) i of
              None \<Rightarrow> (None, c)
            | Some a \<Rightarrow>
                if a_provider a \<notin> set (co_executors c) then (None, c)
                else if failed_token \<noteq> [] \<and> auth_access_token a \<noteq> [] \<and> auth_access_token a \<noteq> failed_token
                then (Some a, c)
                else
                  (case do_refresh (a_provider a) a (co_world c) of
                     (outcome, w) \<Rightarrow>
                       let c1 = c\<lparr>co_world := w\<rparr> in
                       (case outcome of
                          Inl e \<Rightarrow>
                            if ee_canceled e then (None, c1)
                            else
                              (case read_clock elapsed c1 of
                                 (now, c2) \<Rightarrow>
                                   (case lookup_auth (co_manager c2) i of
                                      None \<Rightarrow> (None, c2)
                                    | Some current \<Rightarrow>
                                        let b = fail_refresh now e current in
                                        (None, fold (run_effect elapsed) [UpsertAuth b, Reschedule i]
                                                 (c2\<lparr>co_manager := store_auth i b (co_manager c2)\<rparr>))))
                        | Inr uo \<Rightarrow>
                            (case read_clock elapsed c1 of (now, c2) \<Rightarrow> case read_clock elapsed c2 of (later, c3) \<Rightarrow>
                               (case refreshed_auth rf now later (case uo of Some b \<Rightarrow> b | None \<Rightarrow> a) of
                                  (resumed, b) \<Rightarrow>
                                    (case update_auth elapsed postpone (Some b) c3 of
                                       (saved, c4) \<Rightarrow>
                                         (Some (case saved of Inr (Some x) \<Rightarrow> x | _ \<Rightarrow> b),
                                          fold (run_effect elapsed) (map (ResumeModel i) resumed) c4))))))))"

definition try_refresh_after_unauthorized ::
  "('w \<Rightarrow> nat \<times> 'w) \<Rightarrow> refresh_env \<Rightarrow> (string \<Rightarrow> auth \<Rightarrow> 'w \<Rightarrow> (exec_error + auth option) \<times> 'w) \<Rightarrow> bool \<Rightarrow>
   auth \<Rightarrow> exec_error \<Rightarrow> bool \<Rightarrow> 'w conductor \<Rightarrow> (auth \<times> bool) \<times> 'w conductor" where
  "try_refresh_after_unauthorized elapsed rf do_refresh postpone a e already_tried c =
     (if already_tried then ((a, False), c)
      else if is_request_scoped_error (Some (ee_view e)) then ((a, False), c)
      else if \<not> is_unauthorized_error (Some (ee_view e)) \<or> \<not> auth_has_refresh_credential a then ((a, False), c)
      else (case refresh_auth_for_request elapsed rf do_refresh postpone (a_id a) (auth_access_token a) c of
              (None, c1) \<Rightarrow> ((a, False), c1)
            | (Some b, c1) \<Rightarrow> ((b, True), c1)))"

text \<open>
  \<open>prepareRequestAuth\<close>: \<open>needs\<close> and \<open>do_prepare\<close> are the executor's, when it is a preparer. No
  credential of the manager has an empty identifier.
\<close>

definition prepare_request_auth ::
  "('w \<Rightarrow> nat \<times> 'w) \<Rightarrow> (string \<Rightarrow> auth \<Rightarrow> bool) \<Rightarrow>
   (string \<Rightarrow> auth \<Rightarrow> 'w \<Rightarrow> (exec_error + auth option) \<times> 'w) \<Rightarrow> bool \<Rightarrow> (weight_site_error \<Rightarrow> exec_error) \<Rightarrow>
   string \<Rightarrow> auth \<Rightarrow> 'w conductor \<Rightarrow> (auth \<times> exec_error option) \<times> 'w conductor" where
  "prepare_request_auth elapsed needs do_prepare postpone weight_error executor a c =
     (if \<not> needs executor a then ((a, None), c)
      else
        let target = (case lookup_auth (co_manager c) (trim_space (a_id a)) of Some cur \<Rightarrow> cur | None \<Rightarrow> a) in
        if \<not> needs executor target then ((target, None), c)
        else
          (case do_prepare executor target (co_world c) of
             (Inl e, w) \<Rightarrow> ((a, Some e), c\<lparr>co_world := w\<rparr>)
           | (Inr None, w) \<Rightarrow> ((target, None), c\<lparr>co_world := w\<rparr>)
           | (Inr (Some b), w) \<Rightarrow>
               (case update_auth elapsed postpone (Some b) (c\<lparr>co_world := w\<rparr>) of
                  (Inl we, c1) \<Rightarrow> ((b, Some (weight_error we)), c1)
                | (Inr (Some x), c1) \<Rightarrow> ((x, None), c1)
                | (Inr None, c1) \<Rightarrow> ((b, None), c1))))"

definition mark_refresh_pending ::
  "('w \<Rightarrow> nat \<times> 'w) \<Rightarrow> string \<Rightarrow> gotime \<Rightarrow> 'w conductor \<Rightarrow> bool \<times> 'w conductor" where
  "mark_refresh_pending elapsed i now c =
     (case lookup_auth (co_manager c) i of
        None \<Rightarrow> (False, c)
      | Some a \<Rightarrow>
          if \<not> is_zero (a_next_refresh a) \<and> before now (a_next_refresh a) then (False, c)
          else (True, run_effect elapsed (Reschedule i)
                  (c\<lparr>co_manager := store_auth i (a\<lparr>a_next_refresh := now + refresh_pending_backoff\<rparr>)
                                     (co_manager c)\<rparr>)))"

end
