(* ===== verification/RefreshProperties.thy ===== *)
theory RefreshProperties
  imports Refresh
begin

text \<open>
  The properties of waiting: when a failed request may be tried again and how long it waits for it,
  and when the background loop looks at a credential again.
\<close>

section \<open>The closest recovery\<close>

definition waits_asked ::
  "(gofloat \<Rightarrow> int) \<Rightarrow> (string \<Rightarrow> oauth_alias list option) \<Rightarrow> gotime \<Rightarrow> string list \<Rightarrow> string \<Rightarrow> int \<Rightarrow> 'w conductor \<Rightarrow>
   auth list \<Rightarrow> duration list" where
  "waits_asked oob decode now providers model attempt c as =
     List.map_filter (cooldown_wait_of decode now model c)
       (filter (\<lambda>a. executor_key_from_auth (Some a) \<in> set (provider_set providers) \<and>
                    attempt < effective_retry oob (co_retry c) a) as)"

definition least :: "duration option \<Rightarrow> duration list \<Rightarrow> duration option" where
  "least best ws = (case best of None \<Rightarrow> (if ws = [] then None else Some (Min (set ws))) | Some b \<Rightarrow> Some (Min (insert b (set ws))))"

lemma least_Cons: "least (nearer best (Some w)) ws = least best (w # ws)"
  by (cases best; cases "ws = []") (auto simp: least_def nearer_def min_def insert_commute)

lemma closest_fold:
  "fold (\<lambda>a best.
     if executor_key_from_auth (Some a) \<notin> set (provider_set providers) then best
     else if attempt \<ge> effective_retry oob (co_retry c) a then best
     else nearer best (cooldown_wait_of decode now model c a)) as best =
   least best (waits_asked oob decode now providers model attempt c as)"
proof (induction "as" arbitrary: best)
  case Nil
  show ?case by (simp add: least_def waits_asked_def List.map_filter_def split: option.split)
next
  case (Cons a as)
  show ?case
    by (cases "cooldown_wait_of decode now model c a")
      (simp_all add: Cons.IH waits_asked_def List.map_filter_simps not_le nearer_def [of _ None] least_Cons)
qed

text \<open>
  The wait for the next recovery is the least wait that any credential of the requested providers
  with a retry left asks for, and there is none when no such credential will recover by itself. It
  does not depend on the order in which the map of credentials is gone through.
\<close>

theorem closest_wait_is_least:
  "closest_cooldown_wait oob decode now providers model attempt c =
     (let ws = {w. \<exists>a\<in>set (auth_list c). executor_key_from_auth (Some a) \<in> set (provider_set providers) \<and>
                   attempt < effective_retry oob (co_retry c) a \<and> cooldown_wait_of decode now model c a = Some w}
      in if ws = {} then None else Some (Min ws))"
proof -
  have "{w. \<exists>a\<in>set (auth_list c). executor_key_from_auth (Some a) \<in> set (provider_set providers) \<and>
        attempt < effective_retry oob (co_retry c) a \<and> cooldown_wait_of decode now model c a = Some w} =
      set (waits_asked oob decode now providers model attempt c (auth_list c))"
    by (force simp: waits_asked_def List.map_filter_def)
  then show ?thesis by (simp add: closest_cooldown_wait_def closest_fold least_def Let_def)
qed

section \<open>The length of a wait\<close>

lemma closest_wait_some:
  assumes "closest_cooldown_wait oob decode now providers model attempt c = Some w"
  shows "\<exists>a\<in>set (auth_list c). executor_key_from_auth (Some a) \<in> set (provider_set providers) \<and>
    attempt < effective_retry oob (co_retry c) a \<and> cooldown_wait_of decode now model c a = Some w"
proof -
  let ?ws = "waits_asked oob decode now providers model attempt c (auth_list c)"
  have "w \<in> set ?ws" using assms by (auto simp: closest_cooldown_wait_def closest_fold least_def split: if_splits)
  then show ?thesis by (force simp: waits_asked_def List.map_filter_def)
qed

lemma cooldown_wait_nonneg: "cooldown_wait_of decode now model c a = Some w \<Longrightarrow> 0 \<le> w"
  by (auto simp: cooldown_wait_of_def Let_def split: prod.splits if_splits)

lemma retry_within_budget:
  assumes "should_retry_after_error oob decode now e attempt providers model max_wait c = Some w"
  shows "0 \<le> w" "w \<le> max_wait"
    "\<exists>a\<in>set (auth_list c). executor_key_from_auth (Some a) \<in> set (provider_set providers) \<and>
       attempt < effective_retry oob (co_retry c) a"
proof -
  show "0 \<le> w" "w \<le> max_wait"
    using assms closest_wait_some cooldown_wait_nonneg
    by (fastforce simp: should_retry_after_error_def split: if_splits option.splits)+
  show "\<exists>a\<in>set (auth_list c). executor_key_from_auth (Some a) \<in> set (provider_set providers) \<and>
       attempt < effective_retry oob (co_retry c) a"
    using assms closest_wait_some [of oob decode now providers model attempt c]
    by (fastforce simp: should_retry_after_error_def retry_allowed_def list_ex_iff split: if_splits option.splits)
qed

lemma jitter_bounds:
  assumes "\<And>n. 0 < n \<Longrightarrow> 0 \<le> random n \<and> random n < n" "0 \<le> w" "w \<le> max_wait"
  shows "w \<le> jittered_cooldown_wait random w max_wait" "jittered_cooldown_wait random w max_wait \<le> max_wait"
    "4 * (jittered_cooldown_wait random w max_wait - w) \<le> w"
    "jittered_cooldown_wait random w max_wait - w \<le> cooldown_wait_jitter_cap"
  using assms(1) [of "w div 4"] assms(1) [of cooldown_wait_jitter_cap] assms(1) [of "max_wait - w"] assms(2,3)
  by (auto simp: jittered_cooldown_wait_def Let_def go_quot_nonneg cooldown_wait_jitter_cap_def second_def)

text \<open>
  C16 A request that is tried again waits at least the announced time and never longer than
  \<open>MaxRetryInterval\<close>; the random part is at most a quarter of the wait and at most two seconds. It
  is only tried again while some credential of its providers has a retry left.
\<close>

theorem retry_waits_bounded:
  assumes "should_retry_after_error oob decode now e attempt providers model max_wait c = Some w"
    and "\<And>n. 0 < n \<Longrightarrow> 0 \<le> random n \<and> random n < n"
  shows "0 \<le> w \<and> w \<le> jittered_cooldown_wait random w max_wait \<and> jittered_cooldown_wait random w max_wait \<le> max_wait \<and>
    4 * (jittered_cooldown_wait random w max_wait - w) \<le> w \<and>
    jittered_cooldown_wait random w max_wait - w \<le> cooldown_wait_jitter_cap \<and>
    (\<exists>a\<in>set (auth_list c). executor_key_from_auth (Some a) \<in> set (provider_set providers) \<and>
       attempt < effective_retry oob (co_retry c) a)"
  using retry_within_budget [OF assms(1)] jitter_bounds [of random w max_wait] assms(2) by blast

section \<open>When to look again\<close>

lemma lead_positive: "provider_refresh_lead rf p a = Some lead \<Longrightarrow> 0 < lead"
  by (auto simp: provider_refresh_lead_def Let_def split: option.splits if_splits)

lemma time_sub_le: "i < int64_max \<Longrightarrow> 0 < i \<Longrightarrow> (time_sub t u \<le> i) = (t - u \<le> i)"
  by (auto simp: time_sub_def int64_min_def int64_max_def)

lemma time_sub_ge: "i < int64_max \<Longrightarrow> 0 < i \<Longrightarrow> (i \<le> time_sub t u) = (i \<le> t - u)"
  by (auto simp: time_sub_def int64_min_def int64_max_def)

text \<open>What is decided once the credential is not waiting and its runtime has no opinion.\<close>

lemma due_by_interval:
  assumes "\<not> has_unauthorized_auth_failure (Some a)" "a_next_refresh a = 0 \<or> a_next_refresh a \<le> now"
    and "rf_evaluator rf a = None" "auth_kind (Some a) \<noteq> ''apikey''" "now \<le> u"
    and "0 < auth_preferred_interval rf a" "auth_preferred_interval rf a < int64_max"
  shows "should_refresh rf u u (Some a) \<longleftrightarrow>
    (case next_refresh_check_at rf now (Some a) iv of None \<Rightarrow> False | Some t \<Rightarrow> t \<le> u)"
  using assms
  by (auto simp: should_refresh_def next_refresh_check_at_def Let_def go_time time_sub_le time_sub_ge split: option.splits)

lemma due_by_lead:
  assumes "\<not> has_unauthorized_auth_failure (Some a)" "a_next_refresh a = 0 \<or> a_next_refresh a \<le> now"
    and "rf_evaluator rf a = None" "auth_kind (Some a) \<noteq> ''apikey''" "now \<le> u"
    and "\<not> 0 < auth_preferred_interval rf a"
    and "\<And>lead. provider_refresh_lead rf (to_lower (a_provider a)) a = Some lead \<Longrightarrow> lead < int64_max"
  shows "should_refresh rf u u (Some a) \<longleftrightarrow>
    (case next_refresh_check_at rf now (Some a) iv of None \<Rightarrow> False | Some t \<Rightarrow> t \<le> u)"
proof (cases "provider_refresh_lead rf (to_lower (a_provider a)) a")
  case None
  then show ?thesis using assms
    by (auto simp: should_refresh_def next_refresh_check_at_def Let_def go_time)
next
  case (Some lead)
  then show ?thesis using assms lead_positive [OF Some]
    by (auto simp: should_refresh_def next_refresh_check_at_def Let_def go_time time_sub_le time_sub_ge split: option.splits)
qed

text \<open>
  C15 The background loop misses no refresh and wakes for none in vain. For a credential that is not an
  API key and whose runtime object does not decide itself: the time at which the loop looks again
  is exactly the first time from which \<open>shouldRefresh\<close> says yes, and the loop forgets the credential
  only when it will never say yes; a credential that was told to wait is looked at when the wait
  ends, before which \<open>shouldRefresh\<close> says no. The intervals are below the largest 64 bit duration, at
  which the difference of two times saturates.
\<close>

theorem refresh_schedule_exact:
  assumes "rf_evaluator rf a = None" "auth_kind (Some a) \<noteq> ''apikey''" "now \<le> u"
    and "auth_preferred_interval rf a < int64_max"
    and "\<And>lead. provider_refresh_lead rf (to_lower (a_provider a)) a = Some lead \<Longrightarrow> lead < int64_max"
  shows "if \<not> has_unauthorized_auth_failure (Some a) \<and> a_next_refresh a \<noteq> 0 \<and> now < a_next_refresh a
    then next_refresh_check_at rf now (Some a) iv = Some (a_next_refresh a) \<and>
      (u < a_next_refresh a \<longrightarrow> \<not> should_refresh rf u u (Some a))
    else should_refresh rf u u (Some a) \<longleftrightarrow>
      (case next_refresh_check_at rf now (Some a) iv of None \<Rightarrow> False | Some t \<Rightarrow> t \<le> u)"
proof (cases "has_unauthorized_auth_failure (Some a)")
  case True
  then show ?thesis by (simp add: should_refresh_def next_refresh_check_at_def)
next
  case False
  show ?thesis
  proof (cases "a_next_refresh a \<noteq> 0 \<and> now < a_next_refresh a")
    case True
    then show ?thesis using False assms(2) by (auto simp: should_refresh_def next_refresh_check_at_def go_time)
  next
    case idle: False
    then have "a_next_refresh a = 0 \<or> a_next_refresh a \<le> now" by auto
    then show ?thesis
      using due_by_interval [OF False _ assms(1,2,3) _ assms(4)] due_by_lead [OF False _ assms(1,2,3) _ assms(5)] idle
      by (cases "0 < auth_preferred_interval rf a") auto
  qed
qed

section \<open>Witnesses\<close>

definition plain_refresh_env :: refresh_env where
  "plain_refresh_env = \<lparr>rf_oob = (\<lambda>_. 0), rf_float_seconds = (\<lambda>_. 0), rf_parse_float = (\<lambda>_. None),
     rf_parse_time = (\<lambda>_. None), rf_parse_duration = (\<lambda>_. None), rf_runtime_lead = (\<lambda>_. None),
     rf_evaluator = (\<lambda>_. None)\<rparr>"

text \<open>A login that expires at 4000 s and is refreshed 600 s before.\<close>

definition expiring_login :: auth where
  "expiring_login = (new_auth ''e'' ''claude'')\<lparr>a_status := StatusActive, a_last_refreshed := 3000 * second,
     a_metadata := [''expired'' \<mapsto> AnyInt64 4000, ''refresh_interval'' \<mapsto> AnyInt 600]\<rparr>"

lemma expiring_login_due:
  "next_refresh_check_at plain_refresh_env (3100 * second) (Some expiring_login) 0 = Some (3400 * second)"
  "should_refresh plain_refresh_env (3400 * second) (3400 * second) (Some expiring_login)"
  "\<not> should_refresh plain_refresh_env (3399 * second) (3399 * second) (Some expiring_login)"
  by code_simp+

theorem refresh_schedule_exact_witness:
  "should_refresh plain_refresh_env (3500 * second) (3500 * second) (Some expiring_login)"
proof -
  have "\<not> has_unauthorized_auth_failure (Some expiring_login)" "a_next_refresh expiring_login = 0"
    "rf_evaluator plain_refresh_env expiring_login = None" "auth_kind (Some expiring_login) \<noteq> ''apikey''"
    "auth_preferred_interval plain_refresh_env expiring_login < int64_max"
    "provider_refresh_lead plain_refresh_env (to_lower (a_provider expiring_login)) expiring_login = Some (4 * hour)"
    "4 * hour < int64_max" "3400 * second \<le> 3500 * second" "3100 * second \<le> 3500 * second"
    by (code_simp)+
  then show ?thesis
    using refresh_schedule_exact [of plain_refresh_env expiring_login "3100 * second" "3500 * second" 0] expiring_login_due(1)
    by simp
qed

text \<open>A credential out of quota for a minute, in a manager that retries twice.\<close>

definition resting :: auth where
  "resting = (new_auth ''r'' ''claude'')\<lparr>a_status := StatusActive,
     a_unavailable := True, a_next_retry := 100 * second, a_metadata := [''request_retry'' \<mapsto> AnyInt 2]\<rparr>"

definition waiting_conductor :: "nat conductor" where
  "waiting_conductor = (let c = new_manager None False 0 new_registry (40 * second) 0 in
     c\<lparr>co_manager := store_auth ''r'' resting (co_manager c)\<rparr>)"

definition overload :: exec_error where
  "overload = package_error ''overloaded'' ''slow down'' 503"

theorem retry_waits_bounded_witness:
  "should_retry_after_error (\<lambda>_. 0) (\<lambda>_. None) (40 * second) overload 1 [''claude''] [] (90 * second) waiting_conductor =
     Some (60 * second) \<and>
   jittered_cooldown_wait (\<lambda>n. n - 1) (60 * second) (90 * second) \<le> 90 * second"
proof -
  have s: "should_retry_after_error (\<lambda>_. 0) (\<lambda>_. None) (40 * second) overload 1 [''claude''] [] (90 * second) waiting_conductor =
     Some (60 * second)" by code_simp
  then show ?thesis using retry_waits_bounded [OF s, of "\<lambda>n. n - 1"] by simp
qed

end
