(* ===== verification/ConductorProps.thy ===== *)
theory ConductorProps
  imports Refresh SchedulerSpec
begin

text \<open>
  Lemmas on the conductor: the clock only goes forward, what a rebuild and an upsert leave in the
  scheduler, what each path of a selection may return, and that results, effects and picks keep
  the invariant \<open>conductor_ok\<close>.
\<close>

text \<open>What no operation on credentials changes.\<close>

abbreviation co_settings :: "'w conductor \<Rightarrow> string list \<times> int \<times> int \<times> duration" where
  "co_settings c \<equiv> (co_executors c, co_retry c, co_max_credentials c, co_max_interval c)"

section \<open>The clock\<close>

lemma read_clock_cases:
  assumes "read_clock elapsed c = (t, c1)"
  obtains w where "co_now c \<le> t" "c1 = c\<lparr>co_now := t, co_world := w\<rparr>"
  using assms that by (auto simp: read_clock_def split: prod.splits)

section \<open>What the scheduler holds\<close>

lemma upsert_held:
  assumes "sched_ok t s" "0 \<le> now" "t \<le> now" "clean_id a" "a_id a \<noteq> []"
  shows "held (sched_upsert_auth mf now (Some a) s) k j =
    (if j = a_id a
     then (if schedulable a \<and> k = executor_key_from_auth (Some a) then Some (build_scheduled_auth_meta mf a) else None)
     else held s k j)"
proof (cases "schedulable a")
  case True
  then show ?thesis using sched_upsert_take(2) [OF assms(1-4) True] by simp
next
  case False
  then show ?thesis
    unfolding sched_upsert_skip [OF assms(4) False]
    using sched_remove_ok(2) [OF assms(1,5)] by simp
qed

text \<open>The credentials of a manager, each under its own identifier.\<close>

definition well_keyed :: "(string \<times> auth option) list \<Rightarrow> bool" where
  "well_keyed l \<longleftrightarrow> keys_distinct l \<and> (\<forall>i a. (i, Some a) \<in> set l \<longrightarrow> a_id a = i \<and> clean_id a \<and> i \<noteq> [])"

lemma well_keyed_member: "well_keyed l \<Longrightarrow> (i, Some a) \<in> set l \<Longrightarrow> a_id a = i \<and> clean_id a \<and> i \<noteq> []"
  and well_keyed_distinct: "well_keyed l \<Longrightarrow> keys_distinct l"
  and well_keyedI: "keys_distinct l \<Longrightarrow> (\<And>i a. (i, Some a) \<in> set l \<Longrightarrow> a_id a = i \<and> clean_id a \<and> i \<noteq> []) \<Longrightarrow> well_keyed l"
  unfolding well_keyed_def by blast+

definition placed :: "(string \<Rightarrow> string list) \<Rightarrow> string \<Rightarrow> auth \<Rightarrow> auth_meta option" where
  "placed mf k a =
     (if schedulable a \<and> k = executor_key_from_auth (Some a) then Some (build_scheduled_auth_meta mf a) else None)"

lemma fold_upsert_held:
  assumes "sched_ok now s" "0 \<le> now" "well_keyed l"
  shows "sched_ok now (fold (sched_upsert_auth mf now) (map snd l) s) \<and>
    held (fold (sched_upsert_auth mf now) (map snd l) s) k i =
      (case map_of l i of Some (Some a) \<Rightarrow> placed mf k a | _ \<Rightarrow> held s k i)"
  using assms
proof (induction l arbitrary: s)
  case (Cons x l)
  obtain j ao where x: "x = (j, ao)" by (cases x)
  have wk: "well_keyed l" "j \<notin> fst ` set l" using Cons.prems(3) x by (auto simp: well_keyed_def)
  show ?case
  proof (cases ao)
    case None
    then show ?thesis using Cons.IH [OF Cons.prems(1,2) wk(1)] wk(2) x
      by (auto simp: sched_upsert_auth_def map_of_eq_None_iff [symmetric] split: option.splits)
  next
    case (Some a)
    then have a: "a_id a = j" "clean_id a" "j \<noteq> []" using Cons.prems(3) x by (auto simp: well_keyed_def)
    let ?s = "sched_upsert_auth mf now (Some a) s"
    have ok: "sched_ok now ?s" by (rule sched_upsert_ok [OF Cons.prems(1,2) order_refl a(2)])
    have h: "held ?s k i = (if i = j then placed mf k a else held s k i)"
      using upsert_held [OF Cons.prems(1,2) order_refl a(2), of mf k i] a by (auto simp: placed_def)
    have "map_of l j = None" using wk(2) by (simp add: map_of_eq_None_iff)
    then show ?thesis using Cons.IH [OF ok Cons.prems(2) wk(1)] h x Some
      by (cases "i = j") (auto split: option.splits)
  qed
qed simp

lemma held_new [simp]: "held (new_auth_scheduler strat) k i = None"
  by (simp add: held_def new_auth_scheduler_def)

lemma sync_scheduler_held:
  fixes elapsed :: "'w \<Rightarrow> nat \<times> 'w" and c :: "'w conductor"
  assumes "0 \<le> co_now c" "well_keyed (mg_auths (co_manager c))"
  defines "c' \<equiv> sync_scheduler elapsed c"
  shows "sched_ok (co_now c') (co_sched c')"
    and "held (co_sched c') k i = Option.bind (lookup_auth (co_manager c) i) (placed (models_for c) k)"
    and "co_now c \<le> co_now c'"
    and "\<exists>t w s. c' = c\<lparr>co_now := t, co_world := w, co_sched := s\<rparr>"
    and "as_strategy (co_sched c') = as_strategy (co_sched c)"
proof -
  obtain t c1 where r: "read_clock elapsed c = (t, c1)" by fastforce
  then obtain w where w: "co_now c \<le> t" "c1 = c\<lparr>co_now := t, co_world := w\<rparr>" by (rule read_clock_cases)
  have mf: "models_for c1 = models_for c" by (simp add: w(2) models_for_def fun_eq_iff)
  have c': "c' = c\<lparr>co_now := t, co_world := w,
      co_sched := fold (sched_upsert_auth (models_for c) t) (map snd (mg_auths (co_manager c)))
        (new_auth_scheduler (as_strategy (co_sched c)))\<rparr>"
    unfolding c'_def sync_scheduler_def r by (simp add: mf, simp add: w(2) sched_rebuild_def auths_of_def)
  have t: "0 \<le> t" using assms(1) w(1) by simp
  note f = fold_upsert_held [OF sched_ok_new t assms(2), of "models_for c" "as_strategy (co_sched c)"]
  show "sched_ok (co_now c') (co_sched c')" using f by (simp add: c')
  show "held (co_sched c') k i = Option.bind (lookup_auth (co_manager c) i) (placed (models_for c) k)"
    using f [of k i] by (auto simp: c' lookup_auth_def split: option.splits)
  show "co_now c \<le> co_now c'" using w(1) by (simp add: c')
  show "\<exists>t w s. c' = c\<lparr>co_now := t, co_world := w, co_sched := s\<rparr>" using c' by blast
  have "as_strategy (fold (sched_upsert_auth mf now) xs s) = as_strategy s" for mf now xs s
  proof (induction xs arbitrary: s)
    case (Cons x xs)
    have "as_strategy (sched_upsert_auth mf now x s) = as_strategy s"
      by (simp add: sched_upsert_auth_def sched_remove_auth_locked_def update_provider_def Let_def split: option.split)
    then show ?case using Cons by simp
  qed simp
  then show "as_strategy (co_sched c') = as_strategy (co_sched c)" by (simp add: c' new_auth_scheduler_def)
qed

section \<open>The invariant\<close>

text \<open>
  A selection does not look at the counters of a credential and at the time of its next refresh;
  the scheduler may hold older ones.
\<close>

definition selection_view :: "auth \<Rightarrow> auth" where
  "selection_view a = a\<lparr>a_success := 0, a_failed := 0, a_recent := [], a_next_refresh := 0\<rparr>"

definition offered_by :: "string \<Rightarrow> auth \<Rightarrow> auth option" where
  "offered_by k a = (if schedulable a \<and> k = executor_key_from_auth (Some a) then Some (selection_view a) else None)"

text \<open>Outside \<open>X\<close> the scheduler holds exactly the manager's credentials it can serve.\<close>

definition mirrors_except :: "string set \<Rightarrow> 'w conductor \<Rightarrow> bool" where
  "mirrors_except X c \<longleftrightarrow>
     (\<forall>k i. i \<notin> X \<longrightarrow>
        map_option (\<lambda>m. selection_view (am_auth m)) (held (co_sched c) k i) =
        Option.bind (lookup_auth (co_manager c) i) (offered_by k))"

fun built_in_ok :: "built_in \<Rightarrow> bool" where
  "built_in_ok (RoundRobin s) = rr_inv s"
| "built_in_ok _ = True"

fun selector_ok :: "conductor_selector \<Rightarrow> bool" where
  "selector_ok (BuiltIn b) = built_in_ok b"
| "selector_ok (Affinity b cache) = built_in_ok b"

definition settling :: "string set \<Rightarrow> 'w conductor \<Rightarrow> bool" where
  "settling X c \<longleftrightarrow>
     0 \<le> co_now c \<and> sched_ok (co_now c) (co_sched c) \<and> well_keyed (mg_auths (co_manager c)) \<and>
     mirrors_except X c \<and> selector_ok (co_selector c) \<and> mg_scheduler (co_manager c)"

abbreviation conductor_ok :: "'w conductor \<Rightarrow> bool" where
  "conductor_ok \<equiv> settling {}"

definition known_ids :: "'w conductor \<Rightarrow> string set" where
  "known_ids c = {i. lookup_auth (co_manager c) i \<noteq> None}"

lemma settling_clock: "settling X c \<Longrightarrow> co_now c \<le> t \<Longrightarrow> settling X (c\<lparr>co_now := t, co_world := w\<rparr>)"
  using sched_ok_mono by (auto simp: settling_def mirrors_except_def)

lemma settling_frame:
  "settling X (c\<lparr>co_registry := r\<rparr>) = settling X c"
  "settling X (c\<lparr>co_out := es\<rparr>) = settling X c"
  "settling X (c\<lparr>co_world := w\<rparr>) = settling X c"
  "settling X (c\<lparr>co_alias := al\<rparr>) = settling X c"
  "settling X (c\<lparr>co_executors := x\<rparr>) = settling X c"
  "known_ids (c\<lparr>co_registry := r\<rparr>) = known_ids c"
  "known_ids (c\<lparr>co_out := es\<rparr>) = known_ids c"
  "known_ids (c\<lparr>co_world := w\<rparr>) = known_ids c"
  "known_ids (c\<lparr>co_alias := al\<rparr>) = known_ids c"
  "known_ids (c\<lparr>co_now := t\<rparr>) = known_ids c"
  "known_ids (c\<lparr>co_sched := s\<rparr>) = known_ids c"
  "known_ids (c\<lparr>co_selector := sel\<rparr>) = known_ids c"
  by (simp_all add: settling_def mirrors_except_def known_ids_def)

lemma well_keyedD:
  "well_keyed l \<Longrightarrow> map_of l i = Some (Some a) \<Longrightarrow> a_id a = i \<and> clean_id a \<and> i \<noteq> []"
  by (auto simp: well_keyed_def dest: map_of_SomeD simp del: map_of_eq_Some_iff)

lemma lookup_keyed:
  "well_keyed (mg_auths m) \<Longrightarrow> lookup_auth m i = Some a \<Longrightarrow> a_id a = i \<and> clean_id a \<and> i \<noteq> []"
  using well_keyedD by (fastforce simp: lookup_auth_def split: option.splits)

lemma lookup_store [simp]: "lookup_auth (store_auth i a m) j = (if j = i then Some a else lookup_auth m j)"
  by (simp add: lookup_auth_def store_auth_def update_conv)

lemma update_member:
  "(j, x) \<in> set (AList.update k v l) \<Longrightarrow> j = k \<and> x = v \<or> (j, x) \<in> set l"
  by (induction l) (auto split: if_splits)

lemma well_keyed_store:
  assumes "well_keyed (mg_auths m)" "a_id a = i" "clean_id a" "i \<noteq> []"
  shows "well_keyed (mg_auths (store_auth i a m))"
proof -
  have "a_id b = j \<and> clean_id b \<and> j \<noteq> []" if "(j, Some b) \<in> set (mg_auths (store_auth i a m))" for j b
    using update_member [of j "Some b" i "Some a" "mg_auths m"] that assms
    by (auto simp: store_auth_def well_keyed_def)
  then show ?thesis using assms(1) by (simp add: well_keyed_def store_auth_def)
qed

lemma store_fields [simp]:
  "mg_scheduler (store_auth i a m) = mg_scheduler m" "mg_config (store_auth i a m) = mg_config m"
  "mg_transient (store_auth i a m) = mg_transient m" "mg_store (store_auth i a m) = mg_store m"
  by (simp_all add: store_auth_def)

lemma settling_store:
  assumes "settling X c" "a_id a = i" "clean_id a" "i \<noteq> []"
  shows "settling (insert i X) (c\<lparr>co_manager := store_auth i a (co_manager c)\<rparr>)"
proof -
  have "mirrors_except (insert i X) (c\<lparr>co_manager := store_auth i a (co_manager c)\<rparr>)"
    using assms(1) unfolding settling_def mirrors_except_def by simp
  then show ?thesis using assms well_keyed_store [of "co_manager c" a i] by (simp add: settling_def)
qed

lemma selection_view_fields:
  "a_id (selection_view a) = a_id a" "a_disabled (selection_view a) = a_disabled a"
  "executor_key_from_auth (Some (selection_view a)) = executor_key_from_auth (Some a)"
  by (simp_all add: selection_view_def executor_key_from_auth_def auth_attribute_def Let_def)

lemma settling_store_same:
  assumes "settling X c" "lookup_auth (co_manager c) i = Some a" "selection_view b = selection_view a"
  shows "settling X (c\<lparr>co_manager := store_auth i b (co_manager c)\<rparr>)"
proof -
  have k: "a_id a = i" "clean_id a" "i \<noteq> []" using lookup_keyed [OF _ assms(2)] assms(1) by (auto simp: settling_def)
  have "a_id b = a_id a" "a_disabled b = a_disabled a" "executor_key_from_auth (Some b) = executor_key_from_auth (Some a)"
    using assms(3) selection_view_fields by metis+
  then have o: "offered_by k b = offered_by k a" "a_id b = i" "clean_id b" for k
    using assms(3) k by (simp_all add: offered_by_def schedulable_def clean_id_def)
  have "mirrors_except X (c\<lparr>co_manager := store_auth i b (co_manager c)\<rparr>)"
    using assms(1,2) o(1) unfolding settling_def mirrors_except_def by simp
  then show ?thesis using assms(1) o k well_keyed_store [of "co_manager c" b i] by (simp add: settling_def)
qed

lemma settling_upsert:
  assumes s: "settling X c" and a: "lookup_auth (co_manager c) (a_id a) = Some a"
  shows "settling (X - {a_id a}) (upsert_scheduler elapsed a c)"
    and "\<exists>t w sch. upsert_scheduler elapsed a c = c\<lparr>co_now := t, co_world := w, co_sched := sch\<rparr> \<and> co_now c \<le> t"
proof -
  obtain t c1 where r: "read_clock elapsed c = (t, c1)" by fastforce
  then obtain w where w: "co_now c \<le> t" "c1 = c\<lparr>co_now := t, co_world := w\<rparr>" by (rule read_clock_cases)
  let ?s = "sched_upsert_auth (models_for c1) t (Some a) (co_sched c)"
  have u: "upsert_scheduler elapsed a c = c\<lparr>co_now := t, co_world := w, co_sched := ?s\<rparr>"
    by (simp add: upsert_scheduler_def r w(2))
  then show "\<exists>t w sch. upsert_scheduler elapsed a c = c\<lparr>co_now := t, co_world := w, co_sched := sch\<rparr> \<and> co_now c \<le> t"
    using w(1) by blast
  have k: "clean_id a" "a_id a \<noteq> []" using lookup_keyed [OF _ a] s by (auto simp: settling_def)
  have ok: "sched_ok (co_now c) (co_sched c)" "0 \<le> t" using s w(1) by (auto simp: settling_def)
  note h = upsert_held [OF ok w(1) k]
  have "mirrors_except (X - {a_id a}) (c\<lparr>co_now := t, co_world := w, co_sched := ?s\<rparr>)"
    using s a by (auto simp: mirrors_except_def settling_def h offered_by_def)
  then show "settling (X - {a_id a}) (upsert_scheduler elapsed a c)"
    using s sched_upsert_ok [OF ok(1,2) w(1) k(1)] ok(2) unfolding u by (simp add: settling_def)
qed

text \<open>Running effects: an upsert of the stored credential settles it, the others change nothing here.\<close>

definition upserts :: "effect list \<Rightarrow> string set" where
  "upserts es = {a_id a |a. UpsertAuth a \<in> set es}"

lemma run_effects_settle:
  assumes "settling X c" "\<And>a. UpsertAuth a \<in> set es \<Longrightarrow> lookup_auth (co_manager c) (a_id a) = Some a"
  shows "settling (X - upserts es) (fold (run_effect elapsed) es c) \<and>
    co_manager (fold (run_effect elapsed) es c) = co_manager c \<and>
    co_settings (fold (run_effect elapsed) es c) = co_settings c \<and>
    co_now c \<le> co_now (fold (run_effect elapsed) es c)"
  using assms
proof (induction es arbitrary: X c)
  case (Cons e es)
  let ?c = "run_effect elapsed e c"
  have one: "settling (X - upserts [e]) ?c \<and> co_manager ?c = co_manager c \<and> co_settings ?c = co_settings c \<and> co_now c \<le> co_now ?c"
  proof (cases "\<exists>a. e = UpsertAuth a")
    case True
    then obtain a where e: "e = UpsertAuth a" by blast
    have "lookup_auth (co_manager c) (a_id a) = Some a" using Cons.prems(2) e by simp
    from settling_upsert [OF Cons.prems(1) this, of elapsed] show ?thesis
      by (auto simp: e run_effect_def upserts_def)
  next
    case False
    obtain t c1 where r: "read_clock elapsed c = (t, c1)" by fastforce
    then obtain w where w: "co_now c \<le> t" "c1 = c\<lparr>co_now := t, co_world := w\<rparr>" by (rule read_clock_cases)
    have "settling X c1" using settling_clock [OF Cons.prems(1) w(1)] w(2) by simp
    moreover have "upserts [e] = {}" using False by (auto simp: upserts_def)
    ultimately show ?thesis
      using False Cons.prems(1) w
      by (cases e) (simp_all add: run_effect_def settling_frame r)
  qed
  have "settling ((X - upserts [e]) - upserts es) (fold (run_effect elapsed) es ?c) \<and>
    co_manager (fold (run_effect elapsed) es ?c) = co_manager ?c \<and>
    co_settings (fold (run_effect elapsed) es ?c) = co_settings ?c \<and>
    co_now ?c \<le> co_now (fold (run_effect elapsed) es ?c)"
    by (rule Cons.IH) (use one Cons.prems(2) in auto)
  moreover have "(X - upserts [e]) - upserts es = X - upserts (e # es)" by (auto simp: upserts_def)
  ultimately show ?case using one by auto
qed (simp add: upserts_def)

lemma run_silent:
  assumes "conductor_ok c" "\<And>a. UpsertAuth a \<notin> set es"
  shows "conductor_ok (fold (run_effect elapsed) es c)" "co_manager (fold (run_effect elapsed) es c) = co_manager c"
    "known_ids (fold (run_effect elapsed) es c) = known_ids c"
    "co_settings (fold (run_effect elapsed) es c) = co_settings c"
    "co_now c \<le> co_now (fold (run_effect elapsed) es c)"
proof -
  have "settling ({} - upserts es) (fold (run_effect elapsed) es c) \<and>
    co_manager (fold (run_effect elapsed) es c) = co_manager c \<and>
    co_settings (fold (run_effect elapsed) es c) = co_settings c \<and>
    co_now c \<le> co_now (fold (run_effect elapsed) es c)"
    by (rule run_effects_settle [OF assms(1)]) (use assms(2) in blast)
  then show "conductor_ok (fold (run_effect elapsed) es c)" "co_manager (fold (run_effect elapsed) es c) = co_manager c"
    "known_ids (fold (run_effect elapsed) es c) = known_ids c"
    "co_settings (fold (run_effect elapsed) es c) = co_settings c"
    "co_now c \<le> co_now (fold (run_effect elapsed) es c)" by (simp_all add: known_ids_def)
qed

lemmas run_one = run_silent [where es = "[e]" for e, simplified]

section \<open>The operations that change a credential keep its identifier and its metadata\<close>

lemma keep_id [simp]:
  "a_id (set_model_state k st a) = a_id a \<and> a_metadata (set_model_state k st a) = a_metadata a"
  "a_id (fst (normalize_model_states a)) = a_id a \<and> a_metadata (fst (normalize_model_states a)) = a_metadata a"
  "a_id (clear_auth_state_on_success now a) = a_id a \<and> a_metadata (clear_auth_state_on_success now a) = a_metadata a"
  "a_id (update_aggregated_availability now a) = a_id a \<and> a_metadata (update_aggregated_availability now a) = a_metadata a"
  "a_id (fst (clear_cooldown_state_for_auth now a)) = a_id a \<and> a_metadata (fst (clear_cooldown_state_for_auth now a)) = a_metadata a"
  by (simp_all add: set_model_state_def normalize_model_states_def clear_auth_state_on_success_def
      update_aggregated_other clear_cooldown_state_for_auth_def Let_def split: prod.split)

lemma ensure_model_state_id:
  "ensure_model_state a m = Some (a1, k, st) \<Longrightarrow> a_id a1 = a_id a"
  "ensure_model_state a m = Some (a1, k, st) \<Longrightarrow> a_metadata a1 = a_metadata a"
  by (auto simp: ensure_model_state_def Let_def split: if_splits option.splits)

lemma apply_failure_id:
  "a_id (apply_auth_failure_state transient e ra now dis a) = a_id a"
  "a_metadata (apply_auth_failure_state transient e ra now dis a) = a_metadata a"
  unfolding apply_auth_failure_state_def Let_def
  by (simp_all add: if_distrib [of a_id] option.case_distrib [of a_id] prod.case_distrib [of a_id]
      if_distrib [of a_metadata] option.case_distrib [of a_metadata] prod.case_distrib [of a_metadata]
      split: option.split cong: if_cong)

lemma note_auth_failure_id:
  "a_id (note_auth_failure e a) = a_id a" "a_metadata (note_auth_failure e a) = a_metadata a"
  by (simp_all add: note_auth_failure_def Let_def split: option.split)

lemma fail_model_id:
  "a_id (fst (fail_model transient dis k e ra now a)) = a_id a"
  "a_metadata (fst (fail_model transient dis k e ra now a)) = a_metadata a"
  unfolding fail_model_def Let_def
  by (simp_all add: note_auth_failure_id prod.case_distrib [of fst] if_distrib [of a_id] if_distrib [of a_metadata]
      ensure_model_state_id split: option.split prod.split cong: if_cong)

lemma succeed_model_id:
  "a_id (succeed_model k now a) = a_id a" "a_metadata (succeed_model k now a) = a_metadata a"
  by (simp_all add: succeed_model_def Let_def ensure_model_state_id split: option.split prod.split)

lemma mark_auth_id:
  "a_id (fst (mark_auth transient dis r now a)) = a_id a"
  "a_metadata (fst (mark_auth transient dis r now a)) = a_metadata a"
  by (simp_all add: mark_auth_def Let_def apply_failure_id fail_model_id succeed_model_id)

lemma admit_auth_id:
  "a_id (fst (admit_auth m now a)) = a_id a" "a_metadata (fst (admit_auth m now a)) = a_metadata a"
  using keep_id(2) [of a]
  by (cases "normalize_model_states a", simp add: admit_auth_def case_prod_beta)+

lemma inherit_auth_id: "a_id (inherit_auth x a) = a_id a" "a_metadata (inherit_auth x a) = a_metadata a"
  by (simp_all add: inherit_auth_def Let_def)

lemma clear_unauthorized_id:
  "a_id (snd (clear_unauthorized_model_states now a)) = a_id a"
  "a_metadata (snd (clear_unauthorized_model_states now a)) = a_metadata a"
  by (simp_all add: clear_unauthorized_model_states_def Let_def)

section \<open>Operations keep the invariant\<close>

text \<open>
  A manager operation touches one credential it knows: it upserts what it stored, unless nothing a
  selection looks at changed.
\<close>

definition touches_one :: "manager \<Rightarrow> manager \<times> effect list \<Rightarrow> bool" where
  "touches_one m r \<longleftrightarrow>
     fst r = m \<and> (\<forall>x. UpsertAuth x \<notin> set (snd r)) \<or>
     (\<exists>i a b. lookup_auth m i = Some a \<and> a_id b = a_id a \<and> a_metadata b = a_metadata a \<and> fst r = store_auth i b m \<and>
        (\<forall>x. UpsertAuth x \<in> set (snd r) \<longrightarrow> x = b) \<and>
        (UpsertAuth b \<in> set (snd r) \<or> selection_view b = selection_view a))"

lemma known_ids_store:
  "lookup_auth m i = Some a \<Longrightarrow> {j. lookup_auth (store_auth i b m) j \<noteq> None} = {j. lookup_auth m j \<noteq> None}"
  by auto

lemma run_touch:
  fixes elapsed :: "'w \<Rightarrow> nat \<times> 'w" and c :: "'w conductor"
  assumes ok: "conductor_ok c" and t: "touches_one (co_manager c) (m, es)"
  defines "c' \<equiv> fold (run_effect elapsed) es (c\<lparr>co_manager := m\<rparr>)"
  shows "conductor_ok c' \<and> known_ids c' = known_ids c \<and> co_settings c' = co_settings c \<and> co_manager c' = m"
proof -
  consider (same) "m = co_manager c" "\<And>x. UpsertAuth x \<notin> set es"
    | (one) i a b where "lookup_auth (co_manager c) i = Some a" "a_id b = a_id a" "m = store_auth i b (co_manager c)"
      "\<And>x. UpsertAuth x \<in> set es \<Longrightarrow> x = b" "UpsertAuth b \<in> set es \<or> selection_view b = selection_view a"
    using t unfolding touches_one_def by auto
  then show ?thesis
  proof cases
    case same
    then have u: "upserts es = {}" by (auto simp: upserts_def)
    show ?thesis using run_effects_settle [OF ok, of es elapsed] same u by (auto simp: c'_def known_ids_def)
  next
    case one
    have k: "a_id a = i" "clean_id a" "i \<noteq> []"
      using lookup_keyed [OF _ one(1)] ok by (auto simp: settling_def)
    then have b: "a_id b = i" "clean_id b" using one(2) by (simp_all add: clean_id_def)
    let ?c = "c\<lparr>co_manager := m\<rparr>"
    have lk: "lookup_auth (co_manager ?c) (a_id x) = Some x" if "UpsertAuth x \<in> set es" for x
      using one(3) one(4) [OF that] b(1) by simp
    have ids: "known_ids ?c = known_ids c" using known_ids_store [OF one(1)] one(3) by (simp add: known_ids_def)
    have "settling (insert i {} - upserts es) c' \<and> co_manager c' = m \<and> co_settings c' = co_settings c \<and> co_now c \<le> co_now c'"
      using run_effects_settle [OF settling_store [OF ok b k(3)], of es elapsed] lk one(3) by (simp add: c'_def)
    moreover have "conductor_ok c'" if "selection_view b = selection_view a" "\<And>x. UpsertAuth x \<in> set es \<Longrightarrow> lookup_auth m (a_id x) = Some x"
      using run_effects_settle [OF settling_store_same [OF ok one(1) that(1)], of es elapsed] that(2) one(3)
      by (simp add: c'_def)
    moreover have "insert i {} - upserts es = {}" if "UpsertAuth b \<in> set es"
      using that b(1) by (auto simp: upserts_def)
    ultimately show ?thesis using one(3,5) lk ids by (auto simp: known_ids_def)
  qed
qed

text \<open>
  What an operation on behalf of a request keeps: the invariant, the identifiers, the settings,
  and any condition on the metadata of the credentials.
\<close>

definition stored :: "((string \<rightharpoonup> goany) \<Rightarrow> bool) \<Rightarrow> 'w conductor \<Rightarrow> bool" where
  "stored P c \<longleftrightarrow> (\<forall>i a. lookup_auth (co_manager c) i = Some a \<longrightarrow> P (a_metadata a))"

definition keeps :: "((string \<rightharpoonup> goany) \<Rightarrow> bool) \<Rightarrow> 'w conductor \<Rightarrow> 'w conductor \<Rightarrow> bool" where
  "keeps P c c' \<longleftrightarrow> conductor_ok c' \<and> known_ids c' = known_ids c \<and> co_settings c' = co_settings c \<and>
     (stored P c \<longrightarrow> stored P c')"

lemma stored_same: "co_manager c' = co_manager c \<Longrightarrow> stored P c' = stored P c"
  by (simp add: stored_def)

lemma keeps_refl: "conductor_ok c \<Longrightarrow> keeps P c c"
  and keeps_trans: "keeps P c c' \<Longrightarrow> keeps P c' c'' \<Longrightarrow> keeps P c c''"
  and keeps_ok: "keeps P c c' \<Longrightarrow> conductor_ok c'"
  and keeps_ids: "keeps P c c' \<Longrightarrow> known_ids c' = known_ids c"
  and keeps_settings: "keeps P c c' \<Longrightarrow> co_settings c' = co_settings c"
  and keeps_stored: "keeps P c c' \<Longrightarrow> stored P c \<Longrightarrow> stored P c'"
  by (simp_all add: keeps_def)

lemma run_touch_keeps:
  assumes ok: "conductor_ok c" and t: "touches_one (co_manager c) (m, es)"
  shows "keeps P c (fold (run_effect elapsed) es (c\<lparr>co_manager := m\<rparr>))"
proof -
  note r = run_touch [OF ok t, of elapsed]
  have "P (a_metadata x)" if s: "stored P c" and x: "lookup_auth m i = Some x" for i x
  proof (cases "m = co_manager c")
    case True
    then show ?thesis using s x unfolding stored_def by blast
  next
    case False
    then obtain j a b where j: "lookup_auth (co_manager c) j = Some a" "a_metadata b = a_metadata a"
      "m = store_auth j b (co_manager c)"
      using t unfolding touches_one_def fst_conv by blast
    then have "P (a_metadata b)" using s unfolding stored_def by simp
    then show ?thesis using s x j(3) unfolding stored_def by (simp split: if_splits)
  qed
  then show ?thesis using r unfolding keeps_def stored_def by simp
qed

lemma on_manager_ok:
  fixes elapsed :: "'w \<Rightarrow> nat \<times> 'w" and c :: "'w conductor"
  assumes "conductor_ok c" "\<And>now. touches_one (co_manager c) (f now (co_manager c))"
  defines "c' \<equiv> on_manager elapsed f c"
  shows "keeps P c c'"
proof -
  obtain t c1 where r: "read_clock elapsed c = (t, c1)" by fastforce
  then obtain w where w: "co_now c \<le> t" "c1 = c\<lparr>co_now := t, co_world := w\<rparr>" by (rule read_clock_cases)
  obtain m es where f: "f t (co_manager c) = (m, es)" by fastforce
  have ok: "conductor_ok c1" using settling_clock [OF assms(1) w(1)] w(2) by simp
  have t: "touches_one (co_manager c1) (m, es)" using assms(2) [of t] f w(2) by simp
  have c': "c' = fold (run_effect elapsed) es (c1\<lparr>co_manager := m\<rparr>)"
    using f w(2) by (simp add: c'_def on_manager_def r)
  have "keeps P c c1" using ok w by (simp add: keeps_def known_ids_def stored_def)
  then show ?thesis using run_touch_keeps [OF ok t, of P elapsed] keeps_trans unfolding c' by blast
qed

lemma mark_result_touches: "mg_scheduler m \<Longrightarrow> touches_one m (mark_result now r m)"
proof -
  assume sch: "mg_scheduler m"
  show ?thesis
  proof (cases "er_auth_id r = [] \<or> lookup_auth m (er_auth_id r) = None")
    case True
    then show ?thesis by (auto simp: mark_result_def touches_one_def Let_def)
  next
    case False
    then obtain a where a: "er_auth_id r \<noteq> []" "lookup_auth m (er_auth_id r) = Some a" by auto
    obtain b sus q where b: "mark_auth (mg_transient m) (cooldown_disabled_for_auth m a) r now a = (b, sus, q)"
      by (metis prod_cases3)
    have "a_id b = a_id a" "a_metadata b = a_metadata a"
      using mark_auth_id [of "mg_transient m" "cooldown_disabled_for_auth m a" r now a] b by simp_all
    then show ?thesis unfolding touches_one_def
      by (intro disjI2 exI [of _ "er_auth_id r"] exI [of _ a] exI [of _ b])
        (use a b sch in \<open>auto simp: mark_result_def Let_def split: option.splits if_splits\<close>)
  qed
qed

lemma mark_neutral_touches: "touches_one m (record_availability_neutral_result now r m)"
proof (cases "er_auth_id r = [] \<or> lookup_auth m (er_auth_id r) = None")
  case True
  then show ?thesis by (auto simp: record_availability_neutral_result_def touches_one_def)
next
  case False
  then obtain a where a: "er_auth_id r \<noteq> []" "lookup_auth m (er_auth_id r) = Some a" by auto
  have "selection_view (count_result now ok x) = selection_view x" for ok x
    by (simp add: selection_view_def count_result_def record_recent_request_def Let_def)
  then show ?thesis unfolding touches_one_def
    by (intro disjI2 exI [of _ "er_auth_id r"] exI [of _ a] exI [of _ "count_result now (er_success r) a"])
      (use a in \<open>auto simp: record_availability_neutral_result_def Let_def\<close>)
qed

lemma conductor_mark_ok:
  assumes "conductor_ok c"
  shows "keeps P c (conductor_mark_result elapsed r c)" "keeps P c (conductor_mark_neutral elapsed r c)"
proof -
  have sch: "mg_scheduler (co_manager c)" using assms by (simp add: settling_def)
  show "keeps P c (conductor_mark_result elapsed r c)"
    unfolding conductor_mark_result_def by (rule on_manager_ok [OF assms]) (rule mark_result_touches [OF sch])
  show "keeps P c (conductor_mark_neutral elapsed r c)"
    unfolding conductor_mark_neutral_def by (rule on_manager_ok [OF assms]) (rule mark_neutral_touches)
qed

lemma clean_ids: "clean_id a \<longleftrightarrow> trim_space (a_id a) = a_id a" by (simp add: clean_id_def)

lemma rebuild_aliases_settling [simp]:
  "settling X (rebuild_aliases_from_config c) = settling X c"
  "co_manager (rebuild_aliases_from_config c) = co_manager c"
  "co_executors (rebuild_aliases_from_config c) = co_executors c"
  "co_retry (rebuild_aliases_from_config c) = co_retry c"
  "co_max_credentials (rebuild_aliases_from_config c) = co_max_credentials c"
  "co_max_interval (rebuild_aliases_from_config c) = co_max_interval c"
  "co_now (rebuild_aliases_from_config c) = co_now c"
  "known_ids (rebuild_aliases_from_config c) = known_ids c"
  by (simp_all add: rebuild_aliases_from_config_def settling_frame Let_def)

lemma publish_ok:
  fixes elapsed :: "'w \<Rightarrow> nat \<times> 'w" and c :: "'w conductor" and postpone changed :: bool
  assumes ok: "conductor_ok c" and a: "clean_id a" "a_id a \<noteq> []" and hook: "\<And>x. hook \<noteq> UpsertAuth x"
  defines "c' \<equiv> publish_auth elapsed postpone hook changed a c"
  shows "conductor_ok c' \<and> known_ids c' = insert (a_id a) (known_ids c) \<and> co_settings c' = co_settings c \<and>
    lookup_auth (co_manager c') = (lookup_auth (co_manager c))(a_id a := Some a)"
proof -
  let ?m = "store_auth (a_id a) a (co_manager c)"
  let ?c1 = "c\<lparr>co_manager := ?m\<rparr>"
  define c2 where "c2 = (if postpone then ?c1 else rebuild_aliases_from_config ?c1)"
  define es where "es = [UpsertAuth a, Reschedule (a_id a), SaveAuth a, hook] @ (if changed then [PersistCooldowns] else [])"
  have c': "c' = fold (run_effect elapsed) es c2"
    by (simp add: c'_def publish_auth_def c2_def es_def Let_def)
  have s: "settling {a_id a} c2" using settling_store [OF ok refl a] by (simp add: c2_def)
  have m: "co_manager c2 = ?m" "co_settings c2 = co_settings c" by (simp_all add: c2_def)
  have e: "x = a" if "UpsertAuth x \<in> set es" for x
    using that hook [of x] by (auto simp: es_def split: if_splits)
  have "upserts es = {a_id a}" using e by (auto simp: upserts_def es_def)
  moreover have "lookup_auth (co_manager c2) (a_id x) = Some x" if "UpsertAuth x \<in> set es" for x
    using e [OF that] m(1) by simp
  ultimately have "conductor_ok c' \<and> co_manager c' = ?m \<and> co_settings c' = co_settings c"
    using run_effects_settle [OF s, of es elapsed] m by (simp add: c')
  then show ?thesis by (auto simp: known_ids_def)
qed

lemma clock_ok_step:
  assumes "conductor_ok c" "read_clock elapsed c = (t, c1)"
  shows "conductor_ok c1" "known_ids c1 = known_ids c" "co_manager c1 = co_manager c"
    "co_settings c1 = co_settings c" "co_selector c1 = co_selector c" "co_sched c1 = co_sched c"
    "co_registry c1 = co_registry c" "co_alias c1 = co_alias c" "co_now c1 = t" "co_now c \<le> t"
    "co_retry c1 = co_retry c"
proof -
  obtain w where w: "co_now c \<le> t" "c1 = c\<lparr>co_now := t, co_world := w\<rparr>" using assms(2) by (rule read_clock_cases)
  show "conductor_ok c1" using settling_clock [OF assms(1) w(1)] w(2) by simp
qed (use assms(2) in \<open>auto simp: read_clock_def known_ids_def split: prod.splits\<close>)

lemma register_ok:
  assumes "conductor_ok c" "register_auth elapsed postpone fresh ao c = (r, c')"
    and "\<And>a. ao = Some a \<Longrightarrow> clean_id a" "fresh \<noteq> []" "trim_space fresh = fresh"
  shows "conductor_ok c'" "\<And>a. r = Inr (Some a) \<Longrightarrow>
    lookup_auth (co_manager c') = (lookup_auth (co_manager c))(a_id a := Some a) \<and> a_id a \<noteq> []"
proof -
  have "conductor_ok c' \<and> (\<forall>a. r = Inr (Some a) \<longrightarrow>
    lookup_auth (co_manager c') = (lookup_auth (co_manager c))(a_id a := Some a) \<and> a_id a \<noteq> [])"
  proof (cases "ao = None \<or> validate_auth_weight ao \<noteq> None")
    case True
    then show ?thesis using assms(1,2) by (auto simp: register_auth_def split: option.splits)
  next
    case False
    then obtain a0 where a0: "ao = Some a0" "validate_auth_weight (Some a0) = None" by auto
    let ?a1 = "if a_id a0 = [] then a0\<lparr>a_id := fresh\<rparr> else a0"
    obtain t c1 where rc: "read_clock elapsed c = (t, c1)" by fastforce
    note k = clock_ok_step [OF assms(1) rc]
    obtain a ch where ad: "admit_auth (co_manager c1) t ?a1 = (a, ch)" by fastforce
    then have "a_id a = a_id ?a1" using admit_auth_id [of "co_manager c1" t ?a1] by simp
    then have a: "clean_id a" "a_id a \<noteq> []" using assms(3) [OF a0(1)] assms(4,5) by (auto simp: clean_id_def)
    have "r = Inr (Some a)" "c' = publish_auth elapsed postpone (AuthRegistered a) ch a c1"
      using assms(2) a0 rc ad by (simp_all add: register_auth_def Let_def)
    then show ?thesis
      using publish_ok [OF k(1) a, of "AuthRegistered a" elapsed postpone ch] k(3) a(2) by simp
  qed
  then show "conductor_ok c'" "\<And>a. r = Inr (Some a) \<Longrightarrow>
    lookup_auth (co_manager c') = (lookup_auth (co_manager c))(a_id a := Some a) \<and> a_id a \<noteq> []" by blast+
qed

lemma update_ok:
  assumes ok: "conductor_ok c" and up: "update_auth elapsed postpone ao c = (r, c')"
  shows "conductor_ok c'" "known_ids c' = known_ids c" "co_settings c' = co_settings c"
    "\<And>a b. r = Inr (Some a) \<Longrightarrow> ao = Some b \<Longrightarrow> a_id a = a_id b \<and> a_metadata a = a_metadata b \<and>
       lookup_auth (co_manager c') = (lookup_auth (co_manager c))(a_id a := Some a)"
proof -
  have "conductor_ok c' \<and> known_ids c' = known_ids c \<and> co_settings c' = co_settings c \<and>
    (\<forall>a b. r = Inr (Some a) \<longrightarrow> ao = Some b \<longrightarrow> a_id a = a_id b \<and> a_metadata a = a_metadata b \<and>
       lookup_auth (co_manager c') = (lookup_auth (co_manager c))(a_id a := Some a))"
  proof (cases "r = Inr None \<or> (\<exists>e. r = Inl e)")
    case True
    then have "c' = c" using up
      by (auto simp: update_auth_def Let_def split: option.splits if_splits prod.splits)
    then show ?thesis using ok True by auto
  next
    case False
    then obtain a0 x where a0: "ao = Some a0" "a_id a0 \<noteq> []" "validate_auth_weight (Some a0) = None"
      "lookup_auth (co_manager c) (a_id a0) = Some x"
      using up by (auto simp: update_auth_def split: option.splits if_splits)
    obtain t c1 where rc: "read_clock elapsed c = (t, c1)" by fastforce
    note k = clock_ok_step [OF ok rc]
    obtain a ch where ad: "admit_auth (co_manager c1) t (inherit_auth x a0) = (a, ch)" by fastforce
    then have id: "a_id a = a_id a0" "a_metadata a = a_metadata a0"
      using admit_auth_id [of "co_manager c1" t "inherit_auth x a0"] by (simp_all add: inherit_auth_id)
    have "a_id x = a_id a0" "clean_id x"
      using lookup_keyed [OF _ a0(4)] ok by (auto simp: settling_def)
    then have a: "clean_id a" "a_id a \<noteq> []" using id a0(2) by (simp_all add: clean_id_def)
    have "a_id a0 \<in> known_ids c" using a0(4) by (simp add: known_ids_def)
    moreover have "r = Inr (Some a)" "c' = publish_auth elapsed postpone (AuthUpdated a) ch a c1"
      using up a0 rc ad by (simp_all add: update_auth_def)
    ultimately show ?thesis
      using publish_ok [OF k(1) a, of "AuthUpdated a" elapsed postpone ch] k(2-4) id a0(1) by auto
  qed
  then show "conductor_ok c'" "known_ids c' = known_ids c" "co_settings c' = co_settings c"
    "\<And>a b. r = Inr (Some a) \<Longrightarrow> ao = Some b \<Longrightarrow> a_id a = a_id b \<and> a_metadata a = a_metadata b \<and>
       lookup_auth (co_manager c') = (lookup_auth (co_manager c))(a_id a := Some a)" by blast+
qed

lemma placed_view: "map_option (\<lambda>m. selection_view (am_auth m)) (placed mf k a) = offered_by k a"
  by (simp add: placed_def offered_by_def)

lemma sync_ok:
  fixes elapsed :: "'w \<Rightarrow> nat \<times> 'w" and c :: "'w conductor"
  assumes "0 \<le> co_now c" "well_keyed (mg_auths (co_manager c))" "selector_ok (co_selector c)" "mg_scheduler (co_manager c)"
  defines "c' \<equiv> sync_scheduler elapsed c"
  shows "conductor_ok c'" "known_ids c' = known_ids c" "co_manager c' = co_manager c" "co_settings c' = co_settings c"
    "co_selector c' = co_selector c"
proof -
  note h = sync_scheduler_held [OF assms(1,2), of elapsed, folded c'_def]
  obtain t w s where c': "c' = c\<lparr>co_now := t, co_world := w, co_sched := s\<rparr>" using h(4) by blast
  have "map_option (\<lambda>m. selection_view (am_auth m)) (held (co_sched c') k i) =
      Option.bind (lookup_auth (co_manager c') i) (offered_by k)" for k i
    using h(2) [of k i] by (cases "lookup_auth (co_manager c) i") (simp_all add: c' placed_view)
  then have "mirrors_except {} c'" by (simp add: mirrors_except_def)
  then show "conductor_ok c'" using h(1,3) assms(1-4) by (simp add: settling_def c')
  show "known_ids c' = known_ids c" "co_manager c' = co_manager c" "co_settings c' = co_settings c"
    "co_selector c' = co_selector c" by (simp_all add: c' known_ids_def)
qed

lemma settling_forget:
  assumes ok: "settling {i} c" and n: "lookup_auth (co_manager c) i = None" and i: "i \<noteq> []"
  shows "conductor_ok (c\<lparr>co_sched := sched_remove_auth_locked i (co_sched c)\<rparr>)"
proof -
  have s: "sched_ok (co_now c) (co_sched c)" using ok by (simp add: settling_def)
  have "mirrors_except {} (c\<lparr>co_sched := sched_remove_auth_locked i (co_sched c)\<rparr>)"
    using ok n by (auto simp: settling_def mirrors_except_def sched_remove_ok(2) [OF s i])
  then show ?thesis using ok sched_remove_ok(1) [OF s i] by (simp add: settling_def)
qed

lemma remove_ok:
  fixes elapsed :: "'w \<Rightarrow> nat \<times> 'w" and c :: "'w conductor" and postpone :: bool and i0 :: string
  assumes ok: "conductor_ok c"
  defines "c' \<equiv> remove_auth elapsed postpone i0 c"
  shows "conductor_ok c'" "lookup_auth (co_manager c') = (lookup_auth (co_manager c))(trim_space i0 := None)"
proof -
  define i where "i = trim_space i0"
  have "conductor_ok c' \<and> lookup_auth (co_manager c') = (lookup_auth (co_manager c))(i := None)"
  proof (cases "lookup_auth (co_manager c) i")
    case None
    then have "c' = c" by (simp add: c'_def remove_auth_def i_def Let_def)
    then show ?thesis using None ok by (simp add: fun_upd_idem)
  next
    case (Some x)
    have i: "i \<noteq> []" "trim_space i = i"
      using lookup_keyed [OF _ Some] ok by (auto simp: settling_def clean_id_def)
    let ?m = "(co_manager c)\<lparr>mg_auths := AList.delete i (mg_auths (co_manager c))\<rparr>"
    let ?al = "(co_alias c)\<lparr>as_offsets := AList.delete i (as_offsets (co_alias c))\<rparr>"
    let ?c1 = "c\<lparr>co_manager := ?m, co_alias := ?al\<rparr>"
    define c2 where "c2 = (if postpone then ?c1 else rebuild_aliases_from_config ?c1)"
    have lk: "lookup_auth ?m = (lookup_auth (co_manager c))(i := None)"
      by (simp add: lookup_auth_def fun_eq_iff delete_conv)
    have "well_keyed (mg_auths ?m)"
    proof -
      have k: "well_keyed (mg_auths (co_manager c))" using ok by (simp add: settling_def)
      have "(j, x) \<in> set (mg_auths (co_manager c))" if "(j, x) \<in> set (AList.delete i (mg_auths (co_manager c)))" for j x
        using that by (simp add: AList.delete_eq)
      then have "a_id b = j \<and> clean_id b \<and> j \<noteq> []" if "(j, Some b) \<in> set (mg_auths ?m)" for j b
        using well_keyed_member [OF k, of j b] that by simp
      then show ?thesis using keys_distinct_delete [OF well_keyed_distinct [OF k]] by (intro well_keyedI) simp_all
    qed
    moreover have "mirrors_except {i} ?c1" using ok lk by (simp add: settling_def mirrors_except_def)
    ultimately have "settling {i} ?c1" using ok by (simp add: settling_def)
    then have s2: "settling {i} c2" "co_manager c2 = ?m" by (simp_all add: c2_def)
    define c3 where "c3 = c2\<lparr>co_sched := sched_remove_auth i (co_sched c2)\<rparr>"
    have s3: "conductor_ok c3" "co_manager c3 = ?m"
      using settling_forget [OF s2(1) _ i(1)] lk s2(2) i by (simp_all add: c3_def sched_remove_auth_def Let_def)
    define c4 where "c4 = invalidate_session_affinity i (run_effect elapsed (Unschedule i) c3)"
    have s4: "conductor_ok c4" "co_manager c4 = ?m"
      using s3 by (auto simp: c4_def invalidate_session_affinity_def run_effect_def settling_def mirrors_except_def
          split: conductor_selector.split)
    define es where "es = (if trim_space (a_provider x) \<noteq> [] \<and> has_executor c4 (trim_space (a_provider x))
       then [CloseSessions (trim_space (a_provider x))] else []) @ [PersistCooldowns]"
    have c': "c' = fold (run_effect elapsed) es c4"
      using i Some by (simp add: c'_def remove_auth_def i_def [symmetric] Let_def c4_def c3_def c2_def es_def)
    have "UpsertAuth a \<notin> set es" for a by (auto simp: es_def)
    then show ?thesis using run_silent [OF s4(1), of es elapsed] s4(2) lk by (simp add: c')
  qed
  then show "conductor_ok c'" "lookup_auth (co_manager c') = (lookup_auth (co_manager c))(trim_space i0 := None)"
    by (simp_all add: i_def)
qed

lemma load_item_keyed:
  assumes k: "well_keyed m" and c: "\<And>a. ao = Some a \<Longrightarrow> clean_id a"
  shows "well_keyed (load_item ao m)"
proof (cases "load_item ao m = m")
  case False
  then obtain a where a: "ao = Some a" "a_id a \<noteq> []" "load_item ao m = AList.update (a_id a) (Some a) m"
    unfolding load_item_def by (cases ao) (simp_all, metis)
  have "a_id b = j \<and> clean_id b \<and> j \<noteq> []" if "(j, Some b) \<in> set (AList.update (a_id a) (Some a) m)" for j b
    using update_member [OF that] c [OF a(1)] well_keyed_member [OF k, of j b] a(2) by auto
  then show ?thesis using well_keyed_distinct [OF k] unfolding a(3) by (intro well_keyedI) simp_all
qed (use k in simp)

lemma load_items_keyed:
  assumes "\<And>a. Some a \<in> set items \<Longrightarrow> clean_id a"
  shows "well_keyed (load_items items)"
proof -
  have "well_keyed m \<Longrightarrow> well_keyed (fold load_item items m)" for m
    using assms
  proof (induction items arbitrary: m)
    case (Cons ao items)
    have "well_keyed (load_item ao m)" by (rule load_item_keyed [OF Cons.prems(1)]) (use Cons.prems(2) in simp)
    then show ?case using Cons.IH Cons.prems(2) by simp
  qed simp
  moreover have "well_keyed []" by (simp add: well_keyed_def)
  ultimately show ?thesis unfolding load_items_def by blast
qed

lemma load_ok:
  assumes "conductor_ok c" "\<And>a. Some a \<in> set items \<Longrightarrow> clean_id a"
  shows "conductor_ok (load_auths elapsed items c)"
proof -
  let ?c = "c\<lparr>co_manager := (co_manager c)\<lparr>mg_auths := load_items items\<rparr>\<rparr>"
  have c: "0 \<le> co_now c" "selector_ok (co_selector c)" "mg_scheduler (co_manager c)"
    using assms(1) by (simp_all add: settling_def)
  have r: "co_selector (rebuild_aliases_from_config ?c) = co_selector c"
    by (simp add: rebuild_aliases_from_config_def Let_def)
  show ?thesis
    unfolding load_auths_def
    by (rule sync_ok(1)) (use c r load_items_keyed [OF assms(2)] in simp_all)
qed

lemma mark_pending_ok:
  assumes "conductor_ok c" "mark_refresh_pending elapsed i now c = (b, c')"
  shows "conductor_ok c'" "known_ids c' = known_ids c" "co_settings c' = co_settings c"
proof -
  have "conductor_ok c' \<and> known_ids c' = known_ids c \<and> co_settings c' = co_settings c"
  proof (cases b)
    case False
    then show ?thesis using assms by (auto simp: mark_refresh_pending_def split: option.splits if_splits)
  next
    case True
    then obtain a where a: "lookup_auth (co_manager c) i = Some a"
      "c' = run_effect elapsed (Reschedule i)
         (c\<lparr>co_manager := store_auth i (a\<lparr>a_next_refresh := now + refresh_pending_backoff\<rparr>) (co_manager c)\<rparr>)"
      using assms(2) by (auto simp: mark_refresh_pending_def split: option.splits if_splits)
    have "conductor_ok (c\<lparr>co_manager := store_auth i (a\<lparr>a_next_refresh := now + refresh_pending_backoff\<rparr>) (co_manager c)\<rparr>)"
      by (rule settling_store_same [OF assms(1) a(1)]) (simp add: selection_view_def)
    from run_one [OF this, of "Reschedule i" elapsed] show ?thesis
      using known_ids_store [OF a(1)] by (simp add: a(2) known_ids_def)
  qed
  then show "conductor_ok c'" "known_ids c' = known_ids c" "co_settings c' = co_settings c" by blast+
qed

section \<open>Refreshing and preparing\<close>

lemma fail_refresh_id: "a_id (fail_refresh now e a) = a_id a" "a_metadata (fail_refresh now e a) = a_metadata a"
  by (simp_all add: fail_refresh_def Let_def)

lemma refreshed_auth_id:
  "a_id (snd (refreshed_auth rf now later a)) = a_id a \<and> a_metadata (snd (refreshed_auth rf now later a)) = a_metadata a"
proof -
  let ?a1 = "a\<lparr>a_last_refreshed := now, a_next_refresh := 0, a_last_error := None, a_status_message := [],
                 a_unavailable := False,
                 a_status := (if a_status a = StatusError then StatusActive else a_status a),
                 a_updated := now\<rparr>"
  obtain resumed b where b: "clear_unauthorized_model_states now ?a1 = (resumed, b)" by fastforce
  then have "a_id b = a_id a \<and> a_metadata b = a_metadata a" using clear_unauthorized_id [of now ?a1] by simp
  then show ?thesis using b by (simp add: refreshed_auth_def Let_def)
qed

text \<open>The executor answers for the credential it is asked about, and keeps the condition on the metadata.\<close>

definition same_credential ::
  "((string \<rightharpoonup> goany) \<Rightarrow> bool) \<Rightarrow> (string \<Rightarrow> auth \<Rightarrow> 'w \<Rightarrow> (exec_error + auth option) \<times> 'w) \<Rightarrow> bool" where
  "same_credential P f \<longleftrightarrow>
     (\<forall>k a w b w'. f k a w = (Inr (Some b), w') \<longrightarrow> a_id b = a_id a \<and> (P (a_metadata a) \<longrightarrow> P (a_metadata b)))"

lemma same_credentialD:
  "same_credential P f \<Longrightarrow> f k a w = (Inr (Some b), w') \<Longrightarrow> a_id b = a_id a \<and> (P (a_metadata a) \<longrightarrow> P (a_metadata b))"
  unfolding same_credential_def by blast

lemma keeps_world: "conductor_ok c \<Longrightarrow> keeps P c (c\<lparr>co_world := w\<rparr>)"
  by (simp add: keeps_def settling_frame stored_def)

lemma keeps_clock: "conductor_ok c \<Longrightarrow> read_clock elapsed c = (t, c1) \<Longrightarrow> keeps P c c1"
  using clock_ok_step [of c elapsed t c1] by (auto simp: keeps_def stored_def)

lemma keeps_update:
  assumes ok: "conductor_ok c" and up: "update_auth elapsed postpone (Some b) c = (r, c')"
    and new: "stored P c \<Longrightarrow> lookup_auth (co_manager c) (a_id b) \<noteq> None \<Longrightarrow> P (a_metadata b)"
  shows "keeps P c c'"
proof -
  note u = update_ok [OF ok up]
  have "stored P c'" if s: "stored P c"
  proof (cases "\<exists>a. r = Inr (Some a)")
    case True
    then obtain a where a: "r = Inr (Some a)" by blast
    note ua = u(4) [OF a refl]
    then have "a_id b \<in> known_ids c'" by (simp add: known_ids_def)
    then have "a_id b \<in> known_ids c" using u(2) by simp
    then have "P (a_metadata b)" using new [OF s] by (simp add: known_ids_def)
    then show ?thesis using s ua by (simp add: stored_def)
  next
    case False
    then have "c' = c" using up by (auto simp: update_auth_def Let_def split: option.splits if_splits prod.splits)
    then show ?thesis using s by simp
  qed
  then show ?thesis using u(1-3) unfolding keeps_def by blast
qed

lemma keeps_silent:
  assumes "conductor_ok c" "\<And>a. UpsertAuth a \<notin> set es"
  shows "keeps P c (fold (run_effect elapsed) es c)"
  using run_silent [OF assms, of elapsed] by (simp add: keeps_def stored_def)

lemma refresh_ok:
  assumes ok: "conductor_ok c" and same: "same_credential P do_refresh"
    and r: "refresh_auth_for_request elapsed rf do_refresh postpone i0 tok c = (res, c')"
  shows "keeps P c c'" "\<And>b. res = Some b \<Longrightarrow> a_id b = trim_space i0"
proof -
  let ?i = "trim_space i0"
  have "keeps P c c' \<and> (\<forall>b. res = Some b \<longrightarrow> a_id b = ?i)"
  proof (cases "?i = [] \<or> lookup_auth (co_manager c) ?i = None")
    case True
    then have "res = None \<and> c' = c" using r
      by (cases "?i = []") (simp_all add: refresh_auth_for_request_def Let_def)
    then show ?thesis using keeps_refl [OF ok] by simp
  next
    case False
    then obtain a where a: "?i \<noteq> []" "lookup_auth (co_manager c) ?i = Some a" by auto
    have wk: "well_keyed (mg_auths (co_manager c))" using ok by (simp add: settling_def)
    have k: "a_id a = ?i" "clean_id a" using lookup_keyed [OF wk a(2)] by blast+
    show ?thesis
    proof (cases "a_provider a \<notin> set (co_executors c) \<or>
        (tok \<noteq> [] \<and> auth_access_token a \<noteq> [] \<and> auth_access_token a \<noteq> tok)")
      case True
      then show ?thesis using r a k keeps_refl [OF ok] by (auto simp: refresh_auth_for_request_def Let_def split: if_splits)
    next
      case False
      obtain out w where f: "do_refresh (a_provider a) a (co_world c) = (out, w)" by fastforce
      let ?c1 = "c\<lparr>co_world := w\<rparr>"
      have k1: "keeps P c ?c1" and ok1: "conductor_ok ?c1" using keeps_world [OF ok] by (auto simp: keeps_def)
      obtain now c2 where c2: "read_clock elapsed ?c1 = (now, c2)" by fastforce
      have k2: "keeps P c c2" and ok2: "conductor_ok c2"
        using keeps_trans [OF k1 keeps_clock [OF ok1 c2]] by (auto simp: keeps_def)
      have m2: "co_manager c2 = co_manager c" using clock_ok_step(3) [OF ok1 c2] by simp
      show ?thesis
      proof (cases out)
        case (Inl e)
        show ?thesis
        proof (cases "ee_canceled e")
          case True
          then show ?thesis using r a False f Inl k1 by (auto simp: refresh_auth_for_request_def Let_def)
        next
          case nc: False
          let ?b = "fail_refresh now e a"
          have c': "res = None" "c' = fold (run_effect elapsed) [UpsertAuth ?b, Reschedule ?i]
              (c2\<lparr>co_manager := store_auth ?i ?b (co_manager c2)\<rparr>)"
            using r a False f Inl nc c2 m2 by (auto simp: refresh_auth_for_request_def Let_def)
          have "touches_one (co_manager c2) (store_auth ?i ?b (co_manager c2), [UpsertAuth ?b, Reschedule ?i])"
            unfolding touches_one_def
            by (intro disjI2 exI [of _ ?i] exI [of _ a] exI [of _ ?b]) (use a(2) m2 fail_refresh_id in auto)
          from run_touch_keeps [OF ok2 this, of P elapsed] show ?thesis
            using keeps_trans [OF k2] c' by simp
        qed
      next
        case (Inr uo)
        let ?u = "case uo of Some b \<Rightarrow> b | None \<Rightarrow> a"
        have Pa: "P (a_metadata a)" if "stored P c" using that a(2) unfolding stored_def by blast
        have u: "a_id ?u = ?i" "stored P c \<Longrightarrow> P (a_metadata ?u)"
        proof -
          have "a_id ?u = ?i \<and> (stored P c \<longrightarrow> P (a_metadata ?u))"
          proof (cases uo)
            case (Some b)
            then have "do_refresh (a_provider a) a (co_world c) = (Inr (Some b), w)" using f Inr by simp
            from same_credentialD [OF same this] show ?thesis using k(1) Some Pa by simp
          qed (use k(1) Pa in simp)
          then show "a_id ?u = ?i" "stored P c \<Longrightarrow> P (a_metadata ?u)" by blast+
        qed
        obtain later c3 where c3: "read_clock elapsed c2 = (later, c3)" by fastforce
        have k3: "keeps P c c3" and ok3: "conductor_ok c3"
          using keeps_trans [OF k2 keeps_clock [OF ok2 c3]] by (auto simp: keeps_def)
        obtain resumed b where b: "refreshed_auth rf now later ?u = (resumed, b)" by fastforce
        then have bi: "a_id b = ?i" "a_metadata b = a_metadata ?u"
          using refreshed_auth_id [of rf now later ?u] u by simp_all
        obtain saved c4 where c4: "update_auth elapsed postpone (Some b) c3 = (saved, c4)" by fastforce
        have "P (a_metadata b)" if "stored P c3"
        proof -
          have "co_manager c3 = co_manager c" using clock_ok_step(3) [OF ok2 c3] m2 by simp
          then have "stored P c" using that stored_same by blast
          then show ?thesis using u(2) bi(2) by simp
        qed
        then have k4: "keeps P c c4" and ok4: "conductor_ok c4"
          using keeps_trans [OF k3 keeps_update [OF ok3 c4]] keeps_ok by blast+
        have "UpsertAuth x \<notin> set (map (ResumeModel ?i) resumed)" for x by auto
        from keeps_trans [OF k4 keeps_silent [OF ok4 this]]
        have k5: "keeps P c (fold (run_effect elapsed) (map (ResumeModel ?i) resumed) c4)" .
        have "res = Some (case saved of Inr (Some x) \<Rightarrow> x | _ \<Rightarrow> b)"
          "c' = fold (run_effect elapsed) (map (ResumeModel ?i) resumed) c4"
          using r a False f Inr c2 c3 b c4 by (auto simp: refresh_auth_for_request_def Let_def split: option.splits)
        moreover have "a_id x = ?i" if "saved = Inr (Some x)" for x
          using update_ok(4) [OF ok3 c4 that refl] bi by simp
        ultimately show ?thesis using k5 bi by (auto split: sum.split option.split)
      qed
    qed
  qed
  then show "keeps P c c'" "\<And>b. res = Some b \<Longrightarrow> a_id b = ?i" by blast+
qed

lemma try_refresh_ok:
  assumes ok: "conductor_ok c" and same: "same_credential P do_refresh" and cl: "clean_id a"
    and r: "try_refresh_after_unauthorized elapsed rf do_refresh postpone a e did c = ((b, d), c')"
  shows "keeps P c c'" "a_id b = a_id a"
proof -
  obtain res c1 where q: "refresh_auth_for_request elapsed rf do_refresh postpone (a_id a) (auth_access_token a) c = (res, c1)"
    by fastforce
  note ro = refresh_ok [OF ok same q]
  have t: "trim_space (a_id a) = a_id a" using cl by (simp add: clean_id_def)
  have "keeps P c c' \<and> a_id b = a_id a"
  proof (cases "did \<or> is_request_scoped_error (Some (ee_view e)) \<or>
      \<not> is_unauthorized_error (Some (ee_view e)) \<or> \<not> auth_has_refresh_credential a")
    case True
    then have "c' = c \<and> b = a" using r by (auto simp: try_refresh_after_unauthorized_def split: if_splits)
    then show ?thesis using keeps_refl [OF ok] by simp
  next
    case False
    then have "(case res of None \<Rightarrow> ((a, False), c1) | Some b \<Rightarrow> ((b, True), c1)) = ((b, d), c')"
      using r q by (simp add: try_refresh_after_unauthorized_def)
    then have "c' = c1 \<and> (b = a \<or> res = Some b)" by (cases res) simp_all
    then show ?thesis using ro(1) ro(2) [of b] t by auto
  qed
  then show "keeps P c c'" "a_id b = a_id a" by blast+
qed

lemma prepare_ok:
  assumes ok: "conductor_ok c" and same: "same_credential P do_prepare" and cl: "clean_id a"
    and r: "prepare_request_auth elapsed needs do_prepare postpone we x a c = ((b, eo), c')"
  shows "keeps P c c'" "a_id b = a_id a"
proof -
  define target where "target = (case lookup_auth (co_manager c) (trim_space (a_id a)) of Some cur \<Rightarrow> cur | None \<Rightarrow> a)"
  have t: "trim_space (a_id a) = a_id a" using cl by (simp add: clean_id_def)
  have wk: "well_keyed (mg_auths (co_manager c))" using ok by (simp add: settling_def)
  have ti: "a_id target = a_id a"
    using lookup_keyed [OF wk, of "a_id a"]
    by (cases "lookup_auth (co_manager c) (a_id a)") (simp_all add: target_def t)
  have "keeps P c c' \<and> a_id b = a_id a"
  proof (cases "\<not> needs x a \<or> \<not> needs x target")
    case True
    then show ?thesis using r ti keeps_refl [OF ok]
      by (auto simp: prepare_request_auth_def target_def [symmetric] Let_def split: if_splits)
  next
    case False
    obtain out w where f: "do_prepare x target (co_world c) = (out, w)" by fastforce
    have k1: "keeps P c (c\<lparr>co_world := w\<rparr>)" and ok1: "conductor_ok (c\<lparr>co_world := w\<rparr>)"
      using keeps_world [OF ok] by (auto simp: keeps_def)
    have run: "((b, eo), c') = (case do_prepare x target (co_world c) of
             (Inl e, w) \<Rightarrow> ((a, Some e), c\<lparr>co_world := w\<rparr>)
           | (Inr None, w) \<Rightarrow> ((target, None), c\<lparr>co_world := w\<rparr>)
           | (Inr (Some b), w) \<Rightarrow>
               (case update_auth elapsed postpone (Some b) (c\<lparr>co_world := w\<rparr>) of
                  (Inl e, c1) \<Rightarrow> ((b, Some (we e)), c1)
                | (Inr (Some x), c1) \<Rightarrow> ((x, None), c1)
                | (Inr None, c1) \<Rightarrow> ((b, None), c1)))"
      using False unfolding r [symmetric] prepare_request_auth_def target_def [symmetric] Let_def by simp
    show ?thesis
    proof (cases "\<exists>u. out = Inr (Some u)")
      case no: False
      then show ?thesis using run f k1 ti by (auto split: sum.splits option.splits)
    next
      case True
      then obtain u where u: "out = Inr (Some u)" by blast
      then have "do_prepare x target (co_world c) = (Inr (Some u), w)" using f by simp
      note su = same_credentialD [OF same this]
      then have ui: "a_id u = a_id a" using ti by simp
      obtain saved c1 where c1: "update_auth elapsed postpone (Some u) (c\<lparr>co_world := w\<rparr>) = (saved, c1)" by fastforce
      have "P (a_metadata u)" if s: "stored P (c\<lparr>co_world := w\<rparr>)"
        and l: "lookup_auth (co_manager (c\<lparr>co_world := w\<rparr>)) (a_id u) \<noteq> None"
      proof -
        obtain cur where cur: "lookup_auth (co_manager c) (a_id a) = Some cur" using l ui by auto
        then have "P (a_metadata cur)" using s by (simp add: stored_def)
        moreover have "target = cur" using cur t by (simp add: target_def)
        ultimately show ?thesis using su by simp
      qed
      then have k2: "keeps P c c1" using keeps_trans [OF k1 keeps_update [OF ok1 c1]] by blast
      have y: "a_id y = a_id a" if "saved = Inr (Some y)" for y
        using update_ok(4) [OF ok1 c1 that refl] ui by simp
      have "((b, eo), c') = (case (saved, c1) of
            (Inl e, c1) \<Rightarrow> ((u, Some (we e)), c1)
          | (Inr (Some x), c1) \<Rightarrow> ((x, None), c1)
          | (Inr None, c1) \<Rightarrow> ((u, None), c1))"
        unfolding run f u c1 [symmetric] by simp
      then have "c' = c1 \<and> (b = u \<or> saved = Inr (Some b))"
        by (cases saved; cases "projr saved") auto
      then show ?thesis using k2 ui y by blast
    qed
  qed
  then show "keeps P c c'" "a_id b = a_id a" by blast+
qed

end
