(* ===== verification/ConductorPicks.thy ===== *)
theory ConductorPicks
  imports ConductorProps
begin

text \<open>
  What a selection of the conductor returns: on the legacy path a candidate of the highest
  priority that is not blocked under the model it is checked with; on the scheduler's path a
  credential the scheduler can serve, hence the manager's. Both keep the invariant and never
  return a credential the request has tried.
\<close>

section \<open>The candidates of the legacy path\<close>

definition open_candidates :: "(auth \<Rightarrow> string) \<Rightarrow> gotime \<Rightarrow> auth list \<Rightarrow> auth list" where
  "open_candidates check now as = filter (\<lambda>a. \<not> blocked (Some a) (check a) now) as"

lemma route_loop_buckets:
  "buckets_hold m xs \<Longrightarrow>
   buckets_hold (fst (available_route_loop check now as (m, n, e))) (xs @ open_candidates check now as)"
proof (induction as arbitrary: m xs n e)
  case (Cons a as)
  obtain b r nxt where v: "is_auth_blocked_for_model (Some a) (check a) now = (b, r, nxt)"
    by (cases "is_auth_blocked_for_model (Some a) (check a) now") auto
  show ?case
  proof (cases b)
    case False
    have "buckets_hold (bucket_add (auth_priority (Some a)) a m) (xs @ [a])"
      by (rule buckets_hold_add [OF Cons.prems]) (simp add: prio_def)
    from Cons.IH [OF this] show ?thesis using False v by (simp add: open_candidates_def)
  next
    case True
    then show ?thesis using Cons v by (simp add: open_candidates_def)
  qed
qed (simp add: open_candidates_def)

lemma available_for_route:
  fixes check :: "auth \<Rightarrow> string" and now :: gotime and as :: "auth list" and all :: bool
  defines "xs \<equiv> open_candidates check now as"
  shows "xs = [] \<Longrightarrow> \<exists>e. available_auths_for_route_model check as provider route now all = Inl e"
    and "xs \<noteq> [] \<Longrightarrow> \<exists>ys. available_auths_for_route_model check as provider route now all = Inr ys \<and>
      set ys = set (if all then xs else top_tier xs) \<and> ys \<noteq> []"
proof -
  obtain m n e where l: "available_route_loop check now as ([], 0, 0) = (m, n, e)" by (metis prod_cases3)
  have h: "buckets_hold m xs"
    using route_loop_buckets [of "[]" "[]" check now as 0 0] l by (simp add: buckets_hold_def xs_def)
  show "\<exists>e. available_auths_for_route_model check as provider route now all = Inl e" if "xs = []"
    using that buckets_empty_iff [OF h] l by (simp add: available_auths_for_route_model_def Let_def)
  assume ne: "xs \<noteq> []"
  then have m: "m \<noteq> []" and as: "as \<noteq> []" using buckets_empty_iff [OF h] by (auto simp: xs_def open_candidates_def)
  have run: "available_auths_for_route_model check as provider route now all =
      Inr (available_auths_from_priority_buckets m all)"
    using as l m by (simp add: available_auths_for_route_model_def Let_def)
  have ms: "mset (concat (map snd m)) = mset xs"
    using h mset_concat_buckets unfolding buckets_hold_def by blast
  have "set (available_auths_from_priority_buckets m all) = set (if all then xs else top_tier xs)"
    using mset_eq_setD [OF ms] top_bucket [OF h ne]
    by (simp add: available_auths_from_priority_buckets_def Let_def del: set_concat)
  moreover have "(if all then xs else top_tier xs) \<noteq> []" using ne top_tier_ne by simp
  ultimately show "\<exists>ys. available_auths_for_route_model check as provider route now all = Inr ys \<and>
      set ys = set (if all then xs else top_tier xs) \<and> ys \<noteq> []"
    using run by (metis set_empty)
qed

lemma route_candidates:
  assumes "available_auths_for_route_model check as provider route now all = Inr ys" "a \<in> set ys"
  shows "a \<in> set as" "\<not> blocked (Some a) (check a) now"
    "\<not> all \<Longrightarrow> b \<in> set as \<Longrightarrow> \<not> blocked (Some b) (check b) now \<Longrightarrow> prio b \<le> prio a"
proof -
  let ?xs = "open_candidates check now as"
  have ne: "?xs \<noteq> []"
    using available_for_route(1) [of check now as provider route all] assms(1) by auto
  from available_for_route(2) [OF this, of provider route all] assms
  have a: "a \<in> set (if all then ?xs else top_tier ?xs)" by auto
  then have "a \<in> set ?xs" using top_tier_member by (auto split: if_splits)
  then show "a \<in> set as" "\<not> blocked (Some a) (check a) now" by (simp_all add: open_candidates_def)
  assume "\<not> all" "b \<in> set as" "\<not> blocked (Some b) (check b) now"
  then show "prio b \<le> prio a" using a top_tier_member [of a ?xs] by (simp add: open_candidates_def)
qed

section \<open>The selectors of the conductor\<close>

interpretation built_in: affinity_client
  "built_in_pick ws route" "\<lambda>c. w \<longrightarrow> auth_weight c > 0" "\<lambda>b. is_weighted b = w \<and> built_in_ok b" w
  for ws route w
proof (unfold_locales, goal_cases)
  case (1 s now provider model auths a s')
  show ?case
  proof (cases s)
    case (RoundRobin st)
    then obtain st' where "round_robin_pick ws now provider model auths st = (Inr a, st')"
      using 1 by (auto simp: built_in_pick_def split: prod.splits)
    then show ?thesis using round_robin.pick_sound 1(1) RoundRobin
      by (fastforce simp: is_weighted_def pickable_def)
  next
    case FillFirst
    then have "fill_first_pick ws now provider model auths = Inr a" using 1 by (simp add: built_in_pick_def)
    then show ?thesis using fill_first.pick_sound [where ws = ws and now = now and provider = provider and model = model and auths = auths and a = a] 1(1) FillFirst
      by (fastforce simp: is_weighted_def pickable_def)
  next
    case (Weighted st)
    then obtain st' where "weighted_pick ws route now provider model auths st = (Inr a, st')"
      using 1 by (auto simp: built_in_pick_def split: prod.splits)
    then show ?thesis using weighted.pick_sound 1(1) Weighted by (fastforce simp: is_weighted_def pickable_def)
  qed
next
  case (2 s auths model now provider)
  then obtain b where b: "pickable (\<lambda>c. w \<longrightarrow> auth_weight c > 0) auths model now b" by blast
  show ?case
  proof (cases s)
    case (RoundRobin st)
    then have "pickable (\<lambda>_. True) auths model now b" "rr_inv st" using b 2(1) by (auto simp: pickable_def)
    then obtain a st' where "round_robin_pick ws now provider model auths st = (Inr a, st')"
      using round_robin.pick_live by meson
    then show ?thesis using RoundRobin by (simp add: built_in_pick_def)
  next
    case FillFirst
    have "pickable (\<lambda>_. True) auths model now b" using b by (simp add: pickable_def)
    then obtain a where "fill_first_pick ws now provider model auths = Inr a"
      using fill_first.pick_live [where ws = ws and provider = provider and auths = auths and model = model and now = now] by auto
    then show ?thesis using FillFirst by (simp add: built_in_pick_def)
  next
    case (Weighted st)
    then have "pickable (\<lambda>c. auth_weight c > 0) auths model now b" using b 2(1) by (simp add: is_weighted_def)
    then obtain a st' where "weighted_pick ws route now provider model auths st = (Inr a, st')"
      using weighted.pick_live by meson
    then show ?thesis using Weighted by (simp add: built_in_pick_def)
  qed
next
  case (3 s now provider model auths)
  then show ?case
    using round_robin.pick_inv
    by (cases s) (auto simp: built_in_pick_def is_weighted_def split: prod.splits, metis snd_conv)
qed simp

lemma keeps_selector:
  "conductor_ok c \<Longrightarrow> selector_ok sel \<Longrightarrow> keeps P c (c\<lparr>co_selector := sel\<rparr>)"
  by (simp add: keeps_def settling_def mirrors_except_def known_ids_def stored_def)

lemma read_clock_frame:
  "read_clock elapsed c = (t, c1) \<Longrightarrow> co_selector c1 = co_selector c \<and> co_manager c1 = co_manager c \<and>
     co_sched c1 = co_sched c \<and> co_alias c1 = co_alias c \<and> co_registry c1 = co_registry c \<and> co_now c1 = t \<and> co_now c \<le> t"
  by (auto simp: read_clock_def split: prod.splits)

lemma read_pick_clock_ok:
  assumes ok: "conductor_ok c" and r: "read_pick_clock elapsed c = (clk, c1)"
  shows "keeps P c c1" "clock_ok clk" "co_selector c1 = co_selector c"
proof -
  obtain t1 c1' t2 c2 t3 c3 t4 c4 t5 c5 t6 where
    rs: "read_clock elapsed c = (t1, c1')" "read_clock elapsed c1' = (t2, c2)" "read_clock elapsed c2 = (t3, c3)"
      "read_clock elapsed c3 = (t4, c4)" "read_clock elapsed c4 = (t5, c5)" "read_clock elapsed c5 = (t6, c1)"
    and clk: "clk = \<lparr>pc_now = t1, pc_refresh = t2, pc_get = t3, pc_get2 = t4, pc_fallback = t5, pc_bind = t6\<rparr>"
    using r by (auto simp: read_pick_clock_def split: prod.splits)
  have k: "keeps P x z" if "keeps P x y" "read_clock elapsed y = (t, z)" for x y z t
    using keeps_trans [OF that(1) keeps_clock [OF keeps_ok [OF that(1)] that(2)]] .
  show "keeps P c c1" using k [OF k [OF k [OF k [OF k [OF keeps_clock [OF ok rs(1)] rs(2)] rs(3)] rs(4)] rs(5)] rs(6)] .
  note f = read_clock_frame [OF rs(1)] read_clock_frame [OF rs(2)] read_clock_frame [OF rs(3)]
    read_clock_frame [OF rs(4)] read_clock_frame [OF rs(5)] read_clock_frame [OF rs(6)]
  have "0 \<le> co_now c" using ok by (simp add: settling_def)
  then show "clock_ok clk" using f by (simp add: clk clock_ok_def)
  show "co_selector c1 = co_selector c" using f by simp
qed

lemma selector_pick_ok:
  assumes ok: "conductor_ok c" and p: "selector_pick elapsed px provider route auths c = (r, c')"
  shows "keeps P c c'" "r = Inr a \<Longrightarrow> a \<in> set auths"
    "co_selector c = BuiltIn b \<Longrightarrow> \<exists>t \<ge> co_now c. (r = Inr a \<longrightarrow> \<not> blocked (Some a) [] t \<and> (is_weighted b \<longrightarrow> auth_weight (Some a) > 0)) \<and>
       ((\<exists>e. r = Inl e) \<longrightarrow> (\<forall>x \<in> set auths. (is_weighted b \<longrightarrow> auth_weight (Some x) > 0) \<longrightarrow> blocked (Some x) [] t))"
proof -
  have sel: "selector_ok (co_selector c)" using ok by (simp add: settling_def)
  have "keeps P c c' \<and> (\<forall>a. r = Inr a \<longrightarrow> a \<in> set auths) \<and> (\<forall>b. co_selector c = BuiltIn b \<longrightarrow>
     (\<exists>t \<ge> co_now c. (\<forall>a. r = Inr a \<longrightarrow> \<not> blocked (Some a) [] t \<and> (is_weighted b \<longrightarrow> auth_weight (Some a) > 0)) \<and>
       ((\<exists>e. r = Inl e) \<longrightarrow> (\<forall>x \<in> set auths. (is_weighted b \<longrightarrow> auth_weight (Some x) > 0) \<longrightarrow> blocked (Some x) [] t))))"
  proof (cases "co_selector c")
    case (BuiltIn b)
    then have b: "is_weighted b = is_weighted b \<and> built_in_ok b" using sel by simp
    obtain now c1 where c1: "read_clock elapsed c = (now, c1)" by fastforce
    let ?route = "if trim_space route = [] then None else Some route"
    obtain q b' where q: "built_in_pick (px_ws px) ?route now provider [] (map Some auths) b = (q, b')" by fastforce
    have run: "r = q" "c' = c1\<lparr>co_selector := BuiltIn b'\<rparr>"
      using p by (simp_all add: selector_pick_def BuiltIn c1 q selection_arg_for_selector_def is_built_in_selector_def)
    note k1 = keeps_clock [OF ok c1]
    have "built_in_ok b'" using built_in.pick_inv [OF b, of "px_ws px" ?route now provider "[]" "map Some auths"] q by simp
    then have "keeps P c c'"
      using keeps_trans [OF k1 keeps_selector [OF keeps_ok [OF k1]]] run(2) by simp
    moreover have "a \<in> set auths \<and> \<not> blocked (Some a) [] now \<and> (is_weighted b \<longrightarrow> auth_weight (Some a) > 0)" if "r = Inr a" for a
      using built_in.pick_sound [OF b, of "px_ws px" ?route now provider "[]" "map Some auths" a b'] q run(1) that
      by (auto simp: pickable_def)
    moreover have "\<forall>x \<in> set auths. (is_weighted b \<longrightarrow> auth_weight (Some x) > 0) \<longrightarrow> blocked (Some x) [] now" if "r = Inl e" for e
      using built_in.pick_live [OF b, of "map Some auths" "[]" now "px_ws px" ?route provider] q run(1) that
      by (auto simp: pickable_def)
    ultimately show ?thesis using read_clock_frame [OF c1] BuiltIn by (auto intro!: exI [of _ now])
  next
    case (Affinity b cache)
    then have b: "is_weighted b = is_weighted b \<and> built_in_ok b" using sel by simp
    obtain clk c1 where c1: "read_pick_clock elapsed c = (clk, c1)" by fastforce
    obtain q cache' b' where
      q: "session_affinity_pick (built_in_pick (px_ws px) None) (is_weighted b) (px_session px)
        (px_fallback_session px) clk provider route (map Some auths) cache b = (q, cache', b')"
      by (metis prod_cases3)
    have run: "r = q" "c' = c1\<lparr>co_selector := Affinity b' cache'\<rparr>"
      using p by (simp_all add: selector_pick_def Affinity c1 q selection_arg_for_selector_def is_built_in_selector_def)
    note k1 = read_pick_clock_ok [OF ok c1]
    have "built_in_ok b'" using built_in.affinity_pick_keeps [OF b q] by simp
    then have "keeps P c c'"
      using keeps_trans [OF k1(1) keeps_selector [OF keeps_ok [OF k1(1)]]] run(2) by simp
    moreover have "a \<in> set auths" if "r = Inr a" for a
      using built_in.affinity_pick_sound [OF b k1(2) q [unfolded run(1) [symmetric] that]]
      by (auto simp: pickable_def)
    ultimately show ?thesis using Affinity by simp
  qed
  then show "keeps P c c'" "r = Inr a \<Longrightarrow> a \<in> set auths"
    "co_selector c = BuiltIn b \<Longrightarrow> \<exists>t \<ge> co_now c. (r = Inr a \<longrightarrow> \<not> blocked (Some a) [] t \<and> (is_weighted b \<longrightarrow> auth_weight (Some a) > 0)) \<and>
       ((\<exists>e. r = Inl e) \<longrightarrow> (\<forall>x \<in> set auths. (is_weighted b \<longrightarrow> auth_weight (Some x) > 0) \<longrightarrow> blocked (Some x) [] t))"
    by blast+
qed

section \<open>The legacy path\<close>

lemma auth_list_known:
  assumes "conductor_ok c" "a \<in> set (auth_list c)"
  shows "a_id a \<in> known_ids c" "lookup_auth (co_manager c) (a_id a) = Some a"
proof -
  have wk: "well_keyed (mg_auths (co_manager c))" using assms(1) by (simp add: settling_def)
  obtain i where i: "(i, Some a) \<in> set (mg_auths (co_manager c))"
    using assms(2) by (auto simp: auth_list_def auths_of_def List.map_filter_def)
  then have "a_id a = i" using well_keyed_member [OF wk] by blast
  moreover have "map_of (mg_auths (co_manager c)) i = Some (Some a)"
    using map_of_is_SomeI [OF well_keyed_distinct [OF wk] i] .
  ultimately show l: "lookup_auth (co_manager c) (a_id a) = Some a" by (simp add: lookup_auth_def)
  then show "a_id a \<in> known_ids c" by (simp add: known_ids_def)
qed

lemma pick_among_ok:
  assumes ok: "conductor_ok c" and p: "pick_among elapsed decode px provider route cands c = (r, c')"
  shows "keeps P c c'" "r = Inr a \<Longrightarrow> a \<in> set cands"
proof -
  have "keeps P c c' \<and> (\<forall>a. r = Inr a \<longrightarrow> a \<in> set cands)"
  proof (cases "cands = []")
    case True
    then show ?thesis using p keeps_refl [OF ok] by (auto simp: pick_among_def)
  next
    case False
    obtain now c1 where c1: "read_clock elapsed c = (now, c1)" by fastforce
    note k1 = keeps_clock [OF ok c1]
    let ?check = "\<lambda>a. selection_model decode c1 (Some a) route"
    show ?thesis
    proof (cases "available_auths_for_selector ?check (co_selector c1) cands provider route now")
      case (Inl e)
      then show ?thesis using p False c1 k1 by (auto simp: pick_among_def)
    next
      case (Inr auths)
      have "selector_pick elapsed px provider route auths c1 = (r, c')"
        using p False c1 Inr by (simp add: pick_among_def)
      note s = selector_pick_ok [OF keeps_ok [OF k1] this]
      have "a \<in> set cands" if "r = Inr a" for a
        using route_candidates(1) [OF Inr [unfolded available_auths_for_selector_def] s(2) [OF that]] .
      then show ?thesis using keeps_trans [OF k1 s(1)] by blast
    qed
  qed
  then show "keeps P c c'" "r = Inr a \<Longrightarrow> a \<in> set cands" by blast+
qed

lemma legacy_candidate_fresh:
  "legacy_candidate decode px tried route c a \<Longrightarrow> a_id a \<notin> set tried \<and> \<not> a_disabled a"
  by (simp add: legacy_candidate_def Let_def split: if_splits)

lemma pick_next_legacy_ok:
  assumes ok: "conductor_ok c" and p: "pick_next_legacy elapsed decode px tried provider route c = (r, c')"
  shows "keeps P c c'" "r = Inr a \<Longrightarrow> a \<in> set (auth_list c) \<and> a_id a \<notin> set tried"
proof -
  have "keeps P c c' \<and> (\<forall>a. r = Inr a \<longrightarrow> a \<in> set (auth_list c) \<and> a_id a \<notin> set tried)"
  proof (cases "provider \<in> set (co_executors c)")
    case False
    then show ?thesis using p keeps_refl [OF ok] by (auto simp: pick_next_legacy_def)
  next
    case True
    have q: "pick_among elapsed decode px provider route
        (filter (\<lambda>a. executor_key_from_auth (Some a) = provider \<and> legacy_candidate decode px tried route c a) (auth_list c)) c = (r, c')"
      using p True by (simp add: pick_next_legacy_def)
    show ?thesis using pick_among_ok [OF ok q] legacy_candidate_fresh by fastforce
  qed
  then show "keeps P c c'" "r = Inr a \<Longrightarrow> a \<in> set (auth_list c) \<and> a_id a \<notin> set tried" by blast+
qed

lemma pick_next_mixed_legacy_ok:
  assumes ok: "conductor_ok c" and p: "pick_next_mixed_legacy elapsed decode px tried providers route c = (r, c')"
  shows "keeps P c c'" "r = Inr (a, k) \<Longrightarrow> a \<in> set (auth_list c) \<and> a_id a \<notin> set tried"
proof -
  let ?ps = "filter (\<lambda>p. p \<noteq> []) (map (\<lambda>p. trim_space (to_lower p)) providers)"
  have "keeps P c c' \<and> (\<forall>a k. r = Inr (a, k) \<longrightarrow> a \<in> set (auth_list c) \<and> a_id a \<notin> set tried)"
  proof (cases "?ps = []")
    case True
    then show ?thesis using p keeps_refl [OF ok] by (auto simp: pick_next_mixed_legacy_def)
  next
    case False
    define cands where "cands = filter (\<lambda>a. let k = executor_key_from_auth (Some a) in
        k \<noteq> [] \<and> k \<in> set ?ps \<and> k \<in> set (co_executors c) \<and> legacy_candidate decode px tried route c a) (auth_list c)"
    have cs: "a \<in> set (auth_list c) \<and> a_id a \<notin> set tried" if "a \<in> set cands" for a
      using that legacy_candidate_fresh [of decode px tried route c a] by (auto simp: cands_def Let_def)
    obtain q c1 where q: "pick_among elapsed decode px ''mixed'' route cands c = (q, c1)" by fastforce
    have run: "(r, c') = (case q of Inl e \<Rightarrow> (Inl e, c1)
         | Inr a \<Rightarrow> if \<not> has_executor c1 (executor_key_from_auth (Some a))
             then (Inl (CodedError ''executor_not_found'' ''executor not registered''), c1)
             else (Inr (a, executor_key_from_auth (Some a)), c1))"
      using False q [unfolded cands_def Let_def] unfolding p [symmetric] pick_next_mixed_legacy_def Let_def
      by (cases q) simp_all
    show ?thesis using run pick_among_ok [OF ok q] cs by (cases q) (auto split: if_splits)
  qed
  then show "keeps P c c'" "r = Inr (a, k) \<Longrightarrow> a \<in> set (auth_list c) \<and> a_id a \<notin> set tried" by blast+
qed

section \<open>The fast path\<close>

lemma settling_sched:
  assumes "conductor_ok c" "co_now c \<le> co_now c1" "sched_ok (co_now c1) s" "held s = held (co_sched c)"
    "co_manager c1 = co_manager c" "co_selector c1 = co_selector c"
  shows "conductor_ok (c1\<lparr>co_sched := s\<rparr>)"
  using assms by (simp add: settling_def mirrors_except_def)

text \<open>What a pick of the scheduler must promise to be used by the conductor.\<close>

definition sched_pick_ok :: "(gotime \<Rightarrow> gotime \<Rightarrow> gotime \<Rightarrow> auth_sched \<Rightarrow> (select_error + 'a) \<times> auth_sched) \<Rightarrow> bool" where
  "sched_pick_ok pick \<longleftrightarrow>
     (\<forall>t s t1 t2 t3. sched_ok t s \<longrightarrow> 0 \<le> t \<longrightarrow> t \<le> t1 \<longrightarrow> t1 \<le> t2 \<longrightarrow> t2 \<le> t3 \<longrightarrow>
        sched_ok t3 (snd (pick t1 t2 t3 s)) \<and> held (snd (pick t1 t2 t3 s)) = held s)"

lemma sched_pick_okD:
  "sched_pick_ok pick \<Longrightarrow> sched_ok t s \<Longrightarrow> 0 \<le> t \<Longrightarrow> t \<le> t1 \<Longrightarrow> t1 \<le> t2 \<Longrightarrow> t2 \<le> t3 \<Longrightarrow>
   sched_ok t3 (snd (pick t1 t2 t3 s)) \<and> held (snd (pick t1 t2 t3 s)) = held s"
  unfolding sched_pick_ok_def by blast

lemma pick_single_sched_ok: "sched_pick_ok (\<lambda>t1 t2 t3. pick_single t1 t2 t3 strat req provider model)"
  unfolding sched_pick_ok_def
proof (intro allI impI, goal_cases)
  case (1 t s t1 t2 t3)
  then have "0 \<le> t1" by simp
  from pick_single_main(1,2) [OF 1(1) this 1(3,4)] sched_ok_mono [OF _ 1(5)] show ?case by blast
qed

lemma pick_mixed_sched_ok: "sched_pick_ok (\<lambda>t1 t2 t3. pick_mixed t1 t2 t3 strat req providers model)"
  unfolding sched_pick_ok_def
proof (intro allI impI, goal_cases)
  case (1 t s t1 t2 t3)
  then have "0 \<le> t1" by simp
  from pick_mixed_keeps [OF 1(1) this 1(3-5)] show ?case by blast
qed

lemma scheduler_pick_ok:
  assumes ok: "conductor_ok c" and po: "sched_pick_ok pick" and p: "scheduler_pick elapsed pick c = (r, c')"
  shows "keeps P c c'"
    and "\<exists>t1 t2 t3 s. co_now c \<le> t1 \<and> t1 \<le> t2 \<and> t2 \<le> t3 \<and> pick t1 t2 t3 (co_sched c) = (r, s)"
proof -
  obtain t1 c1 t2 c2 t3 c3 s where
    rs: "read_clock elapsed c = (t1, c1)" "read_clock elapsed c1 = (t2, c2)" "read_clock elapsed c2 = (t3, c3)"
    and q: "pick t1 t2 t3 (co_sched c3) = (r, s)" "c' = c3\<lparr>co_sched := s\<rparr>"
    using p by (auto simp: scheduler_pick_def split: prod.splits)
  have k: "keeps P c c3" using keeps_trans [OF keeps_trans [OF keeps_clock [OF ok rs(1)]
      keeps_clock [OF keeps_ok [OF keeps_clock [OF ok rs(1)]] rs(2)]]]
    keeps_clock [OF keeps_ok [OF keeps_trans [OF keeps_clock [OF ok rs(1)]
      keeps_clock [OF keeps_ok [OF keeps_clock [OF ok rs(1)]] rs(2)]]] rs(3)] by blast
  note f = read_clock_frame [OF rs(1)] read_clock_frame [OF rs(2)] read_clock_frame [OF rs(3)]
  have t: "co_now c \<le> t1" "t1 \<le> t2" "t2 \<le> t3" "co_now c3 = t3" "0 \<le> co_now c"
    using f ok by (auto simp: settling_def)
  have "sched_ok (co_now c) (co_sched c)" using ok by (simp add: settling_def)
  from sched_pick_okD [OF po this t(5,1-3)] have h: "sched_ok t3 s" "held s = held (co_sched c)"
    using q(1) f by auto
  have "conductor_ok c'"
    unfolding q(2) by (rule settling_sched [OF ok]) (use t h f in simp_all)
  then show "keeps P c c'" using k by (simp add: keeps_def q(2) known_ids_def stored_def)
  show "\<exists>t1 t2 t3 s. co_now c \<le> t1 \<and> t1 \<le> t2 \<and> t2 \<le> t3 \<and> pick t1 t2 t3 (co_sched c) = (r, s)"
    using q(1) f t by fastforce
qed

lemma scheduler_pick_frame:
  "scheduler_pick elapsed pick c = (r, c') \<Longrightarrow> co_manager c' = co_manager c \<and> co_now c \<le> co_now c'"
  by (auto simp: scheduler_pick_def split: prod.splits dest!: read_clock_frame)

lemma sync_keeps: "conductor_ok c \<Longrightarrow> keeps P c (sync_scheduler elapsed c)"
  using sync_ok [of c elapsed] by (simp add: keeps_def settling_def stored_def)

lemma pick_with_resync_ok:
  assumes ok: "conductor_ok c" and po: "sched_pick_ok pick" and p: "pick_with_resync elapsed model pick c = (r, c')"
  shows "keeps P c c'"
    and "\<exists>d t1 t2 t3 s. keeps P c d \<and> co_manager d = co_manager c \<and> co_now c \<le> co_now d \<and> co_now d \<le> t1 \<and> t1 \<le> t2 \<and> t2 \<le> t3 \<and> pick t1 t2 t3 (co_sched d) = (r, s)"
proof -
  obtain r1 c1 where p1: "scheduler_pick elapsed pick c = (r1, c1)" by fastforce
  note s1 = scheduler_pick_ok [OF ok po p1]
  have "keeps P c c' \<and> (\<exists>d t1 t2 t3 s. keeps P c d \<and> co_manager d = co_manager c \<and> co_now c \<le> co_now d \<and> co_now d \<le> t1 \<and> t1 \<le> t2 \<and> t2 \<le> t3 \<and> pick t1 t2 t3 (co_sched d) = (r, s))"
  proof (cases "\<exists>e. r1 = Inl e \<and> model \<noteq> [] \<and> should_retry_scheduler_pick e")
    case False
    then have "r = r1" "c' = c1" using p p1 by (auto simp: pick_with_resync_def split: sum.splits if_splits)
    then show ?thesis using s1 keeps_refl [OF ok] by blast
  next
    case True
    let ?d = "sync_scheduler elapsed c1"
    have d: "keeps P c ?d" using keeps_trans [OF s1(1) sync_keeps [OF keeps_ok [OF s1(1)]]] .
    have p2: "scheduler_pick elapsed pick ?d = (r, c')" using p p1 True by (auto simp: pick_with_resync_def)
    note s2 = scheduler_pick_ok [OF keeps_ok [OF d] po p2]
    have "co_manager ?d = co_manager c \<and> co_now c \<le> co_now ?d"
      using scheduler_pick_frame [OF p1] by (auto simp: sync_scheduler_def split: prod.split dest!: read_clock_frame)
    then show ?thesis using keeps_trans [OF d s2(1)] d s2(2) by blast
  qed
  then show "keeps P c c'"
    "\<exists>d t1 t2 t3 s. keeps P c d \<and> co_manager d = co_manager c \<and> co_now c \<le> co_now d \<and> co_now d \<le> t1 \<and> t1 \<le> t2 \<and> t2 \<le> t3 \<and> pick t1 t2 t3 (co_sched d) = (r, s)" by blast+
qed

lemma lower_space: "is_space (lower_char c) = is_space c"
  by (auto simp: is_space_def lower_char_def Let_def)

lemma trim_lower: "trim_space (to_lower s) = to_lower (trim_space s)"
proof -
  have "is_space \<circ> lower_char = is_space" by (simp add: fun_eq_iff lower_space)
  then show ?thesis
    by (simp add: trim_space_def trim_left_def trim_right_def to_lower_def dropWhile_map rev_map)
qed

lemma normalize_keys_normal: "k \<in> set (normalize_provider_keys ps) \<Longrightarrow> to_lower (trim_space k) = k"
proof -
  have "k \<in> set (normalize_provider_keys_loop ps out) \<Longrightarrow> \<forall>k\<in>set out. to_lower (trim_space k) = k \<Longrightarrow> to_lower (trim_space k) = k"
    for out
    by (induction ps out rule: normalize_provider_keys_loop.induct)
      (auto simp: Let_def trim_lower split: if_splits)
  then show "k \<in> set (normalize_provider_keys ps) \<Longrightarrow> to_lower (trim_space k) = k"
    by (simp add: normalize_provider_keys_def)
qed

text \<open>A credential the scheduler can serve is the manager's.\<close>

lemma held_known:
  assumes "conductor_ok c" "held (co_sched c) k i = Some meta"
  shows "a_id (am_auth meta) = i" "i \<in> known_ids c"
    "\<exists>b. lookup_auth (co_manager c) i = Some b \<and> selection_view (am_auth meta) = selection_view b \<and> schedulable b"
proof -
  have wk: "well_keyed (mg_auths (co_manager c))" using assms(1) by (simp add: settling_def)
  have "map_option (\<lambda>m. selection_view (am_auth m)) (held (co_sched c) k i) =
      Option.bind (lookup_auth (co_manager c) i) (offered_by k)"
    using assms(1) by (simp add: settling_def mirrors_except_def)
  then obtain b where b: "lookup_auth (co_manager c) i = Some b" "offered_by k b = Some (selection_view (am_auth meta))"
    using assms(2) by (cases "lookup_auth (co_manager c) i") auto
  then have v: "selection_view (am_auth meta) = selection_view b" "schedulable b"
    by (auto simp: offered_by_def split: if_splits)
  then have "a_id (am_auth meta) = a_id b" using selection_view_fields(1) by metis
  then show "a_id (am_auth meta) = i" using lookup_keyed [OF wk b(1)] by simp
  show "i \<in> known_ids c" using b(1) by (simp add: known_ids_def)
  show "\<exists>b. lookup_auth (co_manager c) i = Some b \<and> selection_view (am_auth meta) = selection_view b \<and> schedulable b"
    using b(1) v by blast
qed

lemma servable_known:
  assumes "conductor_ok c" "servable now key (request_pred req pinned strat) (co_sched c) k ws a"
  shows "a_id a \<in> known_ids c" "a_id a \<notin> set (pr_tried req)"
proof -
  obtain i meta where h: "held (co_sched c) k i = Some meta" "am_auth meta = a"
    "request_pred req pinned strat (fresh_entry meta)"
    using assms(2) by (auto simp: servable_def)
  show "a_id a \<in> known_ids c" using held_known(1,2) [OF assms(1) h(1)] h(2) by simp
  show "a_id a \<notin> set (pr_tried req)" using h(2,3) by (simp add: request_pred_def fresh_entry_def)
qed

lemma servable_view:
  assumes "conductor_ok c" "servable now key (request_pred req pinned strat) (co_sched c) k ws a"
  shows "\<exists>b. lookup_auth (co_manager c) (a_id a) = Some b \<and> selection_view a = selection_view b"
    "executor_key_from_auth (Some a) = k" "\<not> a_disabled a" "eligibility_allows (pr_eligibility req) (Some a)"
    "pinned \<noteq> [] \<Longrightarrow> a_id a = pinned" "\<not> blocked (Some a) key now"
proof -
  obtain i meta where h: "held (co_sched c) k i = Some meta" "am_auth meta = a"
      "request_pred req pinned strat (fresh_entry meta)" "\<not> blocked (Some a) key now"
    using assms(2) by (auto simp: servable_def)
  note kn = held_known [OF assms(1) h(1), unfolded h(2)]
  show "\<exists>b. lookup_auth (co_manager c) (a_id a) = Some b \<and> selection_view a = selection_view b" using kn by auto
  have "map_option (\<lambda>m. selection_view (am_auth m)) (held (co_sched c) k i) =
      Option.bind (lookup_auth (co_manager c) i) (offered_by k)"
    using assms(1) by (simp add: settling_def mirrors_except_def)
  then obtain b where b: "schedulable b" "k = executor_key_from_auth (Some b)" "selection_view a = selection_view b"
    using h(1,2) by (cases "lookup_auth (co_manager c) i") (auto simp: offered_by_def split: if_splits)
  then show "executor_key_from_auth (Some a) = k" "\<not> a_disabled a"
    using selection_view_fields(2,3) by (metis, metis schedulable_def)
  show "eligibility_allows (pr_eligibility req) (Some a)" "pinned \<noteq> [] \<Longrightarrow> a_id a = pinned" "\<not> blocked (Some a) key now"
    using h by (simp_all add: request_pred_def fresh_entry_def)
qed

lemma pick_single_new:
  assumes "conductor_ok c" "co_now c \<le> te" "te \<le> tp"
    and "pick_single te tp terr strat req provider model (co_sched c) = (Inr a, s)"
  shows "a_id a \<in> known_ids c" "a_id a \<notin> set (pr_tried req)"
proof -
  have ok: "sched_ok (co_now c) (co_sched c)" "0 \<le> te" using assms(1,2) by (auto simp: settling_def)
  from pick_single_main(3) [OF ok assms(2,3), of terr strat req provider model a] assms(4)
  have "servable tp (shard_key model)
      (request_pred req (pinned_auth_id_from_metadata (pr_metadata req)) (effective_strategy strat (co_sched c)))
      (co_sched c) (to_lower (trim_space provider))
      (transport tp (shard_key model)
        (request_pred req (pinned_auth_id_from_metadata (pr_metadata req)) (effective_strategy strat (co_sched c)))
        (co_sched c) (to_lower (trim_space provider)) (single_prefers_ws req provider)) a" by simp
  from servable_known [OF assms(1) this] show "a_id a \<in> known_ids c" "a_id a \<notin> set (pr_tried req)" .
qed

lemma pick_mixed_servable:
  assumes c: "conductor_ok c" and t: "co_now c \<le> te" "te \<le> tp" "tp \<le> terr"
    and p: "pick_mixed te tp terr strat req providers model (co_sched c) = (Inr (a, k), s)"
  shows "\<exists>now ws strat'. co_now c \<le> now \<and> servable now (shard_key model)
    (request_pred req (pinned_auth_id_from_metadata (pr_metadata req)) strat') (co_sched c) k ws a"
proof -
  let ?ks = "normalize_provider_keys providers"
  have ok: "sched_ok (co_now c) (co_sched c)" "0 \<le> te" using c t by (auto simp: settling_def)
  consider "?ks = []" | "length ?ks = 1" | "2 \<le> length ?ks" by (cases ?ks; cases "tl ?ks") auto
  then show ?thesis
  proof cases
    case 1
    then show ?thesis using p by (simp add: pick_mixed_def)
  next
    case 2
    then have ne: "?ks \<noteq> []" by auto
    then have hd: "hd ?ks \<in> set ?ks" by (rule hd_in_set)
    have "(case pick_single te tp terr strat req (hd ?ks) model (co_sched c) of
        (Inl e, s') \<Rightarrow> (Inl e, s') | (Inr a, s') \<Rightarrow> (Inr (a, hd ?ks), s')) = (Inr (a, k), s)"
      using p 2 ne unfolding pick_mixed_def Let_def by simp
    then have "fst (pick_single te tp terr strat req (hd ?ks) model (co_sched c)) = Inr a" "k = hd ?ks"
      by (auto split: prod.splits sum.splits)
    then have "servable tp (shard_key model)
        (request_pred req (pinned_auth_id_from_metadata (pr_metadata req)) (effective_strategy strat (co_sched c)))
        (co_sched c) k (transport tp (shard_key model)
          (request_pred req (pinned_auth_id_from_metadata (pr_metadata req)) (effective_strategy strat (co_sched c)))
          (co_sched c) k (single_prefers_ws req k)) a"
      using pick_single_main(3) [OF ok t(1,2), of terr strat req k model a] normalize_keys_normal [OF hd] by simp
    moreover have "co_now c \<le> tp" using t by simp
    ultimately show ?thesis by blast
  next
    case 3
    show ?thesis
    proof (cases "pinned_auth_id_from_metadata (pr_metadata req) = []")
      case True
      have "te \<le> terr" using t by simp
      from pick_mixed_main(1) [OF ok(1,2) t(1) this 3 True, where tp = tp and ?strat0.0 = strat and model = model] p True t(1)
      show ?thesis by (auto simp: mixed_result_ok_def served_def)
    next
      case False
      from pick_mixed_pinned [OF ok(1,2) t(1,2) 3 refl False, where terr = terr and ?strat0.0 = strat and model = model] p
      have "servable tp (shard_key model) (request_pred req (pinned_auth_id_from_metadata (pr_metadata req))
          (effective_strategy strat (co_sched c))) (co_sched c) k False a" by simp
      moreover have "co_now c \<le> tp" using t by simp
      ultimately show ?thesis by blast
    qed
  qed
qed

lemma pick_mixed_new:
  assumes c: "conductor_ok c" and t: "co_now c \<le> te" "te \<le> tp" "tp \<le> terr"
    and p: "pick_mixed te tp terr strat req providers model (co_sched c) = (Inr (a, k), s)"
  shows "a_id a \<in> known_ids c" "a_id a \<notin> set (pr_tried req)"
  using pick_mixed_servable [OF assms] servable_known [OF c] by blast+

section \<open>Every selection\<close>

lemma pick_next_mixed_ok:
  assumes ok: "conductor_ok c" and p: "pick_next_mixed elapsed decode px tried providers route c = (r, c')"
  shows "keeps P c c'" "r = Inr (a, k) \<Longrightarrow> a_id a \<in> known_ids c \<and> a_id a \<notin> set tried"
proof -
  let ?ps = "eligible_providers c providers []"
  let ?pick = "\<lambda>t1 t2 t3. pick_mixed t1 t2 t3 StratCurrent (pick_request_of px tried) ?ps route"
  have legacy: "keeps P c c' \<and> (\<forall>a k. r = Inr (a, k) \<longrightarrow> a_id a \<in> known_ids c \<and> a_id a \<notin> set tried)"
    if "pick_next_mixed_legacy elapsed decode px tried providers route c = (r, c')"
    using pick_next_mixed_legacy_ok [OF ok that] auth_list_known(1) [OF ok] by blast
  have "keeps P c c' \<and> (\<forall>a k. r = Inr (a, k) \<longrightarrow> a_id a \<in> known_ids c \<and> a_id a \<notin> set tried)"
  proof (cases "\<not> is_built_in_selector (co_selector c) \<or> ?ps \<noteq> [] \<and> needs_route_awareness decode px tried ?ps route c")
    case True
    then show ?thesis using legacy p by (auto simp: pick_next_mixed_def Let_def split: if_splits)
  next
    case False
    show ?thesis
    proof (cases "?ps = []")
      case True
      then show ?thesis using p False keeps_refl [OF ok] by (auto simp: pick_next_mixed_def)
    next
      case ps: False
      obtain q c1 where q: "pick_with_resync elapsed route ?pick c = (q, c1)" by fastforce
      note w = pick_with_resync_ok [OF ok pick_mixed_sched_ok q]
      have run: "(case q of Inl e \<Rightarrow> (Inl e, c1)
           | Inr (a, k) \<Rightarrow>
               if \<not> has_executor c1 k
               then (Inl (CodedError ''executor_not_found'' ''executor not registered''), c1)
               else (Inr (a, k), c1)) = (r, c')"
        using False ps unfolding p [symmetric] pick_next_mixed_def Let_def by (simp add: q split: sum.split)
      have new: "a_id a \<in> known_ids c \<and> a_id a \<notin> set tried" if r: "q = Inr (a, k)" for a k
      proof -
        obtain d t1 t2 t3 s where d: "keeps P c d" "co_now d \<le> t1" "t1 \<le> t2" "t2 \<le> t3" "?pick t1 t2 t3 (co_sched d) = (Inr (a, k), s)"
          using w(2) unfolding r by blast
        from pick_mixed_new [OF keeps_ok [OF d(1)] d(2-5)] show ?thesis
          using keeps_ids [OF d(1)] by (simp add: pick_request_of_def)
      qed
      show ?thesis using run w(1) new by (cases q) (auto split: if_splits)
    qed
  qed
  then show "keeps P c c'" "r = Inr (a, k) \<Longrightarrow> a_id a \<in> known_ids c \<and> a_id a \<notin> set tried" by blast+
qed

lemma pick_next_ok:
  assumes ok: "conductor_ok c" and p: "pick_next elapsed decode px tried provider route c = (r, c')"
  shows "keeps P c c'" "r = Inr a \<Longrightarrow> a_id a \<in> known_ids c \<and> a_id a \<notin> set tried"
proof -
  let ?pick = "\<lambda>t1 t2 t3. pick_single t1 t2 t3 StratCurrent (pick_request_of px tried) provider route"
  have "keeps P c c' \<and> (\<forall>a. r = Inr a \<longrightarrow> a_id a \<in> known_ids c \<and> a_id a \<notin> set tried)"
  proof (cases "\<not> is_built_in_selector (co_selector c) \<or> needs_route_awareness decode px tried [provider] route c")
    case True
    then have "pick_next_legacy elapsed decode px tried provider route c = (r, c')" using p by (simp add: pick_next_def)
    then show ?thesis using pick_next_legacy_ok [OF ok] auth_list_known(1) [OF ok] by blast
  next
    case False
    show ?thesis
    proof (cases "has_executor c provider")
      case no: False
      then show ?thesis using p False keeps_refl [OF ok] by (auto simp: pick_next_def)
    next
      case True
      have q: "pick_with_resync elapsed route ?pick c = (r, c')" using p False True by (simp add: pick_next_def)
      note w = pick_with_resync_ok [OF ok pick_single_sched_ok q]
      have "a_id a \<in> known_ids c \<and> a_id a \<notin> set tried" if r: "r = Inr a" for a
      proof -
        obtain d t1 t2 t3 s where d: "keeps P c d" "co_now d \<le> t1" "t1 \<le> t2" "t2 \<le> t3" "?pick t1 t2 t3 (co_sched d) = (Inr a, s)"
          using w(2) unfolding r by blast
        from pick_single_new [OF keeps_ok [OF d(1)] d(2,3,5)] show ?thesis
          using keeps_ids [OF d(1)] by (simp add: pick_request_of_def)
      qed
      then show ?thesis using w(1) by blast
    qed
  qed
  then show "keeps P c c'" "r = Inr a \<Longrightarrow> a_id a \<in> known_ids c \<and> a_id a \<notin> set tried" by blast+
qed

section \<open>When nothing is found\<close>

lemma put_shard_strategy [simp]: "as_strategy (put_shard k key m s) = as_strategy s"
  by (simp add: put_shard_def update_provider_def split: option.split)

lemma candidate_shards_strategy: "candidate_shards t key ks s = (ms, s') \<Longrightarrow> as_strategy s' = as_strategy s"
proof (induction ks arbitrary: s ms)
  case (Cons k ks)
  show ?case
  proof (cases "map_of (as_providers s) k")
    case None
    then show ?thesis using Cons by simp
  next
    case (Some p)
    obtain p1 m where e: "ensure_model t key p = (p1, m)" by fastforce
    obtain ms1 s1 where c: "candidate_shards t key ks (s\<lparr>as_providers := AList.update k p1 (as_providers s)\<rparr>) = (ms1, s1)"
      by fastforce
    have "s' = s1" using Cons.prems Some e c by (simp del: map_of_eq_Some_iff)
    then show ?thesis using Cons.IH [of "s\<lparr>as_providers := AList.update k p1 (as_providers s)\<rparr>" ms1] c by simp
  qed
qed simp

lemma mixed_error_strategy: "mixed_unavailable_error t ps model P s = (e, s') \<Longrightarrow> as_strategy s' = as_strategy s"
  using candidate_shards_strategy by (auto simp: mixed_unavailable_error_def split: prod.splits)

lemma pick_single_strategy: "as_strategy (snd (pick_single te tp terr strat req provider model s)) = as_strategy s"
  by (simp add: pick_single_def Let_def split: option.split prod.split)

lemma pick_mixed_weighted_strategy:
  "as_strategy (snd (pick_mixed_weighted terr ps model ck best P ms s)) = as_strategy s"
proof -
  have "as_strategy s2 = as_strategy s1" if "mixed_unavailable_error terr ps model P s1 = (e, s2)" for e s1 s2
    by (rule mixed_error_strategy [OF that])
  then show ?thesis by (simp add: pick_mixed_weighted_def Let_def split: prod.split option.split)
qed

lemma pick_mixed_rotating_strategy:
  "as_strategy (snd (pick_mixed_rotating terr ps model mk ck best P ms s)) = as_strategy s"
  by (auto simp: pick_mixed_rotating_def Let_def dest: mixed_error_strategy split: prod.split option.split)

lemma pick_mixed_strategy: "as_strategy (snd (pick_mixed te tp terr strat req providers model s)) = as_strategy s"
proof -
  let ?ks = "normalize_provider_keys providers"
  consider "?ks = []" | "length ?ks = 1" | "2 \<le> length ?ks" by (cases ?ks; cases "tl ?ks") auto
  then show ?thesis
  proof cases
    case 2
    then have "snd (pick_mixed te tp terr strat req providers model s) = snd (pick_single te tp terr strat req (hd ?ks) model s)"
      by (auto simp: pick_mixed_def Let_def split: prod.split sum.split)
    then show ?thesis using pick_single_strategy by simp
  next
    case 3
    then have n: "?ks \<noteq> []" "length ?ks \<noteq> 1" by auto
    show ?thesis
    proof (cases "pinned_auth_id_from_metadata (pr_metadata req) = []")
      case False
      then show ?thesis using n by (simp add: pick_mixed_def Let_def split: option.split prod.split)
    next
      case True
      obtain ms s1 where c: "candidate_shards te (canonical_model_key model) ?ks s = (ms, s1)" by fastforce
      note c1 = candidate_shards_strategy [OF c]
      show ?thesis
        using n True c c1 pick_mixed_weighted_strategy pick_mixed_rotating_strategy
        by (auto simp: pick_mixed_def Let_def dest: mixed_error_strategy split: option.split prod.split)
    qed
  qed (simp add: pick_mixed_def)
qed

text \<open>A credential that answers a request: served by a provider, for the model, within the filters.\<close>

definition offers :: "pick_request \<Rightarrow> strategy \<Rightarrow> (string \<Rightarrow> string list) \<Rightarrow> string \<Rightarrow> auth \<Rightarrow> bool" where
  "offers req strat mf model a \<longleftrightarrow>
     schedulable a \<and> supports_model (build_scheduled_auth_meta mf a) (shard_key model) \<and>
     request_pred req [] strat (fresh_entry (build_scheduled_auth_meta mf a))"

lemma mixed_nothing_served:
  assumes ok: "sched_ok t s" and t: "0 \<le> te" "t \<le> te" "te \<le> tp" "tp \<le> terr"
    and unpinned: "pinned_auth_id_from_metadata (pr_metadata req) = []"
    and p: "pick_mixed te tp terr StratCurrent req providers model s = (Inl e, s')"
    and k: "k \<in> set (normalize_provider_keys providers)"
  shows "\<exists>now. t \<le> now \<and> now \<in> {te, tp} \<and>
    (\<nexists>a. servable now (shard_key model) (request_pred req [] (as_strategy s)) s k False a)"
proof -
  let ?ks = "normalize_provider_keys providers"
  consider "length ?ks = 1" | "2 \<le> length ?ks" using k by (cases ?ks; cases "tl ?ks") auto
  then show ?thesis
  proof cases
    case 1
    then have h: "?ks = [k]" using k by (cases ?ks) auto
    then have "\<exists>err. fst (pick_single te tp terr StratCurrent req k model s) = Inl err"
      using p by (auto simp: pick_mixed_def split: prod.splits sum.splits)
    then show ?thesis
      using pick_single_main(4) [OF ok t(1-3), of terr StratCurrent req k model] unpinned t normalize_keys_normal [OF k]
      by (intro exI [of _ tp]) (auto simp: effective_strategy_def)
  next
    case 2
    have "te \<le> terr" using t by simp
    from pick_mixed_main(1) [OF ok t(1,2) this 2 unpinned, where tp = tp and ?strat0.0 = StratCurrent and model = model] p
    show ?thesis using k t by (auto simp: mixed_result_ok_def served_def effective_strategy_def)
  qed
qed

lemma synced_refusal:
  assumes ok: "conductor_ok c" and unpinned: "pinned_auth_id_from_metadata (pr_metadata req) = []"
    and p: "scheduler_pick elapsed (\<lambda>t1 t2 t3. pick_mixed t1 t2 t3 StratCurrent req ps model) (sync_scheduler elapsed c) = (Inl e, c')"
    and a: "lookup_auth (co_manager c) (a_id a) = Some a" "executor_key_from_auth (Some a) \<in> set (normalize_provider_keys ps)"
      "offers req (as_strategy (co_sched c)) (models_for c) model a"
  shows "\<exists>t \<ge> co_now c. blocked (Some a) (shard_key model) t"
proof -
  let ?d = "sync_scheduler elapsed c" and ?k = "executor_key_from_auth (Some a)"
  have n: "0 \<le> co_now c" and wk: "well_keyed (mg_auths (co_manager c))" using ok by (simp_all add: settling_def)
  note h = sync_scheduler_held [OF n wk, of elapsed]
  have okd: "conductor_ok ?d" using keeps_ok [OF sync_keeps [OF ok, of "\<lambda>_. True" elapsed]] .
  obtain t1 t2 t3 s where t: "co_now ?d \<le> t1" "t1 \<le> t2" "t2 \<le> t3"
    "pick_mixed t1 t2 t3 StratCurrent req ps model (co_sched ?d) = (Inl e, s)"
    using scheduler_pick_ok(2) [OF okd pick_mixed_sched_ok p] by blast
  have "0 \<le> t1" using okd t(1) by (auto simp: settling_def)
  from mixed_nothing_served [OF h(1) this t(1-3) unpinned t(4) a(2)] obtain now where
    now: "co_now ?d \<le> now"
    "\<nexists>b. servable now (shard_key model) (request_pred req [] (as_strategy (co_sched ?d))) (co_sched ?d) ?k False b"
    by blast
  have "held (co_sched ?d) ?k (a_id a) = Some (build_scheduled_auth_meta (models_for c) a)"
    using h(2) [of ?k "a_id a"] a(1,3) by (simp add: placed_def offers_def)
  then have "\<not> blocked (Some a) (shard_key model) now \<Longrightarrow>
      servable now (shard_key model) (request_pred req [] (as_strategy (co_sched ?d))) (co_sched ?d) ?k False a"
    unfolding servable_def h(5) using a(3)
    by (intro exI [of _ "a_id a"] exI [of _ "build_scheduled_auth_meta (models_for c) a"])
      (simp add: offers_def build_scheduled_auth_meta_def)
  then have "blocked (Some a) (shard_key model) now" using now(2) by blast
  then show ?thesis using now(1) h(3) by (intro exI [of _ now]) simp
qed

lemma pick_next_mixed_refuses:
  assumes ok: "conductor_ok c" and fast: "is_built_in_selector (co_selector c)"
    and ps: "ps = eligible_providers c providers []" "\<not> needs_route_awareness decode px tried ps route c"
    and route: "route \<noteq> []" and unpinned: "pinned_auth_id_from_metadata (px_metadata px) = []"
    and p: "pick_next_mixed elapsed decode px tried providers route c = (Inl e, c')" "should_retry_scheduler_pick e"
    and a: "a \<in> set (auth_list c)" "executor_key_from_auth (Some a) \<in> set (normalize_provider_keys ps)"
      "offers (pick_request_of px tried) (as_strategy (co_sched c)) (models_for c) route a"
  shows "\<exists>t \<ge> co_now c. blocked (Some a) (shard_key route) t"
proof -
  let ?pick = "\<lambda>t1 t2 t3. pick_mixed t1 t2 t3 StratCurrent (pick_request_of px tried) ps route"
  have ne: "ps \<noteq> []" using a(2) by (auto simp: normalize_provider_keys_def)
  have un: "pinned_auth_id_from_metadata (pr_metadata (pick_request_of px tried)) = []"
    using unpinned by (simp add: pick_request_of_def)
  obtain q c1 where q: "pick_with_resync elapsed route ?pick c = (q, c1)" by fastforce
  have "(case q of Inl e \<Rightarrow> (Inl e, c1)
       | Inr (a, k) \<Rightarrow>
           if \<not> has_executor c1 k
           then (Inl (CodedError ''executor_not_found'' ''executor not registered''), c1)
           else (Inr (a, k), c1)) = (Inl e, c')"
    using fast ps(2) ne q unfolding p(1) [symmetric] pick_next_mixed_def Let_def ps(1) by (cases q) simp_all
  then have qe: "q = Inl e" using p(2)
    by (cases q) (auto simp: should_retry_scheduler_pick_def split: if_splits)
  obtain r1 c2 where r1: "scheduler_pick elapsed ?pick c = (r1, c2)" by fastforce
  note k = scheduler_pick_ok [OF ok pick_mixed_sched_ok r1]
  have again: "scheduler_pick elapsed ?pick (sync_scheduler elapsed c2) = (Inl e, c1)"
    using q r1 qe route p(2) by (cases r1) (auto simp: pick_with_resync_def split: if_splits)
  have frame: "co_manager c2 = co_manager c" "models_for c2 = models_for c" "as_strategy (co_sched c2) = as_strategy (co_sched c)"
    "co_now c \<le> co_now c2"
  proof -
    obtain t1 d1 t2 d2 t3 d3 s where
      rs: "read_clock elapsed c = (t1, d1)" "read_clock elapsed d1 = (t2, d2)" "read_clock elapsed d2 = (t3, d3)"
      and sp: "?pick t1 t2 t3 (co_sched d3) = (r1, s)" "c2 = d3\<lparr>co_sched := s\<rparr>"
      using r1 by (auto simp: scheduler_pick_def split: prod.splits)
    note f = read_clock_frame [OF rs(1)] read_clock_frame [OF rs(2)] read_clock_frame [OF rs(3)]
    have "as_strategy s = as_strategy (co_sched d3)"
      using pick_mixed_strategy [of t1 t2 t3 StratCurrent "pick_request_of px tried" ps route "co_sched d3"] sp(1) by simp
    then show "co_manager c2 = co_manager c" "models_for c2 = models_for c" "as_strategy (co_sched c2) = as_strategy (co_sched c)"
      "co_now c \<le> co_now c2" using f sp(2) by (simp_all add: models_for_def fun_eq_iff)
  qed
  have "lookup_auth (co_manager c2) (a_id a) = Some a" using auth_list_known(2) [OF ok a(1)] frame(1) by simp
  from synced_refusal [OF keeps_ok [OF k(1) [of "\<lambda>_. True"]] un again this a(2)] a(3) frame(2,3)
  obtain t where "co_now c2 \<le> t" "blocked (Some a) (shard_key route) t" by auto
  then show ?thesis using frame(4) by (intro exI [of _ t]) simp
qed

lemma pick_next_mixed_serves:
  fixes elapsed :: "'w \<Rightarrow> nat \<times> 'w" and c :: "'w conductor"
  assumes ok: "conductor_ok c" and fast: "is_built_in_selector (co_selector c)"
    and nra: "\<not> needs_route_awareness decode px tried (eligible_providers c providers []) route c"
    and p: "pick_next_mixed elapsed decode px tried providers route c = (Inr (a, k), c')"
  shows "\<exists>now ws strat' (d :: 'w conductor). co_now c \<le> now \<and> conductor_ok d \<and> co_manager d = co_manager c \<and>
    servable now (shard_key route) (request_pred (pick_request_of px tried) (pinned_auth_id_from_metadata (px_metadata px)) strat')
      (co_sched d) k ws a"
proof -
  let ?ps = "eligible_providers c providers []"
  let ?pick = "\<lambda>t1 t2 t3. pick_mixed t1 t2 t3 StratCurrent (pick_request_of px tried) ?ps route"
  obtain q c1 where q: "pick_with_resync elapsed route ?pick c = (q, c1)" by fastforce
  have "?ps \<noteq> []" using p fast by (auto simp: pick_next_mixed_def)
  then have "(case q of Inl e \<Rightarrow> (Inl e, c1)
       | Inr (a, k) \<Rightarrow>
           if \<not> has_executor c1 k
           then (Inl (CodedError ''executor_not_found'' ''executor not registered''), c1)
           else (Inr (a, k), c1)) = (Inr (a, k), c')"
    using fast nra q unfolding p [symmetric] pick_next_mixed_def Let_def by (cases q) (simp_all add: prod.case_eq_if)
  then have qe: "q = Inr (a, k)" by (cases q) (auto split: if_splits)
  from pick_with_resync_ok(2) [OF ok pick_mixed_sched_ok q [unfolded qe], of "\<lambda>_. True"]
  obtain d t1 t2 t3 s where d: "keeps (\<lambda>_. True) c d" "co_manager d = co_manager c" "co_now d \<le> t1" "t1 \<le> t2" "t2 \<le> t3"
    "?pick t1 t2 t3 (co_sched d) = (Inr (a, k), s)" "co_now c \<le> co_now d" by blast
  obtain now ws strat' where "co_now d \<le> now" "servable now (shard_key route)
      (request_pred (pick_request_of px tried) (pinned_auth_id_from_metadata (px_metadata px)) strat') (co_sched d) k ws a"
    using pick_mixed_servable [OF keeps_ok [OF d(1)] d(3-6)] by (auto simp: pick_request_of_def)
  moreover from this(1) have "co_now c \<le> now" using d(7) by simp
  ultimately show ?thesis using keeps_ok [OF d(1)] d(2) by blast
qed

end
