(* ===== verification/ExecContract.thy ===== *)
theory ExecContract
  imports ExecLoop
begin

text \<open>
  What the request loops promise when their calls keep a contract: the locale \<open>exec_contract\<close>
  asks that a pick returns a credential of a finite set that was not tried yet, that preparing
  and refreshing a credential keep its identifier, and that every call keeps the invariant of
  the state. Then a request returns, tries each credential once, attempts no more than the
  configured number, and its events follow a protocol: every answered call is recorded exactly
  once, and nothing is called after a success or after a failure that is the request's fault.
\<close>

section \<open>The protocol of a request\<close>

datatype phase = Idle | Chosen string | Ready string | Open string nat | Done

fun advance :: "phase \<Rightarrow> exec_event \<Rightarrow> phase option" where
  "advance Idle (Picked i) = Some (Chosen i)"
| "advance (Chosen j) (Picked i) = Some (Chosen i)"
| "advance (Ready j) (Picked i) = Some (Chosen i)"
| "advance (Chosen j) (Attempted i) = (if i = j then Some (Ready i) else None)"
| "advance (Ready j) (Called i m) = (if i = j then Some (Open i 1) else None)"
| "advance (Open j n) (Called i m) = (if i = j \<and> n = 1 then Some (Open i 2) else None)"
| "advance (Open j n) (Recorded r) =
     (if er_auth_id r \<noteq> j then None
      else if er_success r \<or> is_request_scoped (er_error r) then Some Done else Some (Ready j))"
| "advance (Ready j) (Recorded r) = (if er_auth_id r = j \<and> \<not> er_success r then Some (Ready j) else None)"
| "advance _ _ = None"

fun follows :: "phase \<Rightarrow> exec_event list \<Rightarrow> phase option" where
  "follows p [] = Some p"
| "follows p (e # es) = (case advance p e of None \<Rightarrow> None | Some q \<Rightarrow> follows q es)"

lemma follows_append [simp]:
  "follows p (xs @ ys) = (case follows p xs of None \<Rightarrow> None | Some q \<Rightarrow> follows q ys)"
  by (induction p xs rule: follows.induct) (auto split: option.splits)

text \<open>The credentials picked and the credentials attempted, in order.\<close>

definition picks :: "exec_event list \<Rightarrow> string list" where
  "picks evs = List.map_filter (\<lambda>e. case e of Picked i \<Rightarrow> Some i | _ \<Rightarrow> None) evs"

definition attempts :: "exec_event list \<Rightarrow> string list" where
  "attempts evs = List.map_filter (\<lambda>e. case e of Attempted i \<Rightarrow> Some i | _ \<Rightarrow> None) evs"

lemma picks_simps [simp]:
  "picks [] = []" "picks (Picked i # es) = i # picks es" "picks (Attempted i # es) = picks es"
  "picks (Called i m # es) = picks es" "picks (Recorded r # es) = picks es"
  "picks (xs @ ys) = picks xs @ picks ys"
  by (simp_all add: picks_def List.map_filter_def)

lemma attempts_simps [simp]:
  "attempts [] = []" "attempts (Picked i # es) = attempts es" "attempts (Attempted i # es) = i # attempts es"
  "attempts (Called i m # es) = attempts es" "attempts (Recorded r # es) = attempts es"
  "attempts (xs @ ys) = attempts xs @ attempts ys"
  by (simp_all add: attempts_def List.map_filter_def)

text \<open>
  An error is coherent when the package's own error it wraps, if it is marked as the request's,
  answers so: \<open>Error.IsRequestScoped\<close> reads that mark. Such an error is recorded as the request's
  exactly when the loop stops on it.
\<close>

definition coherent :: "exec_error \<Rightarrow> bool" where
  "coherent e = (case ge_auth (ee_view e) of
       None \<Rightarrow> True
     | Some a \<Rightarrow> err_code a = request_scoped_error_code \<longrightarrow> ge_request_scoped (ee_view e))"

lemma scoped_iff_invalid:
  "coherent e \<Longrightarrow> is_request_scoped (er_error (failure_result a m e)) \<longleftrightarrow> invalid_request e"
  by (auto simp: coherent_def failure_result_def invalid_request_def result_error_from_error_def
      is_request_scoped_def is_request_scoped_error_def is_request_invalid_error_def Let_def
      request_scoped_error_code_def connection_lifecycle_error_code_def split: option.splits)

lemma failure_result_fields [simp]:
  "er_auth_id (failure_result a m e) = a_id a" "\<not> er_success (failure_result a m e)"
  "er_auth_id (success_result a m) = a_id a" "er_success (success_result a m)"
  by (simp_all add: failure_result_def success_result_def)

section \<open>The contract\<close>

locale exec_contract =
  fixes ops :: "('s, 'p, 'r) exec_ops" and ids :: "string set" and ok :: "'s \<Rightarrow> bool"
  assumes finite_ids: "finite ids"
    and pick_new: "ok s \<Longrightarrow> xo_pick ops tried s = (Inr (a, p), s') \<Longrightarrow> a_id a \<in> ids \<and> a_id a \<notin> set tried"
    and pick_ok: "ok s \<Longrightarrow> ok (snd (xo_pick ops tried s))"
    and models_ok: "ok s \<Longrightarrow> ok (snd (xo_models ops a route s))"
    and prepare_id: "ok s \<Longrightarrow> a_id a \<in> ids \<Longrightarrow> a_id (fst (fst (xo_prepare ops p a s))) = a_id a"
    and prepare_ok: "ok s \<Longrightarrow> a_id a \<in> ids \<Longrightarrow> ok (snd (xo_prepare ops p a s))"
    and intercept_ok: "ok s \<Longrightarrow> ok (snd (xo_intercept ops p req s))"
    and execute_ok: "ok s \<Longrightarrow> ok (snd (xo_execute ops p a req s))"
    and execute_coherent: "ok s \<Longrightarrow> xo_execute ops p a req s = (Inl e, s') \<Longrightarrow> coherent e"
    and refresh_id: "ok s \<Longrightarrow> a_id a \<in> ids \<Longrightarrow> a_id (fst (fst (xo_refresh ops a e did s))) = a_id a"
    and refresh_ok: "ok s \<Longrightarrow> a_id a \<in> ids \<Longrightarrow> ok (snd (xo_refresh ops a e did s))"
    and mark_ok: "ok s \<Longrightarrow> ok (xo_mark ops r s)"
    and mark_neutral_ok: "ok s \<Longrightarrow> ok (xo_mark_neutral ops r s)"
    and should_retry_ok: "ok s \<Longrightarrow> ok (snd (xo_should_retry ops e n route s))"
    and wait_ok: "ok s \<Longrightarrow> ok (snd (xo_wait ops d s))"
    and credits_ok: "ok s \<Longrightarrow> ok (snd (xo_credits ops e s))"
begin

text \<open>One call, with its retry: the phase is open, the credential is the same.\<close>

lemma call_with_refresh_spec:
  assumes "ok s" "a_id a \<in> ids" "call_with_refresh ops provider a did req evs s = (out, evs', s')"
  shows "ok s' \<and> (\<exists>n. n \<in> {1, 2} \<and> evs' = evs @ replicate n (Called (a_id a) (rq_model req))) \<and>
    (case out of Inl c \<Rightarrow> xo_context ops s' = Some c | Inr (res, b, did') \<Rightarrow> a_id b = a_id a \<and> (case res of Inl e \<Rightarrow> coherent e | Inr r \<Rightarrow> True))"
proof -
  obtain r1 s1 where x1: "xo_execute ops provider a req s = (r1, s1)" by fastforce
  have ok1: "ok s1" using execute_ok [OF assms(1), of provider a req] x1 by simp
  have co1: "coherent e" if "r1 = Inl e" for e using execute_coherent [OF assms(1)] x1 that by blast
  show ?thesis
  proof (cases r1)
    case (Inr r)
    then show ?thesis using assms x1 ok1
      by (auto simp: call_with_refresh_def intro!: exI [of _ "1::nat"])
  next
    case (Inl e)
    note one = exI [of "\<lambda>n. n \<in> {1, 2} \<and> evs' = evs @ replicate n (Called (a_id a) (rq_model req))" "1::nat"]
    obtain b okr s2 where x2: "xo_refresh ops a e did s1 = ((b, okr), s2)" by (metis prod.collapse)
    have ok2: "ok s2" "a_id b = a_id a"
      using refresh_ok [OF ok1 assms(2), of e did] refresh_id [OF ok1 assms(2), of e did] x2 by simp_all
    obtain r3 s3 where x3: "xo_execute ops provider b req s2 = (r3, s3)" by fastforce
    have ok3: "ok s3" using execute_ok [OF ok2(1), of provider b req] x3 by simp
    have co3: "coherent e3" if "r3 = Inl e3" for e3 using execute_coherent [OF ok2(1)] x3 that by blast
    have two: "[Called (a_id a) (rq_model req), Called (a_id b) (rq_model req)] =
        replicate 2 (Called (a_id a) (rq_model req))"
      using ok2(2) by (simp add: numeral_2_eq_2)
    show ?thesis
    proof (cases "xo_context ops s1 \<noteq> None \<or> \<not> okr")
      case True
      then show ?thesis using assms x1 x2 ok1 ok2 Inl co1
        by (intro conjI one) (auto simp: call_with_refresh_def Let_def split: option.splits)
    next
      case False
      have n: "evs' = evs @ replicate 2 (Called (a_id a) (rq_model req))"
        using assms(3) x1 x2 x3 Inl False two
        by (auto simp: call_with_refresh_def Let_def split: option.splits sum.splits)
      have "ok s' \<and> (case out of Inl c \<Rightarrow> xo_context ops s' = Some c | Inr (res, b, did') \<Rightarrow> a_id b = a_id a \<and> (case res of Inl e \<Rightarrow> coherent e | Inr r \<Rightarrow> True))"
        using assms(3) x1 x2 x3 ok3 ok2 Inl False co3
        by (auto simp: call_with_refresh_def Let_def split: option.splits sum.splits)
      then show ?thesis using n by blast
    qed
  qed
qed

lemma calls_follow:
  "n \<in> {1, 2} \<Longrightarrow> follows (Ready i) (replicate n (Called i m)) = Some (Open i n)"
  by (auto simp: numeral_2_eq_2)

lemma calls_silent: "picks (replicate n (Called i m)) = []" "attempts (replicate n (Called i m)) = []"
  by (induction n) simp_all

text \<open>
  \<open>settled\<close>: how a stopped request may leave the protocol. It is left open only when the context
  is done or the error is a cancellation.
\<close>

definition settled :: "phase \<Rightarrow> exec_error + 'r \<Rightarrow> 's \<Rightarrow> bool" where
  "settled p out s =
     (case out of
        Inr r \<Rightarrow> p = Done
      | Inl e \<Rightarrow> (\<forall>i n. p = Open i n \<longrightarrow> xo_context ops s = Some e \<or> ee_canceled e))"

lemma cancellation_cases:
  "claude_oauth_request_cancellation ctx a err = Some c \<Longrightarrow> ctx = Some c \<or> ee_canceled c"
  by (auto simp: claude_oauth_request_cancellation_def split: if_splits option.splits)

lemma attempt_model_spec:
  assumes ok: "ok s" and id: "a_id a \<in> ids"
    and at: "attempt_model ops counting provider route rst req pooled alias m a did evs s = (out, evs', s')"
  shows "ok s' \<and> (\<exists>new p. evs' = evs @ new \<and> picks new = [] \<and> attempts new = [] \<and>
    follows (Ready (a_id a)) new = Some p \<and>
    (case out of Stop x \<Rightarrow> settled p x s'
     | GoOn e b did' \<Rightarrow> a_id b = a_id a \<and> \<not> invalid_request e \<and> p = Ready (a_id a)))"
proof -
  obtain ie req1 s1 where i: "xo_intercept ops provider (req\<lparr>rq_model := (case rst of None \<Rightarrow> m | Some m \<Rightarrow> m)\<rparr>) s = ((ie, req1), s1)"
    by (metis prod.collapse)
  have ok1: "ok s1" using intercept_ok [OF ok] i by (metis snd_conv)
  show ?thesis
  proof (cases ie)
    case (Some e)
    then show ?thesis using at i ok1
      by (intro conjI exI [of _ "[]"] exI [of _ "Ready (a_id a)"])
        (auto simp: attempt_model_def Let_def settled_def)
  next
    case None
    obtain co evs2 s2 where c: "call_with_refresh ops provider a did req1 evs s1 = (co, evs2, s2)"
      by (metis prod.collapse)
    note cs = call_with_refresh_spec [OF ok1 id c]
    then obtain n where n: "n \<in> {1, 2}" "evs2 = evs @ replicate n (Called (a_id a) (rq_model req1))" by blast
    note fo = calls_follow [OF n(1), of "a_id a" "rq_model req1"]
    have stay: "ok s2 \<and> (\<exists>new p. evs2 = evs @ new \<and> picks new = [] \<and> attempts new = [] \<and>
        follows (Ready (a_id a)) new = Some p \<and> settled p (Inl x) s2)"
      if "xo_context ops s2 = Some x \<or> ee_canceled x" for x
      using cs n fo that
      by (intro conjI exI [of _ "replicate n (Called (a_id a) (rq_model req1))"] exI [of _ "Open (a_id a) n"])
        (auto simp: calls_silent settled_def)
    show ?thesis
    proof (cases co)
      case (Inl x)
      then show ?thesis using at i None c stay [of x] cs by (auto simp: attempt_model_def Let_def)
    next
      case (Inr y)
      obtain outcome b did' where y: "y = (outcome, b, did')" by (cases y)
      have b: "a_id b = a_id a" using cs Inr y by simp
      show ?thesis
      proof (cases "claude_oauth_request_cancellation (xo_context ops s2) b (case outcome of Inl e \<Rightarrow> Some e | Inr _ \<Rightarrow> None)")
        case (Some x)
        then show ?thesis using at i None c Inr y stay [of x] cancellation_cases [OF Some]
          by (auto simp: attempt_model_def Let_def)
      next
        case nc: None
        have rec: "ok s'' \<Longrightarrow> evs' = evs2 @ [Recorded res] \<Longrightarrow> er_auth_id res = a_id a \<Longrightarrow>
            q = (if er_success res \<or> is_request_scoped (er_error res) then Done else Ready (a_id a)) \<Longrightarrow>
            P q \<Longrightarrow> ok s'' \<and> (\<exists>new p. evs' = evs @ new \<and> picks new = [] \<and> attempts new = [] \<and>
              follows (Ready (a_id a)) new = Some p \<and> P p)" for res s'' q P
          using n fo
          by (intro conjI exI [of _ "replicate n (Called (a_id a) (rq_model req1)) @ [Recorded res]"] exI [of _ q])
            (auto simp: calls_silent)
        show ?thesis
        proof (cases outcome)
          case r: (Inr r)
          show ?thesis
            using at i None c Inr y nc r b cs
            by (intro rec [of _ "success_result b (xo_state_model ops a route m pooled s)"])
              (auto simp: attempt_model_def Let_def settled_def intro: mark_ok)
        next
          case e: (Inl e)
          have okm: "ok (xo_mark ops x s2)" "ok (xo_mark_neutral ops x s2)" for x
            using cs mark_ok mark_neutral_ok by blast+
          let ?res = "failure_result b (xo_state_model ops a route m pooled s) e"
          show ?thesis
            using at i None c Inr y nc e b cs okm scoped_iff_invalid [of e b "xo_state_model ops a route m pooled s"]
            by (intro rec [of _ ?res]) (auto simp: attempt_model_def Let_def settled_def split: if_splits)
        qed
      qed
    qed
  qed
qed

lemma attempt_models_spec:
  assumes "ok s" "a_id a \<in> ids"
    and "attempt_models ops counting provider route rst req pooled alias ms a did auth_err evs s = (out, evs', s')"
  shows "ok s' \<and> (\<exists>new p. evs' = evs @ new \<and> picks new = [] \<and> attempts new = [] \<and>
    follows (Ready (a_id a)) new = Some p \<and>
    (case out of Inl x \<Rightarrow> settled p x s'
     | Inr eo \<Rightarrow> p = Ready (a_id a) \<and> (ms = [] \<and> eo = auth_err \<or> (\<exists>e. eo = Some e \<and> \<not> invalid_request e))))"
  using assms
proof (induction ms arbitrary: a did auth_err evs s)
  case Nil
  then show ?case by (intro conjI exI [of _ "[]"] exI [of _ "Ready (a_id a)"]) auto
next
  case (Cons m ms)
  obtain o1 evs1 s1 where at: "attempt_model ops counting provider route rst req pooled alias m a did evs s = (o1, evs1, s1)"
    by (metis prod.collapse)
  note sp = attempt_model_spec [OF Cons.prems(1,2) at]
  show ?case
  proof (cases o1)
    case (Stop x)
    then show ?thesis using sp Cons.prems(3) at by auto
  next
    case (GoOn e b did')
    then obtain new where new: "ok s1" "evs1 = evs @ new" "picks new = []" "attempts new = []"
      "follows (Ready (a_id a)) new = Some (Ready (a_id a))" "a_id b = a_id a" "\<not> invalid_request e"
      using sp by auto
    have run: "attempt_models ops counting provider route rst req pooled alias ms b did' (Some e) evs1 s1 = (out, evs', s')"
      using Cons.prems(3) at GoOn by simp
    have idb: "a_id b \<in> ids" using new(6) Cons.prems(2) by simp
    from Cons.IH [OF new(1) idb run, unfolded new(6)] obtain more p where "ok s'" "evs' = evs1 @ more" "picks more = []" "attempts more = []"
      "follows (Ready (a_id a)) more = Some p"
      "case out of Inl x \<Rightarrow> settled p x s'
       | Inr eo \<Rightarrow> p = Ready (a_id a) \<and> (ms = [] \<and> eo = Some e \<or> (\<exists>e. eo = Some e \<and> \<not> invalid_request e))"
      by blast
    then show ?thesis using new
      by (intro conjI exI [of _ "new @ more"] exI [of _ p]) (auto split: sum.splits)
  qed
qed

text \<open>What the events of the loop promise, from a phase in which no call is open.\<close>

definition resting :: "phase \<Rightarrow> bool" where
  "resting q = (case q of Open i n \<Rightarrow> False | Done \<Rightarrow> False | _ \<Rightarrow> True)"

definition loop_promise ::
  "string list \<Rightarrow> string list \<Rightarrow> int \<Rightarrow> phase \<Rightarrow> exec_event list \<Rightarrow> exec_error + 'r \<Rightarrow> 's \<Rightarrow> bool" where
  "loop_promise tried attempted limit q new out s' =
     (distinct (picks new) \<and> set (picks new) \<subseteq> ids - set tried \<and>
      set (attempts new) \<subseteq> set (picks new) \<and> distinct (attempts new) \<and>
      (0 < limit \<longrightarrow> int (length attempted + length (attempts new)) \<le> max limit (int (length attempted))) \<and>
      (\<exists>p. follows q new = Some p \<and> settled p out s'))"

lemma resting_settled: "resting q \<Longrightarrow> settled q (Inl e) s"
  by (auto simp: resting_def settled_def)

lemma resting_simps [simp]: "resting Idle" "resting (Chosen i)" "resting (Ready i)"
  by (simp_all add: resting_def)

lemma resting_pick: "resting q \<Longrightarrow> advance q (Picked i) = Some (Chosen i)"
  by (cases q) (simp_all add: resting_def)

text \<open>One credential in front of the rest of the loop.\<close>

lemma promise_skip:
  assumes "loop_promise (List.insert i tried) attempted limit (Chosen i) new out s'"
    and "i \<in> ids" "i \<notin> set tried" "resting q"
  shows "loop_promise tried attempted limit q (Picked i # new) out s'"
  using assms by (auto simp: loop_promise_def resting_pick)

lemma promise_attempt:
  assumes "loop_promise (List.insert i tried) (List.insert i attempted) limit (Ready i) new out s'"
    and "i \<in> ids" "i \<notin> set tried" "resting q" "set attempted \<subseteq> set tried" "int (length attempted) < limit \<or> limit \<le> 0"
    and "picks mid = []" "attempts mid = []" "follows (Ready i) mid = Some (Ready i)"
  shows "loop_promise tried attempted limit q (Picked i # Attempted i # mid @ new) out s'"
proof -
  have "i \<notin> set attempted" using assms(3,5) by blast
  then show ?thesis using assms by (auto simp: loop_promise_def resting_pick List.insert_def)
qed

lemma promise_stop:
  assumes "i \<in> ids" "i \<notin> set tried" "resting q" "int (length attempted) < limit \<or> limit \<le> 0"
    and "picks mid = []" "attempts mid = []" "follows (Ready i) mid = Some p" "settled p out s'"
  shows "loop_promise tried attempted limit q (Picked i # Attempted i # mid) out s'"
  using assms by (auto simp: loop_promise_def resting_pick)

lemma promise_none:
  "resting q \<Longrightarrow> loop_promise tried attempted limit q [] (Inl e) s'"
  by (auto simp: loop_promise_def resting_settled)

lemma execute_loop_spec:
  assumes "ok s" "set attempted \<subseteq> set tried" "resting q"
    and "execute_loop ops counting limit route rst req fuel tried attempted last_err evs s = Some (out, evs', s')"
  shows "ok s' \<and> (\<exists>new. evs' = evs @ new \<and> loop_promise tried attempted limit q new out s')"
  using assms
proof (induction fuel arbitrary: tried attempted last_err evs s q)
  case (Suc fuel)
  show ?case
  proof (cases "limit > 0 \<and> int (length attempted) \<ge> limit")
    case True
    then show ?thesis using Suc.prems promise_none [OF Suc.prems(3)] by (auto split: option.splits)
  next
    case False
    then have lim: "int (length attempted) < limit \<or> limit \<le> 0" by linarith
    obtain pk s1 where pk: "xo_pick ops tried s = (pk, s1)" by fastforce
    have ok1: "ok s1" using pick_ok [OF Suc.prems(1), of tried] pk by simp
    show ?thesis
    proof (cases pk)
      case (Inl e)
      then show ?thesis using Suc.prems False pk ok1 promise_none [OF Suc.prems(3)]
        by (auto split: option.splits)
    next
      case (Inr ap)
      obtain a provider where ap: "ap = (a, provider)" by fastforce
      have new: "a_id a \<in> ids" "a_id a \<notin> set tried" using pick_new [OF Suc.prems(1)] pk Inr ap by blast+
      obtain ms pooled al s2 where m: "xo_models ops a route s1 = ((ms, pooled, al), s2)" by (metis prod.collapse)
      have ok2: "ok s2" using models_ok [OF ok1, of a route] m by simp
      let ?tried = "List.insert (a_id a) tried" and ?att = "List.insert (a_id a) attempted"
      let ?evs1 = "evs @ [Picked (a_id a)]" and ?evs2 = "evs @ [Picked (a_id a), Attempted (a_id a)]"
      have sub: "set attempted \<subseteq> set ?tried" "set ?att \<subseteq> set ?tried" using Suc.prems(2) by auto
      show ?thesis
      proof (cases ms)
        case Nil
        have "execute_loop ops counting limit route rst req fuel ?tried attempted last_err ?evs1 s2 = Some (out, evs', s')"
          using Suc.prems(4) False pk Inr ap m Nil by (simp add: Let_def split: if_splits)
        from Suc.IH [OF ok2 sub(1) resting_simps(2) this] show ?thesis
          using promise_skip [OF _ new Suc.prems(3)] by (metis append.assoc append_Cons append_Nil)
      next
        case (Cons m1 ms1)
        obtain b pe s3 where pr: "xo_prepare ops provider a s2 = ((b, pe), s3)" by (metis prod.collapse)
        have ok3: "ok s3" "a_id b = a_id a"
          using prepare_ok [OF ok2 new(1), of provider] prepare_id [OF ok2 new(1), of provider] pr by simp_all
        have again: ?thesis
          if r: "execute_loop ops counting limit route rst req fuel ?tried ?att le (?evs2 @ mid) s4 = Some (out, evs', s')"
            and k: "ok s4" "picks mid = []" "attempts mid = []" "follows (Ready (a_id a)) mid = Some (Ready (a_id a))"
          for le mid s4
        proof -
          from Suc.IH [OF k(1) sub(2) resting_simps(3) r] obtain rest where
            "ok s'" "evs' = (?evs2 @ mid) @ rest" "loop_promise ?tried ?att limit (Ready (a_id a)) rest out s'"
            by blast
          then show ?thesis
            using promise_attempt [OF _ new Suc.prems(3,2) lim k(2-4)] by (auto intro!: exI)
        qed
        have stop: ?thesis
          if "evs' = ?evs2 @ mid" "ok s'" "picks mid = []" "attempts mid = []"
            "follows (Ready (a_id a)) mid = Some p" "settled p out s'" for mid p
          using promise_stop [OF new Suc.prems(3) lim that(3-6)] that(1,2) by auto
        show ?thesis
        proof (cases pe)
          case (Some e)
          let ?res = "(failure_result b route e)\<lparr>er_retry_after := None\<rparr>"
          show ?thesis
          proof (cases "claude_oauth_request_cancellation (xo_context ops s3) b (Some e)")
            case None
            show ?thesis
              by (rule again [of "Some e" "[Recorded ?res]" "xo_mark ops ?res s3"])
                (use Suc.prems(4) False pk Inr ap m Cons pr Some None ok3 mark_ok in
                  \<open>simp_all add: Let_def failure_result_def split: if_splits\<close>)
          next
            case c: (Some c)
            show ?thesis
              by (rule stop [of "[]" "Ready (a_id a)"])
                (use Suc.prems(4) False pk Inr ap m Cons pr Some c ok3 in
                  \<open>auto simp: Let_def settled_def split: if_splits\<close>)
          qed
        next
          case None
          obtain o4 evs4 s4 where at: "attempt_models ops counting provider route rst req pooled al ms b False None ?evs2 s3
              = (o4, evs4, s4)"
            by (metis prod.collapse)
          have "a_id b \<in> ids" using ok3(2) new(1) by simp
          from attempt_models_spec [OF ok3(1) this at, unfolded ok3(2)] obtain mid p where
            sp: "ok s4" "evs4 = ?evs2 @ mid" "picks mid = []" "attempts mid = []"
              "follows (Ready (a_id a)) mid = Some p"
              "case o4 of Inl x \<Rightarrow> settled p x s4
               | Inr eo \<Rightarrow> p = Ready (a_id a) \<and>
                   (ms = [] \<and> eo = None \<or> (\<exists>e. eo = Some e \<and> \<not> invalid_request e))"
            by blast
          show ?thesis
          proof (cases o4)
            case (Inl x)
            show ?thesis
              by (rule stop [of mid p])
                (use Suc.prems(4) False pk Inr ap m Cons pr None at sp Inl in
                  \<open>auto simp: Let_def split: if_splits\<close>)
          next
            case (Inr eo)
            then obtain e where e: "eo = Some e" "\<not> invalid_request e" "p = Ready (a_id a)" using sp(6) Cons by auto
            show ?thesis
              by (rule again [of "Some e" mid s4])
                (use Suc.prems(4) False pk \<open>pk = Inr ap\<close> ap m Cons pr None at sp Inr e in
                  \<open>simp_all add: Let_def split: if_splits\<close>)
          qed
        qed
      qed
    qed
  qed
qed simp

text \<open>Each round tries one more credential of the finite set.\<close>

lemma execute_loop_returns:
  assumes "ok s" "card (ids - set tried) < fuel"
  shows "execute_loop ops counting limit route rst req fuel tried attempted last_err evs s \<noteq> None"
  using assms
proof (induction fuel arbitrary: tried attempted last_err evs s)
  case (Suc fuel)
  show ?case
  proof (cases "limit > 0 \<and> int (length attempted) \<ge> limit")
    case False
    obtain pk s1 where pk: "xo_pick ops tried s = (pk, s1)" by fastforce
    have ok1: "ok s1" using pick_ok [OF Suc.prems(1), of tried] pk by simp
    show ?thesis
    proof (cases pk)
      case (Inl e)
      then show ?thesis using False pk by (simp add: Let_def)
    next
      case (Inr ap)
      obtain a provider where ap: "ap = (a, provider)" by fastforce
      have new: "a_id a \<in> ids" "a_id a \<notin> set tried" using pick_new [OF Suc.prems(1)] pk Inr ap by blast+
      let ?tried = "List.insert (a_id a) tried"
      have "ids - set ?tried = (ids - set tried) - {a_id a}" by auto
      then have "card (ids - set ?tried) < card (ids - set tried)"
        using new finite_ids card_Diff1_less [of "ids - set tried" "a_id a"] by simp
      then have less: "card (ids - set ?tried) < fuel" using Suc.prems(2) by simp
      note again = Suc.IH [OF _ less]
      obtain ms pooled al s2 where m: "xo_models ops a route s1 = ((ms, pooled, al), s2)" by (metis prod.collapse)
      have ok2: "ok s2" using models_ok [OF ok1, of a route] m by simp
      obtain b pe s3 where pr: "xo_prepare ops provider a s2 = ((b, pe), s3)" by (metis prod.collapse)
      have ok3: "ok s3" "a_id b \<in> ids"
        using prepare_ok [OF ok2 new(1), of provider] prepare_id [OF ok2 new(1), of provider] pr new(1) by simp_all
      obtain o4 evs4 s4 where at: "attempt_models ops counting provider route rst req pooled al ms b False None
          (evs @ [Picked (a_id a), Attempted (a_id a)]) s3 = (o4, evs4, s4)"
        by (metis prod.collapse)
      have "ok s4" using attempt_models_spec [OF ok3 at] by blast
      then show ?thesis
        using False pk Inr ap m pr at again [OF ok2] again [OF \<open>ok s4\<close>] again [OF mark_ok [OF ok3(1)]]
        by (auto simp: Let_def split: list.split option.split sum.split)
    qed
  qed simp
qed simp

lemma execute_mixed_once_spec:
  assumes "ok s" "card ids < fuel"
  shows "\<exists>out evs s'. execute_mixed_once ops counting limit providers req fuel s = Some (out, evs, s') \<and>
    ok s' \<and> loop_promise [] [] limit Idle evs out s'"
proof (cases "providers = []")
  case True
  then show ?thesis
    using assms(1) promise_none [of Idle "[]" "[]" limit] by (simp add: execute_mixed_once_def)
next
  case False
  define route rst where "route = auth_selection_model_from_options (rq_metadata req) (rq_model req)"
    and "rst = execution_model_for_auth_selection (rq_metadata req) (rq_model req)"
  define rq where "rq = req\<lparr>rq_metadata := ensure_requested_model_metadata route (rq_metadata req)\<rparr>"
  have run: "execute_mixed_once ops counting limit providers req fuel s =
      execute_loop ops counting limit route rst rq fuel [] [] None [] s"
    using False by (simp add: execute_mixed_once_def Let_def route_def rst_def rq_def)
  have "execute_loop ops counting limit route rst rq fuel [] [] None [] s \<noteq> None"
    using assms by (intro execute_loop_returns) auto
  then obtain out evs s' where
    "execute_loop ops counting limit route rst rq fuel [] [] None [] s = Some (out, evs, s')"
    by (metis not_None_eq prod_cases3)
  then show ?thesis
    using execute_loop_spec [OF assms(1) _ resting_simps(1), of "[]" "[]"] run by fastforce
qed

text \<open>The retries keep the invariant, however many there are.\<close>

lemma mixed_once_keeps:
  assumes "ok s" "execute_mixed_once ops counting limit providers req fuel s = Some (out, evs, s')"
  shows "ok s'"
proof (cases "providers = []")
  case True
  then show ?thesis using assms by (simp add: execute_mixed_once_def)
next
  case False
  then show ?thesis
    using execute_loop_spec [OF assms(1) _ resting_simps(1), where tried = "[]" and attempted = "[]"] assms(2)
    unfolding execute_mixed_once_def Let_def by fastforce
qed

lemma retry_loop_keeps:
  "ok s \<Longrightarrow> retry_loop ops counting limit providers req fuel rounds attempt logs s = Some (out, logs', s') \<Longrightarrow> ok s'"
proof (induction rounds arbitrary: attempt logs s)
  case (Suc rounds)
  let ?route = "auth_selection_model_from_options (rq_metadata req) (rq_model req)"
  obtain o1 evs s1 where once: "execute_mixed_once ops counting limit providers req fuel s = Some (o1, evs, s1)"
    using Suc.prems(2) by (auto split: option.splits)
  have ok1: "ok s1" using mixed_once_keeps [OF Suc.prems(1) once] .
  show ?case
  proof (cases "\<exists>e. o1 = Inl e \<and> \<not> ee_terminated e")
    case False
    then show ?thesis using Suc.prems(2) once ok1 by (cases o1) auto
  next
    case True
    then obtain e where e: "o1 = Inl e" "\<not> ee_terminated e" by blast
    obtain r s2 where r: "xo_should_retry ops e attempt ?route s1 = (r, s2)" by fastforce
    have ok2: "ok s2" using should_retry_ok [OF ok1, of e attempt ?route] r by simp
    show ?thesis
    proof (cases r)
      case None
      obtain q s3 where q: "xo_credits ops e s2 = (q, s3)" by fastforce
      then have "ok s3" using credits_ok [OF ok2, of e] by simp
      then show ?thesis using Suc.prems(2) once e r None q ok2 by (cases q) (auto split: if_splits)
    next
      case (Some w)
      obtain x s3 where x: "xo_wait ops w s2 = (x, s3)" by fastforce
      then have ok3: "ok s3" using wait_ok [OF ok2, of w] by simp
      show ?thesis
      proof (cases x)
        case None
        then have "retry_loop ops counting limit providers req fuel rounds (Suc attempt) (logs @ [evs]) s3 = Some (out, logs', s')"
          using Suc.prems(2) once e r Some x by simp
        from Suc.IH [OF ok3 this] show ?thesis .
      next
        case xs: (Some c)
        then show ?thesis using Suc.prems(2) once e r Some x ok3 by simp
      qed
    qed
  qed
qed simp

lemma execute_request_keeps:
  "ok s \<Longrightarrow> execute_request ops counting limit providers req fuel rounds s = Some (out, logs, s') \<Longrightarrow> ok s'"
  using retry_loop_keeps by (auto simp: execute_request_def Let_def split: if_splits)

end

section \<open>The retries\<close>

text \<open>
  A request is retried only while the attempt number is below a bound: the largest number of
  retries any credential allows.
\<close>

locale retry_contract = exec_contract ops ids ok
  for ops :: "('s, 'p, 'r) exec_ops" and ids :: "string set" and ok :: "'s \<Rightarrow> bool" +
  fixes bound :: nat
  assumes retries_end: "ok s \<Longrightarrow> bound \<le> attempt \<Longrightarrow> fst (xo_should_retry ops e attempt route s) = None"
begin

lemma retry_loop_spec:
  assumes "ok s" "card ids < fuel" "attempt \<le> bound" "bound < rounds + attempt"
  shows "\<exists>out new s'. retry_loop ops counting limit providers req fuel rounds attempt logs s =
      Some (out, logs @ new, s') \<and> ok s' \<and> length new \<le> Suc (bound - attempt) \<and>
      (\<forall>evs\<in>set new. \<exists>x t. loop_promise [] [] limit Idle evs x t)"
  using assms
proof (induction rounds arbitrary: attempt logs s)
  case (Suc rounds)
  obtain out evs s1 where once: "execute_mixed_once ops counting limit providers req fuel s = Some (out, evs, s1)"
    "ok s1" "loop_promise [] [] limit Idle evs out s1"
    using execute_mixed_once_spec [OF Suc.prems(1,2)] by blast
  let ?route = "auth_selection_model_from_options (rq_metadata req) (rq_model req)"
  show ?case
  proof (cases "\<exists>e w s2 s3. out = Inl e \<and> \<not> ee_terminated e \<and>
      xo_should_retry ops e attempt ?route s1 = (Some w, s2) \<and> xo_wait ops w s2 = (None, s3)")
    case True
    then obtain e w s2 s3 where again: "out = Inl e" "\<not> ee_terminated e"
      "xo_should_retry ops e attempt ?route s1 = (Some w, s2)" "xo_wait ops w s2 = (None, s3)"
      by blast
    have lt: "attempt < bound"
      using retries_end [OF once(2), of attempt e ?route] again(3) by (metis leI option.distinct(1) fst_conv)
    have ok2: "ok s3"
      using wait_ok [OF should_retry_ok [OF once(2), of e attempt ?route], of w] again(3,4) by simp
    have "\<exists>o' new s'. retry_loop ops counting limit providers req fuel rounds (Suc attempt) (logs @ [evs]) s3 =
        Some (o', (logs @ [evs]) @ new, s') \<and> ok s' \<and> length new \<le> Suc (bound - Suc attempt) \<and>
        (\<forall>evs\<in>set new. \<exists>x t. loop_promise [] [] limit Idle evs x t)"
      using lt Suc.prems by (intro Suc.IH ok2) auto
    then obtain o' new s' where n: "retry_loop ops counting limit providers req fuel rounds (Suc attempt) (logs @ [evs]) s3 =
        Some (o', logs @ (evs # new), s')" "ok s'" "length new \<le> Suc (bound - Suc attempt)"
      "\<forall>evs\<in>set new. \<exists>x t. loop_promise [] [] limit Idle evs x t"
      by auto
    have "retry_loop ops counting limit providers req fuel (Suc rounds) attempt logs s = Some (o', logs @ (evs # new), s')"
      using once(1) again n(1) by simp
    moreover have "length (evs # new) \<le> Suc (bound - attempt)" using n(3) lt by simp
    ultimately show ?thesis using n(2,4) once(3) by (metis set_ConsD)
  next
    case False
    have "\<exists>o' s'. retry_loop ops counting limit providers req fuel (Suc rounds) attempt logs s = Some (o', logs @ [evs], s') \<and> ok s'"
    proof (cases "\<exists>e. out = Inl e \<and> \<not> ee_terminated e")
      case no: False
      then show ?thesis using once(1,2) by (cases out) auto
    next
      case True
      then obtain e where e: "out = Inl e" "\<not> ee_terminated e" by blast
      obtain r s2 where r: "xo_should_retry ops e attempt ?route s1 = (r, s2)" by fastforce
      have ok2: "ok s2" using should_retry_ok [OF once(2), of e attempt ?route] r by simp
      show ?thesis
      proof (cases r)
        case None
        obtain q s3 where q: "xo_credits ops e s2 = (q, s3)" by fastforce
        then have "ok s3" using credits_ok [OF ok2, of e] by simp
        then show ?thesis using once(1) e r None q ok2 by (cases q) auto
      next
        case (Some w)
        obtain x s3 where x: "xo_wait ops w s2 = (x, s3)" by fastforce
        then have "ok s3" using wait_ok [OF ok2, of w] by simp
        moreover have "x \<noteq> None" using False e r Some x by auto
        ultimately show ?thesis using once(1) e r Some x by (cases x) auto
      qed
    qed
    then obtain o' s' where "retry_loop ops counting limit providers req fuel (Suc rounds) attempt logs s = Some (o', logs @ [evs], s')" "ok s'"
      by blast
    then show ?thesis using once(3) by (intro exI [of _ o'] exI [of _ "[evs]"] exI [of _ s']) auto
  qed
qed simp

text \<open>The whole request.\<close>

lemma execute_request_spec:
  assumes "ok s" "card ids < fuel" "bound < rounds"
  shows "\<exists>out new s'. execute_request ops counting limit providers req fuel rounds s = Some (out, new, s') \<and> ok s' \<and>
    length new \<le> Suc bound \<and> (\<forall>evs\<in>set new. \<exists>x t. loop_promise [] [] limit Idle evs x t)"
proof (cases "normalize_provider_keys providers = []")
  case True
  then show ?thesis using assms(1) by (simp add: execute_request_def)
next
  case False
  then show ?thesis
    using retry_loop_spec [OF assms(1,2), of 0 rounds counting limit "normalize_provider_keys providers" req "[]"] assms(3)
    by (simp add: execute_request_def Let_def)
qed

end

end
