(* ===== verification/ConductorExec.thy ===== *)
theory ConductorExec
  imports ConductorPicks ExecContract
begin

text \<open>
  \<open>Execute\<close> and \<open>ExecuteCount\<close> on the conductor: the calls of the loops of \<open>ExecLoop\<close> are the
  conductor's own operations, and what is outside (the executors, the context of the request, the
  timer, the interceptor) is a record of functions over the world. The contracts of
  \<open>ExecContract\<close> are interpreted on them.
\<close>

section \<open>What a request finds around it\<close>

text \<open>
  \<open>su_execute\<close> is \<open>Execute\<close> or \<open>CountTokens\<close> of the executor with the given key; its first
  argument is the flag of the context that asks for credits. \<open>su_needs\<close> and \<open>su_prepare\<close> are those
  of an executor that prepares credentials. \<open>su_random\<close> is \<open>rand.N\<close> at this point of the world.
  \<open>su_rename\<close> edits the model name in a response. \<open>su_hint\<close> is the process's table of credit
  hints, which the executors fill: whether credits are known, and available.
\<close>

record ('w, 'p, 'r) surroundings =
  su_elapsed :: "'w \<Rightarrow> nat \<times> 'w"
  su_decode :: "string \<Rightarrow> oauth_alias list option"
  su_refresh_env :: refresh_env
  su_show :: "select_error \<Rightarrow> string"
  su_weight_error :: "weight_site_error \<Rightarrow> exec_error"
  su_postpone :: bool
  su_needs :: "string \<Rightarrow> auth \<Rightarrow> bool"
  su_prepare :: "string \<Rightarrow> auth \<Rightarrow> 'w \<Rightarrow> (exec_error + auth option) \<times> 'w"
  su_refresh :: "string \<Rightarrow> auth \<Rightarrow> 'w \<Rightarrow> (exec_error + auth option) \<times> 'w"
  su_execute :: "bool \<Rightarrow> string \<Rightarrow> auth \<Rightarrow> 'p exec_request \<Rightarrow> 'w \<Rightarrow> (exec_error + 'r) \<times> 'w"
  su_intercept :: "string \<Rightarrow> 'p exec_request \<Rightarrow> 'w \<Rightarrow> (exec_error option \<times> 'p exec_request) \<times> 'w"
  su_context :: "'w \<Rightarrow> exec_error option"
  su_sleep :: "duration \<Rightarrow> 'w \<Rightarrow> exec_error option \<times> 'w"
  su_random :: "'w \<Rightarrow> duration \<Rightarrow> duration"
  su_rename :: "string \<Rightarrow> 'r \<Rightarrow> 'r"
  su_hint :: "'w \<Rightarrow> string \<Rightarrow> (bool \<times> bool) option"

section \<open>The calls of the loops\<close>

definition wait_for_cooldown ::
  "('w, 'p, 'r) surroundings \<Rightarrow> duration \<Rightarrow> duration \<Rightarrow> 'w conductor \<Rightarrow> exec_error option \<times> 'w conductor" where
  "wait_for_cooldown su wait max_wait c =
     (if wait \<le> 0 then (None, c)
      else (case su_sleep su (jittered_cooldown_wait (su_random su (co_world c)) wait max_wait) (co_world c) of
              (e, w) \<Rightarrow> (e, c\<lparr>co_world := w\<rparr>)))"

definition rewrite_force_mapped_response :: "('w, 'p, 'r) surroundings \<Rightarrow> alias_result \<Rightarrow> 'r \<Rightarrow> 'r" where
  "rewrite_force_mapped_response su al r =
     (if \<not> ar_force al \<or> trim_space (ar_original al) = [] then r else su_rename su (ar_original al) r)"

section \<open>The fallback on credits\<close>

definition credits_candidate :: "pick_context \<Rightarrow> string \<Rightarrow> 'w conductor \<Rightarrow> auth \<Rightarrow> bool" where
  "credits_candidate px route c a =
     (let pinned = pinned_auth_id_from_metadata (px_metadata px) in
      if a_disabled a \<or> a_status a = StatusDisabled then False
      else if pinned \<noteq> [] \<and> a_id a \<noteq> pinned then False
      else if \<not> equal_fold (trim_space (a_provider a)) ''antigravity'' then False
      else if \<not> str_contains (to_lower (trim_space route)) ''claude'' then False
      else executor_key_from_auth (Some a) \<in> set (co_executors c))"

text \<open>Those with known credits first, each group in the order of the identifiers.\<close>

definition find_all_credits_candidates ::
  "('w, 'p, 'r) surroundings \<Rightarrow> pick_context \<Rightarrow> string \<Rightarrow> 'w conductor \<Rightarrow> auth list" where
  "find_all_credits_candidates su px route c =
     (let cands = filter (credits_candidate px route c) (auth_list c);
          hint = (\<lambda>a. let i = trim_space (a_id a) in if i = [] then None else su_hint su (co_world c) i)
      in sort_key a_id (filter (\<lambda>a. hint a = Some (True, True)) cands) @
         sort_key a_id (filter (\<lambda>a. hint a \<notin> {Some (True, True), Some (True, False)}) cands))"

definition should_attempt_credits :: "'w conductor \<Rightarrow> exec_error \<Rightarrow> bool" where
  "should_attempt_credits c e =
     (if ee_terminated e then False
      else (case mg_config (co_manager c) of
              None \<Rightarrow> False
            | Some cfg \<Rightarrow>
                if \<not> rc_antigravity_credits cfg then False
                else
                  let status = status_code_from_error e in
                  if status = 429 \<or> status = 503 then True
                  else if status = 0 then
                    (case ge_auth (ee_view e) of
                       None \<Rightarrow> False
                     | Some ae \<Rightarrow> err_code ae \<in> {''auth_not_found'', ''auth_unavailable'', ''model_cooldown''})
                  else False))"

fun credits_models ::
  "('w, 'p, 'r) surroundings \<Rightarrow> string \<Rightarrow> string \<Rightarrow> bool \<Rightarrow> alias_result \<times> routing_snapshot \<Rightarrow> 'p exec_request \<Rightarrow>
   auth \<Rightarrow> string list \<Rightarrow> 'w conductor \<Rightarrow> 'r option \<times> 'w conductor" where
  "credits_models su provider route pooled alr req a [] c = (None, c)"
| "credits_models su provider route pooled alr req a (m # ms) c =
     (let result_model = state_model_for_execution (su_decode su) (as_table (co_alias c)) (Some a) route m pooled
      in case su_execute su True provider a (req\<lparr>rq_model := m\<rparr>) (co_world c) of
           (Inr r, w) \<Rightarrow>
             (Some (rewrite_force_mapped_response su
                      (resolve_attempt_alias_result (snd alr) (Some a) route m (fst alr)) r),
              conductor_mark_result (su_elapsed su) (success_result a result_model) (c\<lparr>co_world := w\<rparr>))
         | (Inl e, w) \<Rightarrow>
             credits_models su provider route pooled alr req a ms
               (conductor_mark_result (su_elapsed su) (failure_result a result_model e) (c\<lparr>co_world := w\<rparr>)))"

fun credits_loop ::
  "('w, 'p, 'r) surroundings \<Rightarrow> string \<Rightarrow> 'p exec_request \<Rightarrow> auth list \<Rightarrow> 'w conductor \<Rightarrow> 'r option \<times> 'w conductor" where
  "credits_loop su route req [] c = (None, c)"
| "credits_loop su route req (a # as) c =
     (if su_context su (co_world c) \<noteq> None then (None, c)
      else
        let provider = executor_key_from_auth (Some a) in
        (case prepare_request_auth (su_elapsed su) (su_needs su) (su_prepare su) (su_postpone su)
                (su_weight_error su) provider a c of
           ((_, Some e), c1) \<Rightarrow> credits_loop su route req as c1
         | ((b, None), c1) \<Rightarrow>
             (case execution_model_candidates_with_alias (su_decode su) (co_alias c1) (Some b) route of
                ((models, pooled, al), st) \<Rightarrow>
                  (case credits_models su provider route pooled (al, as_routing (co_alias c1)) req b models
                          (c1\<lparr>co_alias := st\<rparr>) of
                     (Some r, c2) \<Rightarrow> (Some r, c2)
                   | (None, c2) \<Rightarrow> credits_loop su route req as c2))))"

definition try_antigravity_credits ::
  "('w, 'p, 'r) surroundings \<Rightarrow> pick_context \<Rightarrow> 'p exec_request \<Rightarrow> exec_error \<Rightarrow> 'w conductor \<Rightarrow>
   (exec_error + 'r) option \<times> 'w conductor" where
  "try_antigravity_credits su px req e c =
     (if \<not> should_attempt_credits c e then (None, c)
      else
        let route = rq_model req;
            req1 = req\<lparr>rq_metadata := ensure_requested_model_metadata route (rq_metadata req)\<rparr>
        in case credits_loop su route req1 (find_all_credits_candidates su px route c) c of
             (r, c1) \<Rightarrow> (map_option Inr r, c1))"

section \<open>The conductor's calls\<close>

definition conductor_ops ::
  "('w, 'p, 'r) surroundings \<Rightarrow> pick_context \<Rightarrow> string list \<Rightarrow> string \<Rightarrow> duration \<Rightarrow> 'p exec_request \<Rightarrow>
   ('w conductor, 'p, 'r) exec_ops" where
  "conductor_ops su px providers route max_wait req =
     \<lparr>xo_pick = (\<lambda>tried c.
        (case pick_next_mixed (su_elapsed su) (su_decode su) px tried providers route c of
           (Inl e, c') \<Rightarrow> (Inl (exec_error_of_select (su_show su) e), c')
         | (Inr x, c') \<Rightarrow> (Inr x, c'))),
      xo_models = (\<lambda>a model c.
        (case read_clock (su_elapsed su) c of
           (now, c1) \<Rightarrow>
             (case prepared_execution_models_with_alias (su_decode su) now (co_alias c1) (Some a) model of
                ((models, pooled, al), st) \<Rightarrow>
                  ((models, pooled, al, as_routing (co_alias c1)), c1\<lparr>co_alias := st\<rparr>)))),
      xo_prepare = (\<lambda>provider a.
        prepare_request_auth (su_elapsed su) (su_needs su) (su_prepare su) (su_postpone su) (su_weight_error su)
          provider a),
      xo_state_model = (\<lambda>a model upstream pooled c.
        state_model_for_execution (su_decode su) (as_table (co_alias c)) (Some a) model upstream pooled),
      xo_intercept = (\<lambda>provider r c.
        (case su_intercept su provider r (co_world c) of (x, w) \<Rightarrow> (x, c\<lparr>co_world := w\<rparr>))),
      xo_execute = (\<lambda>provider a r c.
        (case su_execute su False provider a r (co_world c) of (x, w) \<Rightarrow> (x, c\<lparr>co_world := w\<rparr>))),
      xo_refresh = (\<lambda>a e did.
        try_refresh_after_unauthorized (su_elapsed su) (su_refresh_env su) (su_refresh su) (su_postpone su) a e did),
      xo_context = (\<lambda>c. su_context su (co_world c)),
      xo_mark = conductor_mark_result (su_elapsed su),
      xo_mark_neutral = conductor_mark_neutral (su_elapsed su),
      xo_rewrite = (\<lambda>a model upstream alr r c.
        rewrite_force_mapped_response su (resolve_attempt_alias_result (snd alr) (Some a) model upstream (fst alr)) r),
      xo_should_retry = (\<lambda>e attempt model c.
        (case read_clock (su_elapsed su) c of
           (now, c1) \<Rightarrow>
             (should_retry_after_error (rf_oob (su_refresh_env su)) (su_decode su) now e (int attempt) providers model
                max_wait c1, c1))),
      xo_wait = (\<lambda>wait. wait_for_cooldown su wait max_wait),
      xo_credits = try_antigravity_credits su px req\<rparr>"

text \<open>
  \<open>Execute\<close>, and \<open>ExecuteCount\<close> when \<open>counting\<close>. The settings are read once; \<open>px\<close> holds what the
  context says, the metadata are the request's.
\<close>

definition conductor_execute ::
  "('w, 'p, 'r) surroundings \<Rightarrow> pick_context \<Rightarrow> bool \<Rightarrow> string list \<Rightarrow> 'p exec_request \<Rightarrow> nat \<Rightarrow> nat \<Rightarrow> 'w conductor \<Rightarrow>
   ((exec_error + 'r) \<times> exec_event list list \<times> 'w conductor) option" where
  "conductor_execute su px0 counting providers req fuel rounds c =
     (let px = px0\<lparr>px_metadata := rq_metadata req\<rparr>;
          route = auth_selection_model_from_options (rq_metadata req) (rq_model req);
          ops = conductor_ops su px (normalize_provider_keys providers) route (co_max_interval c) req
      in execute_request ops counting (co_max_credentials c) providers req fuel rounds c)"

section \<open>The calls keep the contract\<close>

text \<open>
  What is asked of the executors: they answer for the credential they are given and keep the
  condition on its metadata, and their errors are coherent.
\<close>

definition sound_surroundings :: "((string \<rightharpoonup> goany) \<Rightarrow> bool) \<Rightarrow> ('w, 'p, 'r) surroundings \<Rightarrow> bool" where
  "sound_surroundings P su \<longleftrightarrow>
     same_credential P (su_prepare su) \<and> same_credential P (su_refresh su) \<and>
     (\<forall>credits k a r w e w'. su_execute su credits k a r w = (Inl e, w') \<longrightarrow> coherent e)"

definition retries_at_most :: "(gofloat \<Rightarrow> int) \<Rightarrow> int \<Rightarrow> nat \<Rightarrow> (string \<rightharpoonup> goany) \<Rightarrow> bool" where
  "retries_at_most oob default_retry bound m \<longleftrightarrow>
     effective_retry oob default_retry ((new_auth [] [])\<lparr>a_metadata := m\<rparr>) \<le> int bound"

lemma effective_retry_metadata:
  "effective_retry oob d a = effective_retry oob d ((new_auth [] [])\<lparr>a_metadata := a_metadata a\<rparr>)"
  by (simp add: effective_retry_def request_retry_override_def cong: option.case_cong)

definition request_ok ::
  "('w, 'p, 'r) surroundings \<Rightarrow> ((string \<rightharpoonup> goany) \<Rightarrow> bool) \<Rightarrow> 'w conductor \<Rightarrow> 'w conductor \<Rightarrow> bool" where
  "request_ok su P c0 c \<longleftrightarrow> sound_surroundings P su \<and> stored P c0 \<and> keeps P c0 c"

lemma request_ok_step: "request_ok su P c0 c \<Longrightarrow> keeps P c c' \<Longrightarrow> request_ok su P c0 c'"
  unfolding request_ok_def using keeps_trans by blast

lemma request_okD:
  "request_ok su P c0 c \<Longrightarrow> conductor_ok c"
  "request_ok su P c0 c \<Longrightarrow> known_ids c = known_ids c0"
  "request_ok su P c0 c \<Longrightarrow> stored P c"
  "request_ok su P c0 c \<Longrightarrow> co_settings c = co_settings c0"
  "request_ok su P c0 c \<Longrightarrow> same_credential P (su_prepare su)"
  "request_ok su P c0 c \<Longrightarrow> same_credential P (su_refresh su)"
  unfolding request_ok_def sound_surroundings_def keeps_def by blast+

lemma keeps_alias: "conductor_ok c \<Longrightarrow> keeps P c (c\<lparr>co_alias := st\<rparr>)"
  by (simp add: keeps_def settling_frame stored_def)

lemma finite_known: "finite (known_ids c)"
proof -
  have "known_ids c \<subseteq> fst ` set (mg_auths (co_manager c))"
    by (auto simp: known_ids_def lookup_auth_def split: option.splits dest!: map_of_SomeD
        simp del: map_of_eq_Some_iff intro: rev_image_eqI)
  then show ?thesis by (rule finite_subset) simp
qed

lemma known_clean:
  assumes "conductor_ok c" "a_id a \<in> known_ids c"
  shows "clean_id a"
proof -
  have wk: "well_keyed (mg_auths (co_manager c))" using assms(1) by (simp add: settling_def)
  obtain b where "lookup_auth (co_manager c) (a_id a) = Some b" using assms(2) by (auto simp: known_ids_def)
  from lookup_keyed [OF wk this] show ?thesis by (auto simp: clean_id_def)
qed

lemma wait_ok:
  assumes "conductor_ok c"
  shows "keeps P c (snd (wait_for_cooldown su wait max_wait c))"
  using keeps_refl [OF assms] keeps_world [OF assms] by (auto simp: wait_for_cooldown_def split: prod.split)

lemma credits_models_ok:
  "conductor_ok c \<Longrightarrow> keeps P c (snd (credits_models su provider route pooled alr req a ms c))"
proof (induction ms arbitrary: c)
  case (Cons m ms)
  let ?rm = "state_model_for_execution (su_decode su) (as_table (co_alias c)) (Some a) route m pooled"
  obtain out w where x: "su_execute su True provider a (req\<lparr>rq_model := m\<rparr>) (co_world c) = (out, w)" by fastforce
  note k1 = keeps_world [OF Cons.prems, of P w]
  show ?case
  proof (cases out)
    case (Inr r)
    then show ?thesis
      using x keeps_trans [OF k1 conductor_mark_ok(1) [OF keeps_ok [OF k1]]] by (simp add: Let_def)
  next
    case (Inl e)
    note k2 = keeps_trans [OF k1 conductor_mark_ok(1) [OF keeps_ok [OF k1], of P "su_elapsed su" "failure_result a ?rm e"]]
    show ?thesis using x Inl keeps_trans [OF k2 Cons.IH [OF keeps_ok [OF k2]]] by (simp add: Let_def)
  qed
qed (simp add: keeps_refl)

lemma credits_loop_ok:
  assumes "same_credential P (su_prepare su)"
  shows "conductor_ok c \<Longrightarrow> \<forall>a\<in>set as. clean_id a \<Longrightarrow> keeps P c (snd (credits_loop su route req as c))"
proof (induction "as" arbitrary: c)
  case (Cons a as)
  show ?case
  proof (cases "su_context su (co_world c)")
    case (Some e)
    then show ?thesis using keeps_refl [OF Cons.prems(1)] by simp
  next
    case None
    let ?p = "executor_key_from_auth (Some a)"
    obtain b pe c1 where pr: "prepare_request_auth (su_elapsed su) (su_needs su) (su_prepare su) (su_postpone su)
        (su_weight_error su) ?p a c = ((b, pe), c1)" by (metis prod.collapse)
    have cl: "clean_id a" "\<forall>a\<in>set as. clean_id a" using Cons.prems(2) by simp_all
    note k1 = prepare_ok(1) [OF Cons.prems(1) assms cl(1) pr]
    show ?thesis
    proof (cases pe)
      case (Some e)
      then show ?thesis using None pr keeps_trans [OF k1 Cons.IH [OF keeps_ok [OF k1] cl(2)]] by (simp add: Let_def)
    next
      case pn: None
      obtain models pooled al st where m: "execution_model_candidates_with_alias (su_decode su) (co_alias c1) (Some b) route
          = ((models, pooled, al), st)" by (metis prod.collapse)
      note k2 = keeps_trans [OF k1 keeps_alias [OF keeps_ok [OF k1], of P st]]
      obtain res c2 where r: "credits_models su ?p route pooled (al, as_routing (co_alias c1)) req b models (c1\<lparr>co_alias := st\<rparr>) = (res, c2)"
        by fastforce
      have k3: "keeps P c c2"
        using keeps_trans [OF k2 credits_models_ok [OF keeps_ok [OF k2], of P su ?p route pooled "(al, as_routing (co_alias c1))" req b models]] r
        by simp
      show ?thesis
        using None pr pn m r k3 keeps_trans [OF k3 Cons.IH [OF keeps_ok [OF k3] cl(2)]]
        by (cases res) (simp_all add: Let_def)
    qed
  qed
qed (simp add: keeps_refl)

lemma credits_ok:
  assumes ok: "conductor_ok c" and same: "same_credential P (su_prepare su)"
  shows "keeps P c (snd (try_antigravity_credits su px req e c))"
proof -
  have "clean_id a" if "a \<in> set (find_all_credits_candidates su px route c)" for a route
  proof -
    have "a \<in> set (auth_list c)" using that by (auto simp: find_all_credits_candidates_def Let_def)
    then show ?thesis using known_clean [OF ok] auth_list_known(1) [OF ok] by blast
  qed
  then have "\<forall>a\<in>set (find_all_credits_candidates su px route c). clean_id a" for route by blast
  note l = credits_loop_ok [OF same ok this]
  show ?thesis using keeps_refl [OF ok] l
    by (auto simp: try_antigravity_credits_def Let_def split: prod.split) (metis snd_conv)
qed

section \<open>The retries of the conductor\<close>

lemma fold_nearer_none:
  "(\<And>a. a \<in> set as \<Longrightarrow> skip a) \<Longrightarrow> fold (\<lambda>a best. if p a then best else if skip a then best else f a best) as None = None"
  by (induction "as") auto

lemma no_more_retries:
  assumes "conductor_ok c" "stored (retries_at_most oob (co_retry c) bound) c" "bound \<le> attempt"
  shows "should_retry_after_error oob decode now e (int attempt) providers model max_wait c = None"
proof -
  have le: "effective_retry oob (co_retry c) a \<le> int attempt" if "a \<in> set (auth_list c)" for a
  proof -
    have "retries_at_most oob (co_retry c) bound (a_metadata a)"
      using auth_list_known(2) [OF assms(1) that] assms(2) by (simp add: stored_def)
    then show ?thesis using assms(3) effective_retry_metadata [of oob "co_retry c" a] by (simp add: retries_at_most_def)
  qed
  have "closest_cooldown_wait oob decode now providers model (int attempt) c = None"
    unfolding closest_cooldown_wait_def by (rule fold_nearer_none) (use le in auto)
  moreover have "\<not> retry_allowed oob (int attempt) providers c"
    using le by (auto simp: retry_allowed_def list_ex_iff not_less)
  ultimately show ?thesis by (simp add: should_retry_after_error_def)
qed

section \<open>The contracts\<close>

interpretation round: exec_contract
  "conductor_ops su px providers route max_wait req" "known_ids c0" "request_ok su P c0"
  for su :: "('w, 'p, 'r) surroundings" and px providers route max_wait req c0 P
proof (unfold_locales, goal_cases)
  case 1
  show ?case by (rule finite_known)
next
  case (2 s tried a p s')
  then obtain r c' where p: "pick_next_mixed (su_elapsed su) (su_decode su) px tried providers route s = (r, c')" by fastforce
  then have "r = Inr (a, p)" using 2(2) by (cases r) (auto simp: conductor_ops_def)
  from pick_next_mixed_ok(2) [OF request_okD(1) [OF 2(1)] p this] show ?case
    using request_okD(2) [OF 2(1)] by simp
next
  case (3 s tried)
  obtain r c' where p: "pick_next_mixed (su_elapsed su) (su_decode su) px tried providers route s = (r, c')" by fastforce
  have "snd (xo_pick (conductor_ops su px providers route max_wait req) tried s) = c'"
    using p by (simp add: conductor_ops_def split: sum.split)
  then show ?case using request_ok_step [OF 3 pick_next_mixed_ok(1) [OF request_okD(1) [OF 3] p]] by simp
next
  case (4 s a route')
  obtain now c1 where r: "read_clock (su_elapsed su) s = (now, c1)" by fastforce
  obtain x st where m: "prepared_execution_models_with_alias (su_decode su) now (co_alias c1) (Some a) route' = (x, st)" by fastforce
  have "snd (xo_models (conductor_ops su px providers route max_wait req) a route' s) = c1\<lparr>co_alias := st\<rparr>"
    using r m by (simp add: conductor_ops_def split: prod.split)
  then show ?case
    using request_ok_step [OF request_ok_step [OF 4 keeps_clock [OF request_okD(1) [OF 4] r]]]
      keeps_alias request_okD(1) [OF request_ok_step [OF 4 keeps_clock [OF request_okD(1) [OF 4] r]]] by metis
next
  case (5 s a p)
  obtain b pe c' where pr: "prepare_request_auth (su_elapsed su) (su_needs su) (su_prepare su) (su_postpone su)
      (su_weight_error su) p a s = ((b, pe), c')" by (metis prod.collapse)
  have "clean_id a" using known_clean [OF request_okD(1) [OF 5(1)]] request_okD(2) [OF 5(1)] 5(2) by blast
  from prepare_ok(2) [OF request_okD(1) [OF 5(1)] request_okD(5) [OF 5(1)] this pr] show ?case
    using pr by (simp add: conductor_ops_def)
next
  case (6 s a p)
  obtain b pe c' where pr: "prepare_request_auth (su_elapsed su) (su_needs su) (su_prepare su) (su_postpone su)
      (su_weight_error su) p a s = ((b, pe), c')" by (metis prod.collapse)
  have "clean_id a" using known_clean [OF request_okD(1) [OF 6(1)]] request_okD(2) [OF 6(1)] 6(2) by blast
  from request_ok_step [OF 6(1) prepare_ok(1) [OF request_okD(1) [OF 6(1)] request_okD(5) [OF 6(1)] this pr]]
  show ?case using pr by (simp add: conductor_ops_def)
next
  case (7 s p r)
  then show ?case using request_ok_step [OF 7 keeps_world [OF request_okD(1) [OF 7]]]
    by (simp add: conductor_ops_def split: prod.split)
next
  case (8 s p a r)
  then show ?case using request_ok_step [OF 8 keeps_world [OF request_okD(1) [OF 8]]]
    by (simp add: conductor_ops_def split: prod.split)
next
  case (9 s p a r e s')
  then obtain w where "su_execute su False p a r (co_world s) = (Inl e, w)"
    by (auto simp: conductor_ops_def split: prod.splits)
  then show ?case using 9(1) unfolding request_ok_def sound_surroundings_def by blast
next
  case (10 s a e did)
  obtain b d c' where pr: "try_refresh_after_unauthorized (su_elapsed su) (su_refresh_env su) (su_refresh su) (su_postpone su)
      a e did s = ((b, d), c')" by (metis prod.collapse)
  have "clean_id a" using known_clean [OF request_okD(1) [OF 10(1)]] request_okD(2) [OF 10(1)] 10(2) by blast
  from try_refresh_ok(2) [OF request_okD(1) [OF 10(1)] request_okD(6) [OF 10(1)] this pr] show ?case
    using pr by (simp add: conductor_ops_def)
next
  case (11 s a e did)
  obtain b d c' where pr: "try_refresh_after_unauthorized (su_elapsed su) (su_refresh_env su) (su_refresh su) (su_postpone su)
      a e did s = ((b, d), c')" by (metis prod.collapse)
  have "clean_id a" using known_clean [OF request_okD(1) [OF 11(1)]] request_okD(2) [OF 11(1)] 11(2) by blast
  from request_ok_step [OF 11(1) try_refresh_ok(1) [OF request_okD(1) [OF 11(1)] request_okD(6) [OF 11(1)] this pr]]
  show ?case using pr by (simp add: conductor_ops_def)
next
  case (12 s r)
  show ?case using request_ok_step [OF 12 conductor_mark_ok(1) [OF request_okD(1) [OF 12]]] by (simp add: conductor_ops_def)
next
  case (13 s r)
  show ?case using request_ok_step [OF 13 conductor_mark_ok(2) [OF request_okD(1) [OF 13]]] by (simp add: conductor_ops_def)
next
  case (14 s e n route')
  obtain now c1 where r: "read_clock (su_elapsed su) s = (now, c1)" by fastforce
  show ?case using request_ok_step [OF 14 keeps_clock [OF request_okD(1) [OF 14] r]] r by (simp add: conductor_ops_def)
next
  case (15 s d)
  show ?case using request_ok_step [OF 15 wait_ok [OF request_okD(1) [OF 15]]] by (simp add: conductor_ops_def)
next
  case (16 s e)
  show ?case using request_ok_step [OF 16 credits_ok [OF request_okD(1) [OF 16] request_okD(5) [OF 16]]]
    by (simp add: conductor_ops_def)
qed

interpretation request: retry_contract
  "conductor_ops su px providers route max_wait req" "known_ids c0"
  "request_ok su (retries_at_most (rf_oob (su_refresh_env su)) (co_retry c0) bound) c0" bound
  for su :: "('w, 'p, 'r) surroundings" and px providers route max_wait req c0 bound
proof (unfold_locales, goal_cases)
  case (1 s attempt e route')
  obtain now c1 where r: "read_clock (su_elapsed su) s = (now, c1)" by fastforce
  note k = request_ok_step [OF 1(1) keeps_clock [OF request_okD(1) [OF 1(1)] r]]
  have "co_retry c1 = co_retry c0" using request_okD(4) [OF k] by simp
  then have "stored (retries_at_most (rf_oob (su_refresh_env su)) (co_retry c1) bound) c1" using request_okD(3) [OF k] by simp
  from no_more_retries [OF request_okD(1) [OF k] this 1(2)] show ?case using r by (simp add: conductor_ops_def)
qed

end
