(* ===== verification/ConductorState.thy ===== *)
theory ConductorState
  imports ConductorExec
begin

text \<open>
  The life of a conductor as a state machine: every operation on credentials, executors, selectors
  and requests is a step, and the registry may change between two steps. Each step keeps the
  invariant \<open>conductor_ok\<close>, so the scheduler holds in every reachable state exactly the manager's
  credentials that can be served.
\<close>

section \<open>Operations on many credentials\<close>

lemma offered_by_view: "selection_view b = selection_view a \<Longrightarrow> offered_by k b = offered_by k a"
proof -
  assume v: "selection_view b = selection_view a"
  then have "a_id b = a_id a" "a_disabled b = a_disabled a" "executor_key_from_auth (Some b) = executor_key_from_auth (Some a)"
    using selection_view_fields by metis+
  then show ?thesis using v by (simp add: offered_by_def schedulable_def)
qed

lemma run_many:
  assumes ok: "conductor_ok c" and m: "well_keyed (mg_auths m)" "mg_scheduler m"
    and up: "\<And>x. UpsertAuth x \<in> set es \<Longrightarrow> lookup_auth m (a_id x) = Some x"
    and rest: "\<And>i. i \<notin> upserts es \<Longrightarrow>
      map_option selection_view (lookup_auth m i) = map_option selection_view (lookup_auth (co_manager c) i)"
  shows "conductor_ok (fold (run_effect elapsed) es (c\<lparr>co_manager := m\<rparr>))"
proof -
  let ?c = "c\<lparr>co_manager := m\<rparr>"
  have bind: "Option.bind x (offered_by k) = Option.bind y (offered_by k)"
    if "map_option selection_view x = map_option selection_view y" for x y k
    using that by (cases x; cases y) (auto intro: offered_by_view)
  have "map_option (\<lambda>x. selection_view (am_auth x)) (held (co_sched c) k i) = Option.bind (lookup_auth m i) (offered_by k)"
    if "i \<notin> upserts es" for k i
  proof -
    have "map_option (\<lambda>x. selection_view (am_auth x)) (held (co_sched c) k i) =
        Option.bind (lookup_auth (co_manager c) i) (offered_by k)"
      using ok by (simp add: settling_def mirrors_except_def)
    also have "\<dots> = Option.bind (lookup_auth m i) (offered_by k)" by (rule bind [OF rest [OF that], symmetric])
    finally show ?thesis .
  qed
  then have "mirrors_except (upserts es) ?c" by (simp add: mirrors_except_def)
  then have "settling (upserts es) ?c" using ok m by (simp add: settling_def)
  from run_effects_settle [OF this, of es elapsed] up show ?thesis by simp
qed

lemma set_selector_frame: "held (set_selector strat s) = held s" "sched_ok t (set_selector strat s) = sched_ok t s"
  by (simp_all add: set_selector_def held_def sched_ok_def fun_eq_iff)

lemma set_conductor_selector_ok:
  assumes "conductor_ok c" "\<And>s. so = Some s \<Longrightarrow> selector_ok s"
  shows "conductor_ok (set_conductor_selector elapsed so c)"
  unfolding set_conductor_selector_def Let_def
  by (rule sync_ok(1)) (use assms in \<open>auto simp: settling_def rr_inv_def split: option.split\<close>)

lemma refresh_entry_ok: "conductor_ok c \<Longrightarrow> conductor_ok (refresh_scheduler_entry elapsed i c)"
proof -
  assume ok: "conductor_ok c"
  show ?thesis
  proof (cases "i = [] \<or> lookup_auth (co_manager c) i = None")
    case True
    then show ?thesis using ok by (auto simp: refresh_scheduler_entry_def)
  next
    case False
    then obtain a where a: "i \<noteq> []" "lookup_auth (co_manager c) i = Some a" by auto
    have wk: "well_keyed (mg_auths (co_manager c))" using ok by (simp add: settling_def)
    have "a_id a = i" using lookup_keyed [OF wk a(2)] by simp
    then show ?thesis using settling_upsert(1) [OF ok, of a elapsed] a by (simp add: refresh_scheduler_entry_def)
  qed
qed

lemma refresh_entries_ok: "conductor_ok c \<Longrightarrow> conductor_ok (fold (refresh_scheduler_entry elapsed) ids c)"
proof (induction ids arbitrary: c)
  case (Cons i ids)
  then show ?case using refresh_entry_ok [OF Cons.prems] by simp
qed simp

lemma refresh_all_ok: "conductor_ok c \<Longrightarrow> conductor_ok (refresh_scheduler_all elapsed c)"
  using refresh_entries_ok by (simp add: refresh_scheduler_all_def)

section \<open>Reconciling, resetting, restoring\<close>

lemma reconcile_same: "reconcile_states supported now ms = (ms', False) \<Longrightarrow> ms' = ms"
proof (induction ms arbitrary: ms')
  case (Cons x ms)
  obtain k so where x: "x = (k, so)" by (cases x)
  obtain ms1 ch where r: "reconcile_states supported now ms = (ms1, ch)" by fastforce
  show ?case
    using Cons.prems Cons.IH [of ms1] r x by (auto simp: Let_def split: if_splits option.splits)
qed simp

lemma reconcile_auth_id:
  "a_id (fst (reconcile_auth supported now a)) = a_id a"
  "a_metadata (fst (reconcile_auth supported now a)) = a_metadata a"
  by (simp_all add: reconcile_auth_def Let_def update_aggregated_other split: prod.split)

lemma reconcile_ok:
  assumes ok: "conductor_ok c"
  shows "conductor_ok (reconcile_registry_model_states elapsed i c)"
proof (cases "i = []")
  case True
  then show ?thesis using ok by (simp add: reconcile_registry_model_states_def)
next
  case i: False
  let ?sup = "supported_keys (get_models_for_client i (co_registry c))"
  obtain now c1 where r: "read_clock elapsed c = (now, c1)" by fastforce
  note k = clock_ok_step [OF ok r]
  show ?thesis
  proof (cases "lookup_auth (co_manager c1) i")
    case None
    then show ?thesis using i r k(1) by (simp add: reconcile_registry_model_states_def Let_def)
  next
    case (Some a)
    obtain a' ch where a': "reconcile_auth ?sup now a = (a', ch)" by fastforce
    have id: "a_id a' = a_id a" "a_metadata a' = a_metadata a"
      using reconcile_auth_id [of ?sup now a] a' by simp_all
    have t: "touches_one (co_manager c1) (store_auth i a' (co_manager c1), if ch then [SaveAuth a', UpsertAuth a'] else [])"
    proof -
      have "a' = a" if "\<not> ch"
        using a' that reconcile_same [of ?sup now "a_model_states a"]
        by (auto simp: reconcile_auth_def Let_def split: prod.splits if_splits)
      then show ?thesis unfolding touches_one_def
        by (intro disjI2 exI [of _ i] exI [of _ a] exI [of _ a']) (use Some id in auto)
    qed
    show ?thesis
      using run_touch [OF k(1) t, of elapsed] i r Some a' k(1)
      by (cases ch) (simp_all add: reconcile_registry_model_states_def Let_def)
  qed
qed

lemma reset_states_id: "a_id (reset_states now a) = a_id a" "a_metadata (reset_states now a) = a_metadata a"
  by (simp_all add: reset_states_def)

lemma reset_quota_auth_id:
  "a_id (fst (reset_quota_auth now reg a)) = a_id a \<and> a_metadata (fst (reset_quota_auth now reg a)) = a_metadata a"
  by (simp add: reset_quota_auth_def Let_def reset_states_id update_aggregated_other)

lemma reset_quota_touches:
  "mg_scheduler m \<Longrightarrow> touches_one m (snd (reset_quota now reg True i m))"
proof (cases "trim_space i = [] \<or> lookup_auth m (trim_space i) = None")
  case True
  then show ?thesis by (auto simp: reset_quota_def touches_one_def Let_def)
next
  case False
  assume sch: "mg_scheduler m"
  from False obtain a where a: "trim_space i \<noteq> []" "lookup_auth m (trim_space i) = Some a" by auto
  obtain b models where b: "reset_quota_auth now reg a = (b, models)" by fastforce
  have "a_id b = a_id a" "a_metadata b = a_metadata a" using reset_quota_auth_id [of now reg a] b by simp_all
  then show ?thesis unfolding touches_one_def
    by (intro disjI2 exI [of _ "trim_space i"] exI [of _ a] exI [of _ b])
      (use a b sch in \<open>auto simp: reset_quota_def Let_def\<close>)
qed

lemma conductor_reset_quota_ok:
  assumes ok: "conductor_ok c"
  shows "conductor_ok (snd (conductor_reset_quota elapsed True i c))"
proof -
  obtain now c1 where r: "read_clock elapsed c = (now, c1)" by fastforce
  note k = clock_ok_step [OF ok r]
  have "mg_scheduler (co_manager c1)" using k(1) by (simp add: settling_def)
  note t = reset_quota_touches [OF this]
  obtain out m es where q: "reset_quota now (models_for_registered_auth (trim_space i) c1) True i (co_manager c1) = (out, m, es)"
    by (metis prod_cases3)
  have "touches_one (co_manager c1) (m, es)"
    using t [of now "models_for_registered_auth (trim_space i) c1" i] q by simp
  from run_touch [OF k(1) this, of elapsed] show ?thesis by (simp add: conductor_reset_quota_def r q)
qed

lemma restore_record_id: "a_id (restore_record_on_auth rec now a) = a_id a"
proof -
  have "a_id (update_aggregated_availability now (set_model_state k st a1)) = a_id a"
    if "ensure_model_state a m = Some (a1, k, s)" for k st a1 m s
    using ensure_model_state_id(1) [OF that] by simp
  then show ?thesis by (auto simp: restore_record_on_auth_def Let_def split: option.split prod.split)
qed

definition restored_so_far :: "manager \<Rightarrow> manager \<Rightarrow> (string \<times> auth) list \<Rightarrow> bool" where
  "restored_so_far m0 m snaps \<longleftrightarrow>
     keys_distinct snaps \<and> well_keyed (mg_auths m) \<and> mg_scheduler m = mg_scheduler m0 \<and>
     (\<forall>i. case map_of snaps i of
            Some a \<Rightarrow> a_id a = i \<and> lookup_auth m i = Some a
          | None \<Rightarrow> lookup_auth m i = lookup_auth m0 i)"

lemma restoredD:
  assumes "restored_so_far m0 m snaps"
  shows "keys_distinct snaps" "well_keyed (mg_auths m)" "mg_scheduler m = mg_scheduler m0"
    "map_of snaps i = Some a \<Longrightarrow> a_id a = i \<and> lookup_auth m i = Some a"
    "map_of snaps i = None \<Longrightarrow> lookup_auth m i = lookup_auth m0 i"
proof -
  have all: "case map_of snaps i of
      Some a \<Rightarrow> a_id a = i \<and> lookup_auth m i = Some a | None \<Rightarrow> lookup_auth m i = lookup_auth m0 i"
    using assms unfolding restored_so_far_def by blast
  show "keys_distinct snaps" "well_keyed (mg_auths m)" "mg_scheduler m = mg_scheduler m0"
    using assms unfolding restored_so_far_def by blast+
  show "a_id a = i \<and> lookup_auth m i = Some a" if "map_of snaps i = Some a" using all unfolding that by simp
  show "lookup_auth m i = lookup_auth m0 i" if "map_of snaps i = None" using all unfolding that by simp
qed

lemma restore_record_step:
  assumes inv: "restored_so_far m0 m snaps" and r: "restore_cooldown_record now rec m = (m1, ok)"
  shows "restored_so_far m0 m1 (if ok then (case lookup_auth m1 (trim_space (cr_auth_id rec)) of
      Some a \<Rightarrow> AList.update (a_id a) a snaps | None \<Rightarrow> snaps) else snaps)"
proof (cases ok)
  case False
  then have "m1 = m" using r by (auto simp: restore_cooldown_record_def Let_def split: if_splits option.splits)
  then show ?thesis using False inv by simp
next
  case True
  let ?i = "trim_space (cr_auth_id rec)"
  obtain a where a: "lookup_auth m ?i = Some a" "m1 = store_auth ?i (restore_record_on_auth rec now a) m"
    using r True by (auto simp: restore_cooldown_record_def Let_def split: if_splits option.splits)
  let ?b = "restore_record_on_auth rec now a"
  have wk: "well_keyed (mg_auths m)" using inv by (simp add: restored_so_far_def)
  note ka = lookup_keyed [OF wk a(1)]
  have b: "a_id ?b = ?i" "clean_id ?b" "?i \<noteq> []" using ka restore_record_id [of rec now a] by (auto simp: clean_id_def)
  have wk1: "well_keyed (mg_auths m1)" unfolding a(2) by (rule well_keyed_store [OF wk b])
  have "case map_of (AList.update ?i ?b snaps) j of
      Some x \<Rightarrow> a_id x = j \<and> lookup_auth m1 j = Some x | None \<Rightarrow> lookup_auth m1 j = lookup_auth m0 j" for j
  proof (cases "j = ?i")
    case True
    then show ?thesis using b(1) a(2) by (simp add: update_conv)
  next
    case False
    then show ?thesis
      using restoredD(4,5) [OF inv, of j] a(2)
      by (cases "map_of snaps j") (simp_all add: update_conv del: map_of_eq_Some_iff)
  qed
  then have "restored_so_far m0 m1 (AList.update ?i ?b snaps)"
    unfolding restored_so_far_def
    using wk1 restoredD(1,3) [OF inv] a(2) by (intro conjI allI) simp_all
  then show ?thesis using True a(2) b(1) by simp
qed

lemma restore_loop_inv:
  "restored_so_far m0 m snaps \<Longrightarrow> restore_loop now rs m snaps = (m', snaps') \<Longrightarrow> restored_so_far m0 m' snaps'"
proof (induction rs arbitrary: m snaps)
  case (Cons r rs)
  obtain m1 ok where s: "restore_cooldown_record now r m = (m1, ok)" by fastforce
  show ?case
    by (rule Cons.IH [OF restore_record_step [OF Cons.prems(1) s]]) (use Cons.prems(2) s in simp)
qed simp

lemma conductor_restore_ok:
  assumes ok: "conductor_ok c"
  shows "conductor_ok (conductor_restore_cooldowns elapsed records c)"
proof -
  obtain now c1 where r: "read_clock elapsed c = (now, c1)" by fastforce
  note k = clock_ok_step [OF ok r]
  let ?m = "co_manager c1"
  have sch: "mg_scheduler ?m" and wk: "well_keyed (mg_auths ?m)" using k(1) by (simp_all add: settling_def)
  show ?thesis
  proof (cases "\<not> mg_store ?m \<or> records = []")
    case True
    then show ?thesis using k(1) by (auto simp: conductor_restore_cooldowns_def on_manager_def r restore_cooldown_states_def)
  next
    case False
    define model_level auth_level where "model_level = filter (\<lambda>r. trim_space (cr_model r) \<noteq> []) records"
      and "auth_level = filter (\<lambda>r. trim_space (cr_model r) = []) records"
    obtain m1 s1 where l1: "restore_loop now model_level ?m [] = (m1, s1)" by fastforce
    obtain m2 s2 where l2: "restore_loop now auth_level m1 s1 = (m2, s2)" by fastforce
    have "restored_so_far ?m ?m []" using wk by (simp add: restored_so_far_def)
    then have inv: "restored_so_far ?m m2 s2" using restore_loop_inv [OF restore_loop_inv [OF _ l1] l2] by blast
    define es where "es = map (\<lambda>(i, a). UpsertAuth a) s2 @ [PersistCooldowns]"
    have run: "restore_cooldown_states now records ?m = (m2, es)"
      using False sch l1 l2 by (simp add: restore_cooldown_states_def Let_def es_def model_level_def auth_level_def)
    have mem: "a_id a = i \<and> lookup_auth m2 i = Some a" if "(i, a) \<in> set s2" for i a
    proof -
      have "map_of s2 i = Some a" using inv that by (intro map_of_is_SomeI) (simp_all add: restored_so_far_def)
      then show ?thesis using restoredD(4) [OF inv] by blast
    qed
    have ups: "upserts es = fst ` set s2" using mem by (force simp: upserts_def es_def image_iff)
    have "conductor_ok (fold (run_effect elapsed) es (c1\<lparr>co_manager := m2\<rparr>))"
    proof (rule run_many [OF k(1)])
      show "well_keyed (mg_auths m2)" "mg_scheduler m2" using inv sch by (simp_all add: restored_so_far_def)
      show "lookup_auth m2 (a_id x) = Some x" if "UpsertAuth x \<in> set es" for x
        using that mem by (auto simp: es_def)
      show "map_option selection_view (lookup_auth m2 i) = map_option selection_view (lookup_auth ?m i)"
        if "i \<notin> upserts es" for i
      proof -
        have "map_of s2 i = None" using that ups by (simp add: map_of_eq_None_iff)
        then show ?thesis using restoredD(5) [OF inv] by simp
      qed
    qed
    then show ?thesis by (simp add: conductor_restore_cooldowns_def on_manager_def r run)
  qed
qed

section \<open>Steps\<close>

text \<open>
  One rule per operation; payloads are bytes. \<open>SetConfig\<close> and a \<open>ResetQuota\<close> whose save fails are left out: they change
  credentials without telling the scheduler.
\<close>

inductive conductor_step :: "'w conductor \<Rightarrow> 'w conductor \<Rightarrow> bool" where
  step_register:
    "(\<And>a. ao = Some a \<Longrightarrow> clean_id a) \<Longrightarrow> fresh \<noteq> [] \<Longrightarrow> trim_space fresh = fresh \<Longrightarrow>
     register_auth elapsed postpone fresh ao c = (r, c') \<Longrightarrow> conductor_step c c'"
| step_update: "update_auth elapsed postpone ao c = (r, c') \<Longrightarrow> conductor_step c c'"
| step_remove: "conductor_step c (remove_auth elapsed postpone i c)"
| step_load: "(\<And>a. Some a \<in> set items \<Longrightarrow> clean_id a) \<Longrightarrow> conductor_step c (load_auths elapsed items c)"
| step_set_selector:
    "(\<And>s. so = Some s \<Longrightarrow> selector_ok s) \<Longrightarrow> conductor_step c (set_conductor_selector elapsed so c)"
| step_refresh_entry: "conductor_step c (refresh_scheduler_entry elapsed i c)"
| step_refresh_all: "conductor_step c (refresh_scheduler_all elapsed c)"
| step_reconcile: "conductor_step c (reconcile_registry_model_states elapsed i c)"
| step_reset_quota: "conductor_step c (snd (conductor_reset_quota elapsed True i c))"
| step_restore: "conductor_step c (conductor_restore_cooldowns elapsed records c)"
| step_mark: "conductor_step c (conductor_mark_result elapsed r c)"
| step_neutral: "conductor_step c (conductor_mark_neutral elapsed r c)"
| step_pending: "mark_refresh_pending elapsed i now c = (b, c') \<Longrightarrow> conductor_step c c'"
| step_refresh:
    "same_credential (\<lambda>_. True) do_refresh \<Longrightarrow>
     refresh_auth_for_request elapsed rf do_refresh postpone i tok c = (res, c') \<Longrightarrow> conductor_step c c'"
| step_select: "pick_next elapsed decode px tried provider model c = (x, c') \<Longrightarrow> conductor_step c c'"
| step_select_auth: "pick_next_legacy elapsed decode px tried provider model c = (x, c') \<Longrightarrow> conductor_step c c'"
| step_request:
    "sound_surroundings (\<lambda>_. True) (su :: ('w, string, string) surroundings) \<Longrightarrow>
     conductor_execute su px counting providers req fuel rounds c = Some (out, logs, c') \<Longrightarrow> conductor_step c c'"
| step_register_executor: "conductor_step c (register_executor same identifier c)"
| step_unregister_executor: "conductor_step c (unregister_executor provider c)"
| step_retry_config: "conductor_step c (set_retry_config retry max_interval max_credentials c)"
| step_quota_off: "conductor_step c (set_quota_cooldown_disabled b c)"
| step_transient: "conductor_step c (set_transient_error_cooldown_seconds n c)"
| step_store: "conductor_step c (set_cooldown_state_store b c)"
| step_aliases: "conductor_step c (c\<lparr>co_alias := st\<rparr>)"
| step_registry: "conductor_step c (c\<lparr>co_registry := reg\<rparr>)"
| step_world: "conductor_step c (c\<lparr>co_world := w\<rparr>)"

inductive conductor_reaches :: "'w conductor \<Rightarrow> bool" where
  conductor_start:
    "0 \<le> now \<Longrightarrow> (\<And>s. so = Some s \<Longrightarrow> selector_ok s) \<Longrightarrow>
     conductor_reaches (new_manager so quota_off transient reg now w)"
| conductor_next: "conductor_reaches c \<Longrightarrow> conductor_step c c' \<Longrightarrow> conductor_reaches c'"

lemma execute_keeps:
  assumes "conductor_ok c" "sound_surroundings P su" "stored P c"
    and "conductor_execute su px counting providers req fuel rounds c = Some (out, logs, c')"
  shows "keeps P c c'"
proof -
  have "request_ok su P c c" using assms(1-3) keeps_refl by (simp add: request_ok_def)
  from round.execute_request_keeps [OF this] assms(4) have "request_ok su P c c'"
    unfolding conductor_execute_def Let_def by blast
  then show ?thesis by (simp add: request_ok_def)
qed

lemma setting_frames:
  "conductor_ok (register_executor same identifier c) = conductor_ok c"
  "conductor_ok (unregister_executor provider c) = conductor_ok c"
  "conductor_ok (set_retry_config retry max_interval max_credentials c) = conductor_ok c"
  "conductor_ok (set_quota_cooldown_disabled b c) = conductor_ok c"
  "conductor_ok (set_transient_error_cooldown_seconds n c) = conductor_ok c"
  "conductor_ok (set_cooldown_state_store b c) = conductor_ok c"
  by (simp_all add: register_executor_def unregister_executor_def set_retry_config_def set_quota_cooldown_disabled_def
      set_transient_error_cooldown_seconds_def set_cooldown_state_store_def Let_def settling_def mirrors_except_def
      lookup_auth_def)

lemma new_manager_ok:
  assumes "0 \<le> now" "\<And>s. so = Some s \<Longrightarrow> selector_ok s"
  shows "conductor_ok (new_manager so quota_off transient reg now w)"
  using assms
  by (cases so) (simp_all add: new_manager_def settling_def mirrors_except_def lookup_auth_def sched_ok_new rr_inv_def
      well_keyed_def Let_def)

lemma conductor_step_ok: "conductor_step c c' \<Longrightarrow> conductor_ok c \<Longrightarrow> conductor_ok c'"
proof (induction rule: conductor_step.induct)
  case (step_register ao fresh elapsed postpone c r c')
  from register_ok(1) [OF step_register.prems step_register.hyps(4,1-3)] show ?case .
next
  case (step_request su px counting providers req fuel rounds c out logs c')
  have "stored (\<lambda>_. True) c" by (simp add: stored_def)
  from keeps_ok [OF execute_keeps [OF step_request.prems step_request.hyps(1) this step_request.hyps(2)]] show ?case .
next
  case (step_refresh do_refresh elapsed rf postpone i tok c res c')
  from keeps_ok [OF refresh_ok(1) [OF step_refresh.prems step_refresh.hyps]] show ?case .
next
  case (step_select elapsed decode px tried provider model c x c')
  from keeps_ok [OF pick_next_ok(1) [OF step_select.prems step_select.hyps]] show ?case .
next
  case (step_select_auth elapsed decode px tried provider model c x c')
  from keeps_ok [OF pick_next_legacy_ok(1) [OF step_select_auth.prems step_select_auth.hyps]] show ?case .
qed (blast intro: update_ok(1) remove_ok(1) load_ok set_conductor_selector_ok refresh_entry_ok refresh_all_ok reconcile_ok
      conductor_reset_quota_ok conductor_restore_ok keeps_ok conductor_mark_ok mark_pending_ok(1)
      setting_frames [THEN iffD2] settling_frame(1-5) [THEN iffD2])+

lemma conductor_reaches_ok: "conductor_reaches c \<Longrightarrow> conductor_ok c"
  by (induction rule: conductor_reaches.induct) (blast intro: new_manager_ok conductor_step_ok)+

end
