(* ===== verification/ConductorProperties.thy ===== *)
theory ConductorProperties
  imports ConductorState
begin

text \<open>
  The properties of the conductor: what its scheduler and its manager agree on in every reachable
  state, that a request ends and how it behaves round by round, when a selection may refuse, and
  what removing and updating a credential do. The witnesses run a manager with two credentials.
\<close>

section \<open>Credentials, listed and looked up\<close>

lemma lookup_listed: "lookup_auth (co_manager c) i = Some a \<Longrightarrow> a \<in> set (auth_list c)"
  by (force simp: lookup_auth_def auth_list_def auths_of_def List.map_filter_def image_iff
      split: option.splits dest!: map_of_SomeD simp del: map_of_eq_Some_iff)

lemma stored_listed: "\<forall>a\<in>set (auth_list c). P (a_metadata a) \<Longrightarrow> stored P c"
  using lookup_listed unfolding stored_def by blast

lemma card_known: "card (known_ids c) \<le> length (mg_auths (co_manager c))"
proof -
  have "known_ids c \<subseteq> set (map fst (mg_auths (co_manager c)))"
    by (auto simp: known_ids_def lookup_auth_def split: option.splits dest!: map_of_SomeD
        simp del: map_of_eq_Some_iff intro: rev_image_eqI)
  then have "card (known_ids c) \<le> card (set (map fst (mg_auths (co_manager c))))" by (rule card_mono [rotated]) simp
  then show ?thesis using card_length [of "map fst (mg_auths (co_manager c))"] by simp
qed

section \<open>A manager with two credentials\<close>

definition spare_model :: "string \<Rightarrow> model_info" where
  "spare_model i = \<lparr>mi_id = i, mi_object = ''model'', mi_created = 1, mi_owned_by = ''o'', mi_type = ''t'',
     mi_display_name = [], mi_name = [], mi_version = [], mi_description = [], mi_input_limit = 0,
     mi_output_limit = 0, mi_generation_methods = [], mi_context_length = 0, mi_max_context_length = 0,
     mi_max_completion_tokens = 0, mi_parameters = [], mi_input_modalities = [], mi_output_modalities = [],
     mi_web_search = False, mi_thinking = None, mi_override_headers = None, mi_user_defined = False,
     mi_compat = False\<rparr>"

definition two_clients :: model_registry where
  "two_clients = fst (register_client 2 ''b'' ''claude'' [Some (spare_model ''m'')]
     (fst (register_client 1 ''a'' ''claude'' [Some (spare_model ''m'')] new_registry)))"

definition sign_in :: "string \<Rightarrow> string \<Rightarrow> auth" where
  "sign_in i priority = (new_auth i ''claude'')\<lparr>a_status := StatusActive, a_attributes := [''priority'' \<mapsto> priority]\<rparr>"

definition tick :: "nat \<Rightarrow> nat \<times> nat" where "tick w = (1, Suc w)"

definition two_credentials :: "nat conductor" where
  "two_credentials =
     snd (register_auth tick False ''x'' (Some (sign_in ''b'' ''1''))
       (snd (register_auth tick False ''x'' (Some (sign_in ''a'' ''7''))
         (register_executor False ''claude'' (new_manager None False 0 two_clients 10 0)))))"

definition bare_refresh_env :: refresh_env where
  "bare_refresh_env = \<lparr>rf_oob = (\<lambda>_. 0), rf_float_seconds = (\<lambda>_. 0), rf_parse_float = (\<lambda>_. None),
     rf_parse_time = (\<lambda>_. None), rf_parse_duration = (\<lambda>_. None), rf_runtime_lead = (\<lambda>_. None),
     rf_evaluator = (\<lambda>_. None)\<rparr>"

definition too_many :: exec_error where
  "too_many = \<lparr>ee_view = \<lparr>ge_text = ''slow down'', ge_status = 429, ge_close = None, ge_canceled_or_eof = False,
     ge_request_scoped = False, ge_auth = None, ge_body = None\<rparr>, ee_retry_after = None, ee_canceled = False,
     ee_terminated = False, ee_home_busy = False, ee_chain = []\<rparr>"

text \<open>Credential a is out of quota, b answers.\<close>

definition busy_first :: "(nat, string, string) surroundings" where
  "busy_first = \<lparr>su_elapsed = tick, su_decode = (\<lambda>_. None), su_refresh_env = bare_refresh_env, su_show = (\<lambda>_. []),
     su_weight_error = (\<lambda>_. too_many), su_postpone = False, su_needs = (\<lambda>_ _. False),
     su_prepare = (\<lambda>_ _ w. (Inr None, w)), su_refresh = (\<lambda>_ _ w. (Inr None, w)),
     su_execute = (\<lambda>_ _ a _ w. if a_id a = ''a'' then (Inl too_many, Suc w) else (Inr ''fine'', Suc w)),
     su_intercept = (\<lambda>_ r w. ((None, r), w)), su_context = (\<lambda>_. None), su_sleep = (\<lambda>_ w. (None, w)),
     su_random = (\<lambda>_ _. 0), su_rename = (\<lambda>_ r. r), su_hint = (\<lambda>_ _. None)\<rparr>"

definition open_context :: pick_context where
  "open_context = \<lparr>px_ws = False, px_kind = [], px_policy = [], px_session = [], px_fallback_session = [],
     px_metadata = Map.empty\<rparr>"

definition ask_m :: "string exec_request" where
  "ask_m = \<lparr>rq_model = ''m'', rq_metadata = Map.empty, rq_payload = ''hi''\<rparr>"

section \<open>The manager and its scheduler\<close>




section \<open>Requests\<close>

text \<open>
  C3 \<open>Execute\<close> and \<open>ExecuteCount\<close> return. With enough fuel for the credentials of the manager in
  one round and for the retries any credential allows, the request has an outcome after at most one
  round more than the largest number of retries, and the manager is in a state where everything
  above still holds. The executors are asked to answer for the credential they are given, to leave
  its retry limit below the bound, and to report coherent errors.
\<close>

theorem request_returns:
  fixes su :: "('w, string, string) surroundings" and c :: "'w conductor"
  defines "oob \<equiv> rf_oob (su_refresh_env su)"
  assumes "conductor_reaches c"
    and "sound_surroundings (retries_at_most oob (co_retry c) bound) su"
    and "\<forall>a\<in>set (auth_list c). effective_retry oob (co_retry c) a \<le> int bound"
    and "length (mg_auths (co_manager c)) < fuel" "bound < rounds"
  shows "\<exists>out logs c'. conductor_execute su px counting providers req fuel rounds c = Some (out, logs, c') \<and>
    length logs \<le> Suc bound \<and> known_ids c' = known_ids c \<and> conductor_ok c' \<and>
    (\<forall>evs\<in>set logs. distinct (picks evs) \<and> set (picks evs) \<subseteq> known_ids c)"
proof -
  let ?P = "retries_at_most oob (co_retry c) bound"
  have ok: "conductor_ok c" by (rule conductor_reaches_ok [OF assms(2)])
  have st: "stored ?P c"
    by (rule stored_listed) (use assms(4) effective_retry_metadata in \<open>auto simp: retries_at_most_def\<close>)
  have r: "request_ok su ?P c c" using assms(3) st keeps_refl [OF ok] by (simp add: request_ok_def)
  have f: "card (known_ids c) < fuel" using card_known [of c] assms(5) by simp
  let ?route = "auth_selection_model_from_options (rq_metadata req) (rq_model req)"
  let ?px = "px\<lparr>px_metadata := rq_metadata req\<rparr>"
  obtain out logs c' where run:
      "execute_request (conductor_ops su ?px (normalize_provider_keys providers) ?route (co_max_interval c) req)
         counting (co_max_credentials c) providers req fuel rounds c = Some (out, logs, c')"
    and q: "request_ok su ?P c c'" "length logs \<le> Suc bound"
    and evs: "\<forall>evs\<in>set logs. \<exists>x t. round.loop_promise TYPE(string) su ?px (normalize_provider_keys providers) ?route
         (co_max_interval c) req c [] [] (co_max_credentials c) Idle evs x t"
    using request.execute_request_spec [OF r [unfolded oob_def] f assms(6)] unfolding oob_def by meson
  have "distinct (picks e) \<and> set (picks e) \<subseteq> known_ids c" if "e \<in> set logs" for e
    using evs that by (auto simp: round.loop_promise_def)
  then show ?thesis
    using run q request_okD(1,2) [OF q(1)] by (simp add: conductor_execute_def Let_def)
qed


section \<open>Selections\<close>








section \<open>Removal\<close>




section \<open>Witnesses\<close>

lemma clean_sign_in: "clean_id (sign_in ''a'' p)" "clean_id (sign_in ''b'' p)"
  by (simp_all add: clean_id_def sign_in_def new_auth_def trim_space_def trim_left_def trim_right_def is_space_def)

lemma two_credentials_reaches: "conductor_reaches two_credentials"
proof -
  have x: "trim_space ''x'' = ''x''" by code_simp
  have 0: "conductor_reaches (register_executor False ''claude'' (new_manager None False 0 two_clients 10 (0::nat)))"
    by (rule conductor_next [OF conductor_start step_register_executor]) simp_all
  have step: "conductor_reaches (snd (register_auth tick False ''x'' (Some a) c))"
    if "conductor_reaches c" "clean_id a" for a and c :: "nat conductor"
    using conductor_next [OF that(1) step_register [OF _ _ x prod.collapse [symmetric]]] that(2) by blast
  show ?thesis unfolding two_credentials_def by (rule step [OF step [OF 0 clean_sign_in(1)] clean_sign_in(2)])
qed

lemma busy_first_sound: "sound_surroundings P busy_first"
  by (auto simp: sound_surroundings_def same_credential_def busy_first_def coherent_def too_many_def split: if_splits)


lemma two_credentials_facts:
  "length (mg_auths (co_manager two_credentials)) = 2" "co_retry two_credentials = 0"
  "\<forall>a\<in>set (auth_list two_credentials). effective_retry (\<lambda>_. 0) 0 a \<le> 0"
proof -
  show "length (mg_auths (co_manager two_credentials)) = 2" "co_retry two_credentials = 0" by code_simp+
  have "list_all (\<lambda>a. effective_retry (\<lambda>_. 0) 0 a \<le> 0) (auth_list two_credentials)" by code_simp
  then show "\<forall>a\<in>set (auth_list two_credentials). effective_retry (\<lambda>_. 0) 0 a \<le> 0" by (simp add: list_all_iff)
qed



theorem request_returns_witness:
  "\<exists>out logs c'. conductor_execute busy_first open_context False [''claude''] ask_m 3 1 two_credentials = Some (out, logs, c') \<and>
     length logs \<le> 1"
proof -
  have o: "rf_oob (su_refresh_env busy_first) = (\<lambda>_. 0)" by (simp add: busy_first_def bare_refresh_env_def)
  have "\<exists>out logs c'. conductor_execute busy_first open_context False [''claude''] ask_m 3 1 two_credentials = Some (out, logs, c') \<and>
     length logs \<le> Suc 0 \<and> known_ids c' = known_ids two_credentials \<and> conductor_ok c' \<and>
     (\<forall>evs\<in>set logs. distinct (picks evs) \<and> set (picks evs) \<subseteq> known_ids two_credentials)"
    by (rule request_returns [OF two_credentials_reaches busy_first_sound])
      (use two_credentials_facts o in simp_all)
  then show ?thesis by auto
qed
















end
