(* ===== verification/Spec2Isabelle.thy ===== *)
theory Spec2Isabelle
  imports SchedulerProperties CooldownProperties SelectionProperties ModelProperties
    RegistryProperties AliasProperties RefreshProperties ConductorProperties
begin

text \<open>
  CLIProxyAPI: choosing a credential for a request and learning from the result.

  The proxy (Go, \<open>sdk/cliproxy/auth\<close>) holds credentials of several providers. A request asks the
  manager (\<open>conductor_execution.go\<close>) for a model. Round after round the manager picks a credential, by the
  scheduler (\<open>scheduler.go\<close>) or by a selector (\<open>selector.go\<close>), resolves the model's alias for it
  (\<open>oauth_model_alias.go\<close>, \<open>conductor_models.go\<close>), calls the provider's executor, refreshes the
  credential once after a 401, and records the result (\<open>MarkResult\<close> in \<open>conductor_cooldown.go\<close>): a
  failure pauses the model for the credential, a success releases it. When a round fails it may wait for
  the next recovery and try again. The model registry (\<open>internal/registry/model_registry.go\<close>) knows
  which client serves which model; the reasoning settings of a request are validated against the
  registry's record of its model (\<open>internal/thinking\<close>).

  Conventions. Times are integers (nanoseconds of Unix time), 0 is the zero time; durations are integers and wrap
  where Go's 64 bits do (\<open>wrap64\<close>). A map whose iteration order the code can see is an association
  list with distinct keys, so a lemma for all lists speaks about every iteration order. An error is the
  left part of a sum. Locks are not modelled: an operation that holds the lock of its object for its whole
  length is one step, and the clock readings it makes are its arguments, so that two readings may differ.
  Calls to other objects are returned as a list of effects.

  Theories and what they model.
  \<^item> \<open>GoPrelude\<close>: strings, integers, times, parsing and printing of numbers, association lists.
  \<^item> \<open>CredentialWeight\<close>, \<open>AuthTypes\<close>: weights (\<open>internal/credentialweight\<close>), the credential and its
    model states, kinds and policies (\<open>types.go\<close>, \<open>errors.go\<close>, \<open>classification.go\<close>).
  \<^item> \<open>RecentRequests\<close>: the ring of request counts, which refines the history of requests.
  \<^item> \<open>ThinkingSuffix\<close>, \<open>Thinking\<close>: model suffixes, reasoning budgets and levels.
  \<^item> \<open>Availability\<close>: whether a credential is blocked for a model, until when and why; the tiers of
    priority; the errors when nothing is left.
  \<^item> \<open>WeightedRR\<close>, \<open>Selectors\<close>: the smooth weighted round-robin (locale \<open>smooth_picker\<close>, interpreted
    by the selector and by the scheduler), the round-robin, fill-first and weighted selectors (locale
    \<open>auth_selector\<close>, interpreted by each).
  \<^item> \<open>SessionCache\<close>, \<open>SessionAffinity\<close>: session identifiers with their aliases, and the selector
    that keeps a session on its credential, over any selector that meets \<open>auth_selector\<close>.
  \<^item> \<open>ErrorClass\<close>, \<open>Cooldown\<close>, \<open>Manager\<close>: the classes of failures, the back-off, the model states and
    their aggregation, \<open>MarkResult\<close>, cooldown records, \<open>ResetQuota\<close>.
  \<^item> \<open>Scheduler\<close>: providers, shards, views, promotion of paused entries, single and mixed picks;
    \<open>SchedulerProps\<close>, \<open>SchedulerPicks\<close>, \<open>SchedulerState\<close> and \<open>SchedulerSpec\<close> hold the invariants of a
    shard, of the picks inside it, of the whole scheduler, and the step relation \<open>sched_step\<close>.
  \<^item> \<open>Registry\<close>: the model registry; \<open>RegistryProps\<close> holds the exactness of its counts,
    \<open>RegistryState\<close> its cached listings and its life as a state machine.
  \<^item> \<open>RuntimeConfig\<close>, \<open>ModelAliases\<close>, \<open>ExecutionModels\<close>: the configuration routing reads, the
    alias tables and their resolution, the upstream models of a credential with the rotation of pools;
    \<open>AliasProps\<close> holds their lemmas.
  \<^item> \<open>Effects\<close>, \<open>ExecLoop\<close>, \<open>ExecContract\<close>: the manager's calls into the registry; the loops of
    \<open>executeMixedOnce\<close>, \<open>Execute\<close> and \<open>ExecuteCount\<close> over the calls they make (record \<open>exec_ops\<close>), and
    the contracts of those calls (locales \<open>exec_contract\<close> and \<open>retry_contract\<close>) under which the loops are
    proved.
  \<^item> \<open>Conductor\<close>, \<open>Lifecycle\<close>, \<open>Refresh\<close>, \<open>ConductorExec\<close>: the manager with its scheduler, selector,
    registry, aliases, clock and outside world as one record \<open>conductor\<close>; selections, credentials coming
    and going, token refresh, and requests with \<open>exec_ops\<close> supplied by the manager (\<open>conductor_ops\<close>).
    \<open>ConductorProps\<close> holds the invariant \<open>conductor_ok\<close> and that each operation keeps it,
    \<open>ConductorPicks\<close> what selections return, \<open>ConductorExec\<close> the interpretations of the two contracts,
    \<open>ConductorState\<close> the step relation \<open>conductor_step\<close> and its reachable states.
  \<^item> \<open>SchedulerProperties\<close>, \<open>CooldownProperties\<close>, \<open>SelectionProperties\<close>, \<open>ModelProperties\<close>,
    \<open>RegistryProperties\<close>, \<open>AliasProperties\<close>, \<open>RefreshProperties\<close>, \<open>ConductorProperties\<close>: the properties,
    each with a witness where it has a hypothesis.

  What the lemmas show. The scheduler's incremental bookkeeping agrees in every reachable state with
  the specification that looks at every credential afresh: a pick is an eligible unblocked credential of
  the highest priority, and it fails only when there is none. In every reachable state of the manager
  the scheduler holds exactly the manager's credentials, so a selection returns a credential the manager
  has, and refuses only when every fitting one is blocked. A request ends, tries each credential at
  most once a round, records every answer where the next selection looks, and waits within its bounds.
  The weighted rotation is exactly fair over a period. Results change only their model, failures pause
  for a time with exact bounds, successes release, records restore what they recorded. The registry's
  counts are exact and its cached listings never stale. Sessions stay on their credential while it is
  available. The compiled alias table means what the configured list means. The refresh loop looks at
  a credential exactly when it becomes due.

  Bounds. Every recursion is structural or over a finite list, except the two loops of a request, which
  take fuel: one unit for each credential of a round, so more fuel than there are credentials is
  enough, and one for each round, so more rounds than the largest retry limit are; \<open>None\<close> is running
  out, and \<open>request_returns\<close> shows that it does not happen. Where a property assumes a bound (the time to
  live added to the clock, sums of weights below the limit of 64 bits, refresh intervals below the
  longest duration) the bound is its hypothesis.

  The outside. Executors, interceptors, the done state of a context, sleeping, random numbers and the
  passage of time are functions of the record \<open>surroundings\<close> over an abstract world; a property that
  needs something of them says so (\<open>sound_surroundings\<close>: refreshing and preparing answer for the credential
  they are given, errors are coherent).

  Not modelled. Streaming and the home control plane (a protocol with a service outside the repository),
  plugin schedulers, the index of a credential, the model information attached to a request, the
  metadata written back for logs. \<open>SetConfig\<close> is a definition but no step of the relation: it can change
  a credential's aggregate without telling the scheduler. Operations of the manager are steps; two that
  interleave inside (an update between the two lock regions of a refresh) are not. The executors and
  translators of the providers rewrite JSON through third-party path libraries and speak HTTP; the
  logins, the stores, the plugin host, the decoding of the configuration, the file watcher and the
  management API are input and output around the core. The JSON decoder, the parsers of times and
  floats, the embedded model tables and the time zone of labels are parameters.
\<close>

end
